(* ===== verification/Mef_Prelude.thy ===== *)
theory Mef_Prelude
  imports Main "HOL-Library.Word"
begin

text \<open>
  Prelude of the MEF-26 development: the machine types and byte strings the crate works on, its
  error enumeration (\<open>src/error.rs\<close>) and crate-wide constants (\<open>src/lib.rs\<close>), the result type with
  the \<open>?\<close> operator, Rust's checked and saturating arithmetic, slices that panic out of range,
  big-endian integers, and the lemma collections the component theories share.
\<close>

section \<open>Machine types, errors and results\<close>

type_synonym u8 = "8 word"
type_synonym u16 = "16 word"
type_synonym u32 = "32 word"
type_synonym u64 = "64 word"
type_synonym bytes = "u8 list"

text \<open>\<open>MefError\<close>, constructor for constructor.\<close>

datatype mef_error =
    AuthenticationFailed
  | InvalidFrame
  | UnsupportedSuite
  | InvalidLength
  | NonContributoryKeyAgreement
  | KeyDerivationFailed
  | RandomnessUnavailable
  | CounterExhausted
  | SkippedKeyLimitExceeded
  | EnvelopeExpired
  | ReplayDetected
  | MessageKeyConsumed
  | RatchetStateMismatch
  | StateRollbackDetected
  | InvalidState

text \<open>
  A call ends in a value, in an \<open>Err\<close> of the crate, or in a panic (a slice or an index out of
  range, a copy between slices of different length, an arithmetic overflow with
  \<open>overflow-checks = true\<close>), which aborts the process.
\<close>

datatype failure = Error mef_error | Panic

type_synonym 'a res = "failure + 'a"

abbreviation Ok :: "'a \<Rightarrow> 'a res" where
  "Ok \<equiv> Inr"

abbreviation Err :: "mef_error \<Rightarrow> 'a res" where
  "Err e \<equiv> Inl (Error e)"

abbreviation Panics :: "'a res" where
  "Panics \<equiv> Inl Panic"

text \<open>The \<open>?\<close> operator, and \<open>Option::ok_or\<close>.\<close>

definition bind_res :: "'a res \<Rightarrow> ('a \<Rightarrow> 'b res) \<Rightarrow> 'b res" where
  "bind_res m f = (case m of Inl e \<Rightarrow> Inl e | Inr x \<Rightarrow> f x)"

definition ok_or :: "'a option \<Rightarrow> mef_error \<Rightarrow> 'a res" where
  "ok_or m e = (case m of None \<Rightarrow> Err e | Some x \<Rightarrow> Ok x)"

named_theorems res_iff \<open>when a result is a given value\<close>
named_theorems res_split \<open>case splits on results\<close>

lemma bind_res_simps [simp]:
  "bind_res (Inl e) f = Inl e"
  "bind_res (Inr x) f = f x"
  by (simp_all add: bind_res_def)

lemma bind_res_Ok [res_iff]: "bind_res m f = Inr y \<longleftrightarrow> (\<exists>x. m = Inr x \<and> f x = Inr y)"
  by (cases m) auto

lemma bind_res_Inl [res_iff]:
  "bind_res m f = Inl e \<longleftrightarrow> m = Inl e \<or> (\<exists>x. m = Inr x \<and> f x = Inl e)"
  by (cases m) auto

lemma bind_res_split [res_split]:
  "P (bind_res m f) \<longleftrightarrow> (\<forall>e. m = Inl e \<longrightarrow> P (Inl e)) \<and> (\<forall>x. m = Inr x \<longrightarrow> P (f x))"
  by (cases m) auto

lemma bind_res_split_asm:
  "P (bind_res m f) \<longleftrightarrow> \<not> ((\<exists>e. m = Inl e \<and> \<not> P (Inl e)) \<or> (\<exists>x. m = Inr x \<and> \<not> P (f x)))"
  by (cases m) auto

lemma bind_res_cong [fundef_cong]:
  "m = m' \<Longrightarrow> (\<And>x. m' = Inr x \<Longrightarrow> f x = f' x) \<Longrightarrow> bind_res m f = bind_res m' f'"
  by (cases m') auto

lemma bind_res_assoc: "bind_res (bind_res m f) g = bind_res m (\<lambda>x. bind_res (f x) g)"
  by (cases m) auto

lemma ok_or_simps [simp]:
  "ok_or None e = Err e"
  "ok_or (Some x) e = Ok x"
  by (simp_all add: ok_or_def)

lemma ok_or_Ok [res_iff]: "ok_or m e = Inr x \<longleftrightarrow> m = Some x"
  by (cases m) auto

section \<open>Crate constants (src/lib.rs)\<close>

definition ascii :: "string \<Rightarrow> bytes" where
  "ascii s = map of_char s"

definition PROTOCOL_ID :: bytes where
  "PROTOCOL_ID = ascii ''MEF-26''"

definition ABI_VERSION :: u32 where
  "ABI_VERSION = 1"

definition COPYRIGHT_HOLDER :: string where
  "COPYRIGHT_HOLDER = ''GoldPilgrim''"

definition PROJECT_HOME :: string where
  "PROJECT_HOME = ''https://github.com/GoldPilgrim''"

definition MAX_SKIPPED_KEYS :: nat where
  "MAX_SKIPPED_KEYS = 1024"

definition MAX_CIPHERTEXT_LEN :: nat where
  "MAX_CIPHERTEXT_LEN = 2 ^ 20"

definition MAX_AAD_LEN :: nat where
  "MAX_AAD_LEN = 2 ^ 16"

lemma length_ascii [simp]: "length (ascii s) = length s"
  by (simp add: ascii_def)

section \<open>Checked, saturating and overflowing arithmetic\<close>

text \<open>\<open>usize\<close> is a natural number below \<open>2 ^ 64\<close>.\<close>

definition usize_limit :: nat where
  "usize_limit = 2 ^ 64"

definition checked_add_usize :: "nat \<Rightarrow> nat \<Rightarrow> nat option" where
  "checked_add_usize a b = (if a + b < usize_limit then Some (a + b) else None)"

definition checked_mul_usize :: "nat \<Rightarrow> nat \<Rightarrow> nat option" where
  "checked_mul_usize a b = (if a * b < usize_limit then Some (a * b) else None)"

text \<open>The plain \<open>+\<close> on \<open>usize\<close>, which panics on overflow in this build.\<close>

definition add_usize :: "nat \<Rightarrow> nat \<Rightarrow> nat res" where
  "add_usize a b = (if a + b < usize_limit then Ok (a + b) else Panics)"

definition checked_add_word :: "'w::len word \<Rightarrow> 'w word \<Rightarrow> 'w word option" where
  "checked_add_word a b = (if unat a + unat b < 2 ^ LENGTH('w) then Some (a + b) else None)"

definition saturating_add_word :: "'w::len word \<Rightarrow> 'w word \<Rightarrow> 'w word" where
  "saturating_add_word a b = (if unat a + unat b < 2 ^ LENGTH('w) then a + b else - 1)"

text \<open>\<open>u8/u16/u32::try_from(usize)\<close>.\<close>

definition word_try_from :: "nat \<Rightarrow> 'w::len word option" where
  "word_try_from n = (if n < 2 ^ LENGTH('w) then Some (word_of_nat n) else None)"

lemma checked_add_word_Some:
  "checked_add_word a b = Some c \<Longrightarrow> unat c = unat a + unat b"
  by (auto simp: checked_add_word_def unat_word_ariths split: if_splits)

lemma saturating_add_word_unat:
  "unat (saturating_add_word (a :: 'w::len word) b) = min (unat a + unat b) (2 ^ LENGTH('w) - 1)"
  by (auto simp: saturating_add_word_def unat_word_ariths unsigned_minus_1_eq_mask
      mask_eq_exp_minus_1)

lemma saturating_add_word_ge: "a \<le> saturating_add_word a b"
proof -
  have "unat a < 2 ^ LENGTH('a)" by (rule unsigned_less)
  then have "unat a \<le> 2 ^ LENGTH('a) - 1" by linarith
  then show ?thesis by (simp add: word_le_nat_alt saturating_add_word_unat)
qed

lemma word_try_from_Some [res_iff]:
  "word_try_from n = Some (w :: 'w::len word) \<longleftrightarrow> n < 2 ^ LENGTH('w) \<and> w = word_of_nat n"
  by (auto simp: word_try_from_def)

lemma unat_word_try_from:
  "word_try_from n = Some (w :: 'w::len word) \<Longrightarrow> unat w = n"
  by (auto simp: word_try_from_def unat_of_nat split: if_splits)

lemma u32_of_nat_inj:
  "m < 2 ^ 32 \<Longrightarrow> n < 2 ^ 32 \<Longrightarrow> (word_of_nat m :: u32) = word_of_nat n \<Longrightarrow> m = n"
  by (drule arg_cong [where f = unat]) (simp add: unat_of_nat)

section \<open>Slices, indexing and fixed-size copies\<close>

text \<open>\<open>&xs[a..b]\<close> and \<open>xs[i]\<close> panic out of range.\<close>

definition sub_list :: "nat \<Rightarrow> nat \<Rightarrow> 'a list \<Rightarrow> 'a list" where
  "sub_list a b xs = take (b - a) (drop a xs)"

definition slice :: "nat \<Rightarrow> nat \<Rightarrow> 'a list \<Rightarrow> 'a list res" where
  "slice a b xs = (if a \<le> b \<and> b \<le> length xs then Ok (sub_list a b xs) else Panics)"

definition index_at :: "'a list \<Rightarrow> nat \<Rightarrow> 'a res" where
  "index_at xs i = (if i < length xs then Ok (xs ! i) else Panics)"

text \<open>
  The helper \<open>copy_array\<close> every wire module defines (\<open>frame/wire.rs\<close>, \<open>envelope/outer.rs\<close>,
  \<open>handshake.rs\<close>, \<open>hybrid.rs\<close>, \<open>ratchet/persistence.rs\<close>): a fixed-size array from a slice of that
  length, \<open>InvalidFrame\<close> otherwise.
\<close>

definition copy_array :: "nat \<Rightarrow> bytes \<Rightarrow> bytes res" where
  "copy_array n xs = (if length xs = n then Ok xs else Err InvalidFrame)"

text \<open>\<open>copy_array::<N>(&bytes[a..b])?\<close>, the way the decoders read a field.\<close>

definition field :: "nat \<Rightarrow> nat \<Rightarrow> nat \<Rightarrow> bytes \<Rightarrow> bytes res" where
  "field n a b xs = bind_res (slice a b xs) (copy_array n)"

lemma length_sub_list [simp]: "length (sub_list a b xs) = min (b - a) (length xs - a)"
  by (simp add: sub_list_def)

lemma slice_ok [simp]: "a \<le> b \<Longrightarrow> b \<le> length xs \<Longrightarrow> slice a b xs = Ok (sub_list a b xs)"
  by (simp add: slice_def)

lemma index_at_ok [simp]: "i < length xs \<Longrightarrow> index_at xs i = Ok (xs ! i)"
  by (simp add: index_at_def)

lemma field_ok [simp]:
  "b = a + n \<Longrightarrow> b \<le> length xs \<Longrightarrow> field n a b xs = Ok (sub_list a b xs)"
  by (simp add: field_def copy_array_def)

text \<open>Adjacent slices join to one, which is how a decoded frame is shown to be its own encoding.\<close>

named_theorems slice_join \<open>joining adjacent slices\<close>

lemma sub_list_append [slice_join]:
  "a \<le> b \<Longrightarrow> b \<le> c \<Longrightarrow> sub_list a b xs @ sub_list b c xs = sub_list a c xs"
proof -
  assume "a \<le> b" "b \<le> c"
  then have "c - a = (b - a) + (c - b)" "drop b xs = drop (b - a) (drop a xs)" by simp_all
  then show ?thesis by (simp only: sub_list_def take_add)
qed

lemma sub_list_append_tail [slice_join]:
  "a \<le> b \<Longrightarrow> b \<le> c \<Longrightarrow> sub_list a b xs @ sub_list b c xs @ ys = sub_list a c xs @ ys"
  by (metis append_assoc sub_list_append)

lemma sub_list_single: "i < length xs \<Longrightarrow> sub_list i (i + 1) xs = [xs ! i]"
  by (simp add: sub_list_def take_Suc_conv_app_nth hd_drop_conv_nth take_Suc)

lemma sub_list_Cons [slice_join]: "i < length xs \<Longrightarrow> xs ! i # ys = sub_list i (i + 1) xs @ ys"
  by (simp add: sub_list_single [unfolded Suc_eq_plus1 [symmetric]])

lemma sub_list_all [simp]: "length xs \<le> n \<Longrightarrow> sub_list 0 n xs = xs"
  by (simp add: sub_list_def)

lemma sub_list_prefix: "sub_list 0 n xs = take n xs"
  by (simp add: sub_list_def)

lemma sub_list_take: "b \<le> n \<Longrightarrow> sub_list a b (take n xs) = sub_list a b xs"
  by (simp add: sub_list_def drop_take min_absorb1)

section \<open>Searching and removing in a vector\<close>

text \<open>\<open>iter().position(p)\<close> and \<open>Vec::remove(i)\<close>.\<close>

fun position :: "('a \<Rightarrow> bool) \<Rightarrow> 'a list \<Rightarrow> nat option" where
  "position p [] = None"
| "position p (x # xs) = (if p x then Some 0 else map_option Suc (position p xs))"

definition remove_at :: "nat \<Rightarrow> 'a list \<Rightarrow> 'a list" where
  "remove_at i xs = take i xs @ drop (Suc i) xs"

lemma position_None: "position p xs = None \<longleftrightarrow> (\<forall>x \<in> set xs. \<not> p x)"
  by (induction xs) auto

lemma position_Some:
  "position p xs = Some i \<Longrightarrow> i < length xs \<and> p (xs ! i) \<and> (\<forall>j < i. \<not> p (xs ! j))"
  by (induction xs arbitrary: i) (auto simp: nth_Cons' less_Suc_eq_0_disj split: if_splits)

lemma position_split:
  assumes "position p xs = Some i"
  obtains ys x zs where "xs = ys @ x # zs" "length ys = i" "p x" "\<forall>y \<in> set ys. \<not> p y"
proof
  note i = position_Some [OF assms]
  show "xs = take i xs @ xs ! i # drop (Suc i) xs" using i id_take_nth_drop by blast
  show "length (take i xs) = i" "p (xs ! i)" using i by simp_all
  show "\<forall>y \<in> set (take i xs). \<not> p y" using i by (auto simp: in_set_conv_nth)
qed

lemma position_append_first:
  "\<forall>y \<in> set ys. \<not> p y \<Longrightarrow> p x \<Longrightarrow> position p (ys @ x # zs) = Some (length ys)"
  by (induction ys) auto

lemma remove_at_append [simp]: "remove_at (length ys) (ys @ x # zs) = ys @ zs"
  by (simp add: remove_at_def)

lemma set_remove_at: "set (remove_at i xs) \<subseteq> set xs"
  using set_take_subset set_drop_subset by (fastforce simp: remove_at_def)

lemma in_set_remove_at: "x \<in> set (remove_at i xs) \<Longrightarrow> x \<in> set xs"
  by (rule subsetD [OF set_remove_at])

lemma remains_remove_at: "x \<in> set xs \<Longrightarrow> x \<noteq> xs ! i \<Longrightarrow> x \<in> set (remove_at i xs)"
proof (cases "i < length xs")
  case True
  assume x: "x \<in> set xs" "x \<noteq> xs ! i"
  have "xs = take i xs @ xs ! i # drop (Suc i) xs" using True by (rule id_take_nth_drop)
  then have "set xs = set (take i xs @ xs ! i # drop (Suc i) xs)" by (rule arg_cong)
  with x show ?thesis by (auto simp: remove_at_def)
qed (simp add: remove_at_def)

lemma position_of_member:
  "distinct (map f xs) \<Longrightarrow> x \<in> set xs \<Longrightarrow> \<exists>i. position (\<lambda>y. f y = f x) xs = Some i \<and> xs ! i = x"
proof (induction xs)
  case (Cons y ys)
  then show ?case
  proof (cases "f y = f x")
    case True
    with Cons.prems have "x = y" by (metis (mono_tags, lifting) distinct_map inj_onD list.set_intros(1))
    then show ?thesis by simp
  next
    case False
    with Cons obtain i where "position (\<lambda>y. f y = f x) ys = Some i" "ys ! i = x" by auto
    with False show ?thesis by simp
  qed
qed simp

lemma length_remove_at: "i < length xs \<Longrightarrow> length (remove_at i xs) = length xs - 1"
  by (simp add: remove_at_def)

lemma distinct_map_remove_at: "distinct (map f xs) \<Longrightarrow> distinct (map f (remove_at i xs))"
proof (cases "i < length xs")
  case True
  then have xs: "xs = take i xs @ xs ! i # drop (Suc i) xs" by (rule id_take_nth_drop)
  assume "distinct (map f xs)"
  then have "distinct (map f (take i xs @ xs ! i # drop (Suc i) xs))" by (simp only: xs [symmetric])
  then show ?thesis by (simp add: remove_at_def)
qed (simp add: remove_at_def)

text \<open>With distinct keys, removing the entry found under a key leaves none with that key.\<close>

lemma position_remove_at:
  assumes "distinct (map f xs)" "position (\<lambda>x. f x = k) xs = Some i"
  shows "position (\<lambda>x. f x = k) (remove_at i xs) = None"
proof -
  obtain ys x zs where "xs = ys @ x # zs" "length ys = i" "f x = k" "\<forall>y \<in> set ys. f y \<noteq> k"
    using assms(2) by (rule position_split)
  with assms(1) show ?thesis by (auto simp: position_None) (metis image_eqI)
qed

section \<open>Big-endian integers\<close>

fun be_of_nat :: "nat \<Rightarrow> nat \<Rightarrow> bytes" where
  "be_of_nat 0 x = []"
| "be_of_nat (Suc n) x = be_of_nat n (x div 256) @ [word_of_nat x]"

definition nat_of_be :: "bytes \<Rightarrow> nat" where
  "nat_of_be bs = foldl (\<lambda>a b. 256 * a + unat b) 0 bs"

text \<open>\<open>to_be_bytes\<close> and \<open>from_be_bytes\<close> of the unsigned integers.\<close>

definition to_be_bytes :: "'w::len word \<Rightarrow> bytes" where
  "to_be_bytes w = be_of_nat (LENGTH('w) div 8) (unat w)"

definition from_be_bytes :: "bytes \<Rightarrow> 'w::len word" where
  "from_be_bytes bs = word_of_nat (nat_of_be bs)"

lemma length_be_of_nat [simp]: "length (be_of_nat n x) = n"
  by (induction n arbitrary: x) simp_all

lemma nat_of_be_snoc [simp]: "nat_of_be (bs @ [b]) = 256 * nat_of_be bs + unat b"
  by (simp add: nat_of_be_def)

lemma nat_of_be_Nil [simp]: "nat_of_be [] = 0"
  by (simp add: nat_of_be_def)

lemma nat_of_be_bound: "nat_of_be bs < 256 ^ length bs"
proof (induction bs rule: rev_induct)
  case (snoc b bs)
  have "unat b < 256" using unsigned_less [of b, where ?'a = nat] by simp
  with snoc show ?case by simp
qed simp

lemma nat_of_be_of_nat: "x < 256 ^ n \<Longrightarrow> nat_of_be (be_of_nat n x) = x"
  by (induction n arbitrary: x) (simp_all add: unat_of_nat less_mult_imp_div_less mult.commute)

lemma be_of_nat_of_be: "be_of_nat (length bs) (nat_of_be bs) = bs"
proof (induction bs rule: rev_induct)
  case (snoc b bs)
  have b: "unat b < 256" using unsigned_less [of b, where ?'a = nat] by simp
  then have "(256 * nat_of_be bs + unat b) div 256 = nat_of_be bs" by simp
  moreover have "word_of_nat (256 * nat_of_be bs + unat b) = b"
  proof -
    have "(256 :: 8 word) = 0" by simp
    then have "256 * x = 0" for x :: "8 word" by (metis mult_zero_left)
    then show ?thesis by simp
  qed
  ultimately show ?case using snoc by simp
qed simp

lemma zero_u32_bytes: "to_be_bytes (0 :: u32) = replicate 4 0"
  by code_simp

lemma length_to_be_bytes [simp]: "length (to_be_bytes (w :: 'w::len word)) = LENGTH('w) div 8"
  by (simp add: to_be_bytes_def)

lemma from_to_be_bytes [simp]:
  assumes "8 dvd LENGTH('w::len)"
  shows "from_be_bytes (to_be_bytes (w :: 'w word)) = w"
proof -
  from assms have "(256 :: nat) ^ (LENGTH('w) div 8) = 2 ^ LENGTH('w)"
    using power_mult [of "2 :: nat" 8 "LENGTH('w) div 8"] by simp
  then show ?thesis
    using unsigned_less [of w, where ?'a = nat]
    by (simp add: to_be_bytes_def from_be_bytes_def nat_of_be_of_nat)
qed

lemma to_be_bytes_inj [simp]:
  "8 dvd LENGTH('w::len) \<Longrightarrow> to_be_bytes (v :: 'w word) = to_be_bytes w \<longleftrightarrow> v = w"
  by (metis from_to_be_bytes)

lemma to_from_be_bytes [simp]:
  assumes "8 dvd LENGTH('w::len)" "length bs = LENGTH('w) div 8"
  shows "to_be_bytes (from_be_bytes bs :: 'w word) = bs"
proof -
  have "(256 :: nat) ^ length bs = 2 ^ LENGTH('w)"
    using assms power_mult [of "2 :: nat" 8 "LENGTH('w) div 8"] by simp
  then have "unat (from_be_bytes bs :: 'w word) = nat_of_be bs"
    using nat_of_be_bound [of bs] by (simp add: from_be_bytes_def unat_of_nat)
  then show ?thesis
    using be_of_nat_of_be [of bs] assms(2) by (simp add: to_be_bytes_def)
qed

end
