(* ===== verification/Mef_Primitives.thy ===== *)
theory Mef_Primitives
  imports Mef_Prelude
begin

text \<open>
  The code the crate calls and does not contain: the RustCrypto AEADs, HKDF-SHA-256, BLAKE3, X25519,
  Ed25519, ML-KEM-768 and the operating-system random source. They are fields of one record, an
  argument of every definition that reaches them, so that a theorem holds for whatever functions are
  supplied. What the documentation of those crates promises is stated below as named predicates on
  the record; a theorem that needs a promise takes the predicate as a hypothesis.
\<close>

section \<open>The external functions\<close>

text \<open>
  One RustCrypto AEAD: whether \<open>new_from_slice\<close> accepts a key and \<open>Nonce::try_from\<close> a nonce, and
  \<open>encrypt_in_place\<close> and \<open>decrypt_in_place\<close> (key, nonce, associated data, buffer; the buffer after
  the call, or \<open>None\<close> for \<open>Err\<close>).
\<close>

record cipher =
  key_accepted :: "bytes \<Rightarrow> bool"
  nonce_accepted :: "bytes \<Rightarrow> bool"
  encrypt_in_place :: "bytes \<Rightarrow> bytes \<Rightarrow> bytes \<Rightarrow> bytes \<Rightarrow> bytes option"
  decrypt_in_place :: "bytes \<Rightarrow> bytes \<Rightarrow> bytes \<Rightarrow> bytes \<Rightarrow> bytes option"

text \<open>
  \<open>sys_rng i n\<close> is the answer of the operating system to the \<open>i\<close>-th request for random bytes, which
  asks for \<open>n\<close> of them (\<open>None\<close> when it fails). \<open>hkdf_expand salt ikm info n\<close> is
  \<open>Hkdf::new(Some(salt), ikm).expand(info, n bytes)\<close>. \<open>blake3\<close> hashes the concatenation of the
  updates. ML-KEM keys and ciphertexts are given by their canonical bytes; \<open>mlkem_keygen i\<close> is
  \<open>try_generate_from_rng\<close> when it is request \<open>i\<close>.
\<close>

record primitives =
  sys_rng :: "nat \<Rightarrow> nat \<Rightarrow> bytes option"
  aes_gcm :: cipher
  aes_gcm_siv :: cipher
  chacha20_poly1305 :: cipher
  xchacha20_poly1305 :: cipher
  hkdf_expand :: "bytes \<Rightarrow> bytes \<Rightarrow> bytes \<Rightarrow> nat \<Rightarrow> bytes option"
  blake3 :: "bytes \<Rightarrow> bytes"
  x25519_public :: "bytes \<Rightarrow> bytes"
  x25519_shared :: "bytes \<Rightarrow> bytes \<Rightarrow> bytes"
  x25519_contributory :: "bytes \<Rightarrow> bool"
  ed25519_public :: "bytes \<Rightarrow> bytes"
  ed25519_sign :: "bytes \<Rightarrow> bytes \<Rightarrow> bytes"
  ed25519_key_ok :: "bytes \<Rightarrow> bool"
  ed25519_verify_strict :: "bytes \<Rightarrow> bytes \<Rightarrow> bytes \<Rightarrow> bool"
  mlkem_keygen :: "nat \<Rightarrow> bytes option"
  mlkem_public :: "bytes \<Rightarrow> bytes"
  mlkem_key_ok :: "bytes \<Rightarrow> bool"
  mlkem_encapsulate :: "bytes \<Rightarrow> bytes \<Rightarrow> bytes \<times> bytes"
  mlkem_decapsulate :: "bytes \<Rightarrow> bytes \<Rightarrow> bytes"

section \<open>What their documentation promises\<close>

text \<open>Outputs of fixed-size array types have that size; \<open>try_fill_bytes\<close> fills the whole buffer.\<close>

definition sizes_ok :: "primitives \<Rightarrow> bool" where
  "sizes_ok P \<longleftrightarrow>
     (\<forall>i n bs. sys_rng P i n = Some bs \<longrightarrow> length bs = n) \<and>
     (\<forall>salt ikm info n bs. hkdf_expand P salt ikm info n = Some bs \<longrightarrow> length bs = n) \<and>
     (\<forall>m. length (blake3 P m) = 32) \<and>
     (\<forall>a. length (x25519_public P a) = 32) \<and>
     (\<forall>a b. length (x25519_shared P a b) = 32) \<and>
     (\<forall>a. length (ed25519_public P a) = 32) \<and>
     (\<forall>a m. length (ed25519_sign P a m) = 64)"

definition mlkem_sizes_ok :: "primitives \<Rightarrow> bool" where
  "mlkem_sizes_ok P \<longleftrightarrow>
     (\<forall>d. length (mlkem_public P d) = 1184) \<and>
     (\<forall>e r c s. mlkem_encapsulate P e r = (c, s) \<longrightarrow> length c = 1088 \<and> length s = 32) \<and>
     (\<forall>d c. length (mlkem_decapsulate P d c) = 32)"

text \<open>RFC 5869: expansion fails only for outputs beyond \<open>255 * 32\<close> bytes.\<close>

definition hkdf_total :: "primitives \<Rightarrow> bool" where
  "hkdf_total P \<longleftrightarrow>
     (\<forall>salt ikm info n. n \<le> 255 * 32 \<longrightarrow> (\<exists>bs. hkdf_expand P salt ikm info n = Some bs))"

text \<open>The operating system always answers.\<close>

definition rng_total :: "primitives \<Rightarrow> bool" where
  "rng_total P \<longleftrightarrow> (\<forall>i n. \<exists>bs. sys_rng P i n = Some bs)"

text \<open>
  An AEAD with 32-byte keys, nonces of \<open>n\<close> bytes and 16-byte tags: encryption of a buffer the crate
  can pass succeeds and appends a tag, decryption inverts it, and (tidiness, as the tag is
  recomputed) a buffer that decrypts is the encryption of what it decrypts to.
\<close>

definition cipher_ok :: "nat \<Rightarrow> cipher \<Rightarrow> bool" where
  "cipher_ok n c \<longleftrightarrow>
     (\<forall>k. length k = 32 \<longrightarrow> key_accepted c k) \<and>
     (\<forall>v. nonce_accepted c v \<longleftrightarrow> length v = n) \<and>
     (\<forall>k v a m. length k = 32 \<longrightarrow> length v = n \<longrightarrow> length m < 2 ^ 20 \<longrightarrow>
        (\<exists>b. encrypt_in_place c k v a m = Some b)) \<and>
     (\<forall>k v a m b. encrypt_in_place c k v a m = Some b \<longrightarrow> length b = length m + 16) \<and>
     (\<forall>k v a m b. encrypt_in_place c k v a m = Some b \<longrightarrow> decrypt_in_place c k v a b = Some m) \<and>
     (\<forall>k v a m b. decrypt_in_place c k v a b = Some m \<longrightarrow> encrypt_in_place c k v a m = Some b)"

definition aeads_ok :: "primitives \<Rightarrow> bool" where
  "aeads_ok P \<longleftrightarrow>
     cipher_ok 12 (aes_gcm P) \<and> cipher_ok 12 (aes_gcm_siv P) \<and>
     cipher_ok 12 (chacha20_poly1305 P) \<and> cipher_ok 24 (xchacha20_poly1305 P)"

text \<open>X25519: both sides of an exchange compute one secret.\<close>

definition x25519_ok :: "primitives \<Rightarrow> bool" where
  "x25519_ok P \<longleftrightarrow>
     (\<forall>a b. length a = 32 \<longrightarrow> length b = 32 \<longrightarrow>
        x25519_shared P a (x25519_public P b) = x25519_shared P b (x25519_public P a))"

text \<open>Ed25519: a derived public key is canonical, and its signatures verify.\<close>

definition ed25519_ok :: "primitives \<Rightarrow> bool" where
  "ed25519_ok P \<longleftrightarrow>
     (\<forall>s. length s = 32 \<longrightarrow> ed25519_key_ok P (ed25519_public P s)) \<and>
     (\<forall>s m. length s = 32 \<longrightarrow> ed25519_verify_strict P (ed25519_public P s) m (ed25519_sign P s m))"

text \<open>ML-KEM: a generated public key validates, and decapsulation inverts encapsulation.\<close>

definition mlkem_ok :: "primitives \<Rightarrow> bool" where
  "mlkem_ok P \<longleftrightarrow>
     mlkem_sizes_ok P \<and>
     (\<forall>i d. mlkem_keygen P i = Some d \<longrightarrow> mlkem_key_ok P (mlkem_public P d)) \<and>
     (\<forall>i d r c s. mlkem_keygen P i = Some d \<longrightarrow> length r = 32 \<longrightarrow>
        mlkem_encapsulate P (mlkem_public P d) r = (c, s) \<longrightarrow> mlkem_decapsulate P d c = s)"

text \<open>
  X25519 between generated keys: the clamped secret scalar is a multiple of the cofactor and the
  peer's point is not of small order, so the result is not all zero, which is what
  \<open>was_contributory\<close> tests; with the all-zero point the result is all zero.
\<close>

definition x25519_live :: "primitives \<Rightarrow> bool" where
  "x25519_live P \<longleftrightarrow>
     (\<forall>a b. length a = 32 \<longrightarrow> length b = 32 \<longrightarrow> x25519_contributory P (x25519_shared P a (x25519_public P b))) \<and>
     (\<forall>a. \<not> x25519_contributory P (x25519_shared P a (replicate 32 0)))"

text \<open>Everything the documentation promises, for a machine whose random source answers.\<close>

definition lawful :: "primitives \<Rightarrow> bool" where
  "lawful P \<longleftrightarrow>
     sizes_ok P \<and> aeads_ok P \<and> x25519_ok P \<and> x25519_live P \<and> ed25519_ok P \<and> mlkem_ok P \<and>
     (\<forall>i. \<exists>d. mlkem_keygen P i = Some d) \<and> hkdf_total P \<and> rng_total P"

named_theorems prim_laws \<open>the promises of the external functions, one by one\<close>

lemma sizes_okD [prim_laws]:
  assumes "sizes_ok P"
  shows "sys_rng P i n = Some bs \<Longrightarrow> length bs = n"
    and "hkdf_expand P salt ikm info m = Some cs \<Longrightarrow> length cs = m"
    and "length (blake3 P x) = 32"
    and "length (x25519_public P a) = 32"
    and "length (x25519_shared P a b) = 32"
    and "length (ed25519_public P a) = 32"
    and "length (ed25519_sign P a x) = 64"
  using assms unfolding sizes_ok_def by auto

lemma hkdf_totalD:
  "hkdf_total P \<Longrightarrow> n \<le> 255 * 32 \<Longrightarrow> \<exists>bs. hkdf_expand P salt ikm info n = Some bs"
  unfolding hkdf_total_def by blast

lemma cipher_okD [prim_laws]:
  assumes "cipher_ok n c"
  shows cipher_key: "length k = 32 \<Longrightarrow> key_accepted c k"
    and cipher_nonce: "nonce_accepted c v \<longleftrightarrow> length v = n"
    and cipher_encrypts: "length k = 32 \<Longrightarrow> length v = n \<Longrightarrow> length m < 2 ^ 20 \<Longrightarrow>
           \<exists>b. encrypt_in_place c k v a m = Some b"
    and cipher_length: "encrypt_in_place c k v a m = Some b \<Longrightarrow> length b = length m + 16"
    and cipher_inverse:
      "encrypt_in_place c k v a m = Some b \<longleftrightarrow> decrypt_in_place c k v a b = Some m"
proof -
  note rest = assms [unfolded cipher_ok_def]
  show "length k = 32 \<Longrightarrow> key_accepted c k"
    using rest [THEN conjunct1] by blast
  note rest = rest [THEN conjunct2]
  show "nonce_accepted c v \<longleftrightarrow> length v = n"
    using rest [THEN conjunct1] by blast
  note rest = rest [THEN conjunct2]
  show "length k = 32 \<Longrightarrow> length v = n \<Longrightarrow> length m < 2 ^ 20 \<Longrightarrow>
      \<exists>b. encrypt_in_place c k v a m = Some b"
    using rest [THEN conjunct1] by blast
  note rest = rest [THEN conjunct2]
  show "encrypt_in_place c k v a m = Some b \<Longrightarrow> length b = length m + 16"
    using rest [THEN conjunct1] by blast
  show "encrypt_in_place c k v a m = Some b \<longleftrightarrow> decrypt_in_place c k v a b = Some m"
    using rest [THEN conjunct2] by blast
qed

lemma x25519_okD [prim_laws]:
  "x25519_ok P \<Longrightarrow> length a = 32 \<Longrightarrow> length b = 32 \<Longrightarrow>
     x25519_shared P a (x25519_public P b) = x25519_shared P b (x25519_public P a)"
  unfolding x25519_ok_def by blast

lemma ed25519_okD [prim_laws]:
  assumes "ed25519_ok P" "length s = 32"
  shows "ed25519_key_ok P (ed25519_public P s)"
    and "ed25519_verify_strict P (ed25519_public P s) m (ed25519_sign P s m)"
  using assms unfolding ed25519_ok_def by - (blast+)

section \<open>A concrete instance\<close>

text \<open>
  Simple functions that keep every promise above, without any cryptographic strength: they show that
  the promises can hold together and give the witnesses something to evaluate. Random bytes repeat
  the number of the request, tags, signatures and digests are constant, a public key is its secret
  and the agreed secret is the bytewise sum.
\<close>

definition demo_cipher :: "nat \<Rightarrow> cipher" where
  "demo_cipher n =
     \<lparr>key_accepted = (\<lambda>k. length k = 32),
      nonce_accepted = (\<lambda>v. length v = n),
      encrypt_in_place = (\<lambda>k v a m. Some (m @ replicate 16 0)),
      decrypt_in_place = (\<lambda>k v a b.
        if drop (length b - 16) b = replicate 16 0 then Some (take (length b - 16) b) else None)\<rparr>"

definition demo_key :: "bytes \<Rightarrow> bytes" where
  "demo_key bs = (if length bs = 32 then bs else replicate 32 0)"

definition demo_primitives :: primitives where
  "demo_primitives =
     \<lparr>sys_rng = (\<lambda>i n. Some (replicate n (word_of_nat (Suc i)))),
      aes_gcm = demo_cipher 12,
      aes_gcm_siv = demo_cipher 12,
      chacha20_poly1305 = demo_cipher 12,
      xchacha20_poly1305 = demo_cipher 24,
      hkdf_expand = (\<lambda>salt ikm info n. Some (replicate n 7)),
      blake3 = (\<lambda>m. replicate 32 8),
      x25519_public = demo_key,
      x25519_shared = (\<lambda>a b. map2 (+) (demo_key a) (demo_key b)),
      x25519_contributory = (\<lambda>z. z \<noteq> replicate 32 0),
      ed25519_public = demo_key,
      ed25519_sign = (\<lambda>s m. replicate 64 9),
      ed25519_key_ok = (\<lambda>p. length p = 32),
      ed25519_verify_strict = (\<lambda>p m g. g = replicate 64 9),
      mlkem_keygen = (\<lambda>i. Some [word_of_nat i]),
      mlkem_public = (\<lambda>d. replicate 1184 0),
      mlkem_key_ok = (\<lambda>e. length e = 1184),
      mlkem_encapsulate = (\<lambda>e r. (replicate 1088 0, replicate 32 5)),
      mlkem_decapsulate = (\<lambda>d c. replicate 32 5)\<rparr>"

lemma length_demo_key [simp]: "length (demo_key bs) = 32"
  by (simp add: demo_key_def)

lemma demo_key_replicate [simp]: "demo_key (replicate 32 b) = replicate 32 b"
  by (simp add: demo_key_def)

lemma demo_cipher_ok: "cipher_ok n (demo_cipher n)"
  unfolding cipher_ok_def demo_cipher_def
  by (auto simp del: replicate.simps split: if_splits) (metis append_take_drop_id)

lemma demo_aeads_ok [simp]: "aeads_ok demo_primitives"
  by (simp add: aeads_ok_def demo_primitives_def demo_cipher_ok)

lemma demo_sizes_ok [simp]: "sizes_ok demo_primitives"
  by (auto simp: sizes_ok_def demo_primitives_def)

lemma demo_hkdf_total [simp]: "hkdf_total demo_primitives"
  by (simp add: hkdf_total_def demo_primitives_def)

lemma demo_rng_total [simp]: "rng_total demo_primitives"
  by (simp add: rng_total_def demo_primitives_def)

lemma map2_plus_commute: "map2 (+) a b = map2 (+) b (a :: bytes)"
  by (induction a b rule: list_induct2') (simp_all add: add.commute)

lemma demo_x25519_ok [simp]: "x25519_ok demo_primitives"
  by (simp add: x25519_ok_def demo_primitives_def demo_key_def map2_plus_commute)

lemma demo_ed25519_ok [simp]: "ed25519_ok demo_primitives"
  by (simp add: ed25519_ok_def demo_primitives_def)

lemma demo_mlkem_ok [simp]: "mlkem_ok demo_primitives"
  by (auto simp: mlkem_ok_def mlkem_sizes_ok_def demo_primitives_def)

text \<open>
  A second instance, for which nothing is constant: tags and signatures depend on the sum of everything
  they protect, derived keys on salt, input and label, an exchange between generated keys is never
  refused, and a digest is a window of the hashed transcript, which for a handshake shows the
  ephemeral key of the initiator, so that sessions have identifiers of their own.
\<close>

definition padded :: "nat \<Rightarrow> bytes \<Rightarrow> bytes" where
  "padded n bs = take n (bs @ replicate n 0)"

lemma length_padded [simp]: "length (padded n bs) = n"
  by (simp add: padded_def)

lemma padded_id: "length bs = n \<Longrightarrow> padded n bs = bs"
  by (simp add: padded_def)

definition live_tag :: "bytes \<Rightarrow> bytes \<Rightarrow> bytes \<Rightarrow> bytes \<Rightarrow> bytes" where
  "live_tag k v a m = replicate 16 (sum_list k + sum_list v + sum_list a + sum_list m)"

definition live_cipher :: "nat \<Rightarrow> cipher" where
  "live_cipher n =
     \<lparr>key_accepted = (\<lambda>k. length k = 32),
      nonce_accepted = (\<lambda>v. length v = n),
      encrypt_in_place = (\<lambda>k v a m. Some (m @ live_tag k v a m)),
      decrypt_in_place = (\<lambda>k v a b.
        let m = take (length b - 16) b in if drop (length b - 16) b = live_tag k v a m then Some m else None)\<rparr>"

definition live_public :: "bytes \<Rightarrow> bytes" where
  "live_public a = 1 # tl (padded 32 a)"

definition live_shared :: "bytes \<Rightarrow> bytes \<Rightarrow> bytes" where
  "live_shared a b = (if b = replicate 32 0 then b else 1 # tl (map2 (+) (live_public a) (padded 32 b)))"

definition live_derived :: "nat \<Rightarrow> bytes \<Rightarrow> bytes \<Rightarrow> bytes \<Rightarrow> bytes" where
  "live_derived n salt ikm info = map ((+) (sum_list salt + sum_list info)) (padded n ikm)"

definition live_primitives :: primitives where
  "live_primitives =
     \<lparr>sys_rng = (\<lambda>i n. Some (replicate n (word_of_nat (Suc i)))),
      aes_gcm = live_cipher 12,
      aes_gcm_siv = live_cipher 12,
      chacha20_poly1305 = live_cipher 12,
      xchacha20_poly1305 = live_cipher 24,
      hkdf_expand = (\<lambda>salt ikm info n. Some (live_derived n salt ikm info)),
      blake3 = (\<lambda>m. padded 32 (drop 177 m)),
      x25519_public = live_public,
      x25519_shared = live_shared,
      x25519_contributory = (\<lambda>z. z \<noteq> replicate 32 0),
      ed25519_public = padded 32,
      ed25519_sign = (\<lambda>s m. replicate 32 (sum_list m) @ padded 32 s),
      ed25519_key_ok = (\<lambda>p. length p = 32),
      ed25519_verify_strict = (\<lambda>p m g. g = replicate 32 (sum_list m) @ p),
      mlkem_keygen = (\<lambda>i. Some [word_of_nat i]),
      mlkem_public = padded 1184,
      mlkem_key_ok = (\<lambda>e. length e = 1184),
      mlkem_encapsulate = (\<lambda>e r. (padded 1088 r, map ((+) (sum_list e)) (padded 32 r))),
      mlkem_decapsulate = (\<lambda>d c. map ((+) (sum_list (padded 1184 d))) (padded 32 c))\<rparr>"

lemma live_cipher_ok: "cipher_ok n (live_cipher n)"
  unfolding cipher_ok_def live_cipher_def
  by (auto simp: live_tag_def Let_def simp del: replicate.simps split: if_splits) (metis append_take_drop_id)

lemma live_public_not_zero [simp]: "live_public a \<noteq> replicate 32 0"
  by (simp add: live_public_def numeral_eq_Suc)

lemma length_live_public [simp]: "length (live_public a) = 32"
  by (simp add: live_public_def)

lemma live_shared_public: "live_shared a (live_public b) = 1 # tl (map2 (+) (live_public a) (live_public b))"
  by (simp add: live_shared_def padded_id)

lemma live_lawful: "lawful live_primitives"
proof -
  have "1 # zs \<noteq> replicate 32 (0 :: u8)" for zs by (simp add: numeral_eq_Suc)
  then have "x25519_ok live_primitives" "x25519_live live_primitives"
    by (simp_all add: x25519_ok_def x25519_live_def live_primitives_def live_shared_public map2_plus_commute)
       (simp add: live_shared_def)
  moreover have "sizes_ok live_primitives"
    by (auto simp: sizes_ok_def live_primitives_def live_derived_def live_shared_def)
  moreover have "padded 32 (padded 1088 r) = r" if "length r = 32" for r
    using that by (simp add: padded_def)
  then have "mlkem_ok live_primitives"
    by (auto simp: mlkem_ok_def mlkem_sizes_ok_def live_primitives_def padded_id)
  moreover have "aeads_ok live_primitives" "ed25519_ok live_primitives" "hkdf_total live_primitives"
      "rng_total live_primitives" "\<forall>i. \<exists>d. mlkem_keygen live_primitives i = Some d"
    by (simp_all add: aeads_ok_def ed25519_ok_def hkdf_total_def rng_total_def live_primitives_def
        live_cipher_ok padded_id)
  ultimately show ?thesis by (simp add: lawful_def)
qed

section \<open>Calls that draw randomness\<close>

text \<open>
  The random source is threaded as the number of requests made so far. A call that draws has type
  \<open>rng \<Rightarrow> 'a res \<times> rng\<close>.
\<close>

type_synonym rng = nat

definition io_bind :: "(rng \<Rightarrow> 'a res \<times> rng) \<Rightarrow> ('a \<Rightarrow> rng \<Rightarrow> 'b res \<times> rng) \<Rightarrow> rng \<Rightarrow> 'b res \<times> rng" where
  "io_bind m f r = (case m r of (Inl e, r') \<Rightarrow> (Inl e, r') | (Inr x, r') \<Rightarrow> f x r')"

definition io_lift :: "'a res \<Rightarrow> rng \<Rightarrow> 'a res \<times> rng" where
  "io_lift x r = (x, r)"

lemma io_lift_simp [simp]: "io_lift x r = (x, r)"
  by (simp add: io_lift_def)

lemma io_bind_simps [simp]:
  "m r = (Inl e, r') \<Longrightarrow> io_bind m f r = (Inl e, r')"
  "m r = (Inr x, r') \<Longrightarrow> io_bind m f r = f x r'"
  by (simp_all add: io_bind_def)

lemma io_bind_lift [simp]:
  "io_bind (io_lift (Inl e)) f r = (Inl e, r)"
  "io_bind (io_lift (Inr x)) f r = f x r"
  by simp_all

lemma io_bind_Ok [res_iff]:
  "io_bind m f r = (Inr y, r'') \<longleftrightarrow> (\<exists>x r'. m r = (Inr x, r') \<and> f x r' = (Inr y, r''))"
  by (cases "m r"; cases "fst (m r)") auto

lemma io_bind_Inl [res_iff]:
  "io_bind m f r = (Inl e, r'') \<longleftrightarrow>
     m r = (Inl e, r'') \<or> (\<exists>x r'. m r = (Inr x, r') \<and> f x r' = (Inl e, r''))"
  by (cases "m r"; cases "fst (m r)") auto

end
