(* ===== verification/Mef_Interfaces.thy ===== *)
theory Mef_Interfaces
  imports Mef_Prelude
begin

text \<open>
  The interfaces several components share, as locales: one-byte identifier enumerations, canonical
  wire formats (every decoder of the crate is one), and state machines driven by a list of calls.
  Each is interpreted on the model's own definitions in the theory of the component that provides
  it; the clients use the facts proved here.
\<close>

section \<open>One-byte enumerations\<close>

text \<open>\<open>id\<close> and \<open>from_id\<close> of \<open>AeadSuite\<close> and \<open>FrameKind\<close>.\<close>

locale wire_enum =
  fixes to_id :: "'a \<Rightarrow> u8"
    and of_id :: "u8 \<Rightarrow> 'a res"
    and unknown :: mef_error
  assumes of_to_id: "of_id (to_id x) = Ok x"
    and to_of_id: "of_id b = Ok x \<Longrightarrow> to_id x = b"
    and of_id_error: "of_id b = Inl e \<Longrightarrow> e = Error unknown"
begin

lemma to_id_inj: "to_id x = to_id y \<longleftrightarrow> x = y"
  by (metis of_to_id sum.inject(2))

lemma of_id_iff: "of_id b = Ok x \<longleftrightarrow> to_id x = b"
  using of_to_id to_of_id by blast

lemma of_id_cases:
  obtains x where "of_id b = Ok x" "b = to_id x" | "of_id b = Err unknown"
  by (cases "of_id b") (use of_id_error to_of_id in blast)+

end

section \<open>Canonical wire formats\<close>

text \<open>
  An encoder and a strict decoder: a valid value survives the round trip, and an accepted byte
  string is the encoding of the value it decodes to, so that each value has one encoding.
\<close>

locale wire_format =
  fixes enc :: "'a \<Rightarrow> bytes res"
    and dec :: "bytes \<Rightarrow> 'a res"
    and valid :: "'a \<Rightarrow> bool"
  assumes enc_total: "valid x \<Longrightarrow> \<exists>bs. enc x = Ok bs"
    and dec_enc: "valid x \<Longrightarrow> enc x = Ok bs \<Longrightarrow> dec bs = Ok x"
    and dec_valid: "dec bs = Ok x \<Longrightarrow> valid x"
    and enc_dec: "dec bs = Ok x \<Longrightarrow> enc x = Ok bs"
    and dec_no_panic: "dec bs \<noteq> Panics"
begin

lemma dec_iff: "dec bs = Ok x \<longleftrightarrow> valid x \<and> enc x = Ok bs"
  using dec_enc dec_valid enc_dec by blast

lemma dec_inj: "dec bs = Ok x \<Longrightarrow> dec bs' = Ok x \<Longrightarrow> bs = bs'"
  by (metis enc_dec sum.inject(2))

lemma enc_inj: "valid x \<Longrightarrow> valid y \<Longrightarrow> enc x = enc y \<Longrightarrow> x = y"
  by (metis dec_enc enc_total sum.inject(2))

lemma dec_error_iff: "(\<exists>e. dec bs = Err e) \<longleftrightarrow> (\<forall>x. valid x \<longrightarrow> enc x \<noteq> Ok bs)"
  by (metis (full_types) dec_iff dec_no_panic failure.exhaust sum.exhaust sum.simps(4))

end

text \<open>A format whose values never extend one another: no proper prefix of an encoding decodes.\<close>

locale self_delimiting_format = wire_format +
  assumes no_extension: "dec bs = Ok x \<Longrightarrow> dec (bs @ ext) = Ok y \<Longrightarrow> ext = []"
begin

lemma truncated_rejected:
  assumes "dec bs = Ok x" "n < length bs"
  shows "\<exists>e. dec (take n bs) = Err e"
proof (cases "dec (take n bs)")
  case (Inl e)
  then show ?thesis using dec_no_panic by (cases e) auto
next
  case (Inr y)
  then have "drop n bs = []"
    using no_extension [of "take n bs" y "drop n bs"] assms(1) by simp
  with assms(2) show ?thesis by simp
qed

lemma trailing_rejected:
  assumes "dec bs = Ok x" "ext \<noteq> []"
  shows "\<exists>e. dec (bs @ ext) = Err e"
  by (metis assms dec_no_panic failure.exhaust no_extension sum.exhaust)

end

text \<open>A format of one length is self-delimiting.\<close>

locale fixed_width_format = wire_format +
  fixes width :: nat
  assumes dec_width: "dec bs = Ok x \<Longrightarrow> length bs = width"

sublocale fixed_width_format \<subseteq> self_delimiting_format
proof unfold_locales
  fix bs x ext y
  assume "dec bs = Ok x" "dec (bs @ ext) = Ok y"
  then have "length (bs @ ext) = length bs" using dec_width by metis
  then show "ext = []" by simp
qed

section \<open>State machines\<close>

text \<open>
  A component whose state changes by calls: each call keeps the invariant. The facts are about
  \<open>fold step cs s\<close>, the state after the calls \<open>cs\<close>, in order.
\<close>

locale call_machine =
  fixes step :: "'c \<Rightarrow> 's \<Rightarrow> 's"
    and inv :: "'s \<Rightarrow> bool"
  assumes inv_step: "inv s \<Longrightarrow> inv (step c s)"
begin

lemma inv_run: "inv s \<Longrightarrow> inv (fold step cs s)"
  by (induction cs arbitrary: s) (simp_all add: inv_step)

end

text \<open>A machine with a quantity no call decreases.\<close>

locale ranked_machine = call_machine +
  fixes rank :: "'b \<Rightarrow> 'r::order"
  assumes rank_step: "inv s \<Longrightarrow> rank s \<le> rank (step c s)"
begin

lemma rank_run: "inv s \<Longrightarrow> rank s \<le> rank (fold step cs s)"
proof (induction cs arbitrary: s)
  case (Cons c cs)
  then have "rank (step c s) \<le> rank (fold step cs (step c s))" by (simp add: inv_step)
  with Cons.prems show ?case using rank_step order_trans by fastforce
qed simp

end

end
