(* ===== verification/Mef_Crypto.thy ===== *)
theory Mef_Crypto
  imports Mef_Primitives Mef_Interfaces
begin

text \<open>
  The typed wrappers of \<open>src/crypto/\<close>: secrets (\<open>secret.rs\<close>), random bytes (\<open>random.rs\<close>), the four
  AEAD suites behind one interface (\<open>aead.rs\<close>) and the domain-separated key derivation and
  identifiers (\<open>kdf.rs\<close>). Zeroization on drop has no observable value and is left out; the debug
  output of the crate is in \<open>Mef_Debug\<close>.
\<close>

section \<open>Secrets and random bytes\<close>

definition KEY_LEN :: nat where
  "KEY_LEN = 32"

declare KEY_LEN_def [simp]

datatype aead_key = AeadKey (aead_key_bytes: bytes)

datatype secret = Secret (secret_bytes: bytes)

text \<open>The constructors and accessors of both, unfolded wherever they occur.\<close>

definition AeadKey_from_bytes :: "bytes \<Rightarrow> aead_key" where
  "AeadKey_from_bytes bs = AeadKey bs"

definition AeadKey_as_bytes :: "aead_key \<Rightarrow> bytes" where
  "AeadKey_as_bytes key = aead_key_bytes key"

definition Secret_from_bytes :: "bytes \<Rightarrow> secret" where
  "Secret_from_bytes bs = Secret bs"

definition Secret_copy_bytes :: "secret \<Rightarrow> bytes" where
  "Secret_copy_bytes s = secret_bytes s"

declare AeadKey_from_bytes_def [simp] AeadKey_as_bytes_def [simp] Secret_from_bytes_def [simp]
  Secret_copy_bytes_def [simp]

definition fill_secure :: "primitives \<Rightarrow> nat \<Rightarrow> rng \<Rightarrow> bytes res \<times> rng" where
  "fill_secure P n r = (ok_or (sys_rng P r n) RandomnessUnavailable, Suc r)"

definition random_bytes :: "primitives \<Rightarrow> nat \<Rightarrow> rng \<Rightarrow> bytes res \<times> rng" where
  "random_bytes P n = fill_secure P n"

definition AeadKey_generate :: "primitives \<Rightarrow> rng \<Rightarrow> aead_key res \<times> rng" where
  "AeadKey_generate P = io_bind (fill_secure P KEY_LEN) (\<lambda>key. io_lift (Ok (AeadKey key)))"

lemma random_bytes_Ok [res_iff]:
  "random_bytes P n r = (Inr bs, r') \<longleftrightarrow> sys_rng P r n = Some bs \<and> r' = Suc r"
  by (auto simp: random_bytes_def fill_secure_def res_iff)

lemma random_bytes_Inl [res_iff]:
  "random_bytes P n r = (Inl e, r') \<longleftrightarrow>
     sys_rng P r n = None \<and> e = Error RandomnessUnavailable \<and> r' = Suc r"
  by (cases "sys_rng P r n") (auto simp: random_bytes_def fill_secure_def)

lemma random_bytes_length:
  "sizes_ok P \<Longrightarrow> random_bytes P n r = (Inr bs, r') \<Longrightarrow> length bs = n"
  by (auto simp: res_iff dest: sizes_okD)

section \<open>AEAD suites\<close>

datatype aead_suite = Aes256Gcm | Aes256GcmSiv | ChaCha20Poly1305 | XChaCha20Poly1305

definition AEAD_TAG_LEN :: nat where
  "AEAD_TAG_LEN = 16"

definition AES_CHACHA_NONCE_LEN :: nat where
  "AES_CHACHA_NONCE_LEN = 12"

definition XCHACHA_NONCE_LEN :: nat where
  "XCHACHA_NONCE_LEN = 24"

definition AeadSuite_from_id :: "u8 \<Rightarrow> aead_suite res" where
  "AeadSuite_from_id value =
     (if value = 1 then Ok Aes256Gcm
      else if value = 2 then Ok Aes256GcmSiv
      else if value = 3 then Ok ChaCha20Poly1305
      else if value = 4 then Ok XChaCha20Poly1305
      else Err UnsupportedSuite)"

fun AeadSuite_id :: "aead_suite \<Rightarrow> u8" where
  "AeadSuite_id Aes256Gcm = 1"
| "AeadSuite_id Aes256GcmSiv = 2"
| "AeadSuite_id ChaCha20Poly1305 = 3"
| "AeadSuite_id XChaCha20Poly1305 = 4"

fun AeadSuite_nonce_len :: "aead_suite \<Rightarrow> nat" where
  "AeadSuite_nonce_len Aes256Gcm = AES_CHACHA_NONCE_LEN"
| "AeadSuite_nonce_len Aes256GcmSiv = AES_CHACHA_NONCE_LEN"
| "AeadSuite_nonce_len ChaCha20Poly1305 = AES_CHACHA_NONCE_LEN"
| "AeadSuite_nonce_len XChaCha20Poly1305 = XCHACHA_NONCE_LEN"

interpretation suite: wire_enum AeadSuite_id AeadSuite_from_id UnsupportedSuite
proof unfold_locales
  show "AeadSuite_from_id (AeadSuite_id x) = Ok x" for x
    by (cases x) (simp_all add: AeadSuite_from_id_def)
  show "AeadSuite_id x = b" if "AeadSuite_from_id b = Ok x" for b x
    using that by (auto simp: AeadSuite_from_id_def split: if_splits)
  show "e = Error UnsupportedSuite" if "AeadSuite_from_id b = Inl e" for b e
    using that by (auto simp: AeadSuite_from_id_def split: if_splits)
qed

lemma nonce_len_cases: "AeadSuite_nonce_len s = 12 \<or> AeadSuite_nonce_len s = 24"
  by (cases s) (simp_all add: AES_CHACHA_NONCE_LEN_def XCHACHA_NONCE_LEN_def)

lemma nonce_len_bound: "AeadSuite_nonce_len s \<le> 24"
  using nonce_len_cases [of s] by auto

lemma nonce_len_256 [simp]: "AeadSuite_nonce_len s < 256"
  using nonce_len_bound [of s] by simp

text \<open>The length of a wire record never overflows \<open>usize\<close>.\<close>

lemma checked_record_len [simp]:
  "m \<le> 2 ^ 62 \<Longrightarrow> n \<le> 2 ^ 32 \<Longrightarrow>
     Option.bind (checked_add_usize m (AeadSuite_nonce_len s)) (\<lambda>v. checked_add_usize v n)
       = Some (m + AeadSuite_nonce_len s + n)"
  using nonce_len_bound [of s] by (simp add: checked_add_usize_def usize_limit_def)

text \<open>\<open>Ciphertext\<close>; its only constructor outside the module is \<open>from_parts\<close>.\<close>

record ciphertext =
  ct_suite :: aead_suite
  ct_nonce :: bytes
  ct_body :: bytes

text \<open>Its accessors.\<close>

definition Ciphertext_suite :: "ciphertext \<Rightarrow> aead_suite" where
  "Ciphertext_suite c = ct_suite c"

definition Ciphertext_nonce :: "ciphertext \<Rightarrow> bytes" where
  "Ciphertext_nonce c = ct_nonce c"

definition Ciphertext_body :: "ciphertext \<Rightarrow> bytes" where
  "Ciphertext_body c = ct_body c"

declare Ciphertext_suite_def [simp] Ciphertext_nonce_def [simp] Ciphertext_body_def [simp]

definition Ciphertext_from_parts :: "aead_suite \<Rightarrow> bytes \<Rightarrow> bytes \<Rightarrow> ciphertext res" where
  "Ciphertext_from_parts suite nonce body =
     (if length nonce \<noteq> AeadSuite_nonce_len suite
         \<or> \<not> (AEAD_TAG_LEN \<le> length body \<and> length body \<le> MAX_CIPHERTEXT_LEN)
      then Err InvalidLength
      else Ok \<lparr>ct_suite = suite, ct_nonce = nonce, ct_body = body\<rparr>)"

definition ciphertext_ok :: "ciphertext \<Rightarrow> bool" where
  "ciphertext_ok c \<longleftrightarrow>
     length (ct_nonce c) = AeadSuite_nonce_len (ct_suite c) \<and>
     AEAD_TAG_LEN \<le> length (ct_body c) \<and> length (ct_body c) \<le> MAX_CIPHERTEXT_LEN"

lemma from_parts_Ok [res_iff]:
  "Ciphertext_from_parts s n b = Inr c \<longleftrightarrow>
     c = \<lparr>ct_suite = s, ct_nonce = n, ct_body = b\<rparr> \<and> ciphertext_ok c"
  by (auto simp: Ciphertext_from_parts_def ciphertext_ok_def)

lemma from_parts_of_ciphertext [simp]:
  "ciphertext_ok c \<Longrightarrow> Ciphertext_from_parts (ct_suite c) (ct_nonce c) (ct_body c) = Ok c"
  by (simp add: res_iff)

definition validate_inputs :: "bytes \<Rightarrow> bytes \<Rightarrow> unit res" where
  "validate_inputs aad plaintext =
     (if length aad > MAX_AAD_LEN \<or> length plaintext > MAX_CIPHERTEXT_LEN - AEAD_TAG_LEN
      then Err InvalidLength else Ok ())"

text \<open>
  The four arms of the \<open>match\<close> in \<open>seal_with_nonce\<close> and in \<open>open\<close> differ in the cipher only: build
  it from the key, convert the nonce, run it in place on the buffer.
\<close>

definition cipher_seal :: "cipher \<Rightarrow> aead_key \<Rightarrow> bytes \<Rightarrow> bytes \<Rightarrow> bytes \<Rightarrow> bytes res" where
  "cipher_seal c key nonce aad body =
     (if \<not> key_accepted c (aead_key_bytes key) then Err InvalidLength
      else if \<not> nonce_accepted c nonce then Err InvalidLength
      else ok_or (encrypt_in_place c (aead_key_bytes key) nonce aad body) AuthenticationFailed)"

definition cipher_open :: "cipher \<Rightarrow> aead_key \<Rightarrow> bytes \<Rightarrow> bytes \<Rightarrow> bytes \<Rightarrow> bytes res" where
  "cipher_open c key nonce aad body =
     (if \<not> key_accepted c (aead_key_bytes key) then Err InvalidLength
      else if \<not> nonce_accepted c nonce then Err InvalidLength
      else ok_or (decrypt_in_place c (aead_key_bytes key) nonce aad body) AuthenticationFailed)"

definition seal_with_nonce ::
    "primitives \<Rightarrow> aead_key \<Rightarrow> aead_suite \<Rightarrow> bytes \<Rightarrow> bytes \<Rightarrow> bytes \<Rightarrow> ciphertext res" where
  "seal_with_nonce P key suite nonce aad plaintext =
     bind_res (validate_inputs aad plaintext) (\<lambda>_.
     if length nonce \<noteq> AeadSuite_nonce_len suite then Err InvalidLength
     else
       bind_res
         (case suite of
            Aes256Gcm \<Rightarrow> cipher_seal (aes_gcm P) key nonce aad plaintext
          | Aes256GcmSiv \<Rightarrow> cipher_seal (aes_gcm_siv P) key nonce aad plaintext
          | ChaCha20Poly1305 \<Rightarrow> cipher_seal (chacha20_poly1305 P) key nonce aad plaintext
          | XChaCha20Poly1305 \<Rightarrow> cipher_seal (xchacha20_poly1305 P) key nonce aad plaintext)
         (\<lambda>body. Ciphertext_from_parts suite nonce body))"

definition aead_seal ::
    "primitives \<Rightarrow> aead_key \<Rightarrow> aead_suite \<Rightarrow> bytes \<Rightarrow> bytes \<Rightarrow> rng \<Rightarrow> ciphertext res \<times> rng" where
  "aead_seal P key suite aad plaintext =
     io_bind (io_lift (validate_inputs aad plaintext)) (\<lambda>_.
     io_bind (fill_secure P (AeadSuite_nonce_len suite)) (\<lambda>nonce.
     io_lift (seal_with_nonce P key suite nonce aad plaintext)))"

definition aead_open :: "primitives \<Rightarrow> aead_key \<Rightarrow> ciphertext \<Rightarrow> bytes \<Rightarrow> bytes res" where
  "aead_open P key c aad =
     (if length aad > MAX_AAD_LEN then Err InvalidLength
      else
        (case ct_suite c of
           Aes256Gcm \<Rightarrow> cipher_open (aes_gcm P) key (ct_nonce c) aad (ct_body c)
         | Aes256GcmSiv \<Rightarrow> cipher_open (aes_gcm_siv P) key (ct_nonce c) aad (ct_body c)
         | ChaCha20Poly1305 \<Rightarrow> cipher_open (chacha20_poly1305 P) key (ct_nonce c) aad (ct_body c)
         | XChaCha20Poly1305 \<Rightarrow> cipher_open (xchacha20_poly1305 P) key (ct_nonce c) aad (ct_body c)))"

subsection \<open>Sealing and opening\<close>

text \<open>The cipher a suite runs, which is what the two \<open>match\<close> expressions select.\<close>

fun suite_cipher :: "primitives \<Rightarrow> aead_suite \<Rightarrow> cipher" where
  "suite_cipher P Aes256Gcm = aes_gcm P"
| "suite_cipher P Aes256GcmSiv = aes_gcm_siv P"
| "suite_cipher P ChaCha20Poly1305 = chacha20_poly1305 P"
| "suite_cipher P XChaCha20Poly1305 = xchacha20_poly1305 P"

lemma suite_cipher_ok:
  "aeads_ok P \<Longrightarrow> cipher_ok (AeadSuite_nonce_len s) (suite_cipher P s)"
  by (cases s) (simp_all add: aeads_ok_def AES_CHACHA_NONCE_LEN_def XCHACHA_NONCE_LEN_def)

lemma seal_with_nonce_suite_cipher:
  "seal_with_nonce P key s nonce aad pt =
     bind_res (validate_inputs aad pt) (\<lambda>_.
     if length nonce \<noteq> AeadSuite_nonce_len s then Err InvalidLength
     else bind_res (cipher_seal (suite_cipher P s) key nonce aad pt)
            (Ciphertext_from_parts s nonce))"
  by (cases s) (simp_all add: seal_with_nonce_def)

lemma aead_open_suite_cipher:
  "aead_open P key c aad =
     (if length aad > MAX_AAD_LEN then Err InvalidLength
      else cipher_open (suite_cipher P (ct_suite c)) key (ct_nonce c) aad (ct_body c))"
  by (cases "ct_suite c") (simp_all add: aead_open_def)

lemma validate_inputs_Ok [res_iff]:
  "validate_inputs aad pt = Inr u \<longleftrightarrow>
     length aad \<le> MAX_AAD_LEN \<and> length pt \<le> MAX_CIPHERTEXT_LEN - AEAD_TAG_LEN"
  by (auto simp: validate_inputs_def)

lemma cipher_seal_Ok [res_iff]:
  "cipher_seal c k v a m = Inr b \<longleftrightarrow>
     key_accepted c (aead_key_bytes k) \<and> nonce_accepted c v \<and>
     encrypt_in_place c (aead_key_bytes k) v a m = Some b"
  by (auto simp: cipher_seal_def res_iff)

lemma cipher_open_Ok [res_iff]:
  "cipher_open c k v a b = Inr m \<longleftrightarrow>
     key_accepted c (aead_key_bytes k) \<and> nonce_accepted c v \<and>
     decrypt_in_place c (aead_key_bytes k) v a b = Some m"
  by (auto simp: cipher_open_def res_iff)

lemma seal_with_nonce_Ok:
  "seal_with_nonce P key s nonce aad pt = Inr c \<longleftrightarrow>
     length aad \<le> MAX_AAD_LEN \<and> length pt \<le> MAX_CIPHERTEXT_LEN - AEAD_TAG_LEN \<and>
     cipher_seal (suite_cipher P s) key nonce aad pt = Inr (ct_body c) \<and>
     ct_suite c = s \<and> ct_nonce c = nonce \<and> ciphertext_ok c"
  by (auto simp: seal_with_nonce_suite_cipher res_iff ciphertext_ok_def)

lemma seal_with_nonce_total:
  assumes "aeads_ok P" "length (aead_key_bytes key) = 32" "length nonce = AeadSuite_nonce_len s"
    "length aad \<le> MAX_AAD_LEN" "length pt \<le> MAX_CIPHERTEXT_LEN - AEAD_TAG_LEN"
  shows "\<exists>c. seal_with_nonce P key s nonce aad pt = Inr c"
proof -
  note law = cipher_okD [OF suite_cipher_ok [OF assms(1), of s]]
  have "length pt < 2 ^ 20"
    using assms(5) by (simp add: MAX_CIPHERTEXT_LEN_def AEAD_TAG_LEN_def)
  then obtain b where b: "encrypt_in_place (suite_cipher P s) (aead_key_bytes key) nonce aad pt = Some b"
    using law(3) assms(2,3) by blast
  with law(4) have "length b = length pt + 16" by blast
  with b law(1,2) assms show ?thesis
    by (intro exI [of _ "\<lparr>ct_suite = s, ct_nonce = nonce, ct_body = b\<rparr>"])
       (simp add: seal_with_nonce_Ok res_iff ciphertext_ok_def MAX_CIPHERTEXT_LEN_def AEAD_TAG_LEN_def)
qed

lemma seal_with_nonce_body_length:
  assumes "aeads_ok P" "seal_with_nonce P key s nonce aad pt = Inr c"
  shows "length (ct_body c) = length pt + AEAD_TAG_LEN"
proof -
  have "encrypt_in_place (suite_cipher P s) (aead_key_bytes key) nonce aad pt = Some (ct_body c)"
    using assms(2) by (simp add: seal_with_nonce_Ok res_iff)
  then show ?thesis
    using cipher_okD(4) [OF suite_cipher_ok [OF assms(1)]] by (simp add: AEAD_TAG_LEN_def)
qed

text \<open>
  Opening accepts exactly what sealing under the same key, nonce and associated data produces.
\<close>

lemma open_iff_seal:
  assumes "aeads_ok P" "ciphertext_ok c" "length aad \<le> MAX_AAD_LEN"
  shows "aead_open P key c aad = Inr pt \<longleftrightarrow>
    seal_with_nonce P key (ct_suite c) (ct_nonce c) aad pt = Inr c"
proof -
  note law = cipher_okD [OF suite_cipher_ok [OF assms(1), of "ct_suite c"]]
  have "length pt \<le> MAX_CIPHERTEXT_LEN - AEAD_TAG_LEN"
    if "encrypt_in_place (suite_cipher P (ct_suite c)) (aead_key_bytes key) (ct_nonce c) aad pt
        = Some (ct_body c)"
    using law(4) [OF that] assms(2) by (auto simp: ciphertext_ok_def AEAD_TAG_LEN_def)
  then show ?thesis
    using assms law(5)
    by (auto simp: aead_open_suite_cipher seal_with_nonce_Ok res_iff)
qed

lemma aead_seal_Ok:
  "aead_seal P key s aad pt r = (Inr c, r') \<longleftrightarrow>
     (\<exists>nonce. sys_rng P r (AeadSuite_nonce_len s) = Some nonce \<and> r' = Suc r \<and>
        seal_with_nonce P key s nonce aad pt = Inr c)"
  by (auto simp: aead_seal_def res_iff fill_secure_def seal_with_nonce_Ok io_lift_def)

lemma aead_seal_total:
  assumes "aeads_ok P" "sizes_ok P" "length (aead_key_bytes key) = 32"
    "length aad \<le> MAX_AAD_LEN" "length pt \<le> MAX_CIPHERTEXT_LEN - AEAD_TAG_LEN"
    "sys_rng P r (AeadSuite_nonce_len s) = Some nonce"
  shows "\<exists>c. aead_seal P key s aad pt r = (Inr c, Suc r)"
proof -
  have "length nonce = AeadSuite_nonce_len s"
    using assms(2,6) by (simp add: sizes_okD)
  with seal_with_nonce_total [OF assms(1,3) _ assms(4,5)] assms(6) show ?thesis
    by (auto simp: aead_seal_Ok)
qed

lemma aead_seal_ciphertext:
  assumes "aead_seal P key s aad pt r = (Inr c, r')"
  shows "ciphertext_ok c" "ct_suite c = s" "length aad \<le> MAX_AAD_LEN"
    "length pt \<le> MAX_CIPHERTEXT_LEN - AEAD_TAG_LEN"
  using assms by (auto simp: aead_seal_Ok seal_with_nonce_Ok)

lemma aead_seal_body_length:
  "aeads_ok P \<Longrightarrow> aead_seal P key s aad pt r = (Inr c, r') \<Longrightarrow>
     length (ct_body c) = length pt + AEAD_TAG_LEN"
  by (auto simp: aead_seal_Ok dest: seal_with_nonce_body_length)

lemma open_seal:
  assumes "aeads_ok P" "aead_seal P key s aad pt r = (Inr c, r')"
  shows "aead_open P key c aad = Inr pt"
proof -
  note parts = aead_seal_ciphertext [OF assms(2)]
  from assms(2) obtain nonce where "seal_with_nonce P key s nonce aad pt = Inr c"
    by (auto simp: aead_seal_Ok)
  moreover from this have "ct_nonce c = nonce" by (simp add: seal_with_nonce_Ok)
  ultimately show ?thesis
    using open_iff_seal [OF assms(1) parts(1) parts(3)] parts(2) by simp
qed

section \<open>Key derivation\<close>

definition domain_label :: "bytes \<Rightarrow> bytes \<Rightarrow> bytes" where
  "domain_label kind label = PROTOCOL_ID @ [0] @ kind @ [0] @ label"

definition derive_secret :: "primitives \<Rightarrow> bytes \<Rightarrow> bytes \<Rightarrow> bytes \<Rightarrow> secret res" where
  "derive_secret P salt label input =
     (if label = [] \<or> length label > 255 \<or> length input > MAX_CIPHERTEXT_LEN
      then Err InvalidLength
      else
        bind_res
          (ok_or (hkdf_expand P salt input (domain_label (ascii ''kdf'') label) 32) KeyDerivationFailed)
          (\<lambda>output. Ok (Secret output)))"

definition derive_aead_key :: "primitives \<Rightarrow> bytes \<Rightarrow> bytes \<Rightarrow> bytes \<Rightarrow> aead_key res" where
  "derive_aead_key P salt label input =
     bind_res (derive_secret P salt label input) (\<lambda>secret.
     Ok (AeadKey_from_bytes (Secret_copy_bytes secret)))"

text \<open>The update loop of \<open>blake3_id\<close>, on what the hasher has absorbed so far.\<close>

fun blake3_absorb :: "bytes \<Rightarrow> bytes list \<Rightarrow> bytes res" where
  "blake3_absorb hasher [] = Ok hasher"
| "blake3_absorb hasher (part # parts) =
     bind_res (ok_or (word_try_from (length part) :: u64 option) InvalidLength) (\<lambda>len.
     blake3_absorb (hasher @ to_be_bytes len @ part) parts)"

definition blake3_id :: "primitives \<Rightarrow> bytes \<Rightarrow> bytes list \<Rightarrow> bytes res" where
  "blake3_id P label parts =
     (if label = [] \<or> length label > 255 \<or> (\<exists>part \<in> set parts. length part > MAX_CIPHERTEXT_LEN)
      then Err InvalidLength
      else
        bind_res (blake3_absorb (PROTOCOL_ID @ [0] @ ascii ''blake3-id'' @ [0] @ label) parts)
          (\<lambda>hasher. Ok (blake3 P hasher)))"

lemma blake3_id_length:
  "sizes_ok P \<Longrightarrow> blake3_id P label parts = Inr h \<Longrightarrow> length h = 32"
  by (auto simp: blake3_id_def res_iff sizes_okD split: if_splits)

lemma derive_secret_length:
  "sizes_ok P \<Longrightarrow> derive_secret P salt label input = Inr s \<Longrightarrow> length (secret_bytes s) = 32"
  by (auto simp: derive_secret_def res_iff sizes_okD split: if_splits)

lemma derive_aead_key_length:
  "sizes_ok P \<Longrightarrow> derive_aead_key P salt label input = Inr k \<Longrightarrow> length (aead_key_bytes k) = 32"
  by (auto simp: derive_aead_key_def res_iff derive_secret_length)

lemma derive_secret_total:
  assumes "hkdf_total P" "label \<noteq> []" "length label \<le> 255" "length input \<le> MAX_CIPHERTEXT_LEN"
  shows "\<exists>s. derive_secret P salt label input = Inr s"
proof -
  obtain bs where "hkdf_expand P salt input (domain_label (ascii ''kdf'') label) 32 = Some bs"
    using hkdf_totalD [OF assms(1), of 32 salt input] by auto
  with assms show ?thesis by (simp add: derive_secret_def)
qed

lemma derive_aead_key_total:
  assumes "hkdf_total P" "label \<noteq> []" "length label \<le> 255" "length input \<le> MAX_CIPHERTEXT_LEN"
  shows "\<exists>k. derive_aead_key P salt label input = Inr k"
proof -
  obtain s where "derive_secret P salt label input = Inr s"
    using derive_secret_total [OF assms] by blast
  then show ?thesis by (simp add: derive_aead_key_def)
qed

lemma derive_secret_error:
  "derive_secret P salt label input = Inl e \<Longrightarrow> e = Error InvalidLength \<or> e = Error KeyDerivationFailed"
  by (auto simp: derive_secret_def ok_or_def split: if_splits option.splits)

text \<open>The parts are length-delimited: what is absorbed determines them.\<close>

fun delimited :: "bytes list \<Rightarrow> bytes" where
  "delimited [] = []"
| "delimited (p # ps) = to_be_bytes (word_of_nat (length p) :: u64) @ p @ delimited ps"

definition blake3_transcript :: "bytes \<Rightarrow> bytes list \<Rightarrow> bytes" where
  "blake3_transcript label parts = PROTOCOL_ID @ [0] @ ascii ''blake3-id'' @ [0] @ label @ delimited parts"

lemma blake3_absorb_delimited:
  "\<forall>p \<in> set ps. length p \<le> MAX_CIPHERTEXT_LEN \<Longrightarrow> blake3_absorb h ps = Ok (h @ delimited ps)"
  by (induction ps arbitrary: h) (simp_all add: word_try_from_def MAX_CIPHERTEXT_LEN_def)

lemma length_prefix_not_Nil [simp]: "to_be_bytes (n :: u64) \<noteq> []"
  using length_to_be_bytes [of n] by (auto simp del: length_to_be_bytes)

lemma length_prefix_inj:
  assumes "length p \<le> MAX_CIPHERTEXT_LEN" "length q \<le> MAX_CIPHERTEXT_LEN"
  shows "(word_of_nat (length p) :: u64) = word_of_nat (length q) \<longleftrightarrow> length p = length q"
proof -
  have "unat (word_of_nat (length p) :: u64) = length p" "unat (word_of_nat (length q) :: u64) = length q"
    using assms by (simp_all add: unat_of_nat MAX_CIPHERTEXT_LEN_def)
  then show ?thesis by metis
qed

lemma delimited_inj:
  assumes "\<forall>p \<in> set ps \<union> set qs. length p \<le> MAX_CIPHERTEXT_LEN"
  shows "delimited ps = delimited qs \<longleftrightarrow> ps = qs"
  using assms
proof (induction ps arbitrary: qs)
  case Nil
  show ?case by (cases qs) simp_all
next
  case (Cons p ps)
  show ?case
  proof (cases qs)
    case (Cons q qs')
    with Cons.IH [of qs'] Cons.prems length_prefix_inj [of p q] show ?thesis by auto
  qed simp
qed

lemma blake3_id_Ok:
  "blake3_id P label parts = Inr h \<longleftrightarrow>
     label \<noteq> [] \<and> length label \<le> 255 \<and> (\<forall>p \<in> set parts. length p \<le> MAX_CIPHERTEXT_LEN) \<and>
     h = blake3 P (blake3_transcript label parts)"
  by (auto simp: blake3_id_def blake3_transcript_def blake3_absorb_delimited not_le not_less)

lemma blake3_id_total:
  assumes "label \<noteq> []" "length label \<le> 255" "\<forall>p \<in> set ps. length p \<le> MAX_CIPHERTEXT_LEN"
  shows "\<exists>h. blake3_id P label ps = Ok h"
  using assms by (simp add: blake3_id_Ok)

text \<open>Two part lists under one label have one transcript only if they are equal.\<close>

lemma blake3_id_binds:
  assumes "blake3_id P label ps = Ok h" "blake3_id P label qs = Ok h"
  shows "h = blake3 P (blake3_transcript label ps)" "h = blake3 P (blake3_transcript label qs)"
    "blake3_transcript label ps = blake3_transcript label qs \<longleftrightarrow> ps = qs"
proof -
  show "h = blake3 P (blake3_transcript label ps)" "h = blake3 P (blake3_transcript label qs)"
    using assms by (simp_all add: blake3_id_Ok)
  have "\<forall>p \<in> set ps \<union> set qs. length p \<le> MAX_CIPHERTEXT_LEN" using assms by (auto simp: blake3_id_Ok)
  then show "blake3_transcript label ps = blake3_transcript label qs \<longleftrightarrow> ps = qs"
    by (simp add: blake3_transcript_def delimited_inj)
qed

section \<open>Comparison\<close>

text \<open>The comparison \<open>ct_eq\<close>; that of the \<open>subtle\<close> crate is its argument.\<close>

definition ct_eq :: "(bytes \<Rightarrow> bytes \<Rightarrow> bool) \<Rightarrow> bytes \<Rightarrow> bytes \<Rightarrow> bool" where
  "ct_eq subtle left right \<longleftrightarrow> length left = length right \<and> subtle left right"

text \<open>What the documentation of the \<open>subtle\<close> crate promises.\<close>

definition subtle_ok :: "(bytes \<Rightarrow> bytes \<Rightarrow> bool) \<Rightarrow> bool" where
  "subtle_ok subtle \<longleftrightarrow> (\<forall>left right. length left = length right \<longrightarrow> (subtle left right \<longleftrightarrow> left = right))"

lemma ct_eq_equal: "subtle_ok subtle \<Longrightarrow> ct_eq subtle left right \<longleftrightarrow> left = right"
  by (auto simp: ct_eq_def subtle_ok_def)

lemma subtle_ok_equality: "subtle_ok (=)"
  by (simp add: subtle_ok_def)

section \<open>No panics\<close>

lemma ok_or_no_panic [simp]: "ok_or m e \<noteq> Panics"
  by (cases m) simp_all

lemma aead_open_no_panic [simp]: "aead_open P key c aad \<noteq> Panics"
  by (simp add: aead_open_suite_cipher cipher_open_def)

lemma seal_with_nonce_no_panic [simp]: "seal_with_nonce P key s nonce aad pt \<noteq> Panics"
  by (auto simp: seal_with_nonce_suite_cipher bind_res_Inl cipher_seal_def validate_inputs_def
      Ciphertext_from_parts_def)

lemma aead_seal_no_panic [simp]: "aead_seal P key s aad pt r \<noteq> (Panics, r')"
  by (auto simp: aead_seal_def io_bind_Inl io_lift_def validate_inputs_def fill_secure_def)

lemma derive_secret_no_panic [simp]: "derive_secret P salt label input \<noteq> Panics"
  by (auto dest: derive_secret_error)

lemma blake3_absorb_no_panic [simp]: "blake3_absorb h parts \<noteq> Panics"
  by (induction parts arbitrary: h) (auto simp: bind_res_Inl)

lemma blake3_id_no_panic [simp]: "blake3_id P label parts \<noteq> Panics"
  by (auto simp: blake3_id_def bind_res_Inl)

end
