(* ===== verification/Mef_Schedule.thy ===== *)
theory Mef_Schedule
  imports Mef_Crypto
begin

text \<open>
  The ratchet key schedule of \<open>src/ratchet/schedule.rs\<close>: one step of a symmetric chain, one step of
  the root key, and the bounded derivation of a range of message keys. Under the promise that HKDF
  expansion succeeds the chain is a plain iteration, and the range functions are shown to compute
  exactly its keys.
\<close>

section \<open>The schedule\<close>

type_synonym skipped_keys = "(u32 \<times> aead_key) list"
type_synonym derived_message = "secret \<times> aead_key \<times> skipped_keys"

definition ROOT_LABEL :: bytes where
  "ROOT_LABEL = ascii ''ratchet-root-v1''"

definition ROOT_CHAIN_LABEL :: bytes where
  "ROOT_CHAIN_LABEL = ascii ''ratchet-root-chain-v1''"

definition CHAIN_KEY_LABEL :: bytes where
  "CHAIN_KEY_LABEL = ascii ''ratchet-chain-next-v1''"

definition MESSAGE_KEY_LABEL :: bytes where
  "MESSAGE_KEY_LABEL = ascii ''ratchet-message-key-v1''"

definition chain_step :: "primitives \<Rightarrow> secret \<Rightarrow> (secret \<times> aead_key) res" where
  "chain_step P chain_key =
     (let bytes = secret_bytes chain_key in
      bind_res (derive_secret P bytes CHAIN_KEY_LABEL [2]) (\<lambda>next.
      bind_res (derive_aead_key P bytes MESSAGE_KEY_LABEL [1]) (\<lambda>key.
      Ok (next, key))))"

definition root_step :: "primitives \<Rightarrow> secret \<Rightarrow> bytes \<Rightarrow> (secret \<times> secret) res" where
  "root_step P root_key dh_output =
     (let root_bytes = secret_bytes root_key in
      bind_res (derive_secret P root_bytes ROOT_LABEL dh_output) (\<lambda>next_root.
      bind_res (derive_secret P (secret_bytes next_root) ROOT_CHAIN_LABEL dh_output) (\<lambda>chain_key.
      Ok (next_root, chain_key))))"

text \<open>The loop of \<open>derive_range\<close>: the current chain key and the keys collected so far.\<close>

fun derive_range_loop ::
    "primitives \<Rightarrow> secret \<Rightarrow> skipped_keys \<Rightarrow> u32 list \<Rightarrow> (secret \<times> skipped_keys) res" where
  "derive_range_loop P current skipped [] = Ok (current, skipped)"
| "derive_range_loop P current skipped (number # numbers) =
     bind_res (chain_step P current) (\<lambda>(next, key).
     derive_range_loop P next (skipped @ [(number, key)]) numbers)"

definition derive_range ::
    "primitives \<Rightarrow> secret \<Rightarrow> u32 \<Rightarrow> u32 \<Rightarrow> nat \<Rightarrow> (secret \<times> skipped_keys) res" where
  "derive_range P chain_key start end_exclusive existing_skipped =
     (if end_exclusive < start then Err RatchetStateMismatch
      else
        let additional = unat (end_exclusive - start) in
        case checked_add_usize existing_skipped additional of
          None \<Rightarrow> Err SkippedKeyLimitExceeded
        | Some kept \<Rightarrow>
            if \<not> kept \<le> MAX_SKIPPED_KEYS then Err SkippedKeyLimitExceeded
            else derive_range_loop P chain_key [] (map word_of_nat [unat start ..< unat end_exclusive]))"

definition derive_for_message ::
    "primitives \<Rightarrow> secret \<Rightarrow> u32 \<Rightarrow> u32 \<Rightarrow> nat \<Rightarrow> derived_message res" where
  "derive_for_message P chain_key current_count target existing_skipped =
     bind_res (derive_range P chain_key current_count target existing_skipped)
       (\<lambda>(before_target, skipped).
     bind_res (chain_step P before_target) (\<lambda>(next_chain, message_key).
     Ok (next_chain, message_key, skipped)))"

section \<open>Shape of the results\<close>

lemma labels_ok:
  "CHAIN_KEY_LABEL \<noteq> []" "length CHAIN_KEY_LABEL \<le> 255"
  "MESSAGE_KEY_LABEL \<noteq> []" "length MESSAGE_KEY_LABEL \<le> 255"
  "ROOT_LABEL \<noteq> []" "length ROOT_LABEL \<le> 255"
  "ROOT_CHAIN_LABEL \<noteq> []" "length ROOT_CHAIN_LABEL \<le> 255"
  by (simp_all add: CHAIN_KEY_LABEL_def MESSAGE_KEY_LABEL_def ROOT_LABEL_def ROOT_CHAIN_LABEL_def
      ascii_def)

lemma chain_step_length:
  "sizes_ok P \<Longrightarrow> chain_step P c = Inr (n, k) \<Longrightarrow>
     length (secret_bytes n) = 32 \<and> length (aead_key_bytes k) = 32"
  by (auto simp: chain_step_def res_iff Let_def derive_secret_length derive_aead_key_length)

lemma root_step_length:
  "sizes_ok P \<Longrightarrow> root_step P c z = Inr (n, k) \<Longrightarrow>
     length (secret_bytes n) = 32 \<and> length (secret_bytes k) = 32"
  by (auto simp: root_step_def res_iff Let_def derive_secret_length)

lemma derive_range_loop_shape:
  assumes "derive_range_loop P c sk ns = Inr (c', sk')"
  shows "\<exists>new. sk' = sk @ new \<and> map fst new = ns"
  using assms by (induction ns arbitrary: c sk) (fastforce simp: bind_res_Ok)+

lemma derive_range_loop_length:
  assumes "sizes_ok P" "derive_range_loop P c sk ns = Inr (c', sk')"
    "length (secret_bytes c) = 32" "\<forall>e \<in> set sk. length (aead_key_bytes (snd e)) = 32"
  shows "length (secret_bytes c') = 32 \<and> (\<forall>e \<in> set sk'. length (aead_key_bytes (snd e)) = 32)"
  using assms(2-4)
proof (induction ns arbitrary: c sk)
  case (Cons n ns)
  then obtain c1 k where step: "chain_step P c = Inr (c1, k)"
    and rest: "derive_range_loop P c1 (sk @ [(n, k)]) ns = Inr (c', sk')"
    by (auto simp: bind_res_Ok)
  from chain_step_length [OF assms(1) step] Cons.prems(3) show ?case
    by (intro Cons.IH [OF rest]) auto
qed simp

lemma unat_diff_u32: "(s :: u32) \<le> e \<Longrightarrow> unat (e - s) = unat e - unat s"
  by (rule unat_sub)

text \<open>A range that is derived has the requested numbers and fits beside the keys already kept.\<close>

lemma derive_range_shape:
  assumes "derive_range P c s e existing = Inr (c', skipped)"
  shows "s \<le> e" "map fst skipped = map word_of_nat [unat s ..< unat e]"
    "length skipped = unat e - unat s" "existing + length skipped \<le> MAX_SKIPPED_KEYS"
proof -
  from assms have loop: "derive_range_loop P c [] (map word_of_nat [unat s ..< unat e]) = Inr (c', skipped)"
    and se: "s \<le> e" and fits: "existing + unat (e - s) \<le> MAX_SKIPPED_KEYS"
    by (auto simp: derive_range_def Let_def checked_add_usize_def split: if_splits)
  show "s \<le> e" by (rule se)
  show m: "map fst skipped = map word_of_nat [unat s ..< unat e]"
    using derive_range_loop_shape [OF loop] by simp
  from arg_cong [OF m, of length] show "length skipped = unat e - unat s" by simp
  with fits se show "existing + length skipped \<le> MAX_SKIPPED_KEYS" by (simp add: unat_diff_u32)
qed

lemma derive_range_length:
  assumes "sizes_ok P" "length (secret_bytes c) = 32" "derive_range P c s e existing = Inr (c', skipped)"
  shows "length (secret_bytes c') = 32" "\<forall>e \<in> set skipped. length (aead_key_bytes (snd e)) = 32"
  using assms derive_range_loop_length [OF assms(1), of c "[]"]
  by (auto simp: derive_range_def Let_def split: if_splits option.splits)

lemma derive_for_message_Ok:
  "derive_for_message P c s t existing = Inr (c', k, skipped) \<longleftrightarrow>
     (\<exists>before. derive_range P c s t existing = Inr (before, skipped) \<and> chain_step P before = Inr (c', k))"
  by (fastforce simp: derive_for_message_def bind_res_Ok split: prod.splits)

text \<open>The schedule never panics.\<close>

lemma chain_step_no_panic [simp]: "chain_step P c \<noteq> Panics"
  by (auto simp: chain_step_def Let_def derive_aead_key_def bind_res_Inl)

lemma root_step_no_panic [simp]: "root_step P c z \<noteq> Panics"
  by (auto simp: root_step_def Let_def bind_res_Inl)

lemma derive_range_loop_no_panic [simp]: "derive_range_loop P c sk ns \<noteq> Panics"
  by (induction ns arbitrary: c sk) (auto simp: bind_res_Inl)

lemma derive_range_no_panic [simp]: "derive_range P c s e n \<noteq> Panics"
  by (auto simp: derive_range_def Let_def split: option.splits)

lemma derive_for_message_no_panic [simp]: "derive_for_message P c s e n \<noteq> Panics"
  by (auto simp: derive_for_message_def bind_res_Inl)

section \<open>The chain as an iteration\<close>

text \<open>The next chain key and the message key of a chain key, when HKDF succeeds.\<close>

definition chain_next :: "primitives \<Rightarrow> secret \<Rightarrow> secret" where
  "chain_next P c =
     Secret (the (hkdf_expand P (secret_bytes c) [2] (domain_label (ascii ''kdf'') CHAIN_KEY_LABEL) 32))"

definition chain_message :: "primitives \<Rightarrow> secret \<Rightarrow> aead_key" where
  "chain_message P c =
     AeadKey (the (hkdf_expand P (secret_bytes c) [1] (domain_label (ascii ''kdf'') MESSAGE_KEY_LABEL) 32))"

text \<open>The chain key and the message key number \<open>n\<close> of the chain that starts at \<open>c\<close>.\<close>

fun chain_at :: "primitives \<Rightarrow> secret \<Rightarrow> nat \<Rightarrow> secret" where
  "chain_at P c 0 = c"
| "chain_at P c (Suc n) = chain_next P (chain_at P c n)"

definition key_at :: "primitives \<Rightarrow> secret \<Rightarrow> nat \<Rightarrow> aead_key" where
  "key_at P c n = chain_message P (chain_at P c n)"

lemma chain_at_add: "chain_at P (chain_at P c m) n = chain_at P c (m + n)"
  by (induction n) simp_all

lemma key_at_add: "key_at P (chain_at P c m) n = key_at P c (m + n)"
  by (simp add: key_at_def chain_at_add)

lemma chain_step_total:
  assumes "hkdf_total P"
  shows "chain_step P c = Ok (chain_next P c, chain_message P c)"
proof -
  have "\<exists>x. hkdf_expand P salt ikm info 32 = Some x" for salt ikm info
    using hkdf_totalD [OF assms, of 32] by simp
  then obtain f where "hkdf_expand P salt ikm info 32 = Some (f salt ikm info)" for salt ikm info
    by metis
  then show ?thesis
    using labels_ok
    by (simp add: chain_step_def derive_aead_key_def derive_secret_def chain_next_def chain_message_def
        Let_def MAX_CIPHERTEXT_LEN_def)
qed

lemma chain_message_length: "sizes_ok P \<Longrightarrow> hkdf_total P \<Longrightarrow> length (aead_key_bytes (chain_message P c)) = 32"
  using chain_step_length [OF _ chain_step_total] by blast

lemma root_step_total:
  assumes "hkdf_total P" "length z \<le> MAX_CIPHERTEXT_LEN"
  shows "\<exists>n k. root_step P c z = Ok (n, k)"
proof -
  obtain n where "derive_secret P (secret_bytes c) ROOT_LABEL z = Ok n"
    using derive_secret_total [OF assms(1) labels_ok(5,6) assms(2)] by blast
  moreover obtain k where "derive_secret P (secret_bytes n) ROOT_CHAIN_LABEL z = Ok k"
    using derive_secret_total [OF assms(1) labels_ok(7,8) assms(2)] by blast
  ultimately show ?thesis by (simp add: root_step_def)
qed

text \<open>The numbered keys \<open>s, \<dots>, e - 1\<close> of a chain.\<close>

definition numbered_keys :: "primitives \<Rightarrow> secret \<Rightarrow> nat \<Rightarrow> nat \<Rightarrow> (u32 \<times> aead_key) list" where
  "numbered_keys P c s e = map (\<lambda>i. (word_of_nat i, key_at P c i)) [s ..< e]"

lemma derive_range_loop_total:
  assumes "hkdf_total P"
  shows "derive_range_loop P (chain_at P c s) sk (map word_of_nat [s ..< s + n]) =
    Ok (chain_at P c (s + n), sk @ numbered_keys P c s (s + n))"
proof (induction n arbitrary: s sk)
  case (Suc n)
  have up: "[s ..< s + Suc n] = s # [Suc s ..< Suc s + n]" by (simp add: upt_rec)
  have step: "chain_step P (chain_at P c s) = Ok (chain_at P c (Suc s), key_at P c s)"
    using chain_step_total [OF assms] by (simp add: key_at_def)
  show ?case
    unfolding up numbered_keys_def
    using Suc.IH [of "Suc s" "sk @ [(word_of_nat s, key_at P c s)]"]
    by (simp add: step numbered_keys_def)
qed (simp add: numbered_keys_def)

text \<open>What \<open>derive_range\<close> and \<open>derive_for_message\<close> compute, on every branch.\<close>

lemma derive_range_total:
  assumes "hkdf_total P" "existing \<le> MAX_SKIPPED_KEYS"
  shows "derive_range P (chain_at P c (unat s)) s e existing =
    (if e < s then Err RatchetStateMismatch
     else if existing + (unat e - unat s) > MAX_SKIPPED_KEYS then Err SkippedKeyLimitExceeded
     else Ok (chain_at P c (unat e), numbered_keys P c (unat s) (unat e)))"
proof (cases "e < s")
  case False
  then have le: "unat s \<le> unat e" by (simp add: word_le_nat_alt not_less)
  have e: "unat e < 2 ^ 32" using unsigned_less [of e, where ?'a = nat] by simp
  have loop: "derive_range_loop P (chain_at P c (unat s)) [] (map word_of_nat [unat s ..< unat e]) =
    Ok (chain_at P c (unat e), numbered_keys P c (unat s) (unat e))"
    using derive_range_loop_total [OF assms(1), of c "unat s" "[]" "unat e - unat s"] le by simp
  have fits: "existing + (unat e - unat s) < usize_limit"
    using assms(2) e by (simp add: usize_limit_def MAX_SKIPPED_KEYS_def)
  from False have "s \<le> e" by simp
  with False loop fits show ?thesis
    by (simp add: derive_range_def Let_def unat_diff_u32 checked_add_usize_def)
qed (simp add: derive_range_def)

lemma derive_range_exists:
  assumes "hkdf_total P" "s \<le> e" "existing + (unat e - unat s) \<le> MAX_SKIPPED_KEYS"
  shows "\<exists>c' skipped. derive_range P c s e existing = Ok (c', skipped)"
proof -
  have "\<exists>c' sk'. derive_range_loop P c sk ns = Ok (c', sk')" for c sk ns
    by (induction ns arbitrary: c sk) (simp_all add: chain_step_total [OF assms(1)])
  with assms(2,3) show ?thesis
    by (simp add: derive_range_def Let_def unat_diff_u32 checked_add_usize_def usize_limit_def
        MAX_SKIPPED_KEYS_def)
qed

lemma derive_for_message_total:
  assumes "hkdf_total P" "existing \<le> MAX_SKIPPED_KEYS"
  shows "derive_for_message P (chain_at P c (unat s)) s t existing =
    (if t < s then Err RatchetStateMismatch
     else if existing + (unat t - unat s) > MAX_SKIPPED_KEYS then Err SkippedKeyLimitExceeded
     else Ok (chain_at P c (Suc (unat t)), key_at P c (unat t), numbered_keys P c (unat s) (unat t)))"
  using chain_step_total [OF assms(1)]
  by (simp add: derive_for_message_def derive_range_total [OF assms] key_at_def)

text \<open>From any chain key, without a bound on the numbers.\<close>

lemma derive_range_loop_chain:
  assumes "hkdf_total P"
  shows "derive_range_loop P c sk ns = Inr (c', sk') \<Longrightarrow> c' = chain_at P c (length ns)"
proof (induction ns arbitrary: c sk)
  case (Cons n ns)
  then have "derive_range_loop P (chain_next P c) (sk @ [(n, chain_message P c)]) ns = Inr (c', sk')"
    by (simp add: chain_step_total [OF assms])
  from Cons.IH [OF this] chain_at_add [of P c 1 "length ns"] show ?case by simp
qed simp

lemma derive_for_message_key:
  assumes P: "hkdf_total P" and run: "derive_for_message P c s t existing = Inr (c', k, skipped)"
  shows "k = key_at P c (unat t - unat s)"
proof -
  obtain before where range: "derive_range P c s t existing = Inr (before, skipped)"
    and step: "chain_step P before = Inr (c', k)"
    using run by (auto simp: derive_for_message_Ok)
  have "derive_range_loop P c [] (map word_of_nat [unat s ..< unat t]) = Inr (before, skipped)"
    using range by (auto simp: derive_range_def Let_def split: if_splits option.splits)
  from derive_range_loop_chain [OF P this] step show ?thesis
    by (simp add: chain_step_total [OF P] key_at_def)
qed

end
