(* ===== verification/Mef_Frame.thy ===== *)
theory Mef_Frame
  imports Mef_Crypto
begin

text \<open>
  Inner frames of \<open>src/frame/\<close>: the authenticated header (\<open>header.rs\<close>) and the canonical bounded wire
  format with its parsers (\<open>wire.rs\<close>).
\<close>

section \<open>Header (header.rs)\<close>

datatype frame_kind = Init | Message | Ack | Control | Reset

definition FrameKind_from_id :: "u8 \<Rightarrow> frame_kind res" where
  "FrameKind_from_id value =
     (if value = 1 then Ok Init
      else if value = 2 then Ok Message
      else if value = 3 then Ok Ack
      else if value = 4 then Ok Control
      else if value = 5 then Ok Reset
      else Err InvalidFrame)"

fun FrameKind_id :: "frame_kind \<Rightarrow> u8" where
  "FrameKind_id Init = 1"
| "FrameKind_id Message = 2"
| "FrameKind_id Ack = 3"
| "FrameKind_id Control = 4"
| "FrameKind_id Reset = 5"

interpretation kind: wire_enum FrameKind_id FrameKind_from_id InvalidFrame
proof unfold_locales
  show "FrameKind_from_id (FrameKind_id x) = Ok x" for x
    by (cases x) (simp_all add: FrameKind_from_id_def)
  show "FrameKind_id x = b" if "FrameKind_from_id b = Ok x" for b x
    using that by (auto simp: FrameKind_from_id_def split: if_splits)
  show "e = Error InvalidFrame" if "FrameKind_from_id b = Inl e" for b e
    using that by (auto simp: FrameKind_from_id_def split: if_splits)
qed

definition SESSION_ID_LEN :: nat where
  "SESSION_ID_LEN = 32"

definition RATCHET_PUBLIC_LEN :: nat where
  "RATCHET_PUBLIC_LEN = 32"

declare SESSION_ID_LEN_def [simp] RATCHET_PUBLIC_LEN_def [simp]

record frame_header =
  fh_kind :: frame_kind
  fh_session_id :: bytes
  fh_ratchet_public :: bytes
  fh_previous_chain_len :: u32
  fh_message_number :: u32

definition FrameHeader_new :: "frame_kind \<Rightarrow> bytes \<Rightarrow> bytes \<Rightarrow> u32 \<Rightarrow> u32 \<Rightarrow> frame_header" where
  "FrameHeader_new kind session_id ratchet_public previous_chain_len message_number =
     \<lparr>fh_kind = kind, fh_session_id = session_id, fh_ratchet_public = ratchet_public,
      fh_previous_chain_len = previous_chain_len, fh_message_number = message_number\<rparr>"

text \<open>Its accessors.\<close>

definition FrameHeader_session_id :: "frame_header \<Rightarrow> bytes" where
  "FrameHeader_session_id h = fh_session_id h"

definition FrameHeader_ratchet_public :: "frame_header \<Rightarrow> bytes" where
  "FrameHeader_ratchet_public h = fh_ratchet_public h"

definition FrameHeader_previous_chain_len :: "frame_header \<Rightarrow> u32" where
  "FrameHeader_previous_chain_len h = fh_previous_chain_len h"

definition FrameHeader_message_number :: "frame_header \<Rightarrow> u32" where
  "FrameHeader_message_number h = fh_message_number h"

definition FrameHeader_kind :: "frame_header \<Rightarrow> frame_kind" where
  "FrameHeader_kind h = fh_kind h"

declare FrameHeader_session_id_def [simp] FrameHeader_ratchet_public_def [simp]
  FrameHeader_previous_chain_len_def [simp] FrameHeader_message_number_def [simp]
  FrameHeader_kind_def [simp]

definition header_ok :: "frame_header \<Rightarrow> bool" where
  "header_ok h \<longleftrightarrow> length (fh_session_id h) = 32 \<and> length (fh_ratchet_public h) = 32"

lemma FrameHeader_new_fields [simp]:
  "fh_kind (FrameHeader_new k s p c n) = k"
  "fh_session_id (FrameHeader_new k s p c n) = s"
  "fh_ratchet_public (FrameHeader_new k s p c n) = p"
  "fh_previous_chain_len (FrameHeader_new k s p c n) = c"
  "fh_message_number (FrameHeader_new k s p c n) = n"
  by (simp_all add: FrameHeader_new_def)

section \<open>Wire format (wire.rs)\<close>

definition FRAME_MAGIC :: bytes where
  "FRAME_MAGIC = ascii ''MEF''"

definition FRAME_VERSION :: u8 where
  "FRAME_VERSION = 1"

definition FIXED_HEADER_LEN :: nat where
  "FIXED_HEADER_LEN = 3 + 1 + 1 + 1 + SESSION_ID_LEN + RATCHET_PUBLIC_LEN + 4 + 4 + 1 + 4"

record inner_frame =
  if_header :: frame_header
  if_ciphertext :: ciphertext

text \<open>Its accessors; the suite of a frame is that of its ciphertext.\<close>

definition InnerFrame_header :: "inner_frame \<Rightarrow> frame_header" where
  "InnerFrame_header f = if_header f"

definition InnerFrame_suite :: "inner_frame \<Rightarrow> aead_suite" where
  "InnerFrame_suite f = Ciphertext_suite (if_ciphertext f)"

declare InnerFrame_header_def [simp] InnerFrame_suite_def [simp]

definition frame_encode_aad :: "aead_suite \<Rightarrow> frame_header \<Rightarrow> nat \<Rightarrow> bytes res" where
  "frame_encode_aad suite header body_len =
     bind_res (ok_or (word_try_from body_len :: u32 option) InvalidLength) (\<lambda>body_len.
     bind_res (ok_or (word_try_from (AeadSuite_nonce_len suite) :: u8 option) InvalidLength) (\<lambda>nonce_len.
     let output =
       FRAME_MAGIC @ [FRAME_VERSION] @ [AeadSuite_id suite] @ [FrameKind_id (fh_kind header)]
         @ fh_session_id header @ fh_ratchet_public header
         @ to_be_bytes (fh_previous_chain_len header) @ to_be_bytes (fh_message_number header)
         @ [nonce_len] @ to_be_bytes body_len
     in if length output \<noteq> FIXED_HEADER_LEN then Err InvalidFrame else Ok output))"

definition InnerFrame_aad :: "inner_frame \<Rightarrow> bytes res" where
  "InnerFrame_aad f =
     frame_encode_aad (ct_suite (if_ciphertext f)) (if_header f) (length (ct_body (if_ciphertext f)))"

definition InnerFrame_from_ciphertext :: "frame_header \<Rightarrow> ciphertext \<Rightarrow> inner_frame res" where
  "InnerFrame_from_ciphertext header ciphertext =
     bind_res (frame_encode_aad (ct_suite ciphertext) header (length (ct_body ciphertext))) (\<lambda>aad.
     if length aad \<noteq> FIXED_HEADER_LEN then Err InvalidFrame
     else Ok \<lparr>if_header = header, if_ciphertext = ciphertext\<rparr>)"

definition InnerFrame_seal ::
    "primitives \<Rightarrow> aead_key \<Rightarrow> aead_suite \<Rightarrow> frame_header \<Rightarrow> bytes \<Rightarrow> rng \<Rightarrow> inner_frame res \<times> rng" where
  "InnerFrame_seal P key suite header plaintext =
     io_bind (io_lift (ok_or (checked_add_usize (length plaintext) AEAD_TAG_LEN) InvalidLength)) (\<lambda>body_len.
     io_bind (io_lift (frame_encode_aad suite header body_len)) (\<lambda>aad.
     io_bind (aead_seal P key suite aad plaintext) (\<lambda>ciphertext.
     io_lift (InnerFrame_from_ciphertext header ciphertext))))"

definition InnerFrame_open :: "primitives \<Rightarrow> inner_frame \<Rightarrow> aead_key \<Rightarrow> bytes res" where
  "InnerFrame_open P f key = bind_res (InnerFrame_aad f) (\<lambda>aad. aead_open P key (if_ciphertext f) aad)"

definition InnerFrame_encode :: "inner_frame \<Rightarrow> bytes res" where
  "InnerFrame_encode f =
     bind_res (InnerFrame_aad f) (\<lambda>aad.
     bind_res
       (ok_or (Option.bind (checked_add_usize (length aad) (length (ct_nonce (if_ciphertext f))))
          (\<lambda>value. checked_add_usize value (length (ct_body (if_ciphertext f))))) InvalidLength)
       (\<lambda>total_len. Ok (aad @ ct_nonce (if_ciphertext f) @ ct_body (if_ciphertext f))))"

definition InnerFrame_decode_prefix :: "bytes \<Rightarrow> (inner_frame \<times> nat) res" where
  "InnerFrame_decode_prefix bs =
     (if length bs < FIXED_HEADER_LEN \<or> length bs > MAX_CIPHERTEXT_LEN + (FIXED_HEADER_LEN + 24)
      then Err InvalidFrame
      else
        bind_res (slice 0 3 bs) (\<lambda>magic.
        if magic \<noteq> FRAME_MAGIC then Err InvalidFrame else
        bind_res (index_at bs 3) (\<lambda>version.
        if version \<noteq> FRAME_VERSION then Err InvalidFrame else
        bind_res (index_at bs 4) (\<lambda>suite_id.
        bind_res (AeadSuite_from_id suite_id) (\<lambda>suite.
        bind_res (index_at bs 5) (\<lambda>kind_id.
        bind_res (FrameKind_from_id kind_id) (\<lambda>kind.
        bind_res (field 32 6 38 bs) (\<lambda>session_id.
        bind_res (field 32 38 70 bs) (\<lambda>ratchet_public.
        bind_res (field 4 70 74 bs) (\<lambda>previous_chain_len.
        bind_res (field 4 74 78 bs) (\<lambda>message_number.
        bind_res (index_at bs 78) (\<lambda>nonce_len_byte.
        bind_res (field 4 79 83 bs) (\<lambda>body_len_bytes.
        let nonce_len = unat nonce_len_byte;
            body_len = unat (from_be_bytes body_len_bytes :: u32) in
        if nonce_len \<noteq> AeadSuite_nonce_len suite
           \<or> \<not> (AEAD_TAG_LEN \<le> body_len \<and> body_len \<le> MAX_CIPHERTEXT_LEN)
        then Err InvalidFrame else
        bind_res
          (ok_or (Option.bind (checked_add_usize FIXED_HEADER_LEN nonce_len)
             (\<lambda>value. checked_add_usize value body_len)) InvalidLength) (\<lambda>expected_len.
        if length bs < expected_len then Err InvalidFrame else
        bind_res (add_usize FIXED_HEADER_LEN nonce_len) (\<lambda>nonce_end.
        bind_res (slice FIXED_HEADER_LEN nonce_end bs) (\<lambda>nonce.
        bind_res (slice nonce_end expected_len bs) (\<lambda>body.
        bind_res (Ciphertext_from_parts suite nonce body) (\<lambda>ciphertext.
        bind_res
          (InnerFrame_from_ciphertext
             (FrameHeader_new kind session_id ratchet_public
                (from_be_bytes previous_chain_len) (from_be_bytes message_number))
             ciphertext) (\<lambda>frame.
        Ok (frame, expected_len))))))))))))))))))))"

definition InnerFrame_decode :: "bytes \<Rightarrow> inner_frame res" where
  "InnerFrame_decode bs =
     bind_res (InnerFrame_decode_prefix bs) (\<lambda>(frame, consumed).
     if consumed \<noteq> length bs then Err InvalidFrame else Ok frame)"

section \<open>The authenticated header bytes\<close>

definition frame_aad_bytes :: "aead_suite \<Rightarrow> frame_header \<Rightarrow> nat \<Rightarrow> bytes" where
  "frame_aad_bytes s h n =
     FRAME_MAGIC @ [FRAME_VERSION, AeadSuite_id s, FrameKind_id (fh_kind h)]
       @ fh_session_id h @ fh_ratchet_public h
       @ to_be_bytes (fh_previous_chain_len h) @ to_be_bytes (fh_message_number h)
       @ [word_of_nat (AeadSuite_nonce_len s)] @ to_be_bytes (word_of_nat n :: u32)"

lemma FRAME_MAGIC_bytes: "FRAME_MAGIC = [77, 69, 70]"
  by (simp add: FRAME_MAGIC_def ascii_def of_char_def)

lemma FIXED_HEADER_LEN_83: "FIXED_HEADER_LEN = 83"
  by (simp add: FIXED_HEADER_LEN_def)

lemmas limits = MAX_CIPHERTEXT_LEN_def MAX_AAD_LEN_def AEAD_TAG_LEN_def usize_limit_def

lemma length_frame_aad_bytes [simp]:
  "header_ok h \<Longrightarrow> length (frame_aad_bytes s h n) = 83"
  by (simp add: frame_aad_bytes_def header_ok_def FRAME_MAGIC_bytes)

lemma nonce_len_u8:
  "(word_try_from (AeadSuite_nonce_len s) :: u8 option) = Some (word_of_nat (AeadSuite_nonce_len s))"
  using nonce_len_bound [of s] by (simp add: word_try_from_def)

lemma unat_nonce_len [simp]:
  "unat (word_of_nat (AeadSuite_nonce_len s) :: u8) = AeadSuite_nonce_len s"
  using nonce_len_bound [of s] by (simp add: unat_of_nat)

lemma frame_encode_aad_Ok:
  "header_ok h \<Longrightarrow>
     frame_encode_aad s h n = (if n < 2 ^ 32 then Ok (frame_aad_bytes s h n) else Err InvalidLength)"
  by (simp add: frame_encode_aad_def word_try_from_def nonce_len_u8 [unfolded word_try_from_def]
      frame_aad_bytes_def Let_def header_ok_def FIXED_HEADER_LEN_83 FRAME_MAGIC_bytes)

text \<open>The associated data determines the suite, every header field and the body length.\<close>

lemma frame_aad_bytes_inj:
  assumes "header_ok h" "header_ok h'" "n < 2 ^ 32" "n' < 2 ^ 32"
    "frame_aad_bytes s h n = frame_aad_bytes s' h' n'"
  shows "s = s' \<and> h = h' \<and> n = n'"
proof -
  note eq = assms(1,2,5) [unfolded frame_aad_bytes_def header_ok_def]
  have "word_of_nat n = (word_of_nat n' :: u32)" using eq by simp
  then have "n = n'" using assms(3,4) by (rule u32_of_nat_inj [rotated 2])
  moreover have "s = s'" using eq by (simp add: suite.to_id_inj)
  moreover have "h = h'" using eq by (cases h; cases h') (simp add: kind.to_id_inj)
  ultimately show ?thesis by simp
qed

section \<open>Well-formed frames and their encoding\<close>

definition frame_ok :: "inner_frame \<Rightarrow> bool" where
  "frame_ok f \<longleftrightarrow> header_ok (if_header f) \<and> ciphertext_ok (if_ciphertext f)"

definition frame_bytes :: "inner_frame \<Rightarrow> bytes" where
  "frame_bytes f =
     frame_aad_bytes (ct_suite (if_ciphertext f)) (if_header f) (length (ct_body (if_ciphertext f)))
       @ ct_nonce (if_ciphertext f) @ ct_body (if_ciphertext f)"

lemma ciphertext_body_u32: "ciphertext_ok c \<Longrightarrow> length (ct_body c) < 2 ^ 32"
  by (simp add: ciphertext_ok_def limits)

lemma InnerFrame_aad_Ok:
  "frame_ok f \<Longrightarrow> InnerFrame_aad f =
     Ok (frame_aad_bytes (ct_suite (if_ciphertext f)) (if_header f) (length (ct_body (if_ciphertext f))))"
  using ciphertext_body_u32 [of "if_ciphertext f"]
  by (simp add: InnerFrame_aad_def frame_ok_def frame_encode_aad_Ok)

lemma length_frame_bytes:
  "frame_ok f \<Longrightarrow> length (frame_bytes f) =
     83 + AeadSuite_nonce_len (ct_suite (if_ciphertext f)) + length (ct_body (if_ciphertext f))"
  by (simp add: frame_bytes_def frame_ok_def ciphertext_ok_def)

lemma frame_bytes_bound: "frame_ok f \<Longrightarrow> length (frame_bytes f) \<le> MAX_CIPHERTEXT_LEN + 107"
  using nonce_len_bound [of "ct_suite (if_ciphertext f)"]
  by (simp add: length_frame_bytes) (simp add: frame_ok_def ciphertext_ok_def)

lemma InnerFrame_encode_Ok: "frame_ok f \<Longrightarrow> InnerFrame_encode f = Ok (frame_bytes f)"
  using frame_bytes_bound [of f] nonce_len_bound [of "ct_suite (if_ciphertext f)"]
  by (auto simp: InnerFrame_encode_def InnerFrame_aad_Ok length_frame_bytes
      frame_ok_def ciphertext_ok_def frame_bytes_def limits)

lemma InnerFrame_from_ciphertext_Ok:
  "header_ok h \<Longrightarrow> ciphertext_ok c \<Longrightarrow>
     InnerFrame_from_ciphertext h c = Ok \<lparr>if_header = h, if_ciphertext = c\<rparr>"
  using ciphertext_body_u32 [of c]
  by (simp add: InnerFrame_from_ciphertext_def frame_encode_aad_Ok FIXED_HEADER_LEN_83)

lemma InnerFrame_from_ciphertext_fields:
  "InnerFrame_from_ciphertext h c = Inr f \<Longrightarrow> f = \<lparr>if_header = h, if_ciphertext = c\<rparr>"
  by (auto simp: InnerFrame_from_ciphertext_def res_iff split: if_splits)

section \<open>Decoding\<close>

text \<open>
  Within the length bounds no read is out of range, and the parser is a chain of checks on the
  fields at their offsets.
\<close>

lemma decode_prefix_in_range:
  assumes "83 \<le> length bs" "length bs \<le> MAX_CIPHERTEXT_LEN + 107"
  shows "InnerFrame_decode_prefix bs =
    (if sub_list 0 3 bs \<noteq> FRAME_MAGIC \<or> bs ! 3 \<noteq> FRAME_VERSION then Err InvalidFrame else
     bind_res (AeadSuite_from_id (bs ! 4)) (\<lambda>suite.
     bind_res (FrameKind_from_id (bs ! 5)) (\<lambda>kind.
     let nonce_len = unat (bs ! 78);
         body_len = unat (from_be_bytes (sub_list 79 83 bs) :: u32) in
     if nonce_len \<noteq> AeadSuite_nonce_len suite
        \<or> \<not> (AEAD_TAG_LEN \<le> body_len \<and> body_len \<le> MAX_CIPHERTEXT_LEN)
        \<or> length bs < 83 + nonce_len + body_len
     then Err InvalidFrame
     else Ok
       (\<lparr>if_header = FrameHeader_new kind (sub_list 6 38 bs) (sub_list 38 70 bs)
           (from_be_bytes (sub_list 70 74 bs)) (from_be_bytes (sub_list 74 78 bs)),
         if_ciphertext = \<lparr>ct_suite = suite,
           ct_nonce = sub_list 83 (83 + nonce_len) bs,
           ct_body = sub_list (83 + nonce_len) (83 + nonce_len + body_len) bs\<rparr>\<rparr>,
        83 + nonce_len + body_len))))"
proof -
  have range: "\<not> (length bs < FIXED_HEADER_LEN \<or> length bs > MAX_CIPHERTEXT_LEN + (FIXED_HEADER_LEN + 24))"
    using assms by (simp add: FIXED_HEADER_LEN_83)
  show ?thesis
    unfolding InnerFrame_decode_prefix_def if_not_P [OF range] FIXED_HEADER_LEN_83
    using assms
    by (auto simp: Let_def add_usize_def limits InnerFrame_from_ciphertext_Ok
        header_ok_def ciphertext_ok_def Ciphertext_from_parts_def split: res_split if_splits)
qed

lemma decode_prefix_short:
  "length bs < 83 \<or> length bs > MAX_CIPHERTEXT_LEN + 107 \<Longrightarrow>
     InnerFrame_decode_prefix bs = Err InvalidFrame"
  by (simp add: InnerFrame_decode_prefix_def FIXED_HEADER_LEN_83)

text \<open>The fields of an encoded frame, read back at their offsets from a longer string.\<close>

lemma frame_bytes_fields:
  assumes "frame_ok f"
  shows "sub_list 0 3 (frame_bytes f @ pad) = FRAME_MAGIC"
    and "(frame_bytes f @ pad) ! 3 = FRAME_VERSION"
    and "(frame_bytes f @ pad) ! 4 = AeadSuite_id (ct_suite (if_ciphertext f))"
    and "(frame_bytes f @ pad) ! 5 = FrameKind_id (fh_kind (if_header f))"
    and "sub_list 6 38 (frame_bytes f @ pad) = fh_session_id (if_header f)"
    and "sub_list 38 70 (frame_bytes f @ pad) = fh_ratchet_public (if_header f)"
    and "sub_list 70 74 (frame_bytes f @ pad) = to_be_bytes (fh_previous_chain_len (if_header f))"
    and "sub_list 74 78 (frame_bytes f @ pad) = to_be_bytes (fh_message_number (if_header f))"
    and "(frame_bytes f @ pad) ! 78 = word_of_nat (AeadSuite_nonce_len (ct_suite (if_ciphertext f)))"
    and "sub_list 79 83 (frame_bytes f @ pad) =
      to_be_bytes (word_of_nat (length (ct_body (if_ciphertext f))) :: u32)"
  using assms
  by (simp_all add: frame_bytes_def frame_aad_bytes_def frame_ok_def header_ok_def
      FRAME_MAGIC_bytes sub_list_def nth_append nth_Cons')

lemma frame_bytes_tail:
  assumes "frame_ok f"
  shows "sub_list 83 (83 + length (ct_nonce (if_ciphertext f))) (frame_bytes f @ pad)
      = ct_nonce (if_ciphertext f)"
    and "sub_list (83 + length (ct_nonce (if_ciphertext f)))
      (83 + length (ct_nonce (if_ciphertext f)) + length (ct_body (if_ciphertext f)))
      (frame_bytes f @ pad) = ct_body (if_ciphertext f)"
  using assms by (simp_all add: frame_bytes_def frame_ok_def sub_list_def)

text \<open>A frame is read back from its encoding, whatever follows it.\<close>

lemma decode_prefix_encoded:
  assumes "frame_ok f" "length (frame_bytes f @ pad) \<le> MAX_CIPHERTEXT_LEN + 107"
  shows "InnerFrame_decode_prefix (frame_bytes f @ pad) = Ok (f, length (frame_bytes f))"
proof -
  let ?c = "if_ciphertext f" and ?h = "if_header f"
  have c: "ciphertext_ok ?c" using assms(1) by (simp add: frame_ok_def)
  then have n: "AeadSuite_nonce_len (ct_suite ?c) = length (ct_nonce ?c)"
    and b: "AEAD_TAG_LEN \<le> length (ct_body ?c)" "length (ct_body ?c) \<le> MAX_CIPHERTEXT_LEN"
    by (simp_all add: ciphertext_ok_def)
  have u: "unat (word_of_nat (length (ct_body ?c)) :: u32) = length (ct_body ?c)"
    using ciphertext_body_u32 [OF c] by (simp add: unat_of_nat)
  have v: "unat (word_of_nat (length (ct_nonce ?c)) :: u8) = length (ct_nonce ?c)"
    using unat_nonce_len [of "ct_suite ?c"] by (simp add: n)
  have len: "length (frame_bytes f) = 83 + length (ct_nonce ?c) + length (ct_body ?c)"
    using length_frame_bytes [OF assms(1)] by (simp add: n)
  have h: "FrameHeader_new (fh_kind ?h) (fh_session_id ?h) (fh_ratchet_public ?h)
      (fh_previous_chain_len ?h) (fh_message_number ?h) = ?h"
    by (simp add: FrameHeader_new_def)
  show ?thesis
    using assms b len
    by (simp add: decode_prefix_in_range frame_bytes_fields frame_bytes_tail suite.of_to_id
        kind.of_to_id n u v h Let_def)
qed

text \<open>What the parser accepts is the encoding of what it returns.\<close>

lemma decode_prefix_sound:
  assumes "InnerFrame_decode_prefix bs = Ok (f, n)"
  shows "frame_ok f" "n = length (frame_bytes f)" "n \<le> length bs" "take n bs = frame_bytes f"
proof -
  have range: "83 \<le> length bs" "length bs \<le> MAX_CIPHERTEXT_LEN + 107"
    using assms decode_prefix_short [of bs] by (auto simp: not_less [symmetric])
  from assms obtain suite kind where
    s: "AeadSuite_from_id (bs ! 4) = Ok suite" and k: "FrameKind_from_id (bs ! 5) = Ok kind"
    and magic: "sub_list 0 3 bs = FRAME_MAGIC" and version: "bs ! 3 = FRAME_VERSION"
    and nl: "unat (bs ! 78) = AeadSuite_nonce_len suite"
    and bl: "AEAD_TAG_LEN \<le> unat (from_be_bytes (sub_list 79 83 bs) :: u32)"
      "unat (from_be_bytes (sub_list 79 83 bs) :: u32) \<le> MAX_CIPHERTEXT_LEN"
    and n: "n = 83 + unat (bs ! 78) + unat (from_be_bytes (sub_list 79 83 bs) :: u32)"
    and len: "n \<le> length bs"
    and f: "f = \<lparr>if_header = FrameHeader_new kind (sub_list 6 38 bs) (sub_list 38 70 bs)
           (from_be_bytes (sub_list 70 74 bs)) (from_be_bytes (sub_list 74 78 bs)),
         if_ciphertext = \<lparr>ct_suite = suite, ct_nonce = sub_list 83 (83 + unat (bs ! 78)) bs,
           ct_body = sub_list (83 + unat (bs ! 78)) n bs\<rparr>\<rparr>"
    using range by (auto simp: decode_prefix_in_range res_iff Let_def not_less split: if_splits)
  show ok: "frame_ok f"
    using range nl bl n len by (simp add: f frame_ok_def header_ok_def ciphertext_ok_def)
  show "n = length (frame_bytes f)"
    using n len nl by (simp add: length_frame_bytes [OF ok]) (simp add: f)
  show "n \<le> length bs" by (rule len)
  have ids: "AeadSuite_id suite = bs ! 4" "FrameKind_id kind = bs ! 5"
    using s k by (simp_all add: suite.to_of_id kind.to_of_id)
  have w: "word_of_nat (AeadSuite_nonce_len suite) = bs ! 78"
    by (simp add: nl [symmetric])
  have bl': "length (sub_list (83 + unat (bs ! 78)) n bs) =
      unat (from_be_bytes (sub_list 79 83 bs) :: u32)"
    using n len by simp
  have "frame_bytes f = sub_list 0 3 bs @ [bs ! 3] @ [bs ! 4] @ [bs ! 5] @ sub_list 6 38 bs
      @ sub_list 38 70 bs @ sub_list 70 74 bs @ sub_list 74 78 bs @ [bs ! 78] @ sub_list 79 83 bs
      @ sub_list 83 (83 + unat (bs ! 78)) bs @ sub_list (83 + unat (bs ! 78)) n bs"
    using range bl' by (simp add: f frame_bytes_def frame_aad_bytes_def magic version ids w)
  also have "\<dots> = sub_list 0 n bs"
    using range n len by (simp add: slice_join)
  finally show "take n bs = frame_bytes f" by (simp add: sub_list_prefix)
qed

lemma decode_prefix_no_panic: "InnerFrame_decode_prefix bs \<noteq> Panics"
proof (cases "83 \<le> length bs \<and> length bs \<le> MAX_CIPHERTEXT_LEN + 107")
  case True
  then show ?thesis
    by (auto simp: decode_prefix_in_range Let_def
        dest: suite.of_id_error kind.of_id_error split: res_split)
next
  case False
  then have "length bs < 83 \<or> length bs > MAX_CIPHERTEXT_LEN + 107" by linarith
  then show ?thesis by (simp add: decode_prefix_short)
qed

text \<open>A frame never begins a longer frame.\<close>

lemma frame_bytes_prefix_eq:
  assumes "frame_ok f" "frame_ok g" "frame_bytes g = frame_bytes f @ ext"
  shows "ext = []"
proof -
  have "length (frame_bytes f @ ext) \<le> MAX_CIPHERTEXT_LEN + 107"
    using frame_bytes_bound [OF assms(2)] assms(3) by simp
  then have "InnerFrame_decode_prefix (frame_bytes g) = Ok (f, length (frame_bytes f))"
    using decode_prefix_encoded [OF assms(1)] assms(3) by simp
  moreover have "InnerFrame_decode_prefix (frame_bytes g) = Ok (g, length (frame_bytes g))"
    using decode_prefix_encoded [of g "[]"] frame_bytes_bound assms(2) by simp
  ultimately show ?thesis using assms(3) by simp
qed

lemma InnerFrame_decode_Ok:
  "InnerFrame_decode bs = Ok f \<longleftrightarrow> frame_ok f \<and> bs = frame_bytes f"
proof
  assume "InnerFrame_decode bs = Ok f"
  then have "InnerFrame_decode_prefix bs = Ok (f, length bs)"
    by (auto simp: InnerFrame_decode_def res_iff split: if_splits prod.splits)
  then show "frame_ok f \<and> bs = frame_bytes f"
    using decode_prefix_sound [of bs f "length bs"] by simp
next
  assume "frame_ok f \<and> bs = frame_bytes f"
  then show "InnerFrame_decode bs = Ok f"
    using decode_prefix_encoded [of f "[]"] frame_bytes_bound
    by (simp add: InnerFrame_decode_def)
qed

text \<open>Cutting an encoded frame short or appending to it gives \<open>InvalidFrame\<close>, whatever the bytes.\<close>

lemma frame_truncated:
  assumes f: "frame_ok f" and n: "n < length (frame_bytes f)"
  shows "InnerFrame_decode (take n (frame_bytes f)) = Err InvalidFrame"
proof (cases "83 \<le> n")
  case True
  let ?c = "if_ciphertext f" and ?bs = "take n (frame_bytes f)"
  note fields = frame_bytes_fields [OF f, of "[]", simplified]
  have u: "unat (word_of_nat (length (ct_body ?c)) :: u32) = length (ct_body ?c)"
    using ciphertext_body_u32 [of ?c] f by (simp add: unat_of_nat frame_ok_def)
  have bound: "length ?bs \<le> MAX_CIPHERTEXT_LEN + 107" using frame_bytes_bound [OF f] n by simp
  have len: "length ?bs = n" using n by simp
  have "length (frame_bytes f) = 83 + AeadSuite_nonce_len (ct_suite ?c) + length (ct_body ?c)"
    by (rule length_frame_bytes [OF f])
  then have "InnerFrame_decode_prefix ?bs = Err InvalidFrame"
    using n True decode_prefix_in_range [of ?bs] bound
    by (simp add: len sub_list_take fields suite.of_to_id kind.of_to_id u Let_def)
  then show ?thesis by (simp add: InnerFrame_decode_def)
next
  case False
  then show ?thesis using n by (simp add: InnerFrame_decode_def decode_prefix_short)
qed

lemma frame_extended:
  assumes f: "frame_ok f" and ext: "ext \<noteq> []"
  shows "InnerFrame_decode (frame_bytes f @ ext) = Err InvalidFrame"
proof (cases "length (frame_bytes f @ ext) \<le> MAX_CIPHERTEXT_LEN + 107")
  case True
  with decode_prefix_encoded [OF f True] ext show ?thesis by (simp add: InnerFrame_decode_def)
next
  case False
  then show ?thesis by (simp add: InnerFrame_decode_def decode_prefix_short)
qed

interpretation inner: self_delimiting_format InnerFrame_encode InnerFrame_decode frame_ok
proof unfold_locales
  show "\<exists>bs. InnerFrame_encode f = Ok bs" if "frame_ok f" for f
    using that by (simp add: InnerFrame_encode_Ok)
  show "InnerFrame_decode bs = Ok f" if "frame_ok f" "InnerFrame_encode f = Ok bs" for f bs
    using that by (simp add: InnerFrame_encode_Ok InnerFrame_decode_Ok)
  show "frame_ok f" if "InnerFrame_decode bs = Ok f" for bs f
    using that by (simp add: InnerFrame_decode_Ok)
  show "InnerFrame_encode f = Ok bs" if "InnerFrame_decode bs = Ok f" for bs f
    using that by (simp add: InnerFrame_encode_Ok InnerFrame_decode_Ok)
  show "InnerFrame_decode bs \<noteq> Panics" for bs
    using decode_prefix_no_panic [of bs]
    by (auto simp: InnerFrame_decode_def split: res_split prod.splits)
  show "ext = []" if "InnerFrame_decode bs = Ok f" "InnerFrame_decode (bs @ ext) = Ok g" for bs f ext g
    using that frame_bytes_prefix_eq [of f g ext] by (simp add: InnerFrame_decode_Ok)
qed

section \<open>Sealing and opening frames\<close>

lemma InnerFrame_seal_Ok:
  assumes "aeads_ok P" "header_ok h"
  shows "InnerFrame_seal P key s h pt r = (Inr f, r') \<longleftrightarrow>
    (\<exists>c. aead_seal P key s (frame_aad_bytes s h (length pt + AEAD_TAG_LEN)) pt r = (Inr c, r') \<and>
       f = \<lparr>if_header = h, if_ciphertext = c\<rparr>)" (is "?L \<longleftrightarrow> ?R")
proof
  assume ?L
  then show ?R
    using assms(2)
    by (auto simp: InnerFrame_seal_def res_iff io_lift_def frame_encode_aad_Ok checked_add_usize_def
        dest: InnerFrame_from_ciphertext_fields split: if_splits)
next
  assume ?R
  then obtain c where c: "aead_seal P key s (frame_aad_bytes s h (length pt + AEAD_TAG_LEN)) pt r = (Inr c, r')"
    and f: "f = \<lparr>if_header = h, if_ciphertext = c\<rparr>" by blast
  note cs = aead_seal_ciphertext [OF c]
  have "length pt + AEAD_TAG_LEN < 2 ^ 32" using cs(4) by (simp add: limits)
  with c f cs assms(2) show ?L
    by (simp add: InnerFrame_seal_def frame_encode_aad_Ok checked_add_usize_def limits
        InnerFrame_from_ciphertext_Ok)
qed

lemma InnerFrame_seal_frame:
  assumes "aeads_ok P" "header_ok h" "InnerFrame_seal P key s h pt r = (Inr f, r')"
  shows "frame_ok f" "if_header f = h" "ct_suite (if_ciphertext f) = s"
    "length (ct_body (if_ciphertext f)) = length pt + AEAD_TAG_LEN"
  using assms by (auto simp: InnerFrame_seal_Ok frame_ok_def dest: aead_seal_ciphertext aead_seal_body_length)

lemma open_sealed_frame:
  assumes "aeads_ok P" "header_ok h" "InnerFrame_seal P key s h pt r = (Inr f, r')"
  shows "InnerFrame_open P f key = Ok pt"
proof -
  obtain c where c: "aead_seal P key s (frame_aad_bytes s h (length pt + AEAD_TAG_LEN)) pt r = (Inr c, r')"
    and f: "f = \<lparr>if_header = h, if_ciphertext = c\<rparr>"
    using assms by (auto simp: InnerFrame_seal_Ok)
  have "frame_ok f" "ct_suite c = s" "length (ct_body c) = length pt + AEAD_TAG_LEN"
    using InnerFrame_seal_frame [OF assms] by (simp_all add: f)
  then show ?thesis
    using open_seal [OF assms(1) c] by (simp add: InnerFrame_open_def InnerFrame_aad_Ok f)
qed

lemma InnerFrame_seal_total:
  assumes "aeads_ok P" "sizes_ok P" "header_ok h" "length (aead_key_bytes key) = 32"
    "length pt \<le> MAX_CIPHERTEXT_LEN - AEAD_TAG_LEN"
    "sys_rng P r (AeadSuite_nonce_len s) = Some nonce"
  shows "\<exists>f. InnerFrame_seal P key s h pt r = (Inr f, Suc r)"
proof -
  have "length (frame_aad_bytes s h (length pt + AEAD_TAG_LEN)) \<le> MAX_AAD_LEN"
    using assms(3) by (simp add: limits)
  then show ?thesis
    using aead_seal_total [OF assms(1,2,4) _ assms(5,6)] assms(1,3)
    by (fastforce simp: InnerFrame_seal_Ok)
qed

text \<open>An oversized plaintext is refused before any randomness is drawn.\<close>

lemma InnerFrame_seal_too_long:
  assumes "header_ok h" "length pt > MAX_CIPHERTEXT_LEN - AEAD_TAG_LEN"
  shows "InnerFrame_seal P key s h pt r = (Err InvalidLength, r)"
  using assms
  by (auto simp: InnerFrame_seal_def io_bind_def io_lift_def checked_add_usize_def
      frame_encode_aad_Ok aead_seal_def validate_inputs_def)

text \<open>Opening a frame accepts exactly the sealed plaintext for its own header and nonce.\<close>

lemma InnerFrame_open_Ok:
  assumes "aeads_ok P" "frame_ok f"
  shows "InnerFrame_open P f key = Ok pt \<longleftrightarrow>
    seal_with_nonce P key (ct_suite (if_ciphertext f)) (ct_nonce (if_ciphertext f))
      (frame_aad_bytes (ct_suite (if_ciphertext f)) (if_header f) (length pt + AEAD_TAG_LEN)) pt
      = Inr (if_ciphertext f)"
proof -
  let ?c = "if_ciphertext f" and ?h = "if_header f"
  let ?aad = "\<lambda>n. frame_aad_bytes (ct_suite ?c) ?h n"
  have h: "header_ok ?h" and c: "ciphertext_ok ?c" using assms(2) by (simp_all add: frame_ok_def)
  have iff: "InnerFrame_open P f key = Ok pt \<longleftrightarrow>
      seal_with_nonce P key (ct_suite ?c) (ct_nonce ?c) (?aad (length (ct_body ?c))) pt = Inr ?c"
    using open_iff_seal [OF assms(1) c, of "?aad (length (ct_body ?c))" key pt] h
    by (simp add: InnerFrame_open_def InnerFrame_aad_Ok [OF assms(2)] limits)
  moreover have "length (ct_body ?c) = length pt + AEAD_TAG_LEN"
    if "seal_with_nonce P key (ct_suite ?c) (ct_nonce ?c) a pt = Inr ?c" for a
    using seal_with_nonce_body_length [OF assms(1) that] .
  ultimately show ?thesis by metis
qed

text \<open>What the prefix decoder accepts, and what opening a frame and its associated data mean.\<close>

lemma decode_prefix_Ok:
  "InnerFrame_decode_prefix bs = Ok (f, n) \<longleftrightarrow>
     frame_ok f \<and> InnerFrame_encode f = Ok (take n bs) \<and> n \<le> length bs \<and> length bs \<le> MAX_CIPHERTEXT_LEN + 107"
  (is "?L \<longleftrightarrow> ?R")
proof
  assume ?L
  moreover from this have "length bs \<le> MAX_CIPHERTEXT_LEN + 107"
    using decode_prefix_short [of bs] by (auto simp: not_less [symmetric])
  ultimately show ?R using decode_prefix_sound [of bs f n] by (simp add: InnerFrame_encode_Ok)
next
  assume R: ?R
  then have prefix: "take n bs = frame_bytes f" using InnerFrame_encode_Ok [of f] by auto
  have bs: "bs = frame_bytes f @ drop n bs" by (subst prefix [symmetric]) simp
  have n: "n = length (frame_bytes f)" using R by (simp add: prefix [symmetric])
  have "InnerFrame_decode_prefix (frame_bytes f @ drop n bs) = Ok (f, length (frame_bytes f))"
    using R bs by (intro decode_prefix_encoded) auto
  then show ?L using bs n by simp
qed

lemma frame_open_exact:
  assumes "aeads_ok P" "frame_ok f"
  shows "InnerFrame_open P f key = Ok pt \<longleftrightarrow> (\<exists>aad. InnerFrame_aad f = Ok aad \<and>
    seal_with_nonce P key (ct_suite (if_ciphertext f)) (ct_nonce (if_ciphertext f)) aad pt = Ok (if_ciphertext f))"
proof -
  have h: "header_ok (if_header f)" and c: "ciphertext_ok (if_ciphertext f)"
    using assms(2) by (simp_all add: frame_ok_def)
  show ?thesis
    using open_iff_seal [OF assms(1) c] h
    by (simp add: InnerFrame_open_def InnerFrame_aad_Ok [OF assms(2)] limits)
qed

lemma frame_aad_eq:
  assumes "frame_ok f" "frame_ok g"
  shows "InnerFrame_aad f = InnerFrame_aad g \<longleftrightarrow>
    if_header f = if_header g \<and> ct_suite (if_ciphertext f) = ct_suite (if_ciphertext g) \<and>
    length (ct_body (if_ciphertext f)) = length (ct_body (if_ciphertext g))"
proof -
  have "header_ok (if_header f)" "header_ok (if_header g)"
    "length (ct_body (if_ciphertext f)) < 2 ^ 32" "length (ct_body (if_ciphertext g)) < 2 ^ 32"
    using assms ciphertext_body_u32 by (auto simp: frame_ok_def)
  from frame_aad_bytes_inj [OF this] show ?thesis
    by (auto simp: InnerFrame_aad_Ok [OF assms(1)] InnerFrame_aad_Ok [OF assms(2)])
qed

section \<open>No panics\<close>

lemma frame_encode_aad_no_panic [simp]: "frame_encode_aad s h n \<noteq> Panics"
  by (auto simp: frame_encode_aad_def Let_def bind_res_Inl)

lemma InnerFrame_open_no_panic [simp]: "InnerFrame_open P f key \<noteq> Panics"
  by (auto simp: InnerFrame_open_def InnerFrame_aad_def bind_res_Inl)

lemma InnerFrame_seal_no_panic [simp]: "InnerFrame_seal P key s h pt r \<noteq> (Panics, r')"
  by (auto simp: InnerFrame_seal_def io_bind_Inl io_lift_def InnerFrame_from_ciphertext_def bind_res_Inl)

section \<open>Labels (mod.rs)\<close>

definition framing_label :: bytes where
  "framing_label = ascii ''MEF-26/inner-frame-v1''"

definition frame_protocol_id :: bytes where
  "frame_protocol_id = PROTOCOL_ID"

end
