(* ===== verification/Mef_Keys.thy ===== *)
theory Mef_Keys
  imports Mef_Crypto
begin

text \<open>
  Key material of \<open>src/keys/\<close>: X25519 keys with fail-closed agreement (\<open>dh.rs\<close>), Ed25519 identities
  (\<open>identity.rs\<close>) and signed prekeys (\<open>prekey.rs\<close>).
\<close>

section \<open>X25519 keys (dh.rs)\<close>

definition DH_KEY_LEN :: nat where
  "DH_KEY_LEN = 32"

declare DH_KEY_LEN_def [simp]

datatype dh_public = DhPublicKey (dh_public_bytes: bytes)

datatype dh_secret = DhSecretKey (dh_secret_bytes: bytes)

record dh_key_pair =
  kp_secret :: dh_secret
  kp_public :: dh_public

text \<open>Constructors and accessors; \<open>into_secret\<close> consumes the pair.\<close>

definition DhPublicKey_from_bytes :: "bytes \<Rightarrow> dh_public" where
  "DhPublicKey_from_bytes bs = DhPublicKey bs"

definition DhPublicKey_to_bytes :: "dh_public \<Rightarrow> bytes" where
  "DhPublicKey_to_bytes pk = dh_public_bytes pk"

definition DhSecretKey_from_bytes :: "bytes \<Rightarrow> dh_secret" where
  "DhSecretKey_from_bytes bs = DhSecretKey bs"

definition DhSecretKey_copy_bytes :: "dh_secret \<Rightarrow> bytes" where
  "DhSecretKey_copy_bytes s = dh_secret_bytes s"

definition DhKeyPair_public :: "dh_key_pair \<Rightarrow> dh_public" where
  "DhKeyPair_public kp = kp_public kp"

definition DhKeyPair_into_secret :: "dh_key_pair \<Rightarrow> dh_secret" where
  "DhKeyPair_into_secret kp = kp_secret kp"

declare DhPublicKey_from_bytes_def [simp] DhPublicKey_to_bytes_def [simp]
  DhSecretKey_from_bytes_def [simp] DhSecretKey_copy_bytes_def [simp] DhKeyPair_public_def [simp]
  DhKeyPair_into_secret_def [simp]

definition DhSecretKey_generate :: "primitives \<Rightarrow> rng \<Rightarrow> dh_secret res \<times> rng" where
  "DhSecretKey_generate P = io_bind (random_bytes P 32) (\<lambda>bs. io_lift (Ok (DhSecretKey bs)))"

definition DhSecretKey_public_key :: "primitives \<Rightarrow> dh_secret \<Rightarrow> dh_public" where
  "DhSecretKey_public_key P s = DhPublicKey (x25519_public P (dh_secret_bytes s))"

definition DhSecretKey_diffie_hellman :: "primitives \<Rightarrow> dh_secret \<Rightarrow> dh_public \<Rightarrow> bytes res" where
  "DhSecretKey_diffie_hellman P s peer =
     (let shared = x25519_shared P (dh_secret_bytes s) (dh_public_bytes peer) in
      if \<not> x25519_contributory P shared then Err NonContributoryKeyAgreement else Ok shared)"

definition DhKeyPair_from_secret :: "primitives \<Rightarrow> dh_secret \<Rightarrow> dh_key_pair" where
  "DhKeyPair_from_secret P s = \<lparr>kp_secret = s, kp_public = DhSecretKey_public_key P s\<rparr>"

definition DhKeyPair_generate :: "primitives \<Rightarrow> rng \<Rightarrow> dh_key_pair res \<times> rng" where
  "DhKeyPair_generate P =
     io_bind (DhSecretKey_generate P) (\<lambda>secret. io_lift (Ok (DhKeyPair_from_secret P secret)))"

definition DhKeyPair_diffie_hellman :: "primitives \<Rightarrow> dh_key_pair \<Rightarrow> dh_public \<Rightarrow> bytes res" where
  "DhKeyPair_diffie_hellman P kp peer = DhSecretKey_diffie_hellman P (kp_secret kp) peer"

definition DhKeyPair_secret_bytes :: "dh_key_pair \<Rightarrow> bytes" where
  "DhKeyPair_secret_bytes kp = DhSecretKey_copy_bytes (kp_secret kp)"

text \<open>Every key pair the crate builds: a 32-byte secret and the public key derived from it.\<close>

definition key_pair_ok :: "primitives \<Rightarrow> dh_key_pair \<Rightarrow> bool" where
  "key_pair_ok P kp \<longleftrightarrow>
     length (dh_secret_bytes (kp_secret kp)) = 32 \<and>
     kp_public kp = DhSecretKey_public_key P (kp_secret kp)"

lemma key_pair_ok_from_secret [simp]:
  "key_pair_ok P (DhKeyPair_from_secret P s) \<longleftrightarrow> length (dh_secret_bytes s) = 32"
  by (simp add: key_pair_ok_def DhKeyPair_from_secret_def)

lemma from_secret_of_pair [simp]:
  "key_pair_ok P kp \<Longrightarrow> DhKeyPair_from_secret P (DhSecretKey (DhKeyPair_secret_bytes kp)) = kp"
  by (simp add: key_pair_ok_def DhKeyPair_from_secret_def DhKeyPair_secret_bytes_def)

lemma key_pair_public_length [simp]:
  "sizes_ok P \<Longrightarrow> key_pair_ok P kp \<Longrightarrow> length (dh_public_bytes (kp_public kp)) = 32"
  by (simp add: key_pair_ok_def DhSecretKey_public_key_def sizes_okD)

lemma DhKeyPair_generate_Ok [res_iff]:
  "DhKeyPair_generate P r = (Inr kp, r') \<longleftrightarrow>
     (\<exists>bs. sys_rng P r 32 = Some bs \<and> kp = DhKeyPair_from_secret P (DhSecretKey bs) \<and> r' = Suc r)"
  by (auto simp: DhKeyPair_generate_def DhSecretKey_generate_def res_iff io_lift_def)

lemma DhKeyPair_generate_Inl [res_iff]:
  "DhKeyPair_generate P r = (Inl e, r') \<longleftrightarrow>
     sys_rng P r 32 = None \<and> e = Error RandomnessUnavailable \<and> r' = Suc r"
  by (auto simp: DhKeyPair_generate_def DhSecretKey_generate_def res_iff io_lift_def)

lemma DhKeyPair_generate_pair_ok:
  "sizes_ok P \<Longrightarrow> DhKeyPair_generate P r = (Inr kp, r') \<Longrightarrow> key_pair_ok P kp"
  by (auto simp: res_iff dest: sizes_okD)

lemma diffie_hellman_Ok [res_iff]:
  "DhKeyPair_diffie_hellman P kp peer = Inr z \<longleftrightarrow>
     z = x25519_shared P (dh_secret_bytes (kp_secret kp)) (dh_public_bytes peer) \<and>
     x25519_contributory P z"
  by (auto simp: DhKeyPair_diffie_hellman_def DhSecretKey_diffie_hellman_def Let_def)

lemma diffie_hellman_Inl [res_iff]:
  "DhKeyPair_diffie_hellman P kp peer = Inl e \<longleftrightarrow>
     \<not> x25519_contributory P (x25519_shared P (dh_secret_bytes (kp_secret kp)) (dh_public_bytes peer)) \<and>
     e = Error NonContributoryKeyAgreement"
  by (auto simp: DhKeyPair_diffie_hellman_def DhSecretKey_diffie_hellman_def Let_def)

lemma diffie_hellman_length:
  "sizes_ok P \<Longrightarrow> DhKeyPair_diffie_hellman P kp peer = Inr z \<Longrightarrow> length z = 32"
  by (auto simp: res_iff sizes_okD)

text \<open>Both ends of an agreement get the same answer, the error included.\<close>

lemma diffie_hellman_agrees:
  assumes "x25519_ok P" "key_pair_ok P a" "key_pair_ok P b"
  shows "DhKeyPair_diffie_hellman P a (kp_public b) = DhKeyPair_diffie_hellman P b (kp_public a)"
proof -
  have "x25519_shared P (dh_secret_bytes (kp_secret a)) (dh_public_bytes (kp_public b)) =
      x25519_shared P (dh_secret_bytes (kp_secret b)) (dh_public_bytes (kp_public a))"
    using assms x25519_okD [OF assms(1)] by (simp add: key_pair_ok_def DhSecretKey_public_key_def)
  then show ?thesis
    by (simp add: DhKeyPair_diffie_hellman_def DhSecretKey_diffie_hellman_def)
qed

section \<open>Ed25519 identities (identity.rs)\<close>

definition IDENTITY_KEY_LEN :: nat where
  "IDENTITY_KEY_LEN = 32"

definition SIGNATURE_LEN :: nat where
  "SIGNATURE_LEN = 64"

declare IDENTITY_KEY_LEN_def [simp] SIGNATURE_LEN_def [simp]

datatype identity_public = IdentityPublicKey (identity_public_bytes: bytes)

text \<open>The dalek \<open>SigningKey\<close> is given by its seed.\<close>

record identity_key_pair =
  ik_signing :: bytes
  ik_public :: identity_public

text \<open>Accessors.\<close>

definition IdentityPublicKey_to_bytes :: "identity_public \<Rightarrow> bytes" where
  "IdentityPublicKey_to_bytes key = identity_public_bytes key"

definition IdentityKeyPair_public :: "identity_key_pair \<Rightarrow> identity_public" where
  "IdentityKeyPair_public ik = ik_public ik"

declare IdentityPublicKey_to_bytes_def [simp] IdentityKeyPair_public_def [simp]

definition IdentityPublicKey_from_bytes :: "primitives \<Rightarrow> bytes \<Rightarrow> identity_public res" where
  "IdentityPublicKey_from_bytes P bs =
     (if \<not> ed25519_key_ok P bs then Err InvalidFrame else Ok (IdentityPublicKey bs))"

definition IdentityPublicKey_verify :: "primitives \<Rightarrow> identity_public \<Rightarrow> bytes \<Rightarrow> bytes \<Rightarrow> unit res" where
  "IdentityPublicKey_verify P key message signature =
     (if \<not> ed25519_key_ok P (identity_public_bytes key) then Err InvalidFrame
      else if \<not> ed25519_verify_strict P (identity_public_bytes key) message signature
      then Err AuthenticationFailed else Ok ())"

definition IdentityPublicKey_verify_prekey :: "primitives \<Rightarrow> identity_public \<Rightarrow> bytes \<Rightarrow> bytes \<Rightarrow> unit res" where
  "IdentityPublicKey_verify_prekey P key message signature = IdentityPublicKey_verify P key message signature"

declare IdentityPublicKey_verify_prekey_def [simp]

definition IdentityKeyPair_from_seed :: "primitives \<Rightarrow> bytes \<Rightarrow> identity_key_pair" where
  "IdentityKeyPair_from_seed P seed =
     \<lparr>ik_signing = seed, ik_public = IdentityPublicKey (ed25519_public P seed)\<rparr>"

definition IdentityKeyPair_generate :: "primitives \<Rightarrow> rng \<Rightarrow> identity_key_pair res \<times> rng" where
  "IdentityKeyPair_generate P =
     io_bind (random_bytes P 32) (\<lambda>seed. io_lift (Ok (IdentityKeyPair_from_seed P seed)))"

definition IdentityKeyPair_sign :: "primitives \<Rightarrow> identity_key_pair \<Rightarrow> bytes \<Rightarrow> bytes" where
  "IdentityKeyPair_sign P ik message = ed25519_sign P (ik_signing ik) message"

definition identity_pair_ok :: "primitives \<Rightarrow> identity_key_pair \<Rightarrow> bool" where
  "identity_pair_ok P ik \<longleftrightarrow>
     length (ik_signing ik) = 32 \<and> ik_public ik = IdentityPublicKey (ed25519_public P (ik_signing ik))"

lemma identity_pair_ok_from_seed [simp]:
  "identity_pair_ok P (IdentityKeyPair_from_seed P seed) \<longleftrightarrow> length seed = 32"
  by (simp add: identity_pair_ok_def IdentityKeyPair_from_seed_def)

lemma IdentityKeyPair_generate_Ok [res_iff]:
  "IdentityKeyPair_generate P r = (Inr ik, r') \<longleftrightarrow>
     (\<exists>seed. sys_rng P r 32 = Some seed \<and> ik = IdentityKeyPair_from_seed P seed \<and> r' = Suc r)"
  by (auto simp: IdentityKeyPair_generate_def res_iff io_lift_def)

lemma verify_Ok [res_iff]:
  "IdentityPublicKey_verify P key m s = Inr u \<longleftrightarrow>
     ed25519_key_ok P (identity_public_bytes key) \<and>
     ed25519_verify_strict P (identity_public_bytes key) m s"
  by (auto simp: IdentityPublicKey_verify_def)

lemma verify_sign:
  assumes "ed25519_ok P" "identity_pair_ok P ik"
  shows "IdentityPublicKey_verify P (ik_public ik) m (IdentityKeyPair_sign P ik m) = Ok ()"
proof -
  have "length (ik_signing ik) = 32" using assms(2) by (simp add: identity_pair_ok_def)
  then show ?thesis
    using assms(2) ed25519_okD [OF assms(1)]
    by (simp add: res_iff identity_pair_ok_def IdentityKeyPair_sign_def)
qed

lemma sign_length [simp]: "sizes_ok P \<Longrightarrow> length (IdentityKeyPair_sign P ik m) = 64"
  by (simp add: IdentityKeyPair_sign_def sizes_okD)

section \<open>Signed prekeys (prekey.rs)\<close>

record signed_prekey =
  sp_key_id :: u32
  sp_public :: dh_public
  sp_expires_at_unix :: u64
  sp_signature :: bytes

text \<open>\<open>from_parts\<close> and the accessors take a record apart and put it together again.\<close>

definition SignedPrekey_from_parts :: "u32 \<Rightarrow> dh_public \<Rightarrow> u64 \<Rightarrow> bytes \<Rightarrow> signed_prekey" where
  "SignedPrekey_from_parts key_id public expires_at_unix signature =
     \<lparr>sp_key_id = key_id, sp_public = public, sp_expires_at_unix = expires_at_unix,
      sp_signature = signature\<rparr>"

definition SignedPrekey_key_id :: "signed_prekey \<Rightarrow> u32" where
  "SignedPrekey_key_id sp = sp_key_id sp"

definition SignedPrekey_public :: "signed_prekey \<Rightarrow> dh_public" where
  "SignedPrekey_public sp = sp_public sp"

definition SignedPrekey_expires_at_unix :: "signed_prekey \<Rightarrow> u64" where
  "SignedPrekey_expires_at_unix sp = sp_expires_at_unix sp"

definition SignedPrekey_signature :: "signed_prekey \<Rightarrow> bytes" where
  "SignedPrekey_signature sp = sp_signature sp"

declare SignedPrekey_from_parts_def [simp] SignedPrekey_key_id_def [simp]
  SignedPrekey_public_def [simp] SignedPrekey_expires_at_unix_def [simp]
  SignedPrekey_signature_def [simp]

definition prekey_transcript :: "u32 \<Rightarrow> dh_public \<Rightarrow> u64 \<Rightarrow> bytes" where
  "prekey_transcript key_id prekey expires_at_unix =
     PROTOCOL_ID @ [0] @ ascii ''signed-prekey-v1'' @ to_be_bytes key_id @ dh_public_bytes prekey
       @ to_be_bytes expires_at_unix"

definition IdentityKeyPair_sign_prekey ::
    "primitives \<Rightarrow> identity_key_pair \<Rightarrow> u32 \<Rightarrow> dh_public \<Rightarrow> u64 \<Rightarrow> bytes" where
  "IdentityKeyPair_sign_prekey P ik key_id prekey expires_at_unix =
     IdentityKeyPair_sign P ik (prekey_transcript key_id prekey expires_at_unix)"

definition SignedPrekey_issue ::
    "primitives \<Rightarrow> identity_key_pair \<Rightarrow> u32 \<Rightarrow> dh_public \<Rightarrow> u64 \<Rightarrow> signed_prekey" where
  "SignedPrekey_issue P identity key_id public expires_at_unix =
     \<lparr>sp_key_id = key_id, sp_public = public, sp_expires_at_unix = expires_at_unix,
      sp_signature = IdentityKeyPair_sign_prekey P identity key_id public expires_at_unix\<rparr>"

definition SignedPrekey_verify :: "primitives \<Rightarrow> signed_prekey \<Rightarrow> identity_public \<Rightarrow> u64 \<Rightarrow> unit res" where
  "SignedPrekey_verify P sp identity now_unix =
     (if now_unix > sp_expires_at_unix sp then Err AuthenticationFailed
      else IdentityPublicKey_verify_prekey P identity
             (prekey_transcript (sp_key_id sp) (sp_public sp) (sp_expires_at_unix sp))
             (sp_signature sp))"

definition identity_fingerprint :: "primitives \<Rightarrow> identity_public \<Rightarrow> bytes res" where
  "identity_fingerprint P identity =
     blake3_id P (ascii ''identity-fingerprint-v1'') [identity_public_bytes identity]"

definition signed_prekey_ok :: "signed_prekey \<Rightarrow> bool" where
  "signed_prekey_ok sp \<longleftrightarrow>
     length (dh_public_bytes (sp_public sp)) = 32 \<and> length (sp_signature sp) = 64"

lemma issue_ok:
  "sizes_ok P \<Longrightarrow> length (dh_public_bytes pk) = 32 \<Longrightarrow> signed_prekey_ok (SignedPrekey_issue P ik i pk t)"
  by (simp add: signed_prekey_ok_def SignedPrekey_issue_def IdentityKeyPair_sign_prekey_def)

lemma issue_fields [simp]:
  "sp_key_id (SignedPrekey_issue P ik i pk t) = i"
  "sp_public (SignedPrekey_issue P ik i pk t) = pk"
  "sp_expires_at_unix (SignedPrekey_issue P ik i pk t) = t"
  by (simp_all add: SignedPrekey_issue_def)

lemma issued_prekey_verifies:
  assumes "ed25519_ok P" "identity_pair_ok P ik"
  shows "SignedPrekey_verify P (SignedPrekey_issue P ik i pk t) (ik_public ik) now =
    (if now \<le> t then Ok () else Err AuthenticationFailed)"
  using verify_sign [OF assms]
  by (auto simp: SignedPrekey_verify_def IdentityKeyPair_sign_prekey_def SignedPrekey_issue_def)

text \<open>What is signed determines the identifier, the key and the expiry.\<close>

lemma prekey_transcript_inj:
  assumes "length (dh_public_bytes k) = 32" "length (dh_public_bytes k') = 32"
    "prekey_transcript i k t = prekey_transcript i' k' t'"
  shows "i = i' \<and> k = k' \<and> t = t'"
  using assms by (auto simp: prekey_transcript_def intro: dh_public.expand)

section \<open>No panics\<close>

lemma diffie_hellman_no_panic [simp]: "DhKeyPair_diffie_hellman P kp peer \<noteq> Panics"
  by (simp add: diffie_hellman_Inl)

lemma DhKeyPair_generate_no_panic [simp]: "DhKeyPair_generate P r \<noteq> (Panics, r')"
  by (simp add: DhKeyPair_generate_Inl)

end
