(* ===== verification/Mef_Handshake.thy ===== *)
theory Mef_Handshake
  imports Mef_Keys
begin

text \<open>
  The asynchronous prekey handshake of \<open>src/handshake.rs\<close>: identities that bind an Ed25519 to an
  X25519 key, prekey bundles and initiator messages with their canonical encodings, the responder's
  prekey material, and the two sides of the key agreement.
\<close>

section \<open>Identities\<close>

definition HANDSHAKE_MAGIC :: bytes where
  "HANDSHAKE_MAGIC = ascii ''MEH''"

definition BUNDLE_MAGIC :: bytes where
  "BUNDLE_MAGIC = ascii ''MEB''"

definition HANDSHAKE_VERSION :: u8 where
  "HANDSHAKE_VERSION = 1"

definition MESSAGE_LEN :: nat where
  "MESSAGE_LEN = 3 + 1 + 32 + 32 + 64 + 32 + 32 + 4 + 1 + 4"

definition BUNDLE_LEN :: nat where
  "BUNDLE_LEN = 3 + 1 + 32 + 32 + 64 + 4 + 32 + 8 + 64 + 1 + 4 + 32"

definition IDENTITY_BINDING_LABEL :: bytes where
  "IDENTITY_BINDING_LABEL = ascii ''handshake-identity-dh-v1''"

definition SESSION_LABEL :: bytes where
  "SESSION_LABEL = ascii ''handshake-session-v1''"

definition HANDSHAKE_ROOT_LABEL :: bytes where
  "HANDSHAKE_ROOT_LABEL = ascii ''handshake-x3dh-root-v1''"

definition HYBRID_SESSION_LABEL :: bytes where
  "HYBRID_SESSION_LABEL = ascii ''handshake-hybrid-mlkem768-session-v1''"

definition HYBRID_ROOT_LABEL :: bytes where
  "HYBRID_ROOT_LABEL = ascii ''handshake-hybrid-mlkem768-root-v1''"

text \<open>\<open>RatchetRole\<close> is declared in \<open>src/ratchet/state.rs\<close> and first used here.\<close>

datatype ratchet_role = Initiator | Responder

record local_identity =
  li_signing :: identity_key_pair
  li_dh :: dh_key_pair

text \<open>The module's own access to the two key pairs, and the signature the hybrid handshake asks for.\<close>

definition LocalIdentity_dh :: "local_identity \<Rightarrow> dh_key_pair" where
  "LocalIdentity_dh li = li_dh li"

definition LocalIdentity_signing :: "local_identity \<Rightarrow> identity_key_pair" where
  "LocalIdentity_signing li = li_signing li"

definition LocalIdentity_sign_message :: "primitives \<Rightarrow> local_identity \<Rightarrow> bytes \<Rightarrow> bytes" where
  "LocalIdentity_sign_message P li message = IdentityKeyPair_sign P (li_signing li) message"

declare LocalIdentity_dh_def [simp] LocalIdentity_signing_def [simp]
  LocalIdentity_sign_message_def [simp]

record identity_dh_public =
  id_signing :: identity_public
  id_dh :: dh_public
  id_signature :: bytes

definition IdentityDhPublic_signing_identity :: "identity_dh_public \<Rightarrow> identity_public" where
  "IdentityDhPublic_signing_identity i = id_signing i"

definition IdentityDhPublic_dh_identity :: "identity_dh_public \<Rightarrow> dh_public" where
  "IdentityDhPublic_dh_identity i = id_dh i"

definition IdentityDhPublic_verify_signature :: "primitives \<Rightarrow> identity_dh_public \<Rightarrow> bytes \<Rightarrow> bytes \<Rightarrow> unit res" where
  "IdentityDhPublic_verify_signature P i message signature =
     IdentityPublicKey_verify P (id_signing i) message signature"

declare IdentityDhPublic_signing_identity_def [simp] IdentityDhPublic_dh_identity_def [simp]
  IdentityDhPublic_verify_signature_def [simp]

definition identity_binding_transcript :: "dh_public \<Rightarrow> bytes" where
  "identity_binding_transcript dh = IDENTITY_BINDING_LABEL @ [0] @ dh_public_bytes dh"

definition LocalIdentity_generate :: "primitives \<Rightarrow> rng \<Rightarrow> local_identity res \<times> rng" where
  "LocalIdentity_generate P =
     io_bind (IdentityKeyPair_generate P) (\<lambda>signing.
     io_bind (DhKeyPair_generate P) (\<lambda>dh.
     io_lift (Ok \<lparr>li_signing = signing, li_dh = dh\<rparr>)))"

definition LocalIdentity_public :: "primitives \<Rightarrow> local_identity \<Rightarrow> identity_dh_public" where
  "LocalIdentity_public P li =
     (let dh = kp_public (li_dh li) in
      \<lparr>id_signing = ik_public (li_signing li), id_dh = dh,
       id_signature = IdentityKeyPair_sign P (li_signing li) (identity_binding_transcript dh)\<rparr>)"

definition IdentityDhPublic_verify :: "primitives \<Rightarrow> identity_dh_public \<Rightarrow> unit res" where
  "IdentityDhPublic_verify P ident =
     IdentityPublicKey_verify P (id_signing ident) (identity_binding_transcript (id_dh ident))
       (id_signature ident)"

definition identity_public_wire :: "identity_dh_public \<Rightarrow> bytes" where
  "identity_public_wire ident =
     identity_public_bytes (id_signing ident) @ dh_public_bytes (id_dh ident) @ id_signature ident"

section \<open>Prekey bundles\<close>

record one_time_prekey_public =
  otpk_id :: u32
  otpk_public :: dh_public

definition OneTimePrekeyPublic_id :: "one_time_prekey_public \<Rightarrow> u32" where
  "OneTimePrekeyPublic_id k = otpk_id k"

definition OneTimePrekeyPublic_public :: "one_time_prekey_public \<Rightarrow> dh_public" where
  "OneTimePrekeyPublic_public k = otpk_public k"

record one_time_prekey =
  otp_public :: one_time_prekey_public
  otp_key :: dh_key_pair

record responder_bundle =
  rb_identity :: identity_dh_public
  rb_signed_prekey :: signed_prekey
  rb_one_time_prekey :: "one_time_prekey_public option"

definition ResponderPrekeyBundle_identity :: "responder_bundle \<Rightarrow> identity_dh_public" where
  "ResponderPrekeyBundle_identity b = rb_identity b"

definition ResponderPrekeyBundle_signed_prekey :: "responder_bundle \<Rightarrow> signed_prekey" where
  "ResponderPrekeyBundle_signed_prekey b = rb_signed_prekey b"

definition ResponderPrekeyBundle_one_time_prekey :: "responder_bundle \<Rightarrow> one_time_prekey_public option" where
  "ResponderPrekeyBundle_one_time_prekey b = rb_one_time_prekey b"

declare OneTimePrekeyPublic_id_def [simp] OneTimePrekeyPublic_public_def [simp]
  ResponderPrekeyBundle_identity_def [simp] ResponderPrekeyBundle_signed_prekey_def [simp]
  ResponderPrekeyBundle_one_time_prekey_def [simp]

definition ResponderPrekeyBundle_encode :: "responder_bundle \<Rightarrow> bytes" where
  "ResponderPrekeyBundle_encode b =
     BUNDLE_MAGIC @ [HANDSHAKE_VERSION]
       @ identity_public_bytes (id_signing (rb_identity b))
       @ dh_public_bytes (id_dh (rb_identity b))
       @ id_signature (rb_identity b)
       @ to_be_bytes (sp_key_id (rb_signed_prekey b))
       @ dh_public_bytes (sp_public (rb_signed_prekey b))
       @ to_be_bytes (sp_expires_at_unix (rb_signed_prekey b))
       @ sp_signature (rb_signed_prekey b)
       @ (case rb_one_time_prekey b of
            Some prekey \<Rightarrow> [1] @ to_be_bytes (otpk_id prekey) @ dh_public_bytes (otpk_public prekey)
          | None \<Rightarrow> [0] @ to_be_bytes (0 :: u32) @ replicate 32 0)"

definition ResponderPrekeyBundle_decode :: "primitives \<Rightarrow> bytes \<Rightarrow> responder_bundle res" where
  "ResponderPrekeyBundle_decode P bs =
     (if length bs \<noteq> BUNDLE_LEN then Err InvalidFrame else
      bind_res (slice 0 3 bs) (\<lambda>magic.
      if magic \<noteq> BUNDLE_MAGIC then Err InvalidFrame else
      bind_res (index_at bs 3) (\<lambda>version.
      if version \<noteq> HANDSHAKE_VERSION then Err InvalidFrame else
      bind_res (field 32 4 36 bs) (\<lambda>signing_bytes.
      bind_res (IdentityPublicKey_from_bytes P signing_bytes) (\<lambda>signing.
      bind_res (field 32 36 68 bs) (\<lambda>dh.
      bind_res (field 64 68 132 bs) (\<lambda>signature.
      let ident = \<lparr>id_signing = signing, id_dh = DhPublicKey dh, id_signature = signature\<rparr> in
      bind_res (IdentityDhPublic_verify P ident) (\<lambda>_.
      bind_res (field 4 132 136 bs) (\<lambda>key_id.
      bind_res (field 32 136 168 bs) (\<lambda>prekey.
      bind_res (field 8 168 176 bs) (\<lambda>expires.
      bind_res (field 64 176 240 bs) (\<lambda>prekey_signature.
      let signed_prekey = SignedPrekey_from_parts (from_be_bytes key_id) (DhPublicKey prekey)
        (from_be_bytes expires) prekey_signature in
      bind_res (index_at bs 240) (\<lambda>tag.
      bind_res
        (if tag = 0 then
           bind_res (slice 241 277 bs) (\<lambda>rest.
           if rest \<noteq> replicate 36 0 then Err InvalidFrame else Ok None)
         else if tag = 1 then
           bind_res (field 4 241 245 bs) (\<lambda>otp_id.
           bind_res (field 32 245 277 bs) (\<lambda>otp_key.
           Ok (Some \<lparr>otpk_id = from_be_bytes otp_id, otpk_public = DhPublicKey otp_key\<rparr>)))
         else Err InvalidFrame) (\<lambda>one_time_prekey.
      Ok \<lparr>rb_identity = ident, rb_signed_prekey = signed_prekey,
          rb_one_time_prekey = one_time_prekey\<rparr>))))))))))))))"

definition ResponderPrekeyBundle_verify :: "primitives \<Rightarrow> responder_bundle \<Rightarrow> u64 \<Rightarrow> unit res" where
  "ResponderPrekeyBundle_verify P b now_unix =
     bind_res (IdentityDhPublic_verify P (rb_identity b)) (\<lambda>_.
     SignedPrekey_verify P (rb_signed_prekey b) (id_signing (rb_identity b)) now_unix)"

section \<open>Responder prekey material\<close>

record responder_material =
  rm_identity :: local_identity
  rm_signed_prekey :: dh_key_pair
  rm_signed_record :: signed_prekey
  rm_retired_signed_prekeys :: "(signed_prekey \<times> dh_key_pair) list"
  rm_one_time_prekeys :: "one_time_prekey list"

text \<open>The responder signs the transcript of a hybrid bundle with its identity key.\<close>

definition ResponderPrekeyMaterial_sign_message :: "primitives \<Rightarrow> responder_material \<Rightarrow> bytes \<Rightarrow> bytes" where
  "ResponderPrekeyMaterial_sign_message P m message = LocalIdentity_sign_message P (rm_identity m) message"

declare ResponderPrekeyMaterial_sign_message_def [simp]

definition ResponderPrekeyMaterial_generate ::
    "primitives \<Rightarrow> u32 \<Rightarrow> u64 \<Rightarrow> rng \<Rightarrow> responder_material res \<times> rng" where
  "ResponderPrekeyMaterial_generate P signed_prekey_id expires_at_unix =
     io_bind (LocalIdentity_generate P) (\<lambda>identity.
     io_bind (DhKeyPair_generate P) (\<lambda>signed_prekey.
     io_lift (Ok
       \<lparr>rm_identity = identity, rm_signed_prekey = signed_prekey,
        rm_signed_record = SignedPrekey_issue P (LocalIdentity_signing identity) signed_prekey_id
          (kp_public signed_prekey) expires_at_unix,
        rm_retired_signed_prekeys = [], rm_one_time_prekeys = []\<rparr>)))"

definition ResponderPrekeyMaterial_bundle :: "primitives \<Rightarrow> responder_material \<Rightarrow> responder_bundle" where
  "ResponderPrekeyMaterial_bundle P m =
     \<lparr>rb_identity = LocalIdentity_public P (rm_identity m),
      rb_signed_prekey = rm_signed_record m,
      rb_one_time_prekey =
        (case rm_one_time_prekeys m of [] \<Rightarrow> None | entry # _ \<Rightarrow> Some (otp_public entry))\<rparr>"

definition available_one_time_prekeys :: "responder_material \<Rightarrow> nat" where
  "available_one_time_prekeys m = length (rm_one_time_prekeys m)"

text \<open>The \<open>&mut self\<close> operations return the result, the material afterwards and the random source.\<close>

definition add_one_time_prekey ::
    "primitives \<Rightarrow> u32 \<Rightarrow> responder_material \<Rightarrow> rng \<Rightarrow> unit res \<times> responder_material \<times> rng" where
  "add_one_time_prekey P i m r =
     (if \<exists>entry \<in> set (rm_one_time_prekeys m). otpk_id (otp_public entry) = i
      then (Err InvalidState, m, r)
      else
        case DhKeyPair_generate P r of
          (Inl e, r') \<Rightarrow> (Inl e, m, r')
        | (Inr key, r') \<Rightarrow>
            (Ok (),
             m\<lparr>rm_one_time_prekeys := rm_one_time_prekeys m @
               [\<lparr>otp_public = \<lparr>otpk_id = i, otpk_public = kp_public key\<rparr>, otp_key = key\<rparr>]\<rparr>,
             r'))"

definition rotate_signed_prekey ::
    "primitives \<Rightarrow> u32 \<Rightarrow> u64 \<Rightarrow> responder_material \<Rightarrow> rng \<Rightarrow> unit res \<times> responder_material \<times> rng" where
  "rotate_signed_prekey P i expires_at_unix m r =
     (if sp_key_id (rm_signed_record m) = i
         \<or> (\<exists>(record, _) \<in> set (rm_retired_signed_prekeys m). sp_key_id record = i)
      then (Err InvalidState, m, r)
      else
        case DhKeyPair_generate P r of
          (Inl e, r') \<Rightarrow> (Inl e, m, r')
        | (Inr key, r') \<Rightarrow>
            let retired = DhKeyPair_from_secret P (DhSecretKey (DhKeyPair_secret_bytes (rm_signed_prekey m)));
                m1 = m\<lparr>rm_retired_signed_prekeys :=
                  rm_retired_signed_prekeys m @ [(rm_signed_record m, retired)]\<rparr>;
                m2 = m1\<lparr>rm_signed_record :=
                  SignedPrekey_issue P (LocalIdentity_signing (rm_identity m)) i (kp_public key) expires_at_unix\<rparr>
            in (Ok (), m2\<lparr>rm_signed_prekey := key\<rparr>, r'))"

definition retire_signed_prekey :: "u32 \<Rightarrow> responder_material \<Rightarrow> unit res \<times> responder_material" where
  "retire_signed_prekey i m =
     (case position (\<lambda>(record, _). sp_key_id record = i) (rm_retired_signed_prekeys m) of
        None \<Rightarrow> (Err InvalidState, m)
      | Some index \<Rightarrow>
          (Ok (), m\<lparr>rm_retired_signed_prekeys := remove_at index (rm_retired_signed_prekeys m)\<rparr>))"

section \<open>Initiator messages\<close>

record initiator_handshake =
  ih_initiator_identity :: identity_dh_public
  ih_initiator_ephemeral :: dh_public
  ih_initiator_ratchet :: dh_public
  ih_signed_prekey_id :: u32
  ih_one_time_prekey_id :: "u32 option"

definition InitiatorHandshake_initiator_identity :: "initiator_handshake \<Rightarrow> identity_dh_public" where
  "InitiatorHandshake_initiator_identity msg = ih_initiator_identity msg"

definition InitiatorHandshake_initiator_ephemeral :: "initiator_handshake \<Rightarrow> dh_public" where
  "InitiatorHandshake_initiator_ephemeral msg = ih_initiator_ephemeral msg"

declare InitiatorHandshake_initiator_identity_def [simp]
  InitiatorHandshake_initiator_ephemeral_def [simp]

definition InitiatorHandshake_encode :: "initiator_handshake \<Rightarrow> bytes" where
  "InitiatorHandshake_encode msg =
     HANDSHAKE_MAGIC @ [HANDSHAKE_VERSION]
       @ identity_public_bytes (id_signing (ih_initiator_identity msg))
       @ dh_public_bytes (id_dh (ih_initiator_identity msg))
       @ id_signature (ih_initiator_identity msg)
       @ dh_public_bytes (ih_initiator_ephemeral msg)
       @ dh_public_bytes (ih_initiator_ratchet msg)
       @ to_be_bytes (ih_signed_prekey_id msg)
       @ (case ih_one_time_prekey_id msg of
            Some i \<Rightarrow> [1] @ to_be_bytes i
          | None \<Rightarrow> [0] @ to_be_bytes (0 :: u32))"

definition InitiatorHandshake_decode :: "primitives \<Rightarrow> bytes \<Rightarrow> initiator_handshake res" where
  "InitiatorHandshake_decode P bs =
     (if length bs \<noteq> MESSAGE_LEN then Err InvalidFrame else
      bind_res (slice 0 3 bs) (\<lambda>magic.
      if magic \<noteq> HANDSHAKE_MAGIC then Err InvalidFrame else
      bind_res (index_at bs 3) (\<lambda>version.
      if version \<noteq> HANDSHAKE_VERSION then Err InvalidFrame else
      bind_res (field 32 4 36 bs) (\<lambda>signing_bytes.
      bind_res (IdentityPublicKey_from_bytes P signing_bytes) (\<lambda>signing.
      bind_res (field 32 36 68 bs) (\<lambda>dh.
      bind_res (field 64 68 132 bs) (\<lambda>signature.
      bind_res (field 32 132 164 bs) (\<lambda>ephemeral.
      bind_res (field 32 164 196 bs) (\<lambda>ratchet.
      bind_res (field 4 196 200 bs) (\<lambda>prekey_id.
      bind_res (index_at bs 200) (\<lambda>tag.
      bind_res
        (if tag = 0 then
           bind_res (slice 201 205 bs) (\<lambda>rest.
           if rest \<noteq> replicate 4 0 then Err InvalidFrame else Ok None)
         else if tag = 1 then
           bind_res (field 4 201 205 bs) (\<lambda>otp_id. Ok (Some (from_be_bytes otp_id)))
         else Err InvalidFrame) (\<lambda>one_time_prekey_id.
      let ident = \<lparr>id_signing = signing, id_dh = DhPublicKey dh, id_signature = signature\<rparr> in
      bind_res (IdentityDhPublic_verify P ident) (\<lambda>_.
      Ok \<lparr>ih_initiator_identity = ident, ih_initiator_ephemeral = DhPublicKey ephemeral,
          ih_initiator_ratchet = DhPublicKey ratchet, ih_signed_prekey_id = from_be_bytes prekey_id,
          ih_one_time_prekey_id = one_time_prekey_id\<rparr>)))))))))))))"

section \<open>Key agreement\<close>

record authenticated_handshake =
  ah_session_id :: bytes
  ah_root_secret :: secret
  ah_role :: ratchet_role
  ah_local_ratchet :: dh_key_pair
  ah_remote_ratchet :: dh_public

definition AuthenticatedHandshake_session_id :: "authenticated_handshake \<Rightarrow> bytes" where
  "AuthenticatedHandshake_session_id h = ah_session_id h"

definition into_ratchet_parts ::
    "authenticated_handshake \<Rightarrow> bytes \<times> secret \<times> ratchet_role \<times> dh_key_pair \<times> dh_public" where
  "into_ratchet_parts h =
     (ah_session_id h, ah_root_secret h, ah_role h, ah_local_ratchet h, ah_remote_ratchet h)"

declare AuthenticatedHandshake_session_id_def [simp] into_ratchet_parts_def [simp]

definition derive_handshake_values ::
    "primitives \<Rightarrow> initiator_handshake \<Rightarrow> identity_dh_public \<Rightarrow> bytes \<Rightarrow> bytes \<Rightarrow> bytes \<Rightarrow> bytes option
       \<Rightarrow> (bytes \<times> secret) res" where
  "derive_handshake_values P msg responder_identity dh1 dh2 dh3 dh4 =
     (let message_wire = InitiatorHandshake_encode msg;
          responder_wire = identity_public_wire responder_identity in
      bind_res (blake3_id P SESSION_LABEL [message_wire, responder_wire]) (\<lambda>session_id.
      let material = dh1 @ dh2 @ dh3 @ (case dh4 of Some v \<Rightarrow> v | None \<Rightarrow> []) in
      bind_res (derive_secret P session_id HANDSHAKE_ROOT_LABEL material) (\<lambda>root_secret.
      Ok (session_id, root_secret))))"

definition handshake_initiate ::
    "primitives \<Rightarrow> local_identity \<Rightarrow> responder_bundle \<Rightarrow> u64 \<Rightarrow> rng
       \<Rightarrow> (initiator_handshake \<times> authenticated_handshake) res \<times> rng" where
  "handshake_initiate P identity bundle now_unix =
     io_bind (io_lift (ResponderPrekeyBundle_verify P bundle now_unix)) (\<lambda>_.
     io_bind (DhKeyPair_generate P) (\<lambda>ephemeral.
     io_bind (DhKeyPair_generate P) (\<lambda>ratchet.
     io_lift
       (bind_res (DhKeyPair_diffie_hellman P (LocalIdentity_dh identity) (sp_public (rb_signed_prekey bundle))) (\<lambda>dh1.
        bind_res (DhKeyPair_diffie_hellman P ephemeral (id_dh (rb_identity bundle))) (\<lambda>dh2.
        bind_res (DhKeyPair_diffie_hellman P ephemeral (sp_public (rb_signed_prekey bundle))) (\<lambda>dh3.
        bind_res
          (case rb_one_time_prekey bundle of
             Some prekey \<Rightarrow>
               bind_res (DhKeyPair_diffie_hellman P ephemeral (otpk_public prekey)) (\<lambda>v. Ok (Some v))
           | None \<Rightarrow> Ok None) (\<lambda>dh4.
        let msg =
          \<lparr>ih_initiator_identity = LocalIdentity_public P identity,
           ih_initiator_ephemeral = kp_public ephemeral,
           ih_initiator_ratchet = kp_public ratchet,
           ih_signed_prekey_id = sp_key_id (rb_signed_prekey bundle),
           ih_one_time_prekey_id = map_option otpk_id (rb_one_time_prekey bundle)\<rparr> in
        bind_res (derive_handshake_values P msg (rb_identity bundle) dh1 dh2 dh3 dh4)
          (\<lambda>(session_id, root_secret).
        Ok (msg,
          \<lparr>ah_session_id = session_id, ah_root_secret = root_secret, ah_role = Initiator,
           ah_local_ratchet = ratchet,
           ah_remote_ratchet = sp_public (rb_signed_prekey bundle)\<rparr>))))))))))"

text \<open>The signed prekey a message names: the current one, or a retained one.\<close>

definition accept_signed_prekey ::
    "primitives \<Rightarrow> responder_material \<Rightarrow> u32 \<Rightarrow> dh_key_pair res" where
  "accept_signed_prekey P m i =
     (if i = sp_key_id (rm_signed_record m)
      then Ok (DhKeyPair_from_secret P (DhSecretKey (DhKeyPair_secret_bytes (rm_signed_prekey m))))
      else
        bind_res
          (ok_or (find (\<lambda>(record, _). sp_key_id record = i) (rm_retired_signed_prekeys m))
             RatchetStateMismatch)
          (\<lambda>(_, key). Ok (DhKeyPair_from_secret P (DhSecretKey (DhKeyPair_secret_bytes key)))))"

definition handshake_accept ::
    "primitives \<Rightarrow> responder_material \<Rightarrow> initiator_handshake
       \<Rightarrow> authenticated_handshake res \<times> responder_material" where
  "handshake_accept P m msg =
     (let computed =
        bind_res (IdentityDhPublic_verify P (ih_initiator_identity msg)) (\<lambda>_.
        bind_res (accept_signed_prekey P m (ih_signed_prekey_id msg)) (\<lambda>signed_prekey.
        bind_res
          (case ih_one_time_prekey_id msg of
             Some i \<Rightarrow>
               bind_res
                 (ok_or (position (\<lambda>entry. otpk_id (otp_public entry) = i) (rm_one_time_prekeys m))
                    RatchetStateMismatch) (\<lambda>index. Ok (Some index))
           | None \<Rightarrow> Ok None) (\<lambda>one_time_index.
        bind_res (DhKeyPair_diffie_hellman P signed_prekey (id_dh (ih_initiator_identity msg))) (\<lambda>dh1.
        bind_res (DhKeyPair_diffie_hellman P (LocalIdentity_dh (rm_identity m)) (ih_initiator_ephemeral msg)) (\<lambda>dh2.
        bind_res (DhKeyPair_diffie_hellman P signed_prekey (ih_initiator_ephemeral msg)) (\<lambda>dh3.
        bind_res
          (case one_time_index of
             Some index \<Rightarrow>
               bind_res (index_at (rm_one_time_prekeys m) index) (\<lambda>entry.
               bind_res (DhKeyPair_diffie_hellman P (otp_key entry) (ih_initiator_ephemeral msg)) (\<lambda>v.
               Ok (Some v)))
           | None \<Rightarrow> Ok None) (\<lambda>dh4.
        bind_res
          (derive_handshake_values P msg (LocalIdentity_public P (rm_identity m)) dh1 dh2 dh3 dh4)
          (\<lambda>(session_id, root_secret).
        Ok (one_time_index,
          \<lparr>ah_session_id = session_id, ah_root_secret = root_secret, ah_role = Responder,
           ah_local_ratchet = signed_prekey, ah_remote_ratchet = ih_initiator_ratchet msg\<rparr>)))))))))
      in
        case computed of
          Inl e \<Rightarrow> (Inl e, m)
        | Inr (one_time_index, handshake) \<Rightarrow>
            (Ok handshake,
             case one_time_index of
               Some index \<Rightarrow> m\<lparr>rm_one_time_prekeys := remove_at index (rm_one_time_prekeys m)\<rparr>
             | None \<Rightarrow> m))"

definition mix_ml_kem768 ::
    "primitives \<Rightarrow> authenticated_handshake \<Rightarrow> bytes \<Rightarrow> authenticated_handshake res" where
  "mix_ml_kem768 P ah shared_secret =
     (let classical_root = secret_bytes (ah_root_secret ah) in
      bind_res (blake3_id P HYBRID_SESSION_LABEL [ah_session_id ah, shared_secret]) (\<lambda>session_id.
      let input = classical_root @ shared_secret in
      bind_res (derive_secret P session_id HYBRID_ROOT_LABEL input) (\<lambda>root.
      Ok (ah\<lparr>ah_session_id := session_id, ah_root_secret := root\<rparr>))))"

section \<open>Wire formats\<close>

definition identity_ok :: "primitives \<Rightarrow> identity_dh_public \<Rightarrow> bool" where
  "identity_ok P i \<longleftrightarrow>
     length (identity_public_bytes (id_signing i)) = 32 \<and> length (dh_public_bytes (id_dh i)) = 32 \<and>
     length (id_signature i) = 64 \<and> IdentityDhPublic_verify P i = Ok ()"

definition message_ok :: "primitives \<Rightarrow> initiator_handshake \<Rightarrow> bool" where
  "message_ok P msg \<longleftrightarrow>
     identity_ok P (ih_initiator_identity msg) \<and>
     length (dh_public_bytes (ih_initiator_ephemeral msg)) = 32 \<and>
     length (dh_public_bytes (ih_initiator_ratchet msg)) = 32"

definition bundle_ok :: "primitives \<Rightarrow> responder_bundle \<Rightarrow> bool" where
  "bundle_ok P b \<longleftrightarrow>
     identity_ok P (rb_identity b) \<and> signed_prekey_ok (rb_signed_prekey b) \<and>
     (\<forall>k. rb_one_time_prekey b = Some k \<longrightarrow> length (dh_public_bytes (otpk_public k)) = 32)"

lemma identity_eta [simp]:
  "\<lparr>id_signing = id_signing i, id_dh = id_dh i, id_signature = id_signature i\<rparr> = i"
  by simp

lemma magic_bytes:
  "HANDSHAKE_MAGIC = [77, 69, 72]" "BUNDLE_MAGIC = [77, 69, 66]"
  by (simp_all add: HANDSHAKE_MAGIC_def BUNDLE_MAGIC_def ascii_def of_char_def)

lemma wire_lens: "MESSAGE_LEN = 205" "BUNDLE_LEN = 277"
  by (simp_all add: MESSAGE_LEN_def BUNDLE_LEN_def)

lemma identity_ok_key: "identity_ok P i \<Longrightarrow> ed25519_key_ok P (identity_public_bytes (id_signing i))"
  by (simp add: identity_ok_def IdentityDhPublic_verify_def res_iff)

lemma identity_ok_lengths:
  assumes "identity_ok P i"
  shows "length (identity_public_bytes (id_signing i)) = 32" "length (dh_public_bytes (id_dh i)) = 32"
    "length (id_signature i) = 64" "IdentityDhPublic_verify P i = Ok ()"
  using assms by (simp_all add: identity_ok_def)

lemma verify_unit: "IdentityPublicKey_verify P k m s = Ok u \<longleftrightarrow> IdentityPublicKey_verify P k m s = Ok ()"
  by simp

lemma key_from_bytes_Ok [res_iff]:
  "IdentityPublicKey_from_bytes P bs = Inr k \<longleftrightarrow> ed25519_key_ok P bs \<and> k = IdentityPublicKey bs"
  by (auto simp: IdentityPublicKey_from_bytes_def)

text \<open>The lengths alone, which hold of a message whose signature is wrong, too.\<close>

definition message_shape :: "initiator_handshake \<Rightarrow> bool" where
  "message_shape msg \<longleftrightarrow>
     length (identity_public_bytes (id_signing (ih_initiator_identity msg))) = 32 \<and>
     length (dh_public_bytes (id_dh (ih_initiator_identity msg))) = 32 \<and>
     length (id_signature (ih_initiator_identity msg)) = 64 \<and>
     length (dh_public_bytes (ih_initiator_ephemeral msg)) = 32 \<and>
     length (dh_public_bytes (ih_initiator_ratchet msg)) = 32"

lemma message_ok_shape: "message_ok P msg \<Longrightarrow> message_shape msg"
  by (simp add: message_ok_def identity_ok_def message_shape_def)

lemma length_message_shape: "message_shape msg \<Longrightarrow> length (InitiatorHandshake_encode msg) = 205"
  by (auto simp: InitiatorHandshake_encode_def message_shape_def magic_bytes split: option.split)

lemma length_message_encode: "message_ok P msg \<Longrightarrow> length (InitiatorHandshake_encode msg) = 205"
  by (rule length_message_shape [OF message_ok_shape])

lemma length_bundle_encode:
  "bundle_ok P b \<Longrightarrow> length (ResponderPrekeyBundle_encode b) = 277"
  by (auto simp: ResponderPrekeyBundle_encode_def bundle_ok_def signed_prekey_ok_def identity_ok_def
      magic_bytes split: option.split)

text \<open>The parsers on a string of the right length.\<close>

lemma message_decode_in_range:
  assumes "length bs = 205"
  shows "InitiatorHandshake_decode P bs =
    (if sub_list 0 3 bs \<noteq> HANDSHAKE_MAGIC \<or> bs ! 3 \<noteq> HANDSHAKE_VERSION then Err InvalidFrame else
     bind_res (IdentityPublicKey_from_bytes P (sub_list 4 36 bs)) (\<lambda>signing.
     let ident = \<lparr>id_signing = signing, id_dh = DhPublicKey (sub_list 36 68 bs),
       id_signature = sub_list 68 132 bs\<rparr>;
       result = (\<lambda>otp. bind_res (IdentityDhPublic_verify P ident) (\<lambda>_.
         Ok \<lparr>ih_initiator_identity = ident,
             ih_initiator_ephemeral = DhPublicKey (sub_list 132 164 bs),
             ih_initiator_ratchet = DhPublicKey (sub_list 164 196 bs),
             ih_signed_prekey_id = from_be_bytes (sub_list 196 200 bs),
             ih_one_time_prekey_id = otp\<rparr>)) in
     if bs ! 200 = 0 then
       (if sub_list 201 205 bs \<noteq> replicate 4 0 then Err InvalidFrame else result None)
     else if bs ! 200 = 1 then result (Some (from_be_bytes (sub_list 201 205 bs)))
     else Err InvalidFrame))"
  using assms
  by (simp add: InitiatorHandshake_decode_def wire_lens Let_def del: replicate.simps split: res_split)

lemma bundle_decode_in_range:
  assumes "length bs = 277"
  shows "ResponderPrekeyBundle_decode P bs =
    (if sub_list 0 3 bs \<noteq> BUNDLE_MAGIC \<or> bs ! 3 \<noteq> HANDSHAKE_VERSION then Err InvalidFrame else
     bind_res (IdentityPublicKey_from_bytes P (sub_list 4 36 bs)) (\<lambda>signing.
     let ident = \<lparr>id_signing = signing, id_dh = DhPublicKey (sub_list 36 68 bs),
       id_signature = sub_list 68 132 bs\<rparr>;
       result = (\<lambda>otp. Ok \<lparr>rb_identity = ident,
         rb_signed_prekey = \<lparr>sp_key_id = from_be_bytes (sub_list 132 136 bs),
           sp_public = DhPublicKey (sub_list 136 168 bs),
           sp_expires_at_unix = from_be_bytes (sub_list 168 176 bs),
           sp_signature = sub_list 176 240 bs\<rparr>,
         rb_one_time_prekey = otp\<rparr>) in
     bind_res (IdentityDhPublic_verify P ident) (\<lambda>_.
     if bs ! 240 = 0 then
       (if sub_list 241 277 bs \<noteq> replicate 36 0 then Err InvalidFrame else result None)
     else if bs ! 240 = 1 then
       result (Some \<lparr>otpk_id = from_be_bytes (sub_list 241 245 bs),
         otpk_public = DhPublicKey (sub_list 245 277 bs)\<rparr>)
     else Err InvalidFrame)))"
  using assms
  by (simp add: ResponderPrekeyBundle_decode_def wire_lens Let_def del: replicate.simps split: res_split)

lemma message_encode_fields:
  assumes "message_shape msg" "bs = InitiatorHandshake_encode msg"
  shows "sub_list 0 3 bs = HANDSHAKE_MAGIC" "bs ! 3 = HANDSHAKE_VERSION"
    "sub_list 4 36 bs = identity_public_bytes (id_signing (ih_initiator_identity msg))"
    "sub_list 36 68 bs = dh_public_bytes (id_dh (ih_initiator_identity msg))"
    "sub_list 68 132 bs = id_signature (ih_initiator_identity msg)"
    "sub_list 132 164 bs = dh_public_bytes (ih_initiator_ephemeral msg)"
    "sub_list 164 196 bs = dh_public_bytes (ih_initiator_ratchet msg)"
    "sub_list 196 200 bs = to_be_bytes (ih_signed_prekey_id msg)"
    "bs ! 200 = (case ih_one_time_prekey_id msg of None \<Rightarrow> 0 | Some _ \<Rightarrow> 1)"
    "sub_list 201 205 bs = (case ih_one_time_prekey_id msg of None \<Rightarrow> replicate 4 0 | Some i \<Rightarrow> to_be_bytes i)"
proof -
  note z = zero_u32_bytes
  note facts = assms [unfolded message_shape_def InitiatorHandshake_encode_def magic_bytes]
  show "sub_list 0 3 bs = HANDSHAKE_MAGIC" "bs ! 3 = HANDSHAKE_VERSION"
    "sub_list 4 36 bs = identity_public_bytes (id_signing (ih_initiator_identity msg))"
    "sub_list 36 68 bs = dh_public_bytes (id_dh (ih_initiator_identity msg))"
    "sub_list 68 132 bs = id_signature (ih_initiator_identity msg)"
    "sub_list 132 164 bs = dh_public_bytes (ih_initiator_ephemeral msg)"
    "sub_list 164 196 bs = dh_public_bytes (ih_initiator_ratchet msg)"
    "sub_list 196 200 bs = to_be_bytes (ih_signed_prekey_id msg)"
    using facts by (simp_all add: sub_list_def nth_append nth_Cons' magic_bytes)
  show "bs ! 200 = (case ih_one_time_prekey_id msg of None \<Rightarrow> 0 | Some _ \<Rightarrow> 1)"
    "sub_list 201 205 bs = (case ih_one_time_prekey_id msg of None \<Rightarrow> replicate 4 0 | Some i \<Rightarrow> to_be_bytes i)"
    using facts by (simp_all add: sub_list_def nth_append nth_Cons' z split: option.split)
qed

lemma message_decode_verifies:
  assumes "message_shape msg" "ed25519_key_ok P (identity_public_bytes (id_signing (ih_initiator_identity msg)))"
  shows "InitiatorHandshake_decode P (InitiatorHandshake_encode msg) =
    bind_res (IdentityDhPublic_verify P (ih_initiator_identity msg)) (\<lambda>_. Ok msg)"
proof -
  note f = message_encode_fields [OF assms(1) refl]
  have "IdentityPublicKey_from_bytes P (identity_public_bytes (id_signing (ih_initiator_identity msg)))
      = Ok (id_signing (ih_initiator_identity msg))"
    using assms(2) by (simp add: res_iff)
  then show ?thesis
    using length_message_shape [OF assms(1)]
    by (cases "ih_one_time_prekey_id msg"; cases "IdentityDhPublic_verify P (ih_initiator_identity msg)")
      (simp_all add: message_decode_in_range f Let_def)
qed

lemma message_decode_encode:
  assumes "message_ok P msg"
  shows "InitiatorHandshake_decode P (InitiatorHandshake_encode msg) = Ok msg"
proof -
  have i: "identity_ok P (ih_initiator_identity msg)" using assms by (simp add: message_ok_def)
  show ?thesis
    using message_decode_verifies [OF message_ok_shape [OF assms] identity_ok_key [OF i]] identity_ok_lengths(4) [OF i]
    by simp
qed

lemma message_decode_sound:
  assumes "InitiatorHandshake_decode P bs = Ok msg"
  shows "message_ok P msg" "InitiatorHandshake_encode msg = bs"
proof -
  have len: "length bs = 205"
    using assms by (auto simp: InitiatorHandshake_decode_def wire_lens split: if_splits)
  let ?ident = "\<lparr>id_signing = IdentityPublicKey (sub_list 4 36 bs),
    id_dh = DhPublicKey (sub_list 36 68 bs), id_signature = sub_list 68 132 bs\<rparr>"
  let ?msg = "\<lambda>otp. \<lparr>ih_initiator_identity = ?ident,
             ih_initiator_ephemeral = DhPublicKey (sub_list 132 164 bs),
             ih_initiator_ratchet = DhPublicKey (sub_list 164 196 bs),
             ih_signed_prekey_id = from_be_bytes (sub_list 196 200 bs),
             ih_one_time_prekey_id = otp\<rparr>"
  have parts: "sub_list 0 3 bs = HANDSHAKE_MAGIC" "bs ! 3 = HANDSHAKE_VERSION"
    "IdentityDhPublic_verify P ?ident = Ok ()"
    "bs ! 200 = 0 \<and> sub_list 201 205 bs = replicate 4 0 \<and> msg = ?msg None \<or>
     bs ! 200 = 1 \<and> msg = ?msg (Some (from_be_bytes (sub_list 201 205 bs)))"
    using assms
    by (auto simp: message_decode_in_range [OF len] res_iff Let_def simp del: replicate.simps
        split: if_splits)
  then show "message_ok P msg" using len by (auto simp: message_ok_def identity_ok_def)
  note z = zero_u32_bytes
  have "InitiatorHandshake_encode msg = sub_list 0 3 bs @ [bs ! 3] @ sub_list 4 36 bs
      @ sub_list 36 68 bs @ sub_list 68 132 bs @ sub_list 132 164 bs @ sub_list 164 196 bs
      @ sub_list 196 200 bs @ [bs ! 200] @ sub_list 201 205 bs"
    using parts(4) len
    by (auto simp: InitiatorHandshake_encode_def parts(1,2) z simp del: replicate.simps)
  also have "\<dots> = sub_list 0 205 bs"
    using len by (simp add: slice_join)
  finally show "InitiatorHandshake_encode msg = bs" using len by simp
qed

interpretation message: fixed_width_format "\<lambda>msg. Ok (InitiatorHandshake_encode msg)"
  "InitiatorHandshake_decode P" "message_ok P" 205 for P
proof unfold_locales
  show "InitiatorHandshake_decode P bs \<noteq> Panics" for bs
  proof (cases "length bs = 205")
    case True
    then show ?thesis
      by (auto simp: message_decode_in_range Let_def IdentityPublicKey_from_bytes_def
          IdentityDhPublic_verify_def IdentityPublicKey_verify_def simp del: replicate.simps)
  next
    case False
    then show ?thesis by (simp add: InitiatorHandshake_decode_def wire_lens)
  qed
  show "length bs = 205" if "InitiatorHandshake_decode P bs = Ok msg" for bs msg
    using length_message_encode message_decode_sound [OF that] by blast
qed (auto simp: message_decode_encode dest: message_decode_sound)

lemma bundle_encode_fields:
  assumes "bundle_ok P b" "bs = ResponderPrekeyBundle_encode b"
  shows "sub_list 0 3 bs = BUNDLE_MAGIC" "bs ! 3 = HANDSHAKE_VERSION"
    "sub_list 4 36 bs = identity_public_bytes (id_signing (rb_identity b))"
    "sub_list 36 68 bs = dh_public_bytes (id_dh (rb_identity b))"
    "sub_list 68 132 bs = id_signature (rb_identity b)"
    "sub_list 132 136 bs = to_be_bytes (sp_key_id (rb_signed_prekey b))"
    "sub_list 136 168 bs = dh_public_bytes (sp_public (rb_signed_prekey b))"
    "sub_list 168 176 bs = to_be_bytes (sp_expires_at_unix (rb_signed_prekey b))"
    "sub_list 176 240 bs = sp_signature (rb_signed_prekey b)"
    "bs ! 240 = (case rb_one_time_prekey b of None \<Rightarrow> 0 | Some _ \<Rightarrow> 1)"
    "sub_list 241 277 bs = (case rb_one_time_prekey b of None \<Rightarrow> replicate 36 0
       | Some k \<Rightarrow> to_be_bytes (otpk_id k) @ dh_public_bytes (otpk_public k))"
    "rb_one_time_prekey b = Some k \<Longrightarrow> sub_list 241 245 bs = to_be_bytes (otpk_id k)"
    "rb_one_time_prekey b = Some k \<Longrightarrow> sub_list 245 277 bs = dh_public_bytes (otpk_public k)"
proof -
  have z: "replicate 4 (0 :: u8) @ replicate 32 0 = replicate 36 0"
    by (simp only: replicate_add [symmetric]) simp
  note facts = assms [unfolded bundle_ok_def signed_prekey_ok_def identity_ok_def
      ResponderPrekeyBundle_encode_def magic_bytes]
  show "sub_list 0 3 bs = BUNDLE_MAGIC" "bs ! 3 = HANDSHAKE_VERSION"
    "sub_list 4 36 bs = identity_public_bytes (id_signing (rb_identity b))"
    "sub_list 36 68 bs = dh_public_bytes (id_dh (rb_identity b))"
    "sub_list 68 132 bs = id_signature (rb_identity b)"
    "sub_list 132 136 bs = to_be_bytes (sp_key_id (rb_signed_prekey b))"
    "sub_list 136 168 bs = dh_public_bytes (sp_public (rb_signed_prekey b))"
    "sub_list 168 176 bs = to_be_bytes (sp_expires_at_unix (rb_signed_prekey b))"
    "sub_list 176 240 bs = sp_signature (rb_signed_prekey b)"
    using facts by (simp_all add: sub_list_def nth_append nth_Cons' magic_bytes)
  show "bs ! 240 = (case rb_one_time_prekey b of None \<Rightarrow> 0 | Some _ \<Rightarrow> 1)"
    using facts by (simp add: nth_append nth_Cons' split: option.split)
  show "sub_list 241 277 bs = (case rb_one_time_prekey b of None \<Rightarrow> replicate 36 0
       | Some k \<Rightarrow> to_be_bytes (otpk_id k) @ dh_public_bytes (otpk_public k))"
    using facts z by (simp add: sub_list_def zero_u32_bytes split: option.split)
  show "sub_list 241 245 bs = to_be_bytes (otpk_id k)" "sub_list 245 277 bs = dh_public_bytes (otpk_public k)"
    if "rb_one_time_prekey b = Some k"
    using facts that by (simp_all add: sub_list_def)
qed

lemma bundle_decode_encode:
  assumes "bundle_ok P b"
  shows "ResponderPrekeyBundle_decode P (ResponderPrekeyBundle_encode b) = Ok b"
proof -
  have i: "identity_ok P (rb_identity b)" using assms by (simp add: bundle_ok_def)
  note f = bundle_encode_fields [OF assms refl]
  have "IdentityPublicKey_from_bytes P (identity_public_bytes (id_signing (rb_identity b)))
      = Ok (id_signing (rb_identity b))"
    using identity_ok_key [OF i] by (simp add: res_iff)
  then show ?thesis
    using identity_ok_lengths(4) [OF i] length_bundle_encode [OF assms]
    by (cases "rb_one_time_prekey b") (simp_all add: bundle_decode_in_range f Let_def)
qed

lemma bundle_decode_sound:
  assumes "ResponderPrekeyBundle_decode P bs = Ok b"
  shows "bundle_ok P b" "ResponderPrekeyBundle_encode b = bs"
proof -
  have len: "length bs = 277"
    using assms by (auto simp: ResponderPrekeyBundle_decode_def wire_lens split: if_splits)
  let ?ident = "\<lparr>id_signing = IdentityPublicKey (sub_list 4 36 bs),
    id_dh = DhPublicKey (sub_list 36 68 bs), id_signature = sub_list 68 132 bs\<rparr>"
  let ?b = "\<lambda>otp. \<lparr>rb_identity = ?ident,
         rb_signed_prekey = \<lparr>sp_key_id = from_be_bytes (sub_list 132 136 bs),
           sp_public = DhPublicKey (sub_list 136 168 bs),
           sp_expires_at_unix = from_be_bytes (sub_list 168 176 bs),
           sp_signature = sub_list 176 240 bs\<rparr>,
         rb_one_time_prekey = otp\<rparr>"
  let ?k = "\<lparr>otpk_id = from_be_bytes (sub_list 241 245 bs),
    otpk_public = DhPublicKey (sub_list 245 277 bs)\<rparr>"
  have parts: "sub_list 0 3 bs = BUNDLE_MAGIC" "bs ! 3 = HANDSHAKE_VERSION"
    "IdentityDhPublic_verify P ?ident = Ok ()"
    "bs ! 240 = 0 \<and> sub_list 241 277 bs = replicate 36 0 \<and> b = ?b None \<or>
     bs ! 240 = 1 \<and> b = ?b (Some ?k)"
    using assms
    by (auto simp: bundle_decode_in_range [OF len] res_iff Let_def simp del: replicate.simps
        split: if_splits)
  then show "bundle_ok P b"
    using len by (auto simp: bundle_ok_def identity_ok_def signed_prekey_ok_def)
  have z: "replicate 36 (0 :: u8) = replicate 4 0 @ replicate 32 0"
    by (simp only: replicate_add [symmetric]) simp
  have j: "sub_list 241 277 bs = sub_list 241 245 bs @ sub_list 245 277 bs"
    by (simp add: slice_join)
  have "ResponderPrekeyBundle_encode b = sub_list 0 3 bs @ [bs ! 3] @ sub_list 4 36 bs
      @ sub_list 36 68 bs @ sub_list 68 132 bs @ sub_list 132 136 bs @ sub_list 136 168 bs
      @ sub_list 168 176 bs @ sub_list 176 240 bs @ [bs ! 240] @ sub_list 241 277 bs"
    using parts(4) len
    by (elim disjE conjE)
       (simp_all add: ResponderPrekeyBundle_encode_def parts(1,2) zero_u32_bytes z j del: replicate.simps)
  also have "\<dots> = sub_list 0 277 bs"
    using len by (simp add: slice_join)
  finally show "ResponderPrekeyBundle_encode b = bs" using len by simp
qed

interpretation prekey_bundle: fixed_width_format "\<lambda>b. Ok (ResponderPrekeyBundle_encode b)"
  "ResponderPrekeyBundle_decode P" "bundle_ok P" 277 for P
proof unfold_locales
  show "ResponderPrekeyBundle_decode P bs \<noteq> Panics" for bs
  proof (cases "length bs = 277")
    case True
    then show ?thesis
      by (auto simp: bundle_decode_in_range Let_def IdentityPublicKey_from_bytes_def
          IdentityDhPublic_verify_def IdentityPublicKey_verify_def simp del: replicate.simps)
  next
    case False
    then show ?thesis by (simp add: ResponderPrekeyBundle_decode_def wire_lens)
  qed
  show "length bs = 277" if "ResponderPrekeyBundle_decode P bs = Ok b" for bs b
    using length_bundle_encode bundle_decode_sound [OF that] by blast
qed (auto simp: bundle_decode_encode dest: bundle_decode_sound)

end
