(* ===== verification/Mef_Ratchet.thy ===== *)
theory Mef_Ratchet
  imports Mef_Schedule Mef_Frame Mef_Handshake
begin

text \<open>
  The 1:1 ratchet of \<open>src/ratchet/state.rs\<close>: its state, the construction from a handshake result,
  \<open>encrypt\<close>, \<open>decrypt\<close> with its three cases and \<open>rotate_sending_ratchet\<close>, each returning the state as
  the method leaves it, also where it fails half way. Then the invariant of the state, what each
  failure leaves behind, and the machine of all calls.
\<close>

section \<open>State\<close>

record skipped_message_key =
  sk_remote_dh :: dh_public
  sk_message_number :: u32
  sk_key :: aead_key

record ratchet_state =
  rs_session_id :: bytes
  rs_root_key :: secret
  rs_sending_chain :: secret
  rs_receiving_chain :: secret
  rs_dh_pair :: dh_key_pair
  rs_remote_dh :: dh_public
  rs_previous_sending_chain_len :: u32
  rs_sending_count :: u32
  rs_receiving_count :: u32
  rs_generation :: u64
  rs_suite :: aead_suite
  rs_skipped :: "skipped_message_key list"

definition INIT_A_TO_B_LABEL :: bytes where
  "INIT_A_TO_B_LABEL = ascii ''ratchet-init-a-to-b-v1''"

definition INIT_B_TO_A_LABEL :: bytes where
  "INIT_B_TO_A_LABEL = ascii ''ratchet-init-b-to-a-v1''"

definition DEFAULT_SUITE :: aead_suite where
  "DEFAULT_SUITE = XChaCha20Poly1305"

definition from_authenticated_handshake_with_suite ::
    "primitives \<Rightarrow> authenticated_handshake \<Rightarrow> aead_suite \<Rightarrow> ratchet_state res" where
  "from_authenticated_handshake_with_suite P handshake suite =
     (let (session_id, root_key, role, local_dh, remote_dh) = into_ratchet_parts handshake in
      bind_res (derive_secret P (secret_bytes root_key) INIT_A_TO_B_LABEL session_id) (\<lambda>a_to_b.
      bind_res (derive_secret P (secret_bytes root_key) INIT_B_TO_A_LABEL session_id) (\<lambda>b_to_a.
      let (sending_chain, receiving_chain) =
        (case role of Initiator \<Rightarrow> (a_to_b, b_to_a) | Responder \<Rightarrow> (b_to_a, a_to_b)) in
      Ok \<lparr>rs_session_id = session_id, rs_root_key = root_key, rs_sending_chain = sending_chain,
          rs_receiving_chain = receiving_chain, rs_dh_pair = local_dh,
          rs_remote_dh = remote_dh, rs_previous_sending_chain_len = 0,
          rs_sending_count = 0, rs_receiving_count = 0, rs_generation = 0, rs_suite = suite,
          rs_skipped = []\<rparr>)))"

definition from_authenticated_handshake :: "primitives \<Rightarrow> authenticated_handshake \<Rightarrow> ratchet_state res" where
  "from_authenticated_handshake P handshake =
     from_authenticated_handshake_with_suite P handshake DEFAULT_SUITE"

definition current_public_key :: "ratchet_state \<Rightarrow> dh_public" where
  "current_public_key st = kp_public (rs_dh_pair st)"

definition skipped_key_count :: "ratchet_state \<Rightarrow> nat" where
  "skipped_key_count st = length (rs_skipped st)"

definition RatchetState_session_id :: "ratchet_state \<Rightarrow> bytes" where
  "RatchetState_session_id st = rs_session_id st"

definition RatchetState_suite :: "ratchet_state \<Rightarrow> aead_suite" where
  "RatchetState_suite st = rs_suite st"

definition RatchetState_generation :: "ratchet_state \<Rightarrow> u64" where
  "RatchetState_generation st = rs_generation st"

declare RatchetState_session_id_def [simp] RatchetState_suite_def [simp]
  RatchetState_generation_def [simp]

section \<open>Sending\<close>

definition bump_generation :: "ratchet_state \<Rightarrow> ratchet_state" where
  "bump_generation st = st\<lparr>rs_generation := saturating_add_word (rs_generation st) 1\<rparr>"

text \<open>The chain key is stored before the counter is checked, as in the source.\<close>

definition RatchetState_encrypt ::
    "primitives \<Rightarrow> frame_kind \<Rightarrow> bytes \<Rightarrow> ratchet_state \<Rightarrow> rng \<Rightarrow> inner_frame res \<times> ratchet_state \<times> rng" where
  "RatchetState_encrypt P kind plaintext st r =
     (let message_number = rs_sending_count st in
      case chain_step P (rs_sending_chain st) of
        Inl e \<Rightarrow> (Inl e, st, r)
      | Inr (next_chain, message_key) \<Rightarrow>
          let header = FrameHeader_new kind (rs_session_id st)
                (dh_public_bytes (kp_public (rs_dh_pair st)))
                (rs_previous_sending_chain_len st) message_number in
          case InnerFrame_seal P message_key (rs_suite st) header plaintext r of
            (Inl e, r') \<Rightarrow> (Inl e, st, r')
          | (Inr frame, r') \<Rightarrow>
              let st1 = st\<lparr>rs_sending_chain := next_chain\<rparr> in
              case checked_add_word (rs_sending_count st1) 1 of
                None \<Rightarrow> (Err CounterExhausted, st1, r')
              | Some count \<Rightarrow>
                  (Ok frame, bump_generation (st1\<lparr>rs_sending_count := count\<rparr>), r'))"

definition rotate_sending_ratchet ::
    "primitives \<Rightarrow> ratchet_state \<Rightarrow> rng \<Rightarrow> unit res \<times> ratchet_state \<times> rng" where
  "rotate_sending_ratchet P st r =
     (case DhKeyPair_generate P r of
        (Inl e, r') \<Rightarrow> (Inl e, st, r')
      | (Inr next_pair, r') \<Rightarrow>
          (case bind_res (DhKeyPair_diffie_hellman P next_pair (rs_remote_dh st))
                  (root_step P (rs_root_key st)) of
             Inl e \<Rightarrow> (Inl e, st, r')
           | Inr (next_root, next_sending_chain) \<Rightarrow>
               (Ok (),
                bump_generation
                  (st\<lparr>rs_root_key := next_root, rs_sending_chain := next_sending_chain,
                      rs_dh_pair := next_pair,
                      rs_previous_sending_chain_len := rs_sending_count st,
                      rs_sending_count := 0\<rparr>),
                r')))"

section \<open>Receiving\<close>

definition add_skipped :: "dh_public \<Rightarrow> (u32 \<times> aead_key) list \<Rightarrow> ratchet_state \<Rightarrow> ratchet_state" where
  "add_skipped remote_dh keys st =
     st\<lparr>rs_skipped := rs_skipped st @
       map (\<lambda>(message_number, key).
         \<lparr>sk_remote_dh = remote_dh, sk_message_number = message_number, sk_key = key\<rparr>) keys\<rparr>"

definition decrypt_skipped ::
    "primitives \<Rightarrow> dh_public \<Rightarrow> u32 \<Rightarrow> inner_frame \<Rightarrow> ratchet_state \<Rightarrow> bytes res \<times> ratchet_state" where
  "decrypt_skipped P remote_dh message_number frame st =
     (case position (\<lambda>entry. sk_remote_dh entry = remote_dh \<and> sk_message_number entry = message_number)
             (rs_skipped st) of
        None \<Rightarrow> (Err MessageKeyConsumed, st)
      | Some index \<Rightarrow>
          (case bind_res (index_at (rs_skipped st) index) (\<lambda>entry. InnerFrame_open P frame (sk_key entry)) of
             Inl e \<Rightarrow> (Inl e, st)
           | Inr plaintext \<Rightarrow>
               (Ok plaintext, bump_generation (st\<lparr>rs_skipped := remove_at index (rs_skipped st)\<rparr>))))"

definition decrypt_same_ratchet ::
    "primitives \<Rightarrow> dh_public \<Rightarrow> inner_frame \<Rightarrow> ratchet_state \<Rightarrow> bytes res \<times> ratchet_state" where
  "decrypt_same_ratchet P remote_dh frame st =
     (let target = fh_message_number (if_header frame) in
      if target < rs_receiving_count st then decrypt_skipped P remote_dh target frame st
      else
        case bind_res
               (derive_for_message P (rs_receiving_chain st) (rs_receiving_count st) target
                  (length (rs_skipped st)))
               (\<lambda>(next_chain, message_key, newly_skipped).
                bind_res (InnerFrame_open P frame message_key) (\<lambda>plaintext.
                Ok (next_chain, newly_skipped, plaintext))) of
          Inl e \<Rightarrow> (Inl e, st)
        | Inr (next_chain, newly_skipped, plaintext) \<Rightarrow>
            let st1 = st\<lparr>rs_receiving_chain := next_chain\<rparr> in
            (case checked_add_word target 1 of
               None \<Rightarrow> (Err CounterExhausted, st1)
             | Some count \<Rightarrow>
                 (Ok plaintext,
                  bump_generation (add_skipped remote_dh newly_skipped (st1\<lparr>rs_receiving_count := count\<rparr>)))))"

definition decrypt_new_ratchet ::
    "primitives \<Rightarrow> dh_public \<Rightarrow> inner_frame \<Rightarrow> ratchet_state \<Rightarrow> rng \<Rightarrow> bytes res \<times> ratchet_state \<times> rng" where
  "decrypt_new_ratchet P remote_dh frame st r =
     (case
        io_bind (io_lift (derive_range P (rs_receiving_chain st) (rs_receiving_count st)
                   (fh_previous_chain_len (if_header frame)) (length (rs_skipped st))))
          (\<lambda>(old_chain_after_skips, old_skipped).
        io_bind (io_lift (bind_res (DhKeyPair_diffie_hellman P (rs_dh_pair st) remote_dh)
                   (root_step P (rs_root_key st))))
          (\<lambda>(root_after_receive, next_receiving_chain).
        io_bind (DhKeyPair_generate P) (\<lambda>next_pair.
        io_bind (io_lift (bind_res (DhKeyPair_diffie_hellman P next_pair remote_dh)
                   (root_step P root_after_receive)))
          (\<lambda>(root_after_send, next_sending_chain).
        io_bind (io_lift (ok_or (checked_add_usize (length (rs_skipped st)) (length old_skipped))
                   SkippedKeyLimitExceeded)) (\<lambda>extra_capacity.
        io_bind (io_lift (derive_for_message P next_receiving_chain 0
                   (fh_message_number (if_header frame)) extra_capacity))
          (\<lambda>(receiving_chain, message_key, new_skipped).
        io_bind (io_lift (InnerFrame_open P frame message_key)) (\<lambda>plaintext.
        io_lift (Ok (old_skipped, new_skipped, root_after_send, receiving_chain, next_sending_chain,
          next_pair, plaintext))))))))) r of
        (Inl e, r') \<Rightarrow> (Inl e, st, r')
      | (Inr (old_skipped, new_skipped, root_after_send, receiving_chain, next_sending_chain,
            next_pair, plaintext), r') \<Rightarrow>
          let st1 = add_skipped (rs_remote_dh st) old_skipped st;
              st2 = add_skipped remote_dh new_skipped st1;
              st3 = st2\<lparr>rs_root_key := root_after_send, rs_receiving_chain := receiving_chain,
                rs_sending_chain := next_sending_chain, rs_dh_pair := next_pair,
                rs_remote_dh := remote_dh, rs_previous_sending_chain_len := rs_sending_count st,
                rs_sending_count := 0\<rparr> in
          (case checked_add_word (fh_message_number (if_header frame)) 1 of
             None \<Rightarrow> (Err CounterExhausted, st3, r')
           | Some count \<Rightarrow>
               (Ok plaintext, bump_generation (st3\<lparr>rs_receiving_count := count\<rparr>), r')))"

definition RatchetState_decrypt ::
    "primitives \<Rightarrow> inner_frame \<Rightarrow> ratchet_state \<Rightarrow> rng \<Rightarrow> bytes res \<times> ratchet_state \<times> rng" where
  "RatchetState_decrypt P frame st r =
     (let header = if_header frame in
      if fh_session_id header \<noteq> rs_session_id st \<or> ct_suite (if_ciphertext frame) \<noteq> rs_suite st
      then (Err RatchetStateMismatch, st, r)
      else
        let remote_dh = DhPublicKey (fh_ratchet_public header) in
        if remote_dh = rs_remote_dh st
        then (case decrypt_same_ratchet P remote_dh frame st of (res, st') \<Rightarrow> (res, st', r))
        else decrypt_new_ratchet P remote_dh frame st r)"

section \<open>Invariant\<close>

definition skipped_ok :: "skipped_message_key \<Rightarrow> bool" where
  "skipped_ok entry \<longleftrightarrow>
     length (dh_public_bytes (sk_remote_dh entry)) = 32 \<and> length (aead_key_bytes (sk_key entry)) = 32"

definition ratchet_ok :: "primitives \<Rightarrow> ratchet_state \<Rightarrow> bool" where
  "ratchet_ok P st \<longleftrightarrow>
     length (rs_session_id st) = 32 \<and>
     length (secret_bytes (rs_root_key st)) = 32 \<and>
     length (secret_bytes (rs_sending_chain st)) = 32 \<and>
     length (secret_bytes (rs_receiving_chain st)) = 32 \<and>
     key_pair_ok P (rs_dh_pair st) \<and>
     length (dh_public_bytes (rs_remote_dh st)) = 32 \<and>
     length (rs_skipped st) \<le> MAX_SKIPPED_KEYS \<and>
     (\<forall>entry \<in> set (rs_skipped st). skipped_ok entry)"

lemma bump_generation_fields [simp]:
  "rs_session_id (bump_generation st) = rs_session_id st"
  "rs_root_key (bump_generation st) = rs_root_key st"
  "rs_sending_chain (bump_generation st) = rs_sending_chain st"
  "rs_receiving_chain (bump_generation st) = rs_receiving_chain st"
  "rs_dh_pair (bump_generation st) = rs_dh_pair st"
  "rs_remote_dh (bump_generation st) = rs_remote_dh st"
  "rs_previous_sending_chain_len (bump_generation st) = rs_previous_sending_chain_len st"
  "rs_sending_count (bump_generation st) = rs_sending_count st"
  "rs_receiving_count (bump_generation st) = rs_receiving_count st"
  "rs_generation (bump_generation st) = saturating_add_word (rs_generation st) 1"
  "rs_suite (bump_generation st) = rs_suite st"
  "rs_skipped (bump_generation st) = rs_skipped st"
  by (simp_all add: bump_generation_def)

lemma add_skipped_fields [simp]:
  "rs_session_id (add_skipped pk ks st) = rs_session_id st"
  "rs_root_key (add_skipped pk ks st) = rs_root_key st"
  "rs_sending_chain (add_skipped pk ks st) = rs_sending_chain st"
  "rs_receiving_chain (add_skipped pk ks st) = rs_receiving_chain st"
  "rs_dh_pair (add_skipped pk ks st) = rs_dh_pair st"
  "rs_remote_dh (add_skipped pk ks st) = rs_remote_dh st"
  "rs_previous_sending_chain_len (add_skipped pk ks st) = rs_previous_sending_chain_len st"
  "rs_sending_count (add_skipped pk ks st) = rs_sending_count st"
  "rs_receiving_count (add_skipped pk ks st) = rs_receiving_count st"
  "rs_generation (add_skipped pk ks st) = rs_generation st"
  "rs_suite (add_skipped pk ks st) = rs_suite st"
  "rs_skipped (add_skipped pk ks st) = rs_skipped st @ map (\<lambda>(n, k).
     \<lparr>sk_remote_dh = pk, sk_message_number = n, sk_key = k\<rparr>) ks"
  by (simp_all add: add_skipped_def)

lemma ratchet_okD:
  assumes "ratchet_ok P st"
  shows "length (rs_session_id st) = 32" "length (secret_bytes (rs_root_key st)) = 32"
    "length (secret_bytes (rs_sending_chain st)) = 32" "length (secret_bytes (rs_receiving_chain st)) = 32"
    "key_pair_ok P (rs_dh_pair st)" "length (dh_public_bytes (rs_remote_dh st)) = 32"
    "length (rs_skipped st) \<le> MAX_SKIPPED_KEYS" "\<And>entry. entry \<in> set (rs_skipped st) \<Longrightarrow> skipped_ok entry"
  using assms by (simp_all add: ratchet_ok_def)

lemma from_handshake_Ok:
  assumes "from_authenticated_handshake_with_suite P h suite = Inr st"
  shows "rs_session_id st = ah_session_id h" "rs_root_key st = ah_root_secret h"
    "rs_dh_pair st = ah_local_ratchet h" "rs_remote_dh st = ah_remote_ratchet h"
    "rs_previous_sending_chain_len st = 0" "rs_sending_count st = 0" "rs_receiving_count st = 0"
    "rs_generation st = 0" "rs_suite st = suite" "rs_skipped st = []"
  using assms
  by (cases "ah_role h"; auto simp: from_authenticated_handshake_with_suite_def Let_def bind_res_Ok)+

lemma from_handshake_ok:
  assumes "sizes_ok P" "from_authenticated_handshake_with_suite P h suite = Inr st"
    "length (ah_session_id h) = 32" "length (secret_bytes (ah_root_secret h)) = 32"
    "key_pair_ok P (ah_local_ratchet h)" "length (dh_public_bytes (ah_remote_ratchet h)) = 32"
  shows "ratchet_ok P st"
  using assms
  by (cases "ah_role h")
     (auto simp: from_authenticated_handshake_with_suite_def Let_def bind_res_Ok ratchet_ok_def
       dest: derive_secret_length)

section \<open>What a call does\<close>

text \<open>Each method either leaves the state, stores the chain it derived and stops, or commits.\<close>

lemma encrypt_cases:
  assumes "RatchetState_encrypt P kind pt st r = (res, st', r')"
  obtains (failed) e where "res = Inl e" "st' = st"
  | (exhausted) c k where "res = Err CounterExhausted" "checked_add_word (rs_sending_count st) 1 = None"
      "chain_step P (rs_sending_chain st) = Inr (c, k)" "st' = st\<lparr>rs_sending_chain := c\<rparr>"
  | (sent) f c k n where "res = Inr f" "chain_step P (rs_sending_chain st) = Inr (c, k)"
      "InnerFrame_seal P k (rs_suite st) (FrameHeader_new kind (rs_session_id st)
        (dh_public_bytes (kp_public (rs_dh_pair st))) (rs_previous_sending_chain_len st)
        (rs_sending_count st)) pt r = (Inr f, r')"
      "checked_add_word (rs_sending_count st) 1 = Some n"
      "st' = bump_generation (st\<lparr>rs_sending_chain := c, rs_sending_count := n\<rparr>)"
proof (cases "chain_step P (rs_sending_chain st)")
  case (Inl e)
  with assms have "res = Inl e" "st' = st" by (simp_all add: RatchetState_encrypt_def)
  then show ?thesis by (rule failed)
next
  case (Inr ck)
  then obtain c k where step: "chain_step P (rs_sending_chain st) = Inr (c, k)" by (cases ck) simp
  let ?h = "FrameHeader_new kind (rs_session_id st) (dh_public_bytes (kp_public (rs_dh_pair st)))
    (rs_previous_sending_chain_len st) (rs_sending_count st)"
  obtain sealed r1 where seal: "InnerFrame_seal P k (rs_suite st) ?h pt r = (sealed, r1)"
    by (cases "InnerFrame_seal P k (rs_suite st) ?h pt r")
  note run = assms [unfolded RatchetState_encrypt_def Let_def step sum.case prod.case seal]
  show ?thesis
  proof (cases sealed)
    case (Inl e)
    with run have "res = Inl e" "st' = st" by simp_all
    then show ?thesis by (rule failed)
  next
    case (Inr f)
    show ?thesis
    proof (cases "checked_add_word (rs_sending_count st) 1")
      case None
      with run Inr have "res = Err CounterExhausted" "st' = st\<lparr>rs_sending_chain := c\<rparr>" by simp_all
      then show ?thesis using exhausted [OF _ None step] by blast
    next
      case (Some n)
      with run Inr have "res = Inr f" "r' = r1"
        "st' = bump_generation (st\<lparr>rs_sending_chain := c, rs_sending_count := n\<rparr>)" by simp_all
      with step seal Inr Some sent show ?thesis by simp
    qed
  qed
qed

lemma rotate_cases:
  assumes "rotate_sending_ratchet P st r = (res, st', r')"
  obtains (failed) e where "res = Inl e" "st' = st"
  | (rotated) kp z root chain where "res = Inr ()" "DhKeyPair_generate P r = (Inr kp, r')"
      "DhKeyPair_diffie_hellman P kp (rs_remote_dh st) = Inr z"
      "root_step P (rs_root_key st) z = Inr (root, chain)"
      "st' = bump_generation (st\<lparr>rs_root_key := root, rs_sending_chain := chain, rs_dh_pair := kp,
         rs_previous_sending_chain_len := rs_sending_count st, rs_sending_count := 0\<rparr>)"
proof -
  obtain gen r1 where gen: "DhKeyPair_generate P r = (gen, r1)" by (cases "DhKeyPair_generate P r")
  note run = assms [unfolded rotate_sending_ratchet_def gen prod.case]
  show ?thesis
  proof (cases gen)
    case (Inl e)
    with run have "res = Inl e" "st' = st" by simp_all
    then show ?thesis by (rule failed)
  next
    case (Inr kp)
    let ?keys = "bind_res (DhKeyPair_diffie_hellman P kp (rs_remote_dh st)) (root_step P (rs_root_key st))"
    show ?thesis
    proof (cases ?keys)
      case (Inl e)
      with run Inr have "res = Inl e" "st' = st" by simp_all
      then show ?thesis by (rule failed)
    next
      case keys: (Inr x)
      then obtain z root chain where z: "DhKeyPair_diffie_hellman P kp (rs_remote_dh st) = Inr z"
        "root_step P (rs_root_key st) z = Inr (root, chain)" and "x = (root, chain)"
        unfolding bind_res_Ok by (cases x) blast
      with keys run Inr gen rotated [OF _ _ z] show ?thesis by simp
    qed
  qed
qed

lemma decrypt_skipped_cases:
  assumes "decrypt_skipped P pk n f st = (res, st')"
  obtains (failed) e where "res = Inl e" "st' = st"
  | (opened) i pt where "res = Inr pt"
      "position (\<lambda>entry. sk_remote_dh entry = pk \<and> sk_message_number entry = n) (rs_skipped st) = Some i"
      "InnerFrame_open P f (sk_key (rs_skipped st ! i)) = Inr pt"
      "st' = bump_generation (st\<lparr>rs_skipped := remove_at i (rs_skipped st)\<rparr>)"
proof (cases "position (\<lambda>entry. sk_remote_dh entry = pk \<and> sk_message_number entry = n) (rs_skipped st)")
  case None
  with assms have "res = Err MessageKeyConsumed" "st' = st" by (simp_all add: decrypt_skipped_def)
  then show ?thesis by (rule failed)
next
  case (Some i)
  then have i: "i < length (rs_skipped st)" by (simp add: position_Some)
  show ?thesis
  proof (cases "InnerFrame_open P f (sk_key (rs_skipped st ! i))")
    case (Inl e)
    with assms Some i have "res = Inl e" "st' = st" by (simp_all add: decrypt_skipped_def)
    then show ?thesis by (rule failed)
  next
    case (Inr pt)
    with assms Some i opened [OF _ Some Inr] show ?thesis by (simp add: decrypt_skipped_def)
  qed
qed

lemma decrypt_same_cases:
  assumes "decrypt_same_ratchet P pk f st = (res, st')"
  obtains (failed) e where "res = Inl e" "st' = st"
  | (skipped) pt where "res = Inr pt" "fh_message_number (if_header f) < rs_receiving_count st"
      "decrypt_skipped P pk (fh_message_number (if_header f)) f st = (Inr pt, st')"
  | (exhausted) c k new pt where "res = Err CounterExhausted"
      "\<not> fh_message_number (if_header f) < rs_receiving_count st"
      "derive_for_message P (rs_receiving_chain st) (rs_receiving_count st)
        (fh_message_number (if_header f)) (length (rs_skipped st)) = Inr (c, k, new)"
      "InnerFrame_open P f k = Inr pt" "checked_add_word (fh_message_number (if_header f)) 1 = None"
      "st' = st\<lparr>rs_receiving_chain := c\<rparr>"
  | (advanced) c k new pt n where "res = Inr pt"
      "\<not> fh_message_number (if_header f) < rs_receiving_count st"
      "derive_for_message P (rs_receiving_chain st) (rs_receiving_count st)
        (fh_message_number (if_header f)) (length (rs_skipped st)) = Inr (c, k, new)"
      "InnerFrame_open P f k = Inr pt" "checked_add_word (fh_message_number (if_header f)) 1 = Some n"
      "st' = bump_generation (add_skipped pk new (st\<lparr>rs_receiving_chain := c, rs_receiving_count := n\<rparr>))"
proof (cases "fh_message_number (if_header f) < rs_receiving_count st")
  case True
  then have run: "decrypt_skipped P pk (fh_message_number (if_header f)) f st = (res, st')"
    using assms by (simp add: decrypt_same_ratchet_def)
  from this show ?thesis
  proof (cases rule: decrypt_skipped_cases)
    case (failed e)
    then show ?thesis by (rule that(1))
  next
    case (opened i pt)
    with run True that(2) show ?thesis by simp
  qed
next
  case False
  let ?derived = "derive_for_message P (rs_receiving_chain st) (rs_receiving_count st)
    (fh_message_number (if_header f)) (length (rs_skipped st))"
  note run = assms [unfolded decrypt_same_ratchet_def Let_def if_not_P [OF False]]
  show ?thesis
  proof (cases ?derived)
    case (Inl e)
    with run have "res = Inl e" "st' = st" by simp_all
    then show ?thesis by (rule failed)
  next
    case (Inr x)
    then obtain c k new where derived: "?derived = Inr (c, k, new)" by (cases x) simp
    show ?thesis
    proof (cases "InnerFrame_open P f k")
      case (Inl e)
      with run derived have "res = Inl e" "st' = st" by simp_all
      then show ?thesis by (rule failed)
    next
      case (Inr pt)
      show ?thesis
      proof (cases "checked_add_word (fh_message_number (if_header f)) 1")
        case None
        with run derived Inr exhausted [OF _ False derived Inr None] show ?thesis by simp
      next
        case (Some n)
        with run derived Inr advanced [OF _ False derived Inr Some] show ?thesis by simp
      qed
    qed
  qed
qed

text \<open>The new-chain message number is bounded by the skip limit, so its counter never overflows.\<close>

lemma small_number_add:
  assumes "derive_range P c 0 n existing = Inr (c', new)"
  shows "checked_add_word n 1 = Some (n + 1)"
proof -
  have "unat n \<le> 1024"
    using derive_range_shape(3,4) [OF assms] by (simp add: MAX_SKIPPED_KEYS_def)
  then show ?thesis by (simp add: checked_add_word_def)
qed

lemma io_bind_lifted:
  "io_bind (io_lift v) f r = (Inr y, r') \<longleftrightarrow> (\<exists>x. v = Inr x \<and> f x r = (Inr y, r'))"
  by (cases v) simp_all

lemma decrypt_new_cases:
  assumes "decrypt_new_ratchet P pk f st r = (res, st', r')"
  obtains (failed) e where "res = Inl e" "st' = st"
  | (commit) c old z1 root1 chain1 kp z2 root2 chain2 rc k new pt where
      "derive_range P (rs_receiving_chain st) (rs_receiving_count st)
        (fh_previous_chain_len (if_header f)) (length (rs_skipped st)) = Inr (c, old)"
      "DhKeyPair_diffie_hellman P (rs_dh_pair st) pk = Inr z1"
      "root_step P (rs_root_key st) z1 = Inr (root1, chain1)"
      "DhKeyPair_generate P r = (Inr kp, r')"
      "DhKeyPair_diffie_hellman P kp pk = Inr z2"
      "root_step P root1 z2 = Inr (root2, chain2)"
      "derive_for_message P chain1 0 (fh_message_number (if_header f))
        (length (rs_skipped st) + length old) = Inr (rc, k, new)"
      "InnerFrame_open P f k = Inr pt" "res = Inr pt"
      "st' = bump_generation ((add_skipped pk new (add_skipped (rs_remote_dh st) old st))
         \<lparr>rs_root_key := root2, rs_receiving_chain := rc, rs_sending_chain := chain2, rs_dh_pair := kp,
          rs_remote_dh := pk, rs_previous_sending_chain_len := rs_sending_count st,
          rs_sending_count := 0, rs_receiving_count := fh_message_number (if_header f) + 1\<rparr>)"
proof -
  define computed where "computed =
        io_bind (io_lift (derive_range P (rs_receiving_chain st) (rs_receiving_count st)
                   (fh_previous_chain_len (if_header f)) (length (rs_skipped st))))
          (\<lambda>(old_chain_after_skips, old_skipped).
        io_bind (io_lift (bind_res (DhKeyPair_diffie_hellman P (rs_dh_pair st) pk)
                   (root_step P (rs_root_key st))))
          (\<lambda>(root_after_receive, next_receiving_chain).
        io_bind (DhKeyPair_generate P) (\<lambda>next_pair.
        io_bind (io_lift (bind_res (DhKeyPair_diffie_hellman P next_pair pk)
                   (root_step P root_after_receive)))
          (\<lambda>(root_after_send, next_sending_chain).
        io_bind (io_lift (ok_or (checked_add_usize (length (rs_skipped st)) (length old_skipped))
                   SkippedKeyLimitExceeded)) (\<lambda>extra_capacity.
        io_bind (io_lift (derive_for_message P next_receiving_chain 0
                   (fh_message_number (if_header f)) extra_capacity))
          (\<lambda>(receiving_chain, message_key, new_skipped).
        io_bind (io_lift (InnerFrame_open P f message_key)) (\<lambda>plaintext.
        io_lift (Ok (old_skipped, new_skipped, root_after_send, receiving_chain, next_sending_chain,
          next_pair, plaintext)))))))))"
  note run = assms [unfolded decrypt_new_ratchet_def computed_def [symmetric]]
  obtain out r1 where out: "computed r = (out, r1)" by (cases "computed r")
  show ?thesis
  proof (cases out)
    case (Inl e)
    with run out have "res = Inl e" "st' = st" by simp_all
    then show ?thesis by (rule failed)
  next
    case (Inr x)
    with out have "computed r = (Inr x, r1)" by simp
    then obtain c old z1 root1 chain1 kp z2 root2 chain2 extra rc k new pt where parts:
      "derive_range P (rs_receiving_chain st) (rs_receiving_count st)
        (fh_previous_chain_len (if_header f)) (length (rs_skipped st)) = Inr (c, old)"
      "DhKeyPair_diffie_hellman P (rs_dh_pair st) pk = Inr z1"
      "root_step P (rs_root_key st) z1 = Inr (root1, chain1)"
      "DhKeyPair_generate P r = (Inr kp, r1)"
      "DhKeyPair_diffie_hellman P kp pk = Inr z2"
      "root_step P root1 z2 = Inr (root2, chain2)"
      "checked_add_usize (length (rs_skipped st)) (length old) = Some extra"
      "derive_for_message P chain1 0 (fh_message_number (if_header f)) extra = Inr (rc, k, new)"
      "InnerFrame_open P f k = Inr pt"
      and x: "x = (old, new, root2, rc, chain2, kp, pt)"
      unfolding computed_def
      by (auto simp only: io_bind_lifted io_bind_Ok bind_res_Ok ok_or_Ok split_paired_Ex prod.case
          io_lift_simp prod.inject sum.inject)
    have extra: "extra = length (rs_skipped st) + length old"
      using parts(7) by (simp add: checked_add_usize_def split: if_splits)
    obtain before where "derive_range P chain1 0 (fh_message_number (if_header f)) extra = Inr (before, new)"
      using parts(8) by (auto simp: derive_for_message_Ok)
    note number = small_number_add [OF this]
    have "res = Inr pt" "r' = r1" and st': "st' = bump_generation ((add_skipped pk new
        (add_skipped (rs_remote_dh st) old st))
         \<lparr>rs_root_key := root2, rs_receiving_chain := rc, rs_sending_chain := chain2, rs_dh_pair := kp,
          rs_remote_dh := pk, rs_previous_sending_chain_len := rs_sending_count st,
          rs_sending_count := 0, rs_receiving_count := fh_message_number (if_header f) + 1\<rparr>)"
      using run out Inr x number by (simp_all add: Let_def)
    with parts extra show ?thesis by (intro commit [OF _ _ _ _ _ _ _ _ _ st']) simp_all
  qed
qed

section \<open>The invariant is kept\<close>

lemma new_entries_ok:
  assumes "\<forall>e \<in> set ks. length (aead_key_bytes (snd e)) = 32" "length (dh_public_bytes pk) = 32"
    "entry \<in> set (map (\<lambda>(n, k). \<lparr>sk_remote_dh = pk, sk_message_number = n, sk_key = k\<rparr>) ks)"
  shows "skipped_ok entry"
  using assms by (auto simp: skipped_ok_def)

lemma encrypt_ratchet_ok:
  assumes "sizes_ok P" "ratchet_ok P st" "RatchetState_encrypt P kind pt st r = (res, st', r')"
  shows "ratchet_ok P st'"
  using assms(3)
proof (cases rule: encrypt_cases)
  case (exhausted c k)
  with assms(2) chain_step_length [OF assms(1)] show ?thesis by (simp add: ratchet_ok_def)
next
  case (sent f c k n)
  with assms(2) chain_step_length [OF assms(1)] show ?thesis by (simp add: ratchet_ok_def)
qed (use assms in simp)

lemma rotate_ratchet_ok:
  assumes "sizes_ok P" "ratchet_ok P st" "rotate_sending_ratchet P st r = (res, st', r')"
  shows "ratchet_ok P st'"
  using assms(3)
proof (cases rule: rotate_cases)
  case (rotated kp z root chain)
  with assms(2) root_step_length [OF assms(1) rotated(4)] DhKeyPair_generate_pair_ok [OF assms(1)]
  show ?thesis by (simp add: ratchet_ok_def)
qed (use assms in simp)

lemma decrypt_same_ratchet_ok:
  assumes P: "sizes_ok P" and ok: "ratchet_ok P st" and pk: "length (dh_public_bytes pk) = 32"
    and run: "decrypt_same_ratchet P pk f st = (res, st')"
  shows "ratchet_ok P st'"
proof -
  note st = ratchet_okD [OF ok]
  have derived: "length (secret_bytes c) = 32 \<and> (\<forall>e \<in> set new. length (aead_key_bytes (snd e)) = 32) \<and>
      length (rs_skipped st) + length new \<le> MAX_SKIPPED_KEYS"
    if "derive_for_message P (rs_receiving_chain st) s t (length (rs_skipped st)) = Inr (c, k, new)"
    for s t c k new
  proof -
    obtain before where range: "derive_range P (rs_receiving_chain st) s t (length (rs_skipped st)) = Inr (before, new)"
      and last: "chain_step P before = Inr (c, k)"
      using \<open>derive_for_message _ _ _ _ _ = _\<close> by (auto simp: derive_for_message_Ok)
    show ?thesis
      using derive_range_length [OF P st(4) range] derive_range_shape(4) [OF range]
        chain_step_length [OF P last] by simp
  qed
  from run show ?thesis
  proof (cases rule: decrypt_same_cases)
    case (skipped pt)
    from skipped(3) show ?thesis
    proof (cases rule: decrypt_skipped_cases)
      case (opened i pt')
      have "length (remove_at i (rs_skipped st)) \<le> length (rs_skipped st)"
        using position_Some [OF opened(2)] by (simp add: length_remove_at)
      with opened ok st(7,8) in_set_remove_at [of _ i "rs_skipped st"] show ?thesis
        by (simp add: ratchet_ok_def)
    qed (use ok in simp)
  next
    case (exhausted c k new pt)
    with ok derived show ?thesis by (simp add: ratchet_ok_def)
  next
    case (advanced c k new pt n)
    from derived [OF advanced(3)] ok new_entries_ok [OF _ pk, of new] show ?thesis
      by (simp add: advanced(6) ratchet_ok_def ball_Un)
  qed (use ok in simp)
qed

lemma decrypt_new_ratchet_ok:
  assumes P: "sizes_ok P" and ok: "ratchet_ok P st" and pk: "length (dh_public_bytes pk) = 32"
    and run: "decrypt_new_ratchet P pk f st r = (res, st', r')"
  shows "ratchet_ok P st'"
  using run
proof (cases rule: decrypt_new_cases)
  case (commit c old z1 root1 chain1 kp z2 root2 chain2 rc k new pt)
  note st = ratchet_okD [OF ok]
  obtain before where new: "derive_range P chain1 0 (fh_message_number (if_header f))
      (length (rs_skipped st) + length old) = Inr (before, new)" and last: "chain_step P before = Inr (rc, k)"
    using commit(7) by (auto simp: derive_for_message_Ok)
  have chain1: "length (secret_bytes chain1) = 32"
    using root_step_length [OF P commit(3)] by simp
  have "\<forall>e \<in> set old. length (aead_key_bytes (snd e)) = 32"
    "\<forall>e \<in> set new. length (aead_key_bytes (snd e)) = 32"
    using derive_range_length(2) [OF P st(4) commit(1)] derive_range_length(2) [OF P chain1 new] by blast+
  with new_entries_ok [OF _ st(6), of old] new_entries_ok [OF _ pk, of new]
  have "\<forall>entry \<in> set (rs_skipped st'). skipped_ok entry"
    using st(8) by (simp add: commit(10) ball_Un)
  moreover have "length (rs_skipped st') \<le> MAX_SKIPPED_KEYS"
    using derive_range_shape(4) [OF new] by (simp add: commit(10))
  moreover have "key_pair_ok P kp" using DhKeyPair_generate_pair_ok [OF P commit(4)] .
  ultimately show ?thesis
    using ok pk root_step_length [OF P commit(6)] chain_step_length [OF P last]
    by (simp add: commit(10) ratchet_ok_def)
qed (use ok in simp)

lemma decrypt_ratchet_ok:
  assumes P: "sizes_ok P" and ok: "ratchet_ok P st" and f: "header_ok (if_header f)"
    and run: "RatchetState_decrypt P f st r = (res, st', r')"
  shows "ratchet_ok P st'"
proof -
  let ?pk = "DhPublicKey (fh_ratchet_public (if_header f))"
  have pk: "length (dh_public_bytes ?pk) = 32" using f by (simp add: header_ok_def)
  from run consider "st' = st" | "decrypt_same_ratchet P ?pk f st = (res, st')"
    | "decrypt_new_ratchet P ?pk f st r = (res, st', r')"
    by (auto simp: RatchetState_decrypt_def Let_def split: if_splits prod.splits)
  then show ?thesis
  proof cases
    case 2
    then show ?thesis by (rule decrypt_same_ratchet_ok [OF P ok pk])
  next
    case 3
    then show ?thesis by (rule decrypt_new_ratchet_ok [OF P ok pk])
  qed (use ok in simp)
qed

section \<open>Failures\<close>

text \<open>
  A call that fails leaves the state as it was, unless the message counter is exhausted: then the
  chain key has already been replaced.
\<close>

lemma checked_count_None:
  assumes "checked_add_word (n :: u32) 1 = None"
  shows "n = - 1"
proof -
  have "unat n + 1 \<ge> 2 ^ 32"
    using assms by (simp add: checked_add_word_def split: if_splits)
  moreover have "unat n < 2 ^ 32" using unsigned_less [of n, where ?'a = nat] by simp
  ultimately have "unat n = unat (- 1 :: u32)"
    by (simp add: unsigned_minus_1_eq_mask mask_eq_exp_minus_1)
  then show ?thesis by (simp only: unsigned_word_eqI)
qed

lemma encrypt_error:
  assumes "RatchetState_encrypt P kind pt st r = (Inl e, st', r')"
  shows "st' = st \<or>
    (e = Error CounterExhausted \<and> rs_sending_count st = - 1 \<and> (\<exists>c. st' = st\<lparr>rs_sending_chain := c\<rparr>))"
  using assms by (cases rule: encrypt_cases) (auto dest: checked_count_None)

lemma encrypt_success:
  assumes "RatchetState_encrypt P kind pt st r = (Inr f, st', r')"
  shows "unat (rs_sending_count st') = Suc (unat (rs_sending_count st))"
    "\<exists>c n g. st' = st\<lparr>rs_sending_chain := c, rs_sending_count := n, rs_generation := g\<rparr>"
  using assms
  by (cases rule: encrypt_cases; force dest: checked_add_word_Some simp: bump_generation_def)+

lemma rotate_error:
  "rotate_sending_ratchet P st r = (Inl e, st', r') \<Longrightarrow> st' = st"
  by (erule rotate_cases) simp_all

lemma decrypt_cases:
  assumes "RatchetState_decrypt P f st r = (res, st', r')"
  obtains (mismatch) "res = Err RatchetStateMismatch" "st' = st" "r' = r"
  | (same) "DhPublicKey (fh_ratchet_public (if_header f)) = rs_remote_dh st" "r' = r"
      "decrypt_same_ratchet P (rs_remote_dh st) f st = (res, st')"
  | (new) "DhPublicKey (fh_ratchet_public (if_header f)) \<noteq> rs_remote_dh st"
      "decrypt_new_ratchet P (DhPublicKey (fh_ratchet_public (if_header f))) f st r = (res, st', r')"
  using assms
  by (simp add: RatchetState_decrypt_def Let_def split: if_splits prod.splits)

lemma decrypt_error:
  assumes "RatchetState_decrypt P f st r = (Inl e, st', r')"
  shows "st' = st \<or> (e = Error CounterExhausted \<and> fh_message_number (if_header f) = - 1 \<and>
    (\<exists>c. st' = st\<lparr>rs_receiving_chain := c\<rparr>))"
  using assms
proof (cases rule: decrypt_cases)
  case same
  from same(3) show ?thesis
    by (cases rule: decrypt_same_cases) (auto dest: checked_count_None)
next
  case new
  from new(2) show ?thesis by (cases rule: decrypt_new_cases) simp_all
qed simp

lemma decrypt_session:
  assumes "RatchetState_decrypt P f st r = (res, st', r')"
  shows "rs_session_id st' = rs_session_id st \<and> rs_suite st' = rs_suite st"
  using assms
proof (cases rule: decrypt_cases)
  case same
  have "rs_session_id st1 = rs_session_id st \<and> rs_suite st1 = rs_suite st"
    if "decrypt_skipped P pk n f st = (res1, st1)" for pk n res1 st1
    using that by (cases rule: decrypt_skipped_cases) simp_all
  with same(3) show ?thesis by (cases rule: decrypt_same_cases) simp_all
next
  case new
  from new(2) show ?thesis by (cases rule: decrypt_new_cases) simp_all
qed simp

text \<open>The generation counts the successful calls.\<close>

definition next_generation :: "'a res \<Rightarrow> u64 \<Rightarrow> u64" where
  "next_generation res g = (case res of Inl e \<Rightarrow> g | Inr x \<Rightarrow> saturating_add_word g 1)"

lemma encrypt_generation:
  "RatchetState_encrypt P kind pt st r = (res, st', r') \<Longrightarrow>
     rs_generation st' = next_generation res (rs_generation st)"
  by (erule encrypt_cases) (simp_all add: next_generation_def)

lemma rotate_generation:
  "rotate_sending_ratchet P st r = (res, st', r') \<Longrightarrow>
     rs_generation st' = next_generation res (rs_generation st)"
  by (erule rotate_cases) (simp_all add: next_generation_def)

lemma decrypt_generation:
  assumes "RatchetState_decrypt P f st r = (res, st', r')"
  shows "rs_generation st' = next_generation res (rs_generation st)"
  using assms
proof (cases rule: decrypt_cases)
  case same
  from same(3) show ?thesis
  proof (cases rule: decrypt_same_cases)
    case (skipped pt)
    from skipped(3) show ?thesis
      by (cases rule: decrypt_skipped_cases) (simp_all add: skipped(1) next_generation_def)
  qed (simp_all add: next_generation_def)
next
  case new
  from new(2) show ?thesis by (cases rule: decrypt_new_cases) (simp_all add: next_generation_def)
qed (simp add: next_generation_def)

section \<open>Runs of calls\<close>

text \<open>The calls a client makes; a frame arrives as bytes and is decoded first.\<close>

datatype ratchet_call = Encrypt frame_kind bytes | Receive bytes | Rotate

definition receive_bytes ::
    "primitives \<Rightarrow> bytes \<Rightarrow> ratchet_state \<Rightarrow> rng \<Rightarrow> bytes res \<times> ratchet_state \<times> rng" where
  "receive_bytes P bs st r =
     (case InnerFrame_decode bs of
        Inl e \<Rightarrow> (Inl e, st, r)
      | Inr f \<Rightarrow> RatchetState_decrypt P f st r)"

fun ratchet_step :: "primitives \<Rightarrow> ratchet_call \<Rightarrow> ratchet_state \<times> rng \<Rightarrow> ratchet_state \<times> rng" where
  "ratchet_step P (Encrypt kind pt) (st, r) = snd (RatchetState_encrypt P kind pt st r)"
| "ratchet_step P (Receive bs) (st, r) = snd (receive_bytes P bs st r)"
| "ratchet_step P Rotate (st, r) = snd (rotate_sending_ratchet P st r)"

lemma receive_bytes_ok:
  assumes "sizes_ok P" "ratchet_ok P st" "receive_bytes P bs st r = (res, st', r')"
  shows "ratchet_ok P st'"
proof (cases "InnerFrame_decode bs")
  case (Inl e)
  with assms show ?thesis by (simp add: receive_bytes_def)
next
  case (Inr f)
  then have "header_ok (if_header f)" by (simp add: InnerFrame_decode_Ok frame_ok_def)
  from decrypt_ratchet_ok [OF assms(1,2) this] assms(3) Inr show ?thesis by (simp add: receive_bytes_def)
qed

lemma receive_bytes_generation:
  "receive_bytes P bs st r = (res, st', r') \<Longrightarrow> rs_generation st' = next_generation res (rs_generation st)"
  by (auto simp: receive_bytes_def next_generation_def dest: decrypt_generation split: sum.splits)

lemma next_generation_ge: "g \<le> next_generation res g"
  by (cases res) (simp_all add: next_generation_def saturating_add_word_ge)

interpretation ratchet: ranked_machine "ratchet_step P" "\<lambda>s. sizes_ok P \<and> ratchet_ok P (fst s)"
  "\<lambda>s. rs_generation (fst s)" for P
proof unfold_locales
  fix s :: "ratchet_state \<times> rng" and c
  assume inv: "sizes_ok P \<and> ratchet_ok P (fst s)"
  obtain st r where s: "s = (st, r)" by (cases s)
  from inv have P: "sizes_ok P" and ok: "ratchet_ok P st" by (simp_all add: s)
  have "ratchet_ok P (fst (ratchet_step P c (st, r))) \<and>
    rs_generation st \<le> rs_generation (fst (ratchet_step P c (st, r)))"
  proof (cases c)
    case (Encrypt kind pt)
    obtain res st' r' where run: "RatchetState_encrypt P kind pt st r = (res, st', r')"
      by (metis prod.exhaust)
    from encrypt_ratchet_ok [OF P ok run] encrypt_generation [OF run] show ?thesis
      by (simp add: Encrypt run next_generation_ge)
  next
    case (Receive bs)
    obtain res st' r' where run: "receive_bytes P bs st r = (res, st', r')"
      by (metis prod.exhaust)
    from receive_bytes_ok [OF P ok run] receive_bytes_generation [OF run] show ?thesis
      by (simp add: Receive run next_generation_ge)
  next
    case Rotate
    obtain res st' r' where run: "rotate_sending_ratchet P st r = (res, st', r')"
      by (metis prod.exhaust)
    from rotate_ratchet_ok [OF P ok run] rotate_generation [OF run] show ?thesis
      by (simp add: Rotate run next_generation_ge)
  qed
  with P show "sizes_ok P \<and> ratchet_ok P (fst (ratchet_step P c s))"
    "rs_generation (fst s) \<le> rs_generation (fst (ratchet_step P c s))"
    by (simp_all add: s)
qed

section \<open>No panics\<close>

lemma encrypt_no_panic: "RatchetState_encrypt P kind pt st r \<noteq> (Panics, st', r')"
  by (auto simp: RatchetState_encrypt_def Let_def split: sum.splits prod.splits option.splits)

lemma rotate_no_panic: "rotate_sending_ratchet P st r \<noteq> (Panics, st', r')"
  by (auto simp: rotate_sending_ratchet_def bind_res_Inl split: sum.splits prod.splits)

lemma decrypt_same_no_panic: "decrypt_same_ratchet P pk f st \<noteq> (Panics, st')"
proof
  assume "decrypt_same_ratchet P pk f st = (Panics, st')"
  moreover have "decrypt_skipped P pk n f st \<noteq> (Panics, st')" for n
    using position_Some [of "\<lambda>entry. sk_remote_dh entry = pk \<and> sk_message_number entry = n" "rs_skipped st"]
    by (auto simp: decrypt_skipped_def split: sum.splits option.splits)
  moreover have "bind_res (derive_for_message P c s t n) (\<lambda>(next_chain, key, new).
      bind_res (InnerFrame_open P f key) (\<lambda>pt. Ok (next_chain, new, pt))) \<noteq> Panics" for c s t n
    by (auto simp: bind_res_Inl)
  ultimately show False
    by (auto simp: decrypt_same_ratchet_def Let_def split: if_splits sum.splits option.splits)
qed

lemma decrypt_new_no_panic: "decrypt_new_ratchet P pk f st r \<noteq> (Panics, st', r')"
  by (auto simp: decrypt_new_ratchet_def io_bind_Inl io_lift_def bind_res_Inl Let_def
      split: sum.splits prod.splits option.splits)

lemma decrypt_no_panic: "RatchetState_decrypt P f st r \<noteq> (Panics, st', r')"
proof
  assume "RatchetState_decrypt P f st r = (Panics, st', r')"
  then show False
    by (cases rule: decrypt_cases) (simp_all add: decrypt_same_no_panic decrypt_new_no_panic)
qed


lemma receive_no_panic: "fst (receive_bytes P bs st r) \<noteq> Panics"
  using decrypt_no_panic [of P _ st r] inner.dec_no_panic [of bs]
  by (auto simp: receive_bytes_def split: sum.splits) (metis prod.collapse)

end
