(* ===== verification/Mef_Window.thy ===== *)
theory Mef_Window
  imports Mef_Ratchet
begin

text \<open>
  The receiving side of one ratchet chain against an abstract specification: a window holding the
  next expected number and the numbers passed over. \<open>decrypt\<close> of the frames of the peer's current
  chain, in any order, with repetitions and gaps, does what the window says.
\<close>

section \<open>The specification\<close>

text \<open>
  \<open>win_next\<close> is the lowest number not yet seen or passed over, \<open>win_missing\<close> the numbers passed over
  and not yet delivered, and \<open>win_others\<close> the keys kept for other chains, which share the limit.
\<close>

record window =
  win_next :: nat
  win_missing :: "nat set"
  win_others :: nat

definition window_receive :: "nat \<Rightarrow> window \<Rightarrow> unit res \<times> window" where
  "window_receive m w =
     (if m < win_next w then
        (if m \<in> win_missing w then (Ok (), w\<lparr>win_missing := win_missing w - {m}\<rparr>)
         else (Err MessageKeyConsumed, w))
      else if win_others w + card (win_missing w) + (m - win_next w) > MAX_SKIPPED_KEYS
        then (Err SkippedKeyLimitExceeded, w)
      else (Ok (), w\<lparr>win_next := Suc m, win_missing := win_missing w \<union> {win_next w ..< m}\<rparr>))"

text \<open>The answer of the code where the window says yes: the plaintext.\<close>

fun delivers :: "bytes \<Rightarrow> unit res \<Rightarrow> bytes res" where
  "delivers pt (Inl e) = Inl e"
| "delivers pt (Inr u) = Ok pt"

text \<open>The window of a ratchet state.\<close>

definition own_entries :: "ratchet_state \<Rightarrow> skipped_message_key list" where
  "own_entries st = filter (\<lambda>e. sk_remote_dh e = rs_remote_dh st) (rs_skipped st)"

definition window_of :: "ratchet_state \<Rightarrow> window" where
  "window_of st =
     \<lparr>win_next = unat (rs_receiving_count st),
      win_missing = (\<lambda>e. unat (sk_message_number e)) ` set (own_entries st),
      win_others = length (rs_skipped st) - length (own_entries st)\<rparr>"

text \<open>The state follows the chain that starts at \<open>c\<close>.\<close>

definition follows :: "primitives \<Rightarrow> secret \<Rightarrow> ratchet_state \<Rightarrow> bool" where
  "follows P c st \<longleftrightarrow>
     rs_receiving_chain st = chain_at P c (unat (rs_receiving_count st)) \<and>
     length (rs_skipped st) \<le> MAX_SKIPPED_KEYS \<and>
     distinct (map sk_message_number (own_entries st)) \<and>
     (\<forall>e \<in> set (own_entries st). sk_message_number e < rs_receiving_count st \<and>
        sk_key e = key_at P c (unat (sk_message_number e)))"

text \<open>A frame of that chain: sealed under the key of its number, for this session and this chain.\<close>

definition of_chain :: "primitives \<Rightarrow> secret \<Rightarrow> ratchet_state \<Rightarrow> inner_frame \<Rightarrow> bytes \<Rightarrow> bool" where
  "of_chain P c st f pt \<longleftrightarrow>
     fh_session_id (if_header f) = rs_session_id st \<and> ct_suite (if_ciphertext f) = rs_suite st \<and>
     DhPublicKey (fh_ratchet_public (if_header f)) = rs_remote_dh st \<and>
     InnerFrame_open P f (key_at P c (unat (fh_message_number (if_header f)))) = Ok pt"

section \<open>Refinement\<close>

lemma unat_u32_eq: "unat (a :: u32) = unat b \<longleftrightarrow> a = b"
  by (auto intro: unsigned_word_eqI)

lemma card_missing:
  assumes "follows P c st"
  shows "card (win_missing (window_of st)) = length (own_entries st)"
proof -
  have "inj_on (\<lambda>e. unat (sk_message_number e)) (set (own_entries st))" "distinct (own_entries st)"
    using assms by (auto simp: follows_def distinct_map inj_on_def unat_u32_eq)
  then show ?thesis by (simp add: window_of_def card_image distinct_card)
qed

lemma own_le: "length (own_entries st) \<le> length (rs_skipped st)"
  by (simp add: own_entries_def)

lemma position_own:
  assumes "position (\<lambda>e. sk_remote_dh e = rs_remote_dh st \<and> sk_message_number e = n) (rs_skipped st) = Some i"
    and "follows P c st"
  shows "rs_skipped st ! i \<in> set (own_entries st)" "sk_message_number (rs_skipped st ! i) = n"
    "own_entries (st\<lparr>rs_skipped := remove_at i (rs_skipped st)\<rparr>) =
       filter (\<lambda>e. sk_message_number e \<noteq> n) (own_entries st)"
proof -
  obtain ys x zs where xs: "rs_skipped st = ys @ x # zs" and i: "length ys = i"
    and x: "sk_remote_dh x = rs_remote_dh st" "sk_message_number x = n"
    and ys: "\<forall>y \<in> set ys. \<not> (sk_remote_dh y = rs_remote_dh st \<and> sk_message_number y = n)"
    using assms(1) by (rule position_split) blast
  have nth: "rs_skipped st ! i = x" using i by (simp add: xs flip: i)
  show "rs_skipped st ! i \<in> set (own_entries st)" "sk_message_number (rs_skipped st ! i) = n"
    using x by (simp_all add: nth own_entries_def) (simp add: xs)
  let ?own = "\<lambda>e. sk_remote_dh e = rs_remote_dh st"
  have own: "own_entries st = filter ?own ys @ x # filter ?own zs"
    using x by (simp add: own_entries_def xs)
  have "distinct (map sk_message_number (own_entries st))"
    using assms(2) by (simp add: follows_def)
  then have "n \<notin> sk_message_number ` set (filter ?own zs)" using x by (simp add: own)
  then have "filter (\<lambda>e. sk_message_number e \<noteq> n) (filter ?own zs) = filter ?own zs"
    by (intro filter_True) auto
  moreover have "filter (\<lambda>e. sk_message_number e \<noteq> n) (filter ?own ys) = filter ?own ys"
    using ys by (intro filter_True) auto
  ultimately show "own_entries (st\<lparr>rs_skipped := remove_at i (rs_skipped st)\<rparr>) =
       filter (\<lambda>e. sk_message_number e \<noteq> n) (own_entries st)"
    using x by (simp add: own) (simp add: own_entries_def xs flip: i)
qed

lemma kept_keys:
  assumes "follows P c st"
  shows "win_others (window_of st) + card (win_missing (window_of st)) = length (rs_skipped st)"
  using card_missing [OF assms] own_le [of st] by (simp add: window_of_def)

lemma missing_iff:
  "unat m \<in> win_missing (window_of st) \<longleftrightarrow> (\<exists>e \<in> set (own_entries st). sk_message_number e = m)"
  by (auto simp: window_of_def image_iff unat_u32_eq)

text \<open>Old numbers: a kept key is used once.\<close>

lemma skipped_refines:
  assumes st: "follows P c st" and f: "of_chain P c st f pt"
    and m: "m = fh_message_number (if_header f)" "m < rs_receiving_count st"
  shows "\<exists>st'. decrypt_skipped P (rs_remote_dh st) m f st =
      (delivers pt (fst (window_receive (unat m) (window_of st))), st') \<and>
    follows P c st' \<and> window_of st' = snd (window_receive (unat m) (window_of st)) \<and>
    rs_session_id st' = rs_session_id st \<and> rs_suite st' = rs_suite st \<and> rs_remote_dh st' = rs_remote_dh st"
proof -
  let ?p = "\<lambda>e. sk_remote_dh e = rs_remote_dh st \<and> sk_message_number e = m"
  have lt: "unat m < win_next (window_of st)" using m(2) by (simp add: window_of_def word_less_nat_alt)
  show ?thesis
  proof (cases "position ?p (rs_skipped st)")
    case None
    then have "unat m \<notin> win_missing (window_of st)"
      by (auto simp: missing_iff position_None own_entries_def)
    with lt None st show ?thesis by (simp add: decrypt_skipped_def window_receive_def)
  next
    case (Some i)
    note own = position_own [OF Some st]
    let ?e = "rs_skipped st ! i" and ?st' = "st\<lparr>rs_skipped := remove_at i (rs_skipped st)\<rparr>"
    have i: "i < length (rs_skipped st)" using position_Some [OF Some] by simp
    have "sk_key ?e = key_at P c (unat m)" using st own(1,2) by (auto simp: follows_def)
    then have "InnerFrame_open P f (sk_key ?e) = Ok pt" using f m(1) by (simp add: of_chain_def)
    then have run: "decrypt_skipped P (rs_remote_dh st) m f st = (Ok pt, bump_generation ?st')"
      using Some i by (simp add: decrypt_skipped_def)
    have same: "own_entries (bump_generation ?st') = own_entries ?st'" by (simp add: own_entries_def)
    have "distinct (map sk_message_number (own_entries ?st'))"
      using st by (auto simp: own(3) follows_def distinct_map intro: inj_on_subset)
    then have ok: "follows P c (bump_generation ?st')"
      using st length_remove_at [OF i] by (auto simp: follows_def same own(3))
    have "unat m \<in> win_missing (window_of st)" using own(1,2) by (auto simp: missing_iff)
    moreover have missing: "win_missing (window_of (bump_generation ?st')) = win_missing (window_of st) - {unat m}"
      by (auto simp: window_of_def same own(3) image_iff unat_u32_eq)
    moreover have "finite (win_missing (window_of st))" by (simp add: window_of_def)
    ultimately have "card (win_missing (window_of (bump_generation ?st'))) = card (win_missing (window_of st)) - 1"
      and "card (win_missing (window_of st)) > 0"
      by (simp_all add: card_gt_0_iff) blast
    then have "win_others (window_of (bump_generation ?st')) = win_others (window_of st)"
      using kept_keys [OF ok] kept_keys [OF st] length_remove_at [OF i] i by simp
    with missing have "window_of (bump_generation ?st') = (window_of st)\<lparr>win_missing := win_missing (window_of st) - {unat m}\<rparr>"
      by (simp add: window_of_def)
    with lt run ok \<open>unat m \<in> _\<close> show ?thesis by (simp add: window_receive_def)
  qed
qed

text \<open>New numbers: the keys passed over are kept.\<close>

lemma advance_refines:
  assumes P: "hkdf_total P" and st: "follows P c st" and f: "of_chain P c st f pt"
    and m: "m = fh_message_number (if_header f)" "\<not> m < rs_receiving_count st" "unat m < 2 ^ 32 - 1"
  shows "\<exists>st'. decrypt_same_ratchet P (rs_remote_dh st) f st =
      (delivers pt (fst (window_receive (unat m) (window_of st))), st') \<and>
    follows P c st' \<and> window_of st' = snd (window_receive (unat m) (window_of st)) \<and>
    rs_session_id st' = rs_session_id st \<and> rs_suite st' = rs_suite st \<and> rs_remote_dh st' = rs_remote_dh st"
proof -
  let ?n = "rs_receiving_count st"
  let ?new = "numbered_keys P c (unat ?n) (unat m)"
  have rc: "rs_receiving_chain st = chain_at P c (unat ?n)" and len: "length (rs_skipped st) \<le> MAX_SKIPPED_KEYS"
    using st by (simp_all add: follows_def)
  have ge: "unat ?n \<le> unat m" using m(2) by (simp add: word_le_nat_alt not_less)
  note derived = derive_for_message_total [OF P len, of c ?n m, unfolded if_not_P [OF m(2)] rc [symmetric]]
  note kept = kept_keys [OF st]
  have next_n: "win_next (window_of st) = unat ?n" by (simp add: window_of_def)
  show ?thesis
  proof (cases "length (rs_skipped st) + (unat m - unat ?n) > MAX_SKIPPED_KEYS")
    case True
    with derived m st ge kept next_n show ?thesis
      by (simp add: decrypt_same_ratchet_def window_receive_def)
  next
    case False
    have "checked_add_word m 1 = Some (m + 1)" using m(3) by (simp add: checked_add_word_def)
    moreover have "InnerFrame_open P f (key_at P c (unat m)) = Ok pt"
      using f m(1) by (simp add: of_chain_def)
    moreover define st' where "st' = bump_generation (add_skipped (rs_remote_dh st) ?new
        (st\<lparr>rs_receiving_chain := chain_at P c (Suc (unat m)), rs_receiving_count := m + 1\<rparr>))"
    ultimately have run: "decrypt_same_ratchet P (rs_remote_dh st) f st = (Ok pt, st')"
      using derived False m by (simp add: decrypt_same_ratchet_def Let_def)
    have m1: "unat (m + 1) = Suc (unat m)" using m(3) by (simp add: unat_word_ariths)
    let ?mk = "\<lambda>i. \<lparr>sk_remote_dh = rs_remote_dh st, sk_message_number = word_of_nat i, sk_key = key_at P c i\<rparr>"
    have own: "own_entries st' = own_entries st @ map ?mk [unat ?n ..< unat m]"
      by (simp add: st'_def own_entries_def numbered_keys_def filter_map o_def)
    have small: "unat (word_of_nat i :: u32) = i" if "i < unat m" for i
      using that m(3) by (simp add: unat_of_nat)
    have len': "length (rs_skipped st') = length (rs_skipped st) + (unat m - unat ?n)"
      by (simp add: st'_def numbered_keys_def)
    have "inj_on (\<lambda>i. word_of_nat i :: u32) {unat ?n ..< unat m}"
      using small by (intro inj_onI) (metis atLeastLessThan_iff)
    moreover have "sk_message_number e \<noteq> word_of_nat i"
      if "e \<in> set (own_entries st)" "unat ?n \<le> i" "i < unat m" for e i
      using st that small [OF that(3)] by (auto simp: follows_def word_less_nat_alt)
    moreover have "distinct (map sk_message_number (own_entries st))" using st by (simp add: follows_def)
    ultimately have "distinct (map sk_message_number (own_entries st'))"
      by (auto simp: own o_def distinct_map)
    moreover have "sk_message_number e < rs_receiving_count st'" "sk_key e = key_at P c (unat (sk_message_number e))"
      if e: "e \<in> set (own_entries st')" for e
    proof -
      consider "e \<in> set (own_entries st)" | i where "e = ?mk i" "i < unat m"
        using e by (auto simp: own)
      then have "unat (sk_message_number e) < Suc (unat m) \<and> sk_key e = key_at P c (unat (sk_message_number e))"
      proof cases
        case 1
        then have "unat (sk_message_number e) < unat ?n" "sk_key e = key_at P c (unat (sk_message_number e))"
          using st by (auto simp: follows_def word_less_nat_alt)
        with ge show ?thesis by simp
      qed (simp add: small)
      then show "sk_message_number e < rs_receiving_count st'" "sk_key e = key_at P c (unat (sk_message_number e))"
        by (simp_all add: st'_def word_less_nat_alt m1)
    qed
    ultimately have ok: "follows P c st'"
      using False len' m1 by (simp add: follows_def) (simp add: st'_def)
    have "win_missing (window_of st') = win_missing (window_of st) \<union> {unat ?n ..< unat m}"
      using small by (force simp: window_of_def own image_Un image_image)
    moreover have "win_next (window_of st') = Suc (unat m)" by (simp add: window_of_def st'_def m1)
    moreover have "win_others (window_of st') = win_others (window_of st)"
      using len' own own_le [of st] by (simp add: window_of_def)
    ultimately have "window_of st' = snd (window_receive (unat m) (window_of st))"
      using False ge kept next_n by (simp add: window_receive_def)
    with run ok False ge kept next_n show ?thesis
      by (simp add: window_receive_def st'_def)
  qed
qed

lemma decrypt_refines_window:
  assumes P: "hkdf_total P" and st: "follows P c st" and f: "of_chain P c st f pt"
    and m: "m = fh_message_number (if_header f)" "unat m < 2 ^ 32 - 1"
  shows "\<exists>st'. RatchetState_decrypt P f st r =
      (delivers pt (fst (window_receive (unat m) (window_of st))), st', r) \<and>
    follows P c st' \<and> window_of st' = snd (window_receive (unat m) (window_of st)) \<and>
    rs_session_id st' = rs_session_id st \<and> rs_suite st' = rs_suite st \<and> rs_remote_dh st' = rs_remote_dh st"
proof -
  have dispatch: "RatchetState_decrypt P f st r =
      (case decrypt_same_ratchet P (rs_remote_dh st) f st of (res, st') \<Rightarrow> (res, st', r))"
    using f by (simp add: RatchetState_decrypt_def of_chain_def)
  show ?thesis
  proof (cases "m < rs_receiving_count st")
    case True
    then have "decrypt_same_ratchet P (rs_remote_dh st) f st = decrypt_skipped P (rs_remote_dh st) m f st"
      by (simp add: decrypt_same_ratchet_def m(1))
    with skipped_refines [OF st f m(1) True] dispatch show ?thesis by auto
  next
    case False
    from advance_refines [OF P st f m(1) False m(2)] dispatch show ?thesis by auto
  qed
qed

section \<open>Any order, each message once\<close>

fun window_run :: "nat list \<Rightarrow> window \<Rightarrow> unit res list \<times> window" where
  "window_run [] w = ([], w)"
| "window_run (m # ms) w =
     (case window_receive m w of (res, w1) \<Rightarrow>
        case window_run ms w1 of (results, w2) \<Rightarrow> (res # results, w2))"

text \<open>The answers to deliveries after the numbers \<open>seen\<close>: the first of each number, and no other.\<close>

fun deliveries :: "nat set \<Rightarrow> nat list \<Rightarrow> unit res list" where
  "deliveries seen [] = []"
| "deliveries seen (m # ms) =
     (if m \<in> seen then Err MessageKeyConsumed else Ok ()) # deliveries (insert m seen) ms"

text \<open>From number \<open>n\<close> on, what is open is what has not been seen, and there is room up to \<open>bound\<close>.\<close>

definition open_from :: "nat \<Rightarrow> nat \<Rightarrow> nat set \<Rightarrow> window \<Rightarrow> bool" where
  "open_from n bound seen w \<longleftrightarrow>
     n \<le> win_next w \<and> win_missing w \<subseteq> {..<win_next w} \<and>
     (\<forall>m \<ge> n. if m < win_next w then (m \<in> win_missing w \<longleftrightarrow> m \<notin> seen) else m \<notin> seen) \<and>
     win_others w + card (win_missing w) + bound \<le> MAX_SKIPPED_KEYS + win_next w"

lemma window_receive_open:
  assumes w: "open_from n bound seen w" and m: "n \<le> m" "m < bound"
  shows "fst (window_receive m w) = (if m \<in> seen then Err MessageKeyConsumed else Ok ())"
    "open_from n bound (insert m seen) (snd (window_receive m w))"
proof -
  have old: "m \<in> win_missing w \<longleftrightarrow> m \<notin> seen" if "m < win_next w"
    using w m(1) that by (auto simp: open_from_def)
  have new: "m \<notin> seen" "win_others w + card (win_missing w) + (m - win_next w) \<le> MAX_SKIPPED_KEYS"
    if "\<not> m < win_next w" using w m that by (auto simp: open_from_def)
  show "fst (window_receive m w) = (if m \<in> seen then Err MessageKeyConsumed else Ok ())"
    using old new by (cases "m < win_next w") (simp_all add: window_receive_def)
  show "open_from n bound (insert m seen) (snd (window_receive m w))"
  proof (cases "m < win_next w")
    case True
    show ?thesis
    proof (cases "m \<in> win_missing w")
      case mem: True
      have "card (win_missing w - {m}) \<le> card (win_missing w)"
        using w by (intro card_mono) (auto simp: open_from_def intro: finite_subset)
      with w True mem show ?thesis
        by (auto simp: window_receive_def open_from_def split: if_splits)
    next
      case False
      with old True have "insert m seen = seen" by auto
      with w True False show ?thesis by (simp add: window_receive_def)
    qed
  next
    case False
    have "card (win_missing w \<union> {win_next w ..< m}) \<le> card (win_missing w) + (m - win_next w)"
      using card_Un_le [of "win_missing w" "{win_next w ..< m}"] by simp
    with w False new(2) m show ?thesis
      by (auto simp: window_receive_def open_from_def split: if_splits)
  qed
qed

lemma window_run_open:
  "open_from n bound seen w \<Longrightarrow> \<forall>m \<in> set ms. n \<le> m \<and> m < bound \<Longrightarrow>
     fst (window_run ms w) = deliveries seen ms"
proof (induction ms arbitrary: w seen)
  case (Cons m ms)
  from Cons.prems window_receive_open [of n bound seen w m]
  have step: "fst (window_receive m w) = (if m \<in> seen then Err MessageKeyConsumed else Ok ())"
    "open_from n bound (insert m seen) (snd (window_receive m w))" by simp_all
  from Cons.IH [OF step(2)] Cons.prems(2) step(1) show ?case
    by (simp add: case_prod_unfold)
qed simp

text \<open>Feeding frames to a state, one after the other.\<close>

fun decrypt_all ::
    "primitives \<Rightarrow> inner_frame list \<Rightarrow> ratchet_state \<Rightarrow> rng \<Rightarrow> bytes res list \<times> ratchet_state \<times> rng" where
  "decrypt_all P [] st r = ([], st, r)"
| "decrypt_all P (f # fs) st r =
     (case RatchetState_decrypt P f st r of (res, st1, r1) \<Rightarrow>
        case decrypt_all P fs st1 r1 of (results, st2, r2) \<Rightarrow> (res # results, st2, r2))"

lemma decrypt_all_refines:
  assumes P: "hkdf_total P" and st: "follows P c st"
    and fs: "\<forall>m \<in> set ms. of_chain P c st (f m) (pt m) \<and> m < 2 ^ 32 - 1 \<and>
        unat (fh_message_number (if_header (f m))) = m"
  shows "fst (decrypt_all P (map f ms) st r) =
      map2 (\<lambda>m. delivers (pt m)) ms (fst (window_run ms (window_of st)))"
  using st fs
proof (induction ms arbitrary: st r)
  case (Cons m ms)
  from Cons.prems(2) have f: "of_chain P c st (f m) (pt m)"
    and m: "unat (fh_message_number (if_header (f m))) = m" "m < 2 ^ 32 - 1" by simp_all
  from decrypt_refines_window [OF P Cons.prems(1) f refl, of r] m obtain st' where
    run: "RatchetState_decrypt P (f m) st r =
      (delivers (pt m) (fst (window_receive m (window_of st))), st', r)"
    and st': "follows P c st'" "window_of st' = snd (window_receive m (window_of st))"
    and same: "rs_session_id st' = rs_session_id st" "rs_suite st' = rs_suite st" "rs_remote_dh st' = rs_remote_dh st"
    by auto
  have "\<forall>m \<in> set ms. of_chain P c st' (f m) (pt m) \<and> m < 2 ^ 32 - 1 \<and>
      unat (fh_message_number (if_header (f m))) = m"
    using Cons.prems(2) by (auto simp: of_chain_def same)
  from Cons.IH [OF st'(1) this, of r] run st'(2) show ?case
    by (simp add: case_prod_unfold)
qed simp

section \<open>The sending side\<close>

text \<open>
  The sender's chain and the receiver's are the same chain \<open>c\<close>, in one session.
\<close>

definition chain_link :: "primitives \<Rightarrow> secret \<Rightarrow> ratchet_state \<Rightarrow> ratchet_state \<Rightarrow> bool" where
  "chain_link P c a b \<longleftrightarrow>
     rs_session_id a = rs_session_id b \<and> rs_suite a = rs_suite b \<and>
     kp_public (rs_dh_pair a) = rs_remote_dh b \<and>
     rs_sending_chain a = chain_at P c (unat (rs_sending_count a)) \<and> follows P c b"

lemma own_header_ok:
  assumes "sizes_ok P" "ratchet_ok P a"
  shows "header_ok (FrameHeader_new kind (rs_session_id a) (dh_public_bytes (kp_public (rs_dh_pair a))) n m)"
  using assms key_pair_public_length [OF assms(1) ratchet_okD(5) [OF assms(2)]]
  by (simp add: header_ok_def ratchet_okD)

lemma encrypt_Ok:
  assumes P: "sizes_ok P" "aeads_ok P" "hkdf_total P" and a: "ratchet_ok P a"
    and run: "RatchetState_encrypt P kind pt a r = (Inr f, a', r')"
    and chain: "rs_sending_chain a = chain_at P c (unat (rs_sending_count a))"
  shows "if_header f = FrameHeader_new kind (rs_session_id a) (dh_public_bytes (kp_public (rs_dh_pair a)))
      (rs_previous_sending_chain_len a) (rs_sending_count a)"
    "ct_suite (if_ciphertext f) = rs_suite a" "frame_ok f"
    "InnerFrame_open P f (key_at P c (unat (rs_sending_count a))) = Ok pt"
    "unat (rs_sending_count a) < 2 ^ 32 - 1" "unat (rs_sending_count a') = Suc (unat (rs_sending_count a))"
    "a' = a\<lparr>rs_sending_chain := chain_at P c (unat (rs_sending_count a')),
       rs_sending_count := rs_sending_count a + 1,
       rs_generation := saturating_add_word (rs_generation a) 1\<rparr>"
proof -
  obtain c' k n where step: "chain_step P (rs_sending_chain a) = Inr (c', k)"
    and seal: "InnerFrame_seal P k (rs_suite a) (FrameHeader_new kind (rs_session_id a)
      (dh_public_bytes (kp_public (rs_dh_pair a))) (rs_previous_sending_chain_len a)
      (rs_sending_count a)) pt r = (Inr f, r')"
    and count: "checked_add_word (rs_sending_count a) 1 = Some n"
    and a': "a' = bump_generation (a\<lparr>rs_sending_chain := c', rs_sending_count := n\<rparr>)"
    using run by (cases rule: encrypt_cases) auto
  have k: "k = key_at P c (unat (rs_sending_count a))" "c' = chain_at P c (Suc (unat (rs_sending_count a)))"
    using step chain_step_total [OF P(3)] by (simp_all add: chain key_at_def)
  note h = own_header_ok [OF P(1) a]
  from InnerFrame_seal_frame [OF P(2) h seal] open_sealed_frame [OF P(2) h seal]
  show "if_header f = FrameHeader_new kind (rs_session_id a) (dh_public_bytes (kp_public (rs_dh_pair a)))
      (rs_previous_sending_chain_len a) (rs_sending_count a)"
    "ct_suite (if_ciphertext f) = rs_suite a" "frame_ok f"
    "InnerFrame_open P f (key_at P c (unat (rs_sending_count a))) = Ok pt"
    by (simp_all add: k)
  have n: "n = rs_sending_count a + 1" "unat (rs_sending_count a) + 1 < 2 ^ 32"
    using count by (auto simp: checked_add_word_def split: if_splits)
  then show "unat (rs_sending_count a) < 2 ^ 32 - 1" by simp
  show next_count: "unat (rs_sending_count a') = Suc (unat (rs_sending_count a))"
    using checked_add_word_Some [OF count] by (simp add: a')
  show "a' = a\<lparr>rs_sending_chain := chain_at P c (unat (rs_sending_count a')),
       rs_sending_count := rs_sending_count a + 1,
       rs_generation := saturating_add_word (rs_generation a) 1\<rparr>"
    unfolding next_count by (simp add: a' n(1) k(2) bump_generation_def)
qed

lemma encrypt_total:
  assumes P: "sizes_ok P" "aeads_ok P" "hkdf_total P" and a: "ratchet_ok P a"
    and pt: "length pt \<le> MAX_CIPHERTEXT_LEN - AEAD_TAG_LEN"
    and rng: "sys_rng P r (AeadSuite_nonce_len (rs_suite a)) = Some nonce"
    and count: "unat (rs_sending_count a) < 2 ^ 32 - 1"
  shows "\<exists>f a'. RatchetState_encrypt P kind pt a r = (Ok f, a', Suc r)"
proof -
  note h = own_header_ok [OF P(1) a]
  obtain c k where step: "chain_step P (rs_sending_chain a) = Ok (c, k)"
    using chain_step_total [OF P(3)] by blast
  have "length (aead_key_bytes k) = 32" using chain_step_length [OF P(1) step] by simp
  from InnerFrame_seal_total [OF P(2,1) h this pt rng] obtain f where
    "InnerFrame_seal P k (rs_suite a) (FrameHeader_new kind (rs_session_id a)
      (dh_public_bytes (kp_public (rs_dh_pair a))) (rs_previous_sending_chain_len a) (rs_sending_count a))
      pt r = (Ok f, Suc r)" by blast
  moreover have "checked_add_word (rs_sending_count a) 1 = Some (rs_sending_count a + 1)"
    using count by (simp add: checked_add_word_def)
  ultimately show ?thesis by (simp add: RatchetState_encrypt_def step)
qed

lemma encrypt_link:
  assumes P: "sizes_ok P" "aeads_ok P" "hkdf_total P" and a: "ratchet_ok P a"
    and run: "RatchetState_encrypt P kind pt a r = (Inr f, a', r')"
    and link: "chain_link P c a b"
  shows "of_chain P c b f pt" "chain_link P c a' b"
    "unat (fh_message_number (if_header f)) = unat (rs_sending_count a)"
proof -
  have chain: "rs_sending_chain a = chain_at P c (unat (rs_sending_count a))"
    using link by (simp add: chain_link_def)
  note enc = encrypt_Ok [OF P a run chain]
  show "of_chain P c b f pt"
    using link enc(1,2,4) by (simp add: of_chain_def chain_link_def)
  have "rs_session_id a' = rs_session_id a" "rs_suite a' = rs_suite a" "rs_dh_pair a' = rs_dh_pair a"
    "rs_sending_chain a' = chain_at P c (unat (rs_sending_count a'))"
    by (subst enc(7), simp)+
  with link show "chain_link P c a' b" by (simp add: chain_link_def)
  show "unat (fh_message_number (if_header f)) = unat (rs_sending_count a)"
    by (simp add: enc(1))
qed

text \<open>Sending several messages.\<close>

fun encrypt_all ::
    "primitives \<Rightarrow> frame_kind \<Rightarrow> bytes list \<Rightarrow> ratchet_state \<Rightarrow> rng
       \<Rightarrow> inner_frame list res \<times> ratchet_state \<times> rng" where
  "encrypt_all P kind [] st r = (Ok [], st, r)"
| "encrypt_all P kind (pt # pts) st r =
     (case RatchetState_encrypt P kind pt st r of
        (Inl e, st1, r1) \<Rightarrow> (Inl e, st1, r1)
      | (Inr f, st1, r1) \<Rightarrow>
          (case encrypt_all P kind pts st1 r1 of
             (Inl e, st2, r2) \<Rightarrow> (Inl e, st2, r2)
           | (Inr fs, st2, r2) \<Rightarrow> (Ok (f # fs), st2, r2)))"

lemma encrypt_all_link:
  assumes P: "sizes_ok P" "aeads_ok P" "hkdf_total P"
  shows "ratchet_ok P a \<Longrightarrow> chain_link P c a b \<Longrightarrow> encrypt_all P kind pts a r = (Inr fs, a', r') \<Longrightarrow>
    length fs = length pts \<and> chain_link P c a' b \<and> ratchet_ok P a' \<and>
    unat (rs_sending_count a') = unat (rs_sending_count a) + length pts \<and>
    (\<forall>i < length pts. of_chain P c b (fs ! i) (pts ! i) \<and>
       unat (fh_message_number (if_header (fs ! i))) = unat (rs_sending_count a) + i)"
proof (induction pts arbitrary: a r fs)
  case (Cons pt pts)
  from Cons.prems(3) obtain f a1 r1 fs1 where
    run: "RatchetState_encrypt P kind pt a r = (Inr f, a1, r1)"
    and rest: "encrypt_all P kind pts a1 r1 = (Inr fs1, a', r')" and fs: "fs = f # fs1"
    by (auto split: prod.splits sum.splits)
  have chain: "rs_sending_chain a = chain_at P c (unat (rs_sending_count a))"
    using Cons.prems(2) by (simp add: chain_link_def)
  note count = encrypt_Ok(6) [OF P Cons.prems(1) run chain]
  note link = encrypt_link [OF P Cons.prems(1) run Cons.prems(2)]
  note a1 = encrypt_ratchet_ok [OF P(1) Cons.prems(1) run]
  from Cons.IH [OF a1 link(2) rest] link count show ?case
    by (auto simp: fs nth_Cons' less_Suc_eq_0_disj)
qed simp

text \<open>
  Messages sent on a chain and delivered in any order, with any repetitions: each is delivered
  exactly once, and every other copy is refused.
\<close>

lemma any_order_exactly_once:
  assumes P: "sizes_ok P" "aeads_ok P" "hkdf_total P"
    and a: "ratchet_ok P a" and link: "chain_link P c a b"
    and sync: "rs_sending_count a = rs_receiving_count b"
    and room: "length (rs_skipped b) + length pts \<le> MAX_SKIPPED_KEYS"
    and sent: "encrypt_all P kind pts a r = (Inr fs, a', r')"
    and idx: "\<forall>i \<in> set is. i < length pts"
  shows "fst (decrypt_all P (map ((!) fs) is) b r2) = map2 (\<lambda>i. delivers (pts ! i)) is (deliveries {} is)"
proof -
  define n where "n = unat (rs_sending_count a)"
  note all = encrypt_all_link [OF P a link sent]
  have b: "follows P c b" using link by (simp add: chain_link_def)
  have bound: "n + length pts < 2 ^ 32"
    using all unsigned_less [of "rs_sending_count a'", where ?'a = nat] by (simp add: n_def)
  have small: "n + i < 2 ^ 32 - 1" if "i < length pts" for i
    using bound that by simp
  have "open_from n (n + length pts) {} (window_of b)"
    using b room kept_keys [OF b]
    by (auto simp: open_from_def n_def sync follows_def word_less_nat_alt) (auto simp: window_of_def word_less_nat_alt)
  then have run: "fst (window_run (map ((+) n) is) (window_of b)) = deliveries {} (map ((+) n) is)"
    using idx by (intro window_run_open) auto
  have shift: "deliveries ((+) n ` seen) (map ((+) n) js) = deliveries seen js" for seen js
    by (induction js arbitrary: seen) (auto simp flip: image_insert)
  let ?f = "\<lambda>m. fs ! (m - n)" and ?pt = "\<lambda>m. pts ! (m - n)"
  have "\<forall>m \<in> set (map ((+) n) is). of_chain P c b (?f m) (?pt m) \<and> m < 2 ^ 32 - 1 \<and>
      unat (fh_message_number (if_header (?f m))) = m"
    using all idx small by (auto simp: n_def)
  from decrypt_all_refines [OF P(3) b this, of r2] run shift [of "{}" "is"] show ?thesis
    by (simp add: o_def zip_map1 case_prod_unfold)
qed

text \<open>A frame that does not authenticate changes nothing.\<close>

lemma forged_frame_ignored:
  assumes P: "hkdf_total P" and st: "follows P c st"
    and f: "DhPublicKey (fh_ratchet_public (if_header f)) = rs_remote_dh st"
    and forged: "\<forall>pt. InnerFrame_open P f (key_at P c (unat (fh_message_number (if_header f)))) \<noteq> Ok pt"
  shows "\<exists>e. RatchetState_decrypt P f st r = (Inl e, st, r)"
proof -
  obtain res st' r' where run: "RatchetState_decrypt P f st r = (res, st', r')" by (metis prod.exhaust)
  from this show ?thesis
  proof (cases rule: decrypt_cases)
    case same
    from same(3) show ?thesis
    proof (cases rule: decrypt_same_cases)
      case (skipped pt)
      from skipped(3) show ?thesis
      proof (cases rule: decrypt_skipped_cases)
        case (opened i pt')
        have "sk_key (rs_skipped st ! i) = key_at P c (unat (fh_message_number (if_header f)))"
          using position_own(1,2) [OF opened(2) st] st by (auto simp: follows_def)
        with opened(3) forged show ?thesis by simp
      qed simp
    next
      case (exhausted c' k new pt)
      with derive_for_message_total [OF P, of "length (rs_skipped st)" c "rs_receiving_count st"] st forged
      show ?thesis by (auto simp: follows_def split: if_splits)
    next
      case (advanced c' k new pt n)
      with derive_for_message_total [OF P, of "length (rs_skipped st)" c "rs_receiving_count st"] st forged
      show ?thesis by (auto simp: follows_def split: if_splits)
    qed (use run same in simp)
  qed (use run f in simp_all)
qed

text \<open>
  The keys \<open>decrypt\<close> may try on a frame: on the current ratchet key the kept key of its number, or the key of
  its number further along the receiving chain; on another one the key of its number on the chain of
  the Diffie-Hellman step with that ratchet key. No other key is ever tried.
\<close>

definition opening_keys :: "primitives \<Rightarrow> ratchet_state \<Rightarrow> inner_frame \<Rightarrow> aead_key list" where
  "opening_keys P st f =
     (let pk = DhPublicKey (fh_ratchet_public (if_header f)); n = fh_message_number (if_header f) in
      if pk = rs_remote_dh st then
        if n < rs_receiving_count st
        then map sk_key (filter (\<lambda>e. sk_remote_dh e = pk \<and> sk_message_number e = n) (rs_skipped st))
        else [key_at P (rs_receiving_chain st) (unat n - unat (rs_receiving_count st))]
      else
        case bind_res (DhKeyPair_diffie_hellman P (rs_dh_pair st) pk) (root_step P (rs_root_key st)) of
          Inl e \<Rightarrow> []
        | Inr (root, chain) \<Rightarrow> [key_at P chain (unat n)])"

lemma decrypt_same_opened:
  assumes P: "hkdf_total P" and f: "DhPublicKey (fh_ratchet_public (if_header f)) = rs_remote_dh st"
    and run: "decrypt_same_ratchet P (rs_remote_dh st) f st = (res, st')"
  shows "(\<exists>e. res = Inl e \<and> st' = st) \<or> (\<exists>key \<in> set (opening_keys P st f). \<exists>pt. InnerFrame_open P f key = Inr pt)"
  using run
proof (cases rule: decrypt_same_cases)
  case (skipped pt)
  from skipped(3) show ?thesis
  proof (cases rule: decrypt_skipped_cases)
    case (opened i pt')
    from position_Some [OF opened(2)] opened(3) skipped(2) f show ?thesis
      by (auto simp: opening_keys_def Let_def)
  qed simp
next
  case (exhausted c k new pt)
  with derive_for_message_key [OF P exhausted(3)] f show ?thesis by (auto simp: opening_keys_def Let_def)
next
  case (advanced c k new pt n)
  with derive_for_message_key [OF P advanced(3)] f show ?thesis by (auto simp: opening_keys_def Let_def)
qed simp

lemma decrypt_new_opened:
  assumes P: "hkdf_total P" and f: "DhPublicKey (fh_ratchet_public (if_header f)) \<noteq> rs_remote_dh st"
    and run: "decrypt_new_ratchet P (DhPublicKey (fh_ratchet_public (if_header f))) f st r = (res, st', r')"
  shows "(\<exists>e. res = Inl e \<and> st' = st) \<or> (\<exists>key \<in> set (opening_keys P st f). \<exists>pt. InnerFrame_open P f key = Inr pt)"
  using run
proof (cases rule: decrypt_new_cases)
  case (commit c old z1 root1 chain1 kp z2 root2 chain2 rc k new pt)
  from derive_for_message_key [OF P commit(7)] commit(2,3,8) f show ?thesis
    by (auto simp: opening_keys_def Let_def)
qed simp

lemma unauthentic_frame_ignored:
  assumes P: "hkdf_total P" and forged: "\<And>key pt. key \<in> set (opening_keys P st f) \<Longrightarrow> InnerFrame_open P f key \<noteq> Ok pt"
  shows "\<exists>e r'. RatchetState_decrypt P f st r = (Inl e, st, r') \<and>
    (DhPublicKey (fh_ratchet_public (if_header f)) = rs_remote_dh st \<longrightarrow> r' = r)"
proof -
  obtain res st' r' where run: "RatchetState_decrypt P f st r = (res, st', r')" by (metis prod.exhaust)
  from this show ?thesis
  proof (cases rule: decrypt_cases)
    case same
    from decrypt_same_opened [OF P same(1,3)] forged run same(2) show ?thesis by auto
  next
    case new
    from decrypt_new_opened [OF P new] forged run new(1) show ?thesis by auto
  qed (use run in simp)
qed

text \<open>On a chain the state follows, the key of the frame's number is the only one tried.\<close>

lemma opening_keys_follows:
  assumes st: "follows P c st" and f: "DhPublicKey (fh_ratchet_public (if_header f)) = rs_remote_dh st"
  shows "set (opening_keys P st f) \<subseteq> {key_at P c (unat (fh_message_number (if_header f)))}"
  using st f key_at_add [of P c]
  by (auto simp: opening_keys_def Let_def follows_def own_entries_def not_less word_le_nat_alt)

end
