(* ===== verification/Mef_Agreement.thy ===== *)
theory Mef_Agreement
  imports Mef_Handshake
begin

text \<open>
  What the handshake of \<open>src/handshake.rs\<close> guarantees: the responder's material keeps its shape under
  every operation, a failed \<open>accept\<close> changes nothing and a successful one consumes the one-time
  prekey it names, and both sides derive the same session.
\<close>

section \<open>Invariant of the responder's material\<close>

definition local_identity_ok :: "primitives \<Rightarrow> local_identity \<Rightarrow> bool" where
  "local_identity_ok P li \<longleftrightarrow> identity_pair_ok P (li_signing li) \<and> key_pair_ok P (li_dh li)"

text \<open>A signed record issued by the identity for a held key pair.\<close>

definition prekey_entry_ok :: "primitives \<Rightarrow> local_identity \<Rightarrow> signed_prekey \<times> dh_key_pair \<Rightarrow> bool" where
  "prekey_entry_ok P li entry \<longleftrightarrow>
     key_pair_ok P (snd entry) \<and>
     fst entry = SignedPrekey_issue P (li_signing li) (sp_key_id (fst entry)) (kp_public (snd entry))
       (sp_expires_at_unix (fst entry))"

definition one_time_entry_ok :: "primitives \<Rightarrow> one_time_prekey \<Rightarrow> bool" where
  "one_time_entry_ok P entry \<longleftrightarrow>
     key_pair_ok P (otp_key entry) \<and> otpk_public (otp_public entry) = kp_public (otp_key entry)"

definition signed_entries :: "responder_material \<Rightarrow> (signed_prekey \<times> dh_key_pair) list" where
  "signed_entries m = (rm_signed_record m, rm_signed_prekey m) # rm_retired_signed_prekeys m"

definition one_time_id :: "one_time_prekey \<Rightarrow> u32" where
  "one_time_id entry = otpk_id (otp_public entry)"

definition material_ok :: "primitives \<Rightarrow> responder_material \<Rightarrow> bool" where
  "material_ok P m \<longleftrightarrow>
     local_identity_ok P (rm_identity m) \<and>
     (\<forall>entry \<in> set (signed_entries m). prekey_entry_ok P (rm_identity m) entry) \<and>
     distinct (map (sp_key_id \<circ> fst) (signed_entries m)) \<and>
     (\<forall>entry \<in> set (rm_one_time_prekeys m). one_time_entry_ok P entry) \<and>
     distinct (map one_time_id (rm_one_time_prekeys m))"

lemma LocalIdentity_generate_Ok:
  assumes "sizes_ok P" "LocalIdentity_generate P r = (Inr li, r')"
  shows "local_identity_ok P li"
  using assms
  by (auto simp: LocalIdentity_generate_def res_iff io_lift_def local_identity_ok_def dest: sizes_okD)

lemma local_identity_public_ok:
  assumes "sizes_ok P" "ed25519_ok P" "local_identity_ok P li"
  shows "identity_ok P (LocalIdentity_public P li)"
  using assms verify_sign [OF assms(2)]
  by (auto simp: identity_ok_def LocalIdentity_public_def Let_def local_identity_ok_def
      IdentityDhPublic_verify_def identity_pair_ok_def sizes_okD)

lemma issue_entry_ok:
  "key_pair_ok P key \<Longrightarrow> prekey_entry_ok P li (SignedPrekey_issue P (li_signing li) i (kp_public key) t, key)"
  by (simp add: prekey_entry_ok_def)

lemma material_generate_ok:
  assumes "sizes_ok P" "ResponderPrekeyMaterial_generate P i t r = (Inr m, r')"
  shows "material_ok P m"
  using assms LocalIdentity_generate_Ok DhKeyPair_generate_pair_ok
  by (fastforce simp: ResponderPrekeyMaterial_generate_def io_bind_Ok io_lift_def material_ok_def
      signed_entries_def intro: issue_entry_ok)

lemma add_one_time_prekey_ok:
  assumes "sizes_ok P" "material_ok P m" "add_one_time_prekey P i m r = (res, m', r')"
  shows "material_ok P m'"
proof (cases "DhKeyPair_generate P r")
  case (Pair kp r1)
  show ?thesis
  proof (cases kp)
    case (Inl e)
    with assms Pair show ?thesis
      by (auto simp: add_one_time_prekey_def split: if_splits)
  next
    case (Inr key)
    have key: "key_pair_ok P key" using DhKeyPair_generate_pair_ok assms(1) Pair Inr by blast
    show ?thesis
    proof (cases "\<exists>entry \<in> set (rm_one_time_prekeys m). one_time_id entry = i")
      case True
      with assms show ?thesis by (simp add: add_one_time_prekey_def one_time_id_def)
    next
      case False
      with assms Pair Inr have m': "m' = m\<lparr>rm_one_time_prekeys := rm_one_time_prekeys m @
          [\<lparr>otp_public = \<lparr>otpk_id = i, otpk_public = kp_public key\<rparr>, otp_key = key\<rparr>]\<rparr>"
        by (simp add: add_one_time_prekey_def one_time_id_def)
      have "i \<notin> one_time_id ` set (rm_one_time_prekeys m)" using False by auto
      with assms(2) key show ?thesis
        by (simp add: m' material_ok_def signed_entries_def one_time_entry_ok_def one_time_id_def)
    qed
  qed
qed

lemma rotate_signed_prekey_ok:
  assumes "sizes_ok P" "material_ok P m" "rotate_signed_prekey P i t m r = (res, m', r')"
  shows "material_ok P m'"
proof (cases "DhKeyPair_generate P r")
  case (Pair kp r1)
  have pair: "key_pair_ok P (rm_signed_prekey m)"
    using assms(2) by (simp add: material_ok_def signed_entries_def prekey_entry_ok_def)
  show ?thesis
  proof (cases kp)
    case (Inl e)
    with assms Pair show ?thesis
      by (auto simp: rotate_signed_prekey_def split: if_splits)
  next
    case (Inr key)
    with assms Pair pair DhKeyPair_generate_pair_ok [of P r key r1] show ?thesis
      by (auto simp: rotate_signed_prekey_def material_ok_def signed_entries_def Let_def
          split: if_splits intro: issue_entry_ok)
  qed
qed

lemma retire_signed_prekey_ok:
  assumes "material_ok P m" "retire_signed_prekey i m = (res, m')"
  shows "material_ok P m'"
proof -
  let ?k = "sp_key_id \<circ> fst" and ?old = "rm_retired_signed_prekeys m"
  have shrink: "prekey_entry_ok P (rm_identity m) entry" if "entry \<in> set (remove_at k ?old)" for entry k
    using assms(1) in_set_remove_at [OF that] by (simp add: material_ok_def signed_entries_def)
  have "sp_key_id (rm_signed_record m) \<notin> ?k ` set ?old"
    using assms(1) by (simp add: material_ok_def signed_entries_def)
  then have fresh: "sp_key_id (rm_signed_record m) \<notin> ?k ` set (remove_at k ?old)" for k
    using image_mono [OF set_remove_at [of k ?old], of ?k] by blast
  consider "m' = m" | k where "m' = m\<lparr>rm_retired_signed_prekeys := remove_at k ?old\<rparr>"
    using assms(2) by (auto simp: retire_signed_prekey_def split: option.splits)
  then show ?thesis
  proof cases
    case (2 k)
    have "distinct (map ?k (remove_at k ?old))"
      using assms(1) by (intro distinct_map_remove_at) (simp add: material_ok_def signed_entries_def)
    then show ?thesis
      using assms(1) shrink fresh [of k] by (simp add: 2 material_ok_def signed_entries_def)
  qed (use assms(1) in simp)
qed

section \<open>Accepting\<close>

lemma accept_error_keeps_material:
  "handshake_accept P m msg = (Inl e, m') \<Longrightarrow> m' = m"
  by (auto simp: handshake_accept_def Let_def split: sum.splits prod.splits option.splits)

lemma accept_Ok_material:
  assumes "handshake_accept P m msg = (Inr h, m')"
  shows "(ih_one_time_prekey_id msg = None \<and> m' = m) \<or>
    (\<exists>i k. ih_one_time_prekey_id msg = Some i \<and>
       position (\<lambda>entry. one_time_id entry = i) (rm_one_time_prekeys m) = Some k \<and>
       m' = m\<lparr>rm_one_time_prekeys := remove_at k (rm_one_time_prekeys m)\<rparr>)"
  using assms
  by (cases "ih_one_time_prekey_id msg")
     (auto simp: handshake_accept_def Let_def one_time_id_def res_iff
       split: sum.splits prod.splits option.splits)

text \<open>No message makes the responder panic.\<close>

lemma derive_handshake_values_no_panic [simp]: "derive_handshake_values P msg i d1 d2 d3 d4 \<noteq> Panics"
  by (auto simp: derive_handshake_values_def Let_def bind_res_Inl)

lemma accept_signed_prekey_no_panic [simp]: "accept_signed_prekey P m i \<noteq> Panics"
  by (auto simp: accept_signed_prekey_def bind_res_Inl)

lemma identity_verify_no_panic [simp]: "IdentityDhPublic_verify P i \<noteq> Panics"
  by (simp add: IdentityDhPublic_verify_def IdentityPublicKey_verify_def)

lemma accept_no_panic: "handshake_accept P m msg \<noteq> (Panics, m')"
proof -
  have at: "index_at xs i \<noteq> Panics" if "position p xs = Some i" for p i and xs :: "one_time_prekey list"
    using position_Some [OF that] by (simp add: index_at_def)
  show ?thesis
    unfolding handshake_accept_def Let_def
    by (auto simp: bind_res_Inl bind_res_Ok ok_or_Ok dest!: at split: sum.splits option.splits)
qed

lemma accept_material_ok:
  assumes "material_ok P m" "handshake_accept P m msg = (res, m')"
  shows "material_ok P m'"
proof (cases res)
  case (Inl e)
  with assms accept_error_keeps_material show ?thesis by blast
next
  case (Inr h)
  from assms Inr accept_Ok_material have "m' = m \<or>
    (\<exists>k. m' = m\<lparr>rm_one_time_prekeys := remove_at k (rm_one_time_prekeys m)\<rparr>)" by blast
  with assms(1) show ?thesis
    by (elim disjE exE)
       (auto simp: material_ok_def signed_entries_def distinct_map_remove_at dest: in_set_remove_at)
qed

text \<open>A one-time prekey is gone once it has been accepted, and no message naming it is accepted.\<close>

definition one_time_absent :: "u32 \<Rightarrow> responder_material \<Rightarrow> bool" where
  "one_time_absent i m \<longleftrightarrow> (\<forall>entry \<in> set (rm_one_time_prekeys m). one_time_id entry \<noteq> i)"

lemma accept_consumes:
  assumes "material_ok P m" "handshake_accept P m msg = (Inr h, m')" "ih_one_time_prekey_id msg = Some i"
  shows "one_time_absent i m'" "available_one_time_prekeys m = Suc (available_one_time_prekeys m')"
proof -
  obtain k where k: "position (\<lambda>entry. one_time_id entry = i) (rm_one_time_prekeys m) = Some k"
    and m': "m' = m\<lparr>rm_one_time_prekeys := remove_at k (rm_one_time_prekeys m)\<rparr>"
    using accept_Ok_material [OF assms(2)] assms(3) by auto
  have "distinct (map one_time_id (rm_one_time_prekeys m))"
    using assms(1) by (simp add: material_ok_def)
  from position_remove_at [OF this k] show "one_time_absent i m'"
    by (simp add: m' one_time_absent_def position_None)
  show "available_one_time_prekeys m = Suc (available_one_time_prekeys m')"
    using position_Some [OF k] by (auto simp: m' available_one_time_prekeys_def length_remove_at)
qed

lemma accept_absent:
  assumes "one_time_absent i m" "ih_one_time_prekey_id msg = Some i"
  shows "fst (handshake_accept P m msg) \<noteq> Inr h"
proof
  assume "fst (handshake_accept P m msg) = Inr h"
  then have "handshake_accept P m msg = (Inr h, snd (handshake_accept P m msg))"
    by (simp add: prod_eq_iff)
  from accept_Ok_material [OF this] assms(2) obtain k where
    "position (\<lambda>entry. one_time_id entry = i) (rm_one_time_prekeys m) = Some k" by auto
  then have "position (\<lambda>entry. one_time_id entry = i) (rm_one_time_prekeys m) \<noteq> None" by simp
  with assms(1) show False unfolding position_None one_time_absent_def by blast
qed

section \<open>Runs of calls on the material\<close>

datatype material_call =
    AddOneTime u32
  | RotateSigned u32 u64
  | RetireSigned u32
  | Accept initiator_handshake

fun material_step ::
    "primitives \<Rightarrow> material_call \<Rightarrow> responder_material \<times> rng \<Rightarrow> responder_material \<times> rng" where
  "material_step P (AddOneTime i) (m, r) = snd (add_one_time_prekey P i m r)"
| "material_step P (RotateSigned i t) (m, r) = snd (rotate_signed_prekey P i t m r)"
| "material_step P (RetireSigned i) (m, r) = (snd (retire_signed_prekey i m), r)"
| "material_step P (Accept msg) (m, r) = (snd (handshake_accept P m msg), r)"

interpretation material: call_machine "material_step P" "\<lambda>s. sizes_ok P \<and> material_ok P (fst s)" for P
proof
  fix s :: "responder_material \<times> rng" and c
  assume inv: "sizes_ok P \<and> material_ok P (fst s)"
  obtain m r where s: "s = (m, r)" by (cases s)
  have P: "sizes_ok P" and m: "material_ok P m" using inv by (simp_all add: s)
  have "material_ok P (fst (material_step P c (m, r)))"
  proof (cases c)
    case (AddOneTime i)
    then show ?thesis using add_one_time_prekey_ok [OF P m] by (metis material_step.simps(1) prod.collapse)
  next
    case (RotateSigned i t)
    then show ?thesis using rotate_signed_prekey_ok [OF P m] by (metis material_step.simps(2) prod.collapse)
  next
    case (RetireSigned i)
    then show ?thesis using retire_signed_prekey_ok [OF m] by (simp add: prod_eq_iff)
  next
    case (Accept msg)
    then show ?thesis using accept_material_ok [OF m] by (simp add: prod_eq_iff)
  qed
  with P show "sizes_ok P \<and> material_ok P (fst (material_step P c s))" by (simp add: s)
qed

lemma one_time_absent_remove_at:
  "one_time_absent i m \<Longrightarrow>
     one_time_absent i (m\<lparr>rm_one_time_prekeys := remove_at k (rm_one_time_prekeys m)\<rparr>)"
  using in_set_remove_at [of _ k "rm_one_time_prekeys m"] by (simp add: one_time_absent_def)

lemma one_time_absent_step:
  assumes "one_time_absent i (fst s)" "c \<noteq> AddOneTime i"
  shows "one_time_absent i (fst (material_step P c s))"
proof -
  obtain m r where s: "s = (m, r)" by (cases s)
  show ?thesis
  proof (cases c)
    case (AddOneTime j)
    with assms show ?thesis
      by (auto simp: s add_one_time_prekey_def one_time_absent_def one_time_id_def
          split: prod.split sum.split)
  next
    case (RotateSigned j t)
    with assms show ?thesis
      by (auto simp: s rotate_signed_prekey_def one_time_absent_def Let_def
          split: prod.split sum.split)
  next
    case (RetireSigned j)
    with assms show ?thesis
      by (auto simp: s retire_signed_prekey_def one_time_absent_def split: option.split)
  next
    case (Accept msg)
    have "snd (handshake_accept P m msg) = m \<or>
      (\<exists>k. snd (handshake_accept P m msg) = m\<lparr>rm_one_time_prekeys := remove_at k (rm_one_time_prekeys m)\<rparr>)"
      by (cases "handshake_accept P m msg"; cases "fst (handshake_accept P m msg)")
         (auto dest: accept_error_keeps_material accept_Ok_material)
    with assms(1) Accept show ?thesis
      using one_time_absent_remove_at [of i m] by (auto simp: s)
  qed
qed

lemma one_time_absent_run:
  "one_time_absent i (fst s) \<Longrightarrow> AddOneTime i \<notin> set cs \<Longrightarrow>
     one_time_absent i (fst (fold (material_step P) cs s))"
proof (induction cs arbitrary: s)
  case (Cons c cs)
  then have "one_time_absent i (fst (material_step P c s))" by (metis list.set_intros(1) one_time_absent_step)
  with Cons show ?case by simp
qed simp

section \<open>Agreement\<close>

text \<open>The material still holds the secret halves of what a bundle published.\<close>

definition holds_prekeys :: "primitives \<Rightarrow> responder_material \<Rightarrow> responder_bundle \<Rightarrow> bool" where
  "holds_prekeys P m b \<longleftrightarrow>
     rb_identity b = LocalIdentity_public P (rm_identity m) \<and>
     (\<exists>key. (rb_signed_prekey b, key) \<in> set (signed_entries m)) \<and>
     (\<forall>k. rb_one_time_prekey b = Some k \<longrightarrow> (\<exists>entry \<in> set (rm_one_time_prekeys m). otp_public entry = k))"

text \<open>Two results of one handshake, the initiator's and the responder's.\<close>

definition matching :: "primitives \<Rightarrow> authenticated_handshake \<Rightarrow> authenticated_handshake \<Rightarrow> bool" where
  "matching P a b \<longleftrightarrow>
     ah_session_id a = ah_session_id b \<and> ah_root_secret a = ah_root_secret b \<and>
     ah_role a = Initiator \<and> ah_role b = Responder \<and>
     key_pair_ok P (ah_local_ratchet a) \<and> key_pair_ok P (ah_local_ratchet b) \<and>
     ah_remote_ratchet a = kp_public (ah_local_ratchet b) \<and>
     ah_remote_ratchet b = kp_public (ah_local_ratchet a)"

lemma accept_signed_prekey_Ok:
  assumes "material_ok P m" "(rec, key) \<in> set (signed_entries m)"
  shows "accept_signed_prekey P m (sp_key_id rec) = Ok key"
proof (cases "sp_key_id rec = sp_key_id (rm_signed_record m)")
  case True
  with assms have "rec = rm_signed_record m \<and> key = rm_signed_prekey m"
    by (force simp: material_ok_def signed_entries_def)
  with assms(1) show ?thesis
    by (simp add: accept_signed_prekey_def material_ok_def signed_entries_def prekey_entry_ok_def)
next
  case False
  let ?old = "rm_retired_signed_prekeys m"
  from False assms(2) have mem: "(rec, key) \<in> set ?old" by (auto simp: signed_entries_def)
  have dist: "distinct (map (sp_key_id \<circ> fst) ?old)"
    using assms(1) by (simp add: material_ok_def signed_entries_def)
  have "find (\<lambda>(r, _). sp_key_id r = sp_key_id rec) xs = Some (rec, key)"
    if "(rec, key) \<in> set xs" "distinct (map (sp_key_id \<circ> fst) xs)" for xs :: "(signed_prekey \<times> dh_key_pair) list"
    using that by (induction xs) (auto simp: image_iff)
  from this [OF mem dist] have "find (\<lambda>(r, _). sp_key_id r = sp_key_id rec) ?old = Some (rec, key)" .
  moreover have "key_pair_ok P key"
    using assms(1) mem by (fastforce simp: material_ok_def signed_entries_def prekey_entry_ok_def)
  ultimately show ?thesis using False by (simp add: accept_signed_prekey_def)
qed

lemma held_signed_prekey:
  assumes "material_ok P m" "holds_prekeys P m b"
  obtains key where "accept_signed_prekey P m (sp_key_id (rb_signed_prekey b)) = Ok key"
    "key_pair_ok P key" "kp_public key = sp_public (rb_signed_prekey b)"
proof -
  obtain key where key: "(rb_signed_prekey b, key) \<in> set (signed_entries m)"
    using assms(2) by (auto simp: holds_prekeys_def)
  then have "prekey_entry_ok P (rm_identity m) (rb_signed_prekey b, key)"
    using assms(1) by (auto simp: material_ok_def)
  then have "key_pair_ok P key" "kp_public key = sp_public (rb_signed_prekey b)"
    unfolding prekey_entry_ok_def by (simp, metis fst_conv snd_conv issue_fields(2))
  with accept_signed_prekey_Ok [OF assms(1) key] show thesis by (rule that)
qed

lemma held_one_time_prekey:
  assumes "material_ok P m" "holds_prekeys P m b" "rb_one_time_prekey b = Some k"
  obtains i where "position (\<lambda>entry. one_time_id entry = otpk_id k) (rm_one_time_prekeys m) = Some i"
    "one_time_entry_ok P (rm_one_time_prekeys m ! i)" "otp_public (rm_one_time_prekeys m ! i) = k"
proof -
  obtain entry where entry: "entry \<in> set (rm_one_time_prekeys m)" "otp_public entry = k"
    using assms(2,3) by (auto simp: holds_prekeys_def)
  have "distinct (map one_time_id (rm_one_time_prekeys m))"
    using assms(1) by (simp add: material_ok_def)
  from position_of_member [OF this entry(1)] obtain i where
    "position (\<lambda>e. one_time_id e = one_time_id entry) (rm_one_time_prekeys m) = Some i"
    "rm_one_time_prekeys m ! i = entry" by blast
  with entry assms(1) show thesis
    by (intro that [of i]) (auto simp: one_time_id_def material_ok_def)
qed

lemma bundle_held: "holds_prekeys P m (ResponderPrekeyMaterial_bundle P m)"
  by (auto simp: holds_prekeys_def ResponderPrekeyMaterial_bundle_def signed_entries_def
      split: list.split)

text \<open>Both sides derive the same session from a message built on a bundle whose prekeys are held.\<close>

lemma initiate_Ok:
  assumes "handshake_initiate P li b now r = (Inr (msg, a), r')"
  obtains eph rat dh1 dh2 dh3 dh4 where
    "ResponderPrekeyBundle_verify P b now = Ok ()"
    "DhKeyPair_generate P r = (Ok eph, Suc r)" "DhKeyPair_generate P (Suc r) = (Ok rat, r')"
    "DhKeyPair_diffie_hellman P (li_dh li) (sp_public (rb_signed_prekey b)) = Ok dh1"
    "DhKeyPair_diffie_hellman P eph (id_dh (rb_identity b)) = Ok dh2"
    "DhKeyPair_diffie_hellman P eph (sp_public (rb_signed_prekey b)) = Ok dh3"
    "(case rb_one_time_prekey b of
        Some k \<Rightarrow> bind_res (DhKeyPair_diffie_hellman P eph (otpk_public k)) (\<lambda>v. Ok (Some v))
      | None \<Rightarrow> Ok None) = Ok dh4"
    "derive_handshake_values P msg (rb_identity b) dh1 dh2 dh3 dh4 =
       Ok (ah_session_id a, ah_root_secret a)"
    "msg = \<lparr>ih_initiator_identity = LocalIdentity_public P li,
       ih_initiator_ephemeral = kp_public eph, ih_initiator_ratchet = kp_public rat,
       ih_signed_prekey_id = sp_key_id (rb_signed_prekey b),
       ih_one_time_prekey_id = map_option otpk_id (rb_one_time_prekey b)\<rparr>"
    "ah_role a = Initiator" "ah_local_ratchet a = rat"
    "ah_remote_ratchet a = sp_public (rb_signed_prekey b)"
proof -
  from assms obtain eph r1 rat where
    v: "ResponderPrekeyBundle_verify P b now = Ok ()" and
    e: "DhKeyPair_generate P r = (Ok eph, r1)" and t: "DhKeyPair_generate P r1 = (Ok rat, r')" and
    rest: "bind_res (DhKeyPair_diffie_hellman P (li_dh li) (sp_public (rb_signed_prekey b))) (\<lambda>dh1.
      bind_res (DhKeyPair_diffie_hellman P eph (id_dh (rb_identity b))) (\<lambda>dh2.
      bind_res (DhKeyPair_diffie_hellman P eph (sp_public (rb_signed_prekey b))) (\<lambda>dh3.
      bind_res
        (case rb_one_time_prekey b of
           Some k \<Rightarrow> bind_res (DhKeyPair_diffie_hellman P eph (otpk_public k)) (\<lambda>v. Ok (Some v))
         | None \<Rightarrow> Ok None) (\<lambda>dh4.
      let msg = \<lparr>ih_initiator_identity = LocalIdentity_public P li,
         ih_initiator_ephemeral = kp_public eph, ih_initiator_ratchet = kp_public rat,
         ih_signed_prekey_id = sp_key_id (rb_signed_prekey b),
         ih_one_time_prekey_id = map_option otpk_id (rb_one_time_prekey b)\<rparr> in
      bind_res (derive_handshake_values P msg (rb_identity b) dh1 dh2 dh3 dh4)
        (\<lambda>(session_id, root_secret). Ok (msg,
          \<lparr>ah_session_id = session_id, ah_root_secret = root_secret, ah_role = Initiator,
           ah_local_ratchet = rat, ah_remote_ratchet = sp_public (rb_signed_prekey b)\<rparr>)))))) = Ok (msg, a)"
    unfolding handshake_initiate_def io_bind_Ok io_lift_def by (clarsimp split del: option.split)
  have "r1 = Suc r" using e by (auto simp: res_iff)
  with v e t rest show thesis
    by (auto simp: bind_res_Ok Let_def split: prod.splits split del: option.splits intro!: that)
qed

lemma initiate_message_ok:
  assumes P: "sizes_ok P" "ed25519_ok P" and li: "local_identity_ok P li"
    and init: "handshake_initiate P li b now r = (Inr (msg, a), r')"
  shows "message_ok P msg"
proof -
  obtain eph rat where e: "DhKeyPair_generate P r = (Ok eph, Suc r)"
    and t: "DhKeyPair_generate P (Suc r) = (Ok rat, r')"
    and m: "ih_initiator_identity msg = LocalIdentity_public P li"
      "ih_initiator_ephemeral msg = kp_public eph" "ih_initiator_ratchet msg = kp_public rat"
    using initiate_Ok [OF init] by (metis initiator_handshake.select_convs(1-3))
  show ?thesis
    using local_identity_public_ok [OF P li] DhKeyPair_generate_pair_ok [OF P(1) e]
      DhKeyPair_generate_pair_ok [OF P(1) t] P(1)
    by (simp add: message_ok_def m)
qed

lemma accept_agrees:
  assumes P: "sizes_ok P" "x25519_ok P" "ed25519_ok P"
    and li: "local_identity_ok P li" and m: "material_ok P m" and held: "holds_prekeys P m b"
    and init: "handshake_initiate P li b now r = (Inr (msg, a), r')"
  shows "\<exists>h m'. handshake_accept P m msg = (Inr h, m') \<and> matching P a h"
proof -
  obtain eph rat dh1 dh2 dh3 dh4 where
    "ResponderPrekeyBundle_verify P b now = Ok ()" and
    e: "DhKeyPair_generate P r = (Ok eph, Suc r)" and t: "DhKeyPair_generate P (Suc r) = (Ok rat, r')" and
    d1: "DhKeyPair_diffie_hellman P (li_dh li) (sp_public (rb_signed_prekey b)) = Ok dh1" and
    d2: "DhKeyPair_diffie_hellman P eph (id_dh (rb_identity b)) = Ok dh2" and
    d3: "DhKeyPair_diffie_hellman P eph (sp_public (rb_signed_prekey b)) = Ok dh3" and
    d4: "(case rb_one_time_prekey b of
        Some k \<Rightarrow> bind_res (DhKeyPair_diffie_hellman P eph (otpk_public k)) (\<lambda>v. Ok (Some v))
      | None \<Rightarrow> Ok None) = Ok dh4" and
    v: "derive_handshake_values P msg (rb_identity b) dh1 dh2 dh3 dh4 =
       Ok (ah_session_id a, ah_root_secret a)" and
    msg: "msg = \<lparr>ih_initiator_identity = LocalIdentity_public P li,
       ih_initiator_ephemeral = kp_public eph, ih_initiator_ratchet = kp_public rat,
       ih_signed_prekey_id = sp_key_id (rb_signed_prekey b),
       ih_one_time_prekey_id = map_option otpk_id (rb_one_time_prekey b)\<rparr>" and
    a: "ah_role a = Initiator" "ah_local_ratchet a = rat"
      "ah_remote_ratchet a = sp_public (rb_signed_prekey b)"
    by (rule initiate_Ok [OF init])
  have eph: "key_pair_ok P eph" and rat: "key_pair_ok P rat"
    using DhKeyPair_generate_pair_ok [OF P(1)] e t by blast+
  have ident: "key_pair_ok P (li_dh li)" "key_pair_ok P (li_dh (rm_identity m))"
    using li m by (simp_all add: local_identity_ok_def material_ok_def)
  obtain key where key: "accept_signed_prekey P m (sp_key_id (rb_signed_prekey b)) = Ok key"
    "key_pair_ok P key" "kp_public key = sp_public (rb_signed_prekey b)"
    using held_signed_prekey [OF m held] by blast
  have rid: "rb_identity b = LocalIdentity_public P (rm_identity m)"
    using held by (simp add: holds_prekeys_def)
  note agree = diffie_hellman_agrees [OF P(2)]
  have dh: "DhKeyPair_diffie_hellman P key (kp_public (li_dh li)) = Ok dh1"
    "DhKeyPair_diffie_hellman P (li_dh (rm_identity m)) (kp_public eph) = Ok dh2"
    "DhKeyPair_diffie_hellman P key (kp_public eph) = Ok dh3"
    using d1 d2 d3 agree [OF key(2) ident(1)] agree [OF ident(2) eph] agree [OF key(2) eph] key(3) rid
    by (simp_all add: LocalIdentity_public_def Let_def)
  have idv: "IdentityDhPublic_verify P (LocalIdentity_public P li) = Ok ()"
    using local_identity_public_ok [OF P(1,3) li] by (simp add: identity_ok_def)
  have iddh: "id_dh (LocalIdentity_public P li) = kp_public (li_dh li)"
    by (simp add: LocalIdentity_public_def Let_def)
  note v' = v [unfolded msg]
  show ?thesis
  proof (cases "rb_one_time_prekey b")
    case None
    with d4 have "dh4 = None" by simp
    with None v' rid key dh idv a rat show ?thesis
      by (simp add: handshake_accept_def msg iddh matching_def Let_def)
  next
    case (Some k)
    then obtain i where i: "position (\<lambda>entry. one_time_id entry = otpk_id k) (rm_one_time_prekeys m) = Some i"
      and entry: "one_time_entry_ok P (rm_one_time_prekeys m ! i)"
        "otp_public (rm_one_time_prekeys m ! i) = k"
      by (rule held_one_time_prekey [OF m held])
    have "i < length (rm_one_time_prekeys m)" using position_Some [OF i] by simp
    moreover obtain w where "dh4 = Some w" "DhKeyPair_diffie_hellman P eph (otpk_public k) = Ok w"
      using d4 Some by (auto simp: bind_res_Ok)
    moreover have "key_pair_ok P (otp_key (rm_one_time_prekeys m ! i))"
      "otpk_public k = kp_public (otp_key (rm_one_time_prekeys m ! i))"
      using entry by (simp_all add: one_time_entry_ok_def)
    ultimately show ?thesis
      using Some v' rid key dh idv a rat agree [OF _ eph] i
      by (simp add: handshake_accept_def msg iddh matching_def one_time_id_def Let_def)
  qed
qed

text \<open>A bundle stays usable while other prekeys come and go.\<close>

definition keeps_prekeys :: "responder_bundle \<Rightarrow> material_call \<Rightarrow> bool" where
  "keeps_prekeys b c \<longleftrightarrow>
     (case c of
        AddOneTime i \<Rightarrow> True
      | RotateSigned i t \<Rightarrow> True
      | RetireSigned i \<Rightarrow> i \<noteq> sp_key_id (rb_signed_prekey b)
      | Accept msg \<Rightarrow> rb_one_time_prekey b = None \<or>
          ih_one_time_prekey_id msg \<noteq> map_option otpk_id (rb_one_time_prekey b))"

lemma keeps_prekeys_step:
  assumes m: "material_ok P (fst s)" and held: "holds_prekeys P (fst s) b" and c: "keeps_prekeys b c"
  shows "holds_prekeys P (fst (material_step P c s)) b"
proof -
  obtain m r where s: "s = (m, r)" by (cases s)
  let ?old = "rm_retired_signed_prekeys m" and ?otp = "rm_one_time_prekeys m"
  show ?thesis
  proof (cases c)
    case (AddOneTime i)
    then show ?thesis
      using held by (auto simp: s add_one_time_prekey_def holds_prekeys_def signed_entries_def
          split: prod.split sum.split)
  next
    case (RotateSigned i t)
    then show ?thesis
      using held m
      by (auto simp: s rotate_signed_prekey_def holds_prekeys_def signed_entries_def Let_def
          material_ok_def prekey_entry_ok_def split: prod.split sum.split)
  next
    case (RetireSigned i)
    have "(rb_signed_prekey b, key) \<in> set (remove_at k ?old)"
      if "(rb_signed_prekey b, key) \<in> set ?old"
        "position (\<lambda>(record, _). sp_key_id record = i) ?old = Some k" for key k
    proof (rule remains_remove_at [OF that(1)])
      show "(rb_signed_prekey b, key) \<noteq> ?old ! k"
        using position_Some [OF that(2)] c RetireSigned by (auto simp: keeps_prekeys_def split: prod.splits)
    qed
    with RetireSigned held show ?thesis
      by (fastforce simp: s retire_signed_prekey_def holds_prekeys_def signed_entries_def
          split: option.split)
  next
    case (Accept msg)
    show ?thesis
    proof (cases "fst (handshake_accept P m msg)")
      case (Inl e)
      with accept_error_keeps_material [of P m msg e] have "snd (handshake_accept P m msg) = m"
        by (simp add: prod_eq_iff)
      with Accept held show ?thesis by (simp add: s)
    next
      case (Inr h)
      then have h: "handshake_accept P m msg = (Inr h, snd (handshake_accept P m msg))"
        by (simp add: prod_eq_iff)
      have left: "\<exists>entry \<in> set (remove_at k ?otp). otp_public entry = otp"
        if otp: "rb_one_time_prekey b = Some otp" "ih_one_time_prekey_id msg = Some i"
          and k: "position (\<lambda>entry. one_time_id entry = i) ?otp = Some k" for otp i k
      proof -
        obtain entry where entry: "entry \<in> set ?otp" "otp_public entry = otp"
          using held otp(1) by (auto simp: s holds_prekeys_def)
        have "entry \<noteq> ?otp ! k"
          using position_Some [OF k] c Accept otp entry(2)
          by (auto simp: keeps_prekeys_def one_time_id_def)
        from remains_remove_at [OF entry(1) this] entry(2) show ?thesis by (rule bexI [rotated])
      qed
      from accept_Ok_material [OF h] consider "snd (handshake_accept P m msg) = m"
        | i k where "ih_one_time_prekey_id msg = Some i"
          "position (\<lambda>entry. one_time_id entry = i) ?otp = Some k"
          "snd (handshake_accept P m msg) = m\<lparr>rm_one_time_prekeys := remove_at k ?otp\<rparr>" by blast
      then show ?thesis
      proof cases
        case (2 i k)
        from left [OF _ this(1,2)] held show ?thesis
          by (simp add: s Accept 2(3) holds_prekeys_def signed_entries_def)
      qed (use held in \<open>simp add: s Accept\<close>)
    qed
  qed
qed

lemma keeps_prekeys_run:
  assumes "sizes_ok P" "material_ok P (fst s)" "holds_prekeys P (fst s) b" "\<forall>c \<in> set cs. keeps_prekeys b c"
  shows "holds_prekeys P (fst (fold (material_step P) cs s)) b"
  using assms
proof (induction cs arbitrary: s)
  case (Cons c cs)
  have "material_ok P (fst (material_step P c s))"
    using material.inv_step [of P s c] Cons.prems by simp
  moreover have "holds_prekeys P (fst (material_step P c s)) b"
    using keeps_prekeys_step Cons.prems by simp
  ultimately show ?case using Cons by simp
qed simp

text \<open>A published bundle is a valid value of its wire format, and verifies until its prekey expires.\<close>

lemma current_prekey:
  assumes "material_ok P m"
  shows "key_pair_ok P (rm_signed_prekey m)" "identity_pair_ok P (li_signing (rm_identity m))"
    "rm_signed_record m = SignedPrekey_issue P (li_signing (rm_identity m)) (sp_key_id (rm_signed_record m))
      (kp_public (rm_signed_prekey m)) (sp_expires_at_unix (rm_signed_record m))"
proof -
  have "prekey_entry_ok P (rm_identity m) (rm_signed_record m, rm_signed_prekey m)"
    using assms by (simp add: material_ok_def signed_entries_def)
  then show "key_pair_ok P (rm_signed_prekey m)" "rm_signed_record m =
      SignedPrekey_issue P (li_signing (rm_identity m)) (sp_key_id (rm_signed_record m))
      (kp_public (rm_signed_prekey m)) (sp_expires_at_unix (rm_signed_record m))"
    unfolding prekey_entry_ok_def by simp_all
  show "identity_pair_ok P (li_signing (rm_identity m))"
    using assms by (simp add: material_ok_def local_identity_ok_def)
qed

lemma published_bundle_ok:
  assumes P: "sizes_ok P" "ed25519_ok P" and m: "material_ok P m"
  shows "bundle_ok P (ResponderPrekeyMaterial_bundle P m)"
proof -
  have "signed_prekey_ok (rm_signed_record m)"
    by (subst current_prekey(3) [OF m], rule issue_ok [OF P(1) key_pair_public_length [OF P(1) current_prekey(1) [OF m]]])
  moreover have "length (dh_public_bytes (otpk_public (otp_public e))) = 32" if "e \<in> set (rm_one_time_prekeys m)" for e
    using m that P(1) by (auto simp: material_ok_def one_time_entry_ok_def)
  moreover have "local_identity_ok P (rm_identity m)" using m by (simp add: material_ok_def)
  ultimately show ?thesis
    using local_identity_public_ok [OF P] by (auto simp: bundle_ok_def ResponderPrekeyMaterial_bundle_def split: list.split)
qed

lemma published_bundle_verifies:
  assumes P: "sizes_ok P" "ed25519_ok P" and m: "material_ok P m"
  shows "ResponderPrekeyBundle_verify P (ResponderPrekeyMaterial_bundle P m) now =
    (if now \<le> sp_expires_at_unix (rm_signed_record m) then Ok () else Err AuthenticationFailed)"
proof -
  have li: "local_identity_ok P (rm_identity m)" using m by (simp add: material_ok_def)
  have "SignedPrekey_verify P (rm_signed_record m) (ik_public (li_signing (rm_identity m))) now =
      (if now \<le> sp_expires_at_unix (rm_signed_record m) then Ok () else Err AuthenticationFailed)"
    by (subst current_prekey(3) [OF m], rule issued_prekey_verifies [OF P(2) current_prekey(2) [OF m]])
  moreover have "IdentityDhPublic_verify P (LocalIdentity_public P (rm_identity m)) = Ok ()"
    by (rule identity_ok_lengths(4) [OF local_identity_public_ok [OF P li]])
  moreover have "id_signing (LocalIdentity_public P (rm_identity m)) = ik_public (li_signing (rm_identity m))"
    by (simp add: LocalIdentity_public_def Let_def)
  ultimately show ?thesis
    by (simp add: ResponderPrekeyBundle_verify_def ResponderPrekeyMaterial_bundle_def bind_res_def)
qed

text \<open>Mixing the same post-quantum secret into both results keeps them matching.\<close>

lemma mix_matching:
  assumes "matching P a b" "mix_ml_kem768 P a z = Inr a'"
  shows "\<exists>b'. mix_ml_kem768 P b z = Inr b' \<and> matching P a' b'"
  using assms by (auto simp: mix_ml_kem768_def matching_def res_iff Let_def)

lemma matching_lengths:
  assumes "sizes_ok P" "handshake_initiate P li b now r = (Inr (msg, a), r')"
  shows "length (ah_session_id a) = 32" "length (secret_bytes (ah_root_secret a)) = 32"
proof -
  obtain dh1 dh2 dh3 dh4 where v: "derive_handshake_values P msg (rb_identity b) dh1 dh2 dh3 dh4 =
       Ok (ah_session_id a, ah_root_secret a)"
    by (rule initiate_Ok [OF assms(2)])
  show "length (ah_session_id a) = 32"
    using v assms(1) by (auto simp: derive_handshake_values_def Let_def bind_res_Ok dest: blake3_id_length)
  show "length (secret_bytes (ah_root_secret a)) = 32"
    using v assms(1) by (auto simp: derive_handshake_values_def Let_def bind_res_Ok dest: derive_secret_length)
qed

lemma generated_expiry:
  "ResponderPrekeyMaterial_generate P i t r = (Inr m, r') \<Longrightarrow> sp_expires_at_unix (rm_signed_record m) = t"
  by (auto simp: ResponderPrekeyMaterial_generate_def res_iff io_lift_def)

section \<open>Honest parties never fail\<close>

lemma honest_exchange:
  assumes "x25519_live P" "key_pair_ok P a" "key_pair_ok P b"
  obtains z where "DhKeyPair_diffie_hellman P a (kp_public b) = Ok z"
  using assms by (auto simp: x25519_live_def key_pair_ok_def DhSecretKey_public_key_def diffie_hellman_Ok)

lemma derive_handshake_values_total:
  assumes P: "sizes_ok P" "hkdf_total P" and msg: "message_ok P msg" and i: "identity_ok P i"
    and d: "length d1 = 32" "length d2 = 32" "length d3 = 32" "\<And>v. d4 = Some v \<Longrightarrow> length v = 32"
  shows "\<exists>sid root. derive_handshake_values P msg i d1 d2 d3 d4 = Ok (sid, root)"
proof -
  have "length (InitiatorHandshake_encode msg) \<le> MAX_CIPHERTEXT_LEN" "length (identity_public_wire i) \<le> MAX_CIPHERTEXT_LEN"
    using length_message_encode [OF msg] identity_ok_lengths [OF i]
    by (simp_all add: identity_public_wire_def MAX_CIPHERTEXT_LEN_def)
  then obtain sid where sid: "blake3_id P SESSION_LABEL [InitiatorHandshake_encode msg, identity_public_wire i] = Ok sid"
    using blake3_id_total [of SESSION_LABEL "[InitiatorHandshake_encode msg, identity_public_wire i]" P]
    by (auto simp: SESSION_LABEL_def ascii_def)
  have "length (d1 @ d2 @ d3 @ (case d4 of Some v \<Rightarrow> v | None \<Rightarrow> [])) \<le> MAX_CIPHERTEXT_LEN"
    using d by (auto simp: MAX_CIPHERTEXT_LEN_def split: option.split)
  moreover have "HANDSHAKE_ROOT_LABEL \<noteq> []" "length HANDSHAKE_ROOT_LABEL \<le> 255"
    by (simp_all add: HANDSHAKE_ROOT_LABEL_def ascii_def)
  ultimately obtain root where "derive_secret P sid HANDSHAKE_ROOT_LABEL
      (d1 @ d2 @ d3 @ (case d4 of Some v \<Rightarrow> v | None \<Rightarrow> [])) = Ok root"
    using derive_secret_total [OF P(2)] by blast
  with sid show ?thesis by (simp add: derive_handshake_values_def)
qed

lemma DhKeyPair_generate_total:
  assumes "sizes_ok P" "rng_total P"
  obtains kp where "DhKeyPair_generate P r = (Ok kp, Suc r)" "key_pair_ok P kp"
proof -
  obtain bs where "sys_rng P r 32 = Some bs" using assms(2) by (auto simp: rng_total_def)
  then show thesis
    using that [of "DhKeyPair_from_secret P (DhSecretKey bs)"] sizes_okD(1) [OF assms(1)]
    by (simp add: DhKeyPair_generate_Ok)
qed

lemma initiate_runs:
  assumes P: "sizes_ok P" "ed25519_ok P" "x25519_live P" "hkdf_total P"
    and e: "DhKeyPair_generate P r = (Ok eph, Suc r)" "key_pair_ok P eph"
    and t: "DhKeyPair_generate P (Suc r) = (Ok rat, Suc (Suc r))" "key_pair_ok P rat"
    and li: "local_identity_ok P li" and m: "material_ok P m" and held: "holds_prekeys P m b"
    and fresh: "ResponderPrekeyBundle_verify P b now = Ok ()"
  shows "\<exists>msg a. handshake_initiate P li b now r = (Ok (msg, a), Suc (Suc r))"
proof -
  obtain key where key: "key_pair_ok P key" "kp_public key = sp_public (rb_signed_prekey b)"
    using held_signed_prekey [OF m held] by blast
  have rid: "rb_identity b = LocalIdentity_public P (rm_identity m)" using held by (simp add: holds_prekeys_def)
  have li': "local_identity_ok P (rm_identity m)" using m by (simp add: material_ok_def)
  then have dh: "key_pair_ok P (li_dh (rm_identity m))" "id_dh (rb_identity b) = kp_public (li_dh (rm_identity m))"
    by (simp_all add: local_identity_ok_def rid LocalIdentity_public_def Let_def)
  have own: "key_pair_ok P (li_dh li)" using li by (simp add: local_identity_ok_def)
  obtain z1 where z1: "DhKeyPair_diffie_hellman P (li_dh li) (sp_public (rb_signed_prekey b)) = Ok z1"
    by (rule honest_exchange [OF P(3) own key(1), unfolded key(2)])
  obtain z2 where z2: "DhKeyPair_diffie_hellman P eph (id_dh (rb_identity b)) = Ok z2"
    by (rule honest_exchange [OF P(3) e(2) dh(1), folded dh(2)])
  obtain z3 where z3: "DhKeyPair_diffie_hellman P eph (sp_public (rb_signed_prekey b)) = Ok z3"
    by (rule honest_exchange [OF P(3) e(2) key(1), unfolded key(2)])
  let ?dh4 = "case rb_one_time_prekey b of
      Some k \<Rightarrow> bind_res (DhKeyPair_diffie_hellman P eph (otpk_public k)) (\<lambda>v. Ok (Some v)) | None \<Rightarrow> Ok None"
  obtain z4 where z4: "?dh4 = Ok z4" "\<And>v. z4 = Some v \<Longrightarrow> length v = 32"
  proof (cases "rb_one_time_prekey b")
    case (Some k)
    obtain i where "one_time_entry_ok P (rm_one_time_prekeys m ! i)" "otp_public (rm_one_time_prekeys m ! i) = k"
      using held_one_time_prekey [OF m held Some] by blast
    then obtain other where "key_pair_ok P other" "otpk_public k = kp_public other"
      by (auto simp: one_time_entry_ok_def)
    with honest_exchange [OF P(3) e(2)] obtain z where z: "DhKeyPair_diffie_hellman P eph (otpk_public k) = Ok z"
      by metis
    show thesis using z Some diffie_hellman_length [OF P(1) z] by (intro that [of "Some z"]) simp_all
  qed (use that in simp)
  let ?msg = "\<lparr>ih_initiator_identity = LocalIdentity_public P li, ih_initiator_ephemeral = kp_public eph,
      ih_initiator_ratchet = kp_public rat, ih_signed_prekey_id = sp_key_id (rb_signed_prekey b),
      ih_one_time_prekey_id = map_option otpk_id (rb_one_time_prekey b)\<rparr>"
  have "message_ok P ?msg"
    using local_identity_public_ok [OF P(1,2) li] e(2) t(2) P(1) by (simp add: message_ok_def)
  moreover have "identity_ok P (rb_identity b)"
    using local_identity_public_ok [OF P(1,2) li'] by (simp add: rid)
  ultimately obtain sid root where "derive_handshake_values P ?msg (rb_identity b) z1 z2 z3 z4 = Ok (sid, root)"
    using derive_handshake_values_total [OF P(1,4), of ?msg "rb_identity b" z1 z2 z3 z4] z4(2)
      diffie_hellman_length [OF P(1) z1] diffie_hellman_length [OF P(1) z2] diffie_hellman_length [OF P(1) z3]
    by blast
  with fresh e t z1 z2 z3 z4 show ?thesis by (simp add: handshake_initiate_def)
qed

lemma initiate_total:
  assumes P: "sizes_ok P" "ed25519_ok P" "x25519_live P" "hkdf_total P" "rng_total P"
    and rest: "local_identity_ok P li" "material_ok P m" "holds_prekeys P m b"
      "ResponderPrekeyBundle_verify P b now = Ok ()"
  shows "\<exists>msg a. handshake_initiate P li b now r = (Ok (msg, a), Suc (Suc r))"
proof -
  obtain eph where e: "DhKeyPair_generate P r = (Ok eph, Suc r)" "key_pair_ok P eph"
    by (rule DhKeyPair_generate_total [OF P(1,5)])
  obtain rat where t: "DhKeyPair_generate P (Suc r) = (Ok rat, Suc (Suc r))" "key_pair_ok P rat"
    by (rule DhKeyPair_generate_total [OF P(1,5)])
  show ?thesis by (rule initiate_runs [OF P(1-4) e t rest])
qed

section \<open>What a session identifier determines\<close>

lemma identity_wire_inj:
  assumes "identity_ok P i" "identity_ok P j" "identity_public_wire i = identity_public_wire j"
  shows "i = j"
proof -
  have "identity_public_bytes (id_signing i) = identity_public_bytes (id_signing j) \<and>
      dh_public_bytes (id_dh i) = dh_public_bytes (id_dh j) \<and> id_signature i = id_signature j"
    using assms by (auto simp: identity_public_wire_def identity_ok_def)
  then show ?thesis
    by (metis identity_eta identity_public.expand dh_public.expand)
qed

text \<open>The bytes a session identifier is the hash of.\<close>

definition session_transcript :: "initiator_handshake \<Rightarrow> identity_dh_public \<Rightarrow> bytes" where
  "session_transcript msg i = blake3_transcript SESSION_LABEL [InitiatorHandshake_encode msg, identity_public_wire i]"

lemma session_id_hash:
  assumes "derive_handshake_values P msg i d1 d2 d3 d4 = Ok (sid, s)"
  shows "sid = blake3 P (session_transcript msg i)"
  using assms by (auto simp: derive_handshake_values_def Let_def bind_res_Ok blake3_id_Ok session_transcript_def)

lemma session_transcript_inj:
  assumes msg: "message_ok P msg" "message_ok P msg'" and i: "identity_ok P i" "identity_ok P i'"
  shows "session_transcript msg i = session_transcript msg' i' \<longleftrightarrow> msg = msg' \<and> i = i'"
proof -
  have "length (InitiatorHandshake_encode msg) = 205" "length (InitiatorHandshake_encode msg') = 205"
    "length (identity_public_wire i) = 128" "length (identity_public_wire i') = 128"
    using length_message_encode msg identity_ok_lengths [OF i(1)] identity_ok_lengths [OF i(2)]
    by (simp_all add: identity_public_wire_def)
  then have "session_transcript msg i = session_transcript msg' i' \<longleftrightarrow>
      InitiatorHandshake_encode msg = InitiatorHandshake_encode msg' \<and> identity_public_wire i = identity_public_wire i'"
    by (simp add: session_transcript_def blake3_transcript_def)
  then show ?thesis
    using identity_wire_inj [OF i] message_decode_encode [OF msg(1)] message_decode_encode [OF msg(2)]
    by (metis sum.inject(2))
qed

lemma accept_lengths:
  assumes P: "sizes_ok P" and run: "handshake_accept P m msg = (Inr h, m')"
  shows "length (ah_session_id h) = 32" "length (secret_bytes (ah_root_secret h)) = 32"
    "\<exists>d1 d2 d3 d4. derive_handshake_values P msg (LocalIdentity_public P (rm_identity m)) d1 d2 d3 d4 =
      Ok (ah_session_id h, ah_root_secret h)"
proof -
  show vals: "\<exists>d1 d2 d3 d4. derive_handshake_values P msg (LocalIdentity_public P (rm_identity m)) d1 d2 d3 d4 =
      Ok (ah_session_id h, ah_root_secret h)"
    using run by (fastforce simp: handshake_accept_def Let_def bind_res_Ok split: sum.splits prod.splits option.splits)
  then show "length (ah_session_id h) = 32" "length (secret_bytes (ah_root_secret h)) = 32"
    using P by (auto simp: derive_handshake_values_def Let_def bind_res_Ok dest: blake3_id_length derive_secret_length)
qed

end
