(* ===== verification/Mef_Conversation.thy ===== *)
theory Mef_Conversation
  imports Mef_Window Mef_Agreement
begin

text \<open>
  Two ratchets in conversation: they start linked from matching handshake results, a rotation or a
  Diffie-Hellman step puts one of them ahead, and the first frame of the new chain moves the other
  one past it. Then the calls after which the two sides no longer understand each other.
\<close>

section \<open>Linked states\<close>

definition live_link :: "primitives \<Rightarrow> secret \<Rightarrow> ratchet_state \<Rightarrow> ratchet_state \<Rightarrow> bool" where
  "live_link P c a b \<longleftrightarrow> chain_link P c a b \<and> rs_receiving_count b \<le> rs_sending_count a"

definition synced :: "primitives \<Rightarrow> ratchet_state \<Rightarrow> ratchet_state \<Rightarrow> bool" where
  "synced P a b \<longleftrightarrow>
     ratchet_ok P a \<and> ratchet_ok P b \<and> rs_root_key a = rs_root_key b \<and>
     (\<exists>c. live_link P c a b) \<and> (\<exists>c. live_link P c b a)"

text \<open>A ratchet key the other side neither uses nor keeps skipped keys for.\<close>

definition fresh_for :: "dh_public \<Rightarrow> ratchet_state \<Rightarrow> bool" where
  "fresh_for pk st \<longleftrightarrow> pk \<noteq> rs_remote_dh st \<and> pk \<notin> sk_remote_dh ` set (rs_skipped st)"

text \<open>\<open>a\<close> has a sending chain \<open>c\<close> under a ratchet key \<open>b\<close> has not seen; \<open>b\<close>'s own chain still runs.\<close>

definition ahead :: "primitives \<Rightarrow> secret \<Rightarrow> ratchet_state \<Rightarrow> ratchet_state \<Rightarrow> bool" where
  "ahead P c a b \<longleftrightarrow>
     ratchet_ok P a \<and> ratchet_ok P b \<and>
     rs_session_id a = rs_session_id b \<and> rs_suite a = rs_suite b \<and>
     fresh_for (kp_public (rs_dh_pair a)) b \<and>
     (\<exists>z. DhKeyPair_diffie_hellman P (rs_dh_pair a) (kp_public (rs_dh_pair b)) = Ok z \<and>
        root_step P (rs_root_key b) z = Ok (rs_root_key a, c)) \<and>
     rs_sending_chain a = chain_at P c (unat (rs_sending_count a)) \<and>
     rs_receiving_count b \<le> rs_previous_sending_chain_len a \<and>
     (\<exists>c'. live_link P c' b a)"

lemma follows_fresh:
  assumes "rs_skipped st = []" "rs_receiving_chain st = c" "rs_receiving_count st = 0"
  shows "follows P c st"
  using assms by (simp add: follows_def own_entries_def MAX_SKIPPED_KEYS_def)

text \<open>Matching handshake results give linked ratchets.\<close>

lemma matching_synced:
  assumes P: "sizes_ok P" "hkdf_total P" and m: "matching P ha hb"
    and len: "length (ah_session_id ha) = 32" "length (secret_bytes (ah_root_secret ha)) = 32"
  shows "\<exists>a b. from_authenticated_handshake_with_suite P ha s = Ok a \<and>
    from_authenticated_handshake_with_suite P hb s = Ok b \<and> synced P a b"
proof -
  have lab: "INIT_A_TO_B_LABEL \<noteq> []" "length INIT_A_TO_B_LABEL \<le> 255"
    "INIT_B_TO_A_LABEL \<noteq> []" "length INIT_B_TO_A_LABEL \<le> 255"
    by (simp_all add: INIT_A_TO_B_LABEL_def INIT_B_TO_A_LABEL_def ascii_def)
  have small: "length (ah_session_id ha) \<le> MAX_CIPHERTEXT_LEN" using len(1) by (simp add: MAX_CIPHERTEXT_LEN_def)
  obtain ab ba where ab: "derive_secret P (secret_bytes (ah_root_secret ha)) INIT_A_TO_B_LABEL (ah_session_id ha) = Ok ab"
    and ba: "derive_secret P (secret_bytes (ah_root_secret ha)) INIT_B_TO_A_LABEL (ah_session_id ha) = Ok ba"
    using derive_secret_total [OF P(2) lab(1,2) small] derive_secret_total [OF P(2) lab(3,4) small] by metis
  have eq: "ah_session_id hb = ah_session_id ha" "ah_root_secret hb = ah_root_secret ha"
    "ah_role ha = Initiator" "ah_role hb = Responder"
    "key_pair_ok P (ah_local_ratchet ha)" "key_pair_ok P (ah_local_ratchet hb)"
    "ah_remote_ratchet ha = kp_public (ah_local_ratchet hb)"
    "ah_remote_ratchet hb = kp_public (ah_local_ratchet ha)"
    using m by (simp_all add: matching_def)
  obtain a where a: "from_authenticated_handshake_with_suite P ha s = Ok a"
    and ca: "rs_sending_chain a = ab" "rs_receiving_chain a = ba"
    using ab ba eq by (simp add: from_authenticated_handshake_with_suite_def)
  obtain b where b: "from_authenticated_handshake_with_suite P hb s = Ok b"
    and cb: "rs_sending_chain b = ba" "rs_receiving_chain b = ab"
    using ab ba eq by (simp add: from_authenticated_handshake_with_suite_def)
  note fa = from_handshake_Ok [OF a] and fb = from_handshake_Ok [OF b]
  have "ratchet_ok P a" "ratchet_ok P b"
    using from_handshake_ok [OF P(1) a] from_handshake_ok [OF P(1) b] len eq P(1) by simp_all
  moreover have "live_link P ab a b" "live_link P ba b a"
    using follows_fresh [OF fb(10) cb(2) fb(7)] follows_fresh [OF fa(10) ca(2) fa(7)] ca cb eq
    by (simp_all add: live_link_def chain_link_def fa fb)
  ultimately show ?thesis
    using a b by (auto simp: synced_def fa fb eq)
qed

section \<open>Getting ahead\<close>

lemma rotate_ahead:
  assumes P: "sizes_ok P" and s: "synced P a b"
    and run: "rotate_sending_ratchet P a r = (Inr (), a', r')"
    and fresh: "fresh_for (kp_public (rs_dh_pair a')) b"
  shows "\<exists>c. ahead P c a' b"
  using run
proof (cases rule: rotate_cases)
  case (rotated kp z root chain)
  from s obtain c c' where link: "live_link P c a b" "live_link P c' b a"
    and root: "rs_root_key a = rs_root_key b" and ok: "ratchet_ok P a" "ratchet_ok P b"
    by (auto simp: synced_def)
  have a': "rs_session_id a' = rs_session_id a" "rs_suite a' = rs_suite a" "rs_dh_pair a' = kp"
    "rs_root_key a' = root" "rs_sending_chain a' = chain" "rs_sending_count a' = 0"
    "rs_previous_sending_chain_len a' = rs_sending_count a" "rs_remote_dh a' = rs_remote_dh a"
    "rs_receiving_chain a' = rs_receiving_chain a" "rs_receiving_count a' = rs_receiving_count a"
    "rs_skipped a' = rs_skipped a"
    by (simp_all add: rotated(5))
  have "live_link P c' b a'"
    using link(2) by (simp add: live_link_def chain_link_def follows_def own_entries_def a')
  moreover have "kp_public (rs_dh_pair b) = rs_remote_dh a"
    using link(2) by (simp add: live_link_def chain_link_def)
  ultimately show ?thesis
    using rotate_ratchet_ok [OF P ok(1) run] ok(2) link(1) rotated(3,4) fresh
    by (intro exI [of _ chain]) (auto simp: ahead_def a' root [symmetric] live_link_def chain_link_def)
qed simp

text \<open>Sending while ahead.\<close>

lemma encrypt_ahead:
  assumes P: "sizes_ok P" "aeads_ok P" "hkdf_total P" and s: "ahead P c a b"
    and run: "RatchetState_encrypt P kind pt a r = (Inr f, a', r')"
  shows "ahead P c a' b" "rs_previous_sending_chain_len a' = rs_previous_sending_chain_len a"
    "if_header f = FrameHeader_new kind (rs_session_id a) (dh_public_bytes (kp_public (rs_dh_pair a)))
       (rs_previous_sending_chain_len a) (rs_sending_count a)"
    "ct_suite (if_ciphertext f) = rs_suite a"
    "InnerFrame_open P f (key_at P c (unat (rs_sending_count a))) = Ok pt"
    "rs_sending_count a < rs_sending_count a'" "rs_dh_pair a' = rs_dh_pair a"
proof -
  have a: "ratchet_ok P a" and chain: "rs_sending_chain a = chain_at P c (unat (rs_sending_count a))"
    using s by (simp_all add: ahead_def)
  note enc = encrypt_Ok [OF P a run chain]
  have same: "rs_session_id a' = rs_session_id a" "rs_suite a' = rs_suite a" "rs_dh_pair a' = rs_dh_pair a"
    "rs_root_key a' = rs_root_key a" "rs_sending_chain a' = chain_at P c (unat (rs_sending_count a'))"
    "rs_previous_sending_chain_len a' = rs_previous_sending_chain_len a" "rs_remote_dh a' = rs_remote_dh a"
    "rs_receiving_chain a' = rs_receiving_chain a" "rs_receiving_count a' = rs_receiving_count a"
    "rs_skipped a' = rs_skipped a"
    by (subst enc(7), simp)+
  have live: "live_link P c' b a' = live_link P c' b a" for c'
    by (simp add: live_link_def chain_link_def follows_def own_entries_def same)
  show "ahead P c a' b"
    using s encrypt_ratchet_ok [OF P(1) a run] by (simp add: ahead_def same live)
  show "rs_previous_sending_chain_len a' = rs_previous_sending_chain_len a"
    "rs_dh_pair a' = rs_dh_pair a" by (simp_all add: same)
  show "rs_sending_count a < rs_sending_count a'" using enc(6) by (simp add: word_less_nat_alt)
qed (use encrypt_Ok [OF P _ run, of c] s in \<open>simp_all add: ahead_def\<close>)

section \<open>The Diffie-Hellman step\<close>

text \<open>
  The first frame of the new chain that arrives, number \<open>n\<close>: the other side derives the same
  receiving chain, opens it, and is now ahead itself.
\<close>

definition step_room :: "ratchet_state \<Rightarrow> inner_frame \<Rightarrow> bool" where
  "step_room b f \<longleftrightarrow>
     length (rs_skipped b) +
       (unat (fh_previous_chain_len (if_header f)) - unat (rs_receiving_count b)) +
       unat (fh_message_number (if_header f)) \<le> MAX_SKIPPED_KEYS"

lemma decrypt_new_total:
  assumes P: "hkdf_total P" and room: "step_room b f"
    and old: "derive_range P (rs_receiving_chain b) (rs_receiving_count b)
      (fh_previous_chain_len (if_header f)) (length (rs_skipped b)) = Ok (c', old)"
    and keys: "DhKeyPair_diffie_hellman P (rs_dh_pair b) pk = Ok z1" "root_step P (rs_root_key b) z1 = Ok (root1, c)"
      "DhKeyPair_generate P r = (Ok kp, r')" "DhKeyPair_diffie_hellman P kp pk = Ok z2"
      "root_step P root1 z2 = Ok (root2, chain2)"
    and f: "n = fh_message_number (if_header f)" "InnerFrame_open P f (key_at P c (unat n)) = Ok pt"
  shows "decrypt_new_ratchet P pk f b r = (Ok pt,
    bump_generation ((add_skipped pk (numbered_keys P c 0 (unat n)) (add_skipped (rs_remote_dh b) old b))
      \<lparr>rs_root_key := root2, rs_receiving_chain := chain_at P c (Suc (unat n)), rs_sending_chain := chain2,
       rs_dh_pair := kp, rs_remote_dh := pk, rs_previous_sending_chain_len := rs_sending_count b,
       rs_sending_count := 0, rs_receiving_count := n + 1\<rparr>), r')"
proof -
  have fits: "length (rs_skipped b) + length old + unat n \<le> MAX_SKIPPED_KEYS"
    using room derive_range_shape(3) [OF old] by (simp add: step_room_def f(1))
  then have "derive_for_message P c 0 n (length (rs_skipped b) + length old) =
      Ok (chain_at P c (Suc (unat n)), key_at P c (unat n), numbered_keys P c 0 (unat n))"
    using derive_for_message_total [OF P, of "length (rs_skipped b) + length old" c 0 n] by simp
  moreover have "checked_add_usize (length (rs_skipped b)) (length old) = Some (length (rs_skipped b) + length old)"
    using fits by (simp add: checked_add_usize_def usize_limit_def MAX_SKIPPED_KEYS_def)
  moreover have "checked_add_word n 1 = Some (n + 1)"
    using fits by (simp add: checked_add_word_def MAX_SKIPPED_KEYS_def)
  ultimately show ?thesis
    using old keys f(2) by (simp add: decrypt_new_ratchet_def f(1) Let_def)
qed

lemma own_entries_numbered:
  assumes "fresh_for pk b"
  shows "filter (\<lambda>e. sk_remote_dh e = pk) (rs_skipped (add_skipped pk ks (add_skipped (rs_remote_dh b) old b))) =
    map (\<lambda>(n, k). \<lparr>sk_remote_dh = pk, sk_message_number = n, sk_key = k\<rparr>) ks"
proof -
  have "filter (\<lambda>e. sk_remote_dh e = pk) (rs_skipped b) = []"
    using assms by (auto simp: fresh_for_def filter_empty_conv)
  with assms show ?thesis
    by (auto simp: fresh_for_def filter_map o_def case_prod_unfold filter_empty_conv)
qed

text \<open>The step itself, which needs no fresh key on the side behind.\<close>

lemma decrypt_ahead_run:
  assumes P: "sizes_ok P" "x25519_ok P" "hkdf_total P" and s: "ahead P c a b"
    and f: "fh_session_id (if_header f) = rs_session_id a" "ct_suite (if_ciphertext f) = rs_suite a"
      "fh_ratchet_public (if_header f) = dh_public_bytes (kp_public (rs_dh_pair a))"
      "fh_previous_chain_len (if_header f) = rs_previous_sending_chain_len a"
      "fh_message_number (if_header f) = n" "n < rs_sending_count a"
      "InnerFrame_open P f (key_at P c (unat n)) = Ok pt"
    and room: "step_room b f"
    and draw: "DhKeyPair_generate P r = (Ok kp, r')"
      "DhKeyPair_diffie_hellman P kp (kp_public (rs_dh_pair a)) = Ok z2"
  obtains cold old root2 chain2 where "root_step P (rs_root_key a) z2 = Ok (root2, chain2)"
    "derive_range P (rs_receiving_chain b) (rs_receiving_count b)
      (fh_previous_chain_len (if_header f)) (length (rs_skipped b)) = Ok (cold, old)"
    "RatchetState_decrypt P f b r = (Ok pt, bump_generation ((add_skipped (kp_public (rs_dh_pair a)) (numbered_keys P c 0 (unat n))
      (add_skipped (rs_remote_dh b) old b))
      \<lparr>rs_root_key := root2, rs_receiving_chain := chain_at P c (Suc (unat n)), rs_sending_chain := chain2,
       rs_dh_pair := kp, rs_remote_dh := kp_public (rs_dh_pair a), rs_previous_sending_chain_len := rs_sending_count b,
       rs_sending_count := 0, rs_receiving_count := n + 1\<rparr>), r')"
proof -
  let ?pk = "kp_public (rs_dh_pair a)"
  from s obtain z where ok: "ratchet_ok P a" "ratchet_ok P b"
    and same: "rs_session_id a = rs_session_id b" "rs_suite a = rs_suite b"
    and fresh: "fresh_for ?pk b"
    and z: "DhKeyPair_diffie_hellman P (rs_dh_pair a) (kp_public (rs_dh_pair b)) = Ok z"
    and root: "root_step P (rs_root_key b) z = Ok (rs_root_key a, c)"
    and prev: "rs_receiving_count b \<le> rs_previous_sending_chain_len a"
    by (auto simp: ahead_def)
  have kps: "key_pair_ok P (rs_dh_pair a)" "key_pair_ok P (rs_dh_pair b)"
    using ok by (simp_all add: ratchet_ok_def)
  have z1: "DhKeyPair_diffie_hellman P (rs_dh_pair b) ?pk = Ok z"
    using z diffie_hellman_agrees [OF P(2) kps(2,1)] by simp
  have "length z2 \<le> MAX_CIPHERTEXT_LEN"
    using diffie_hellman_length [OF P(1) draw(2)] by (simp add: MAX_CIPHERTEXT_LEN_def)
  then obtain root2 chain2 where root2: "root_step P (rs_root_key a) z2 = Ok (root2, chain2)"
    using root_step_total [OF P(3)] by blast
  obtain cold old where old: "derive_range P (rs_receiving_chain b) (rs_receiving_count b)
      (fh_previous_chain_len (if_header f)) (length (rs_skipped b)) = Ok (cold, old)"
    using derive_range_exists [OF P(3), of "rs_receiving_count b" "fh_previous_chain_len (if_header f)"
        "length (rs_skipped b)" "rs_receiving_chain b"] prev room f(4) by (auto simp: step_room_def)
  have "DhPublicKey (fh_ratchet_public (if_header f)) = ?pk" by (simp add: f(3))
  then show thesis
    using that [OF root2 old] decrypt_new_total [OF P(3) room old z1 root draw(1,2) root2 f(5) [symmetric] f(7)]
      f(1,2) same fresh
    by (simp add: RatchetState_decrypt_def fresh_for_def Let_def)
qed

lemma decrypt_ahead:
  assumes P: "sizes_ok P" "x25519_ok P" "hkdf_total P" and s: "ahead P c a b"
    and f: "fh_session_id (if_header f) = rs_session_id a" "ct_suite (if_ciphertext f) = rs_suite a"
      "fh_ratchet_public (if_header f) = dh_public_bytes (kp_public (rs_dh_pair a))"
      "fh_previous_chain_len (if_header f) = rs_previous_sending_chain_len a"
      "fh_message_number (if_header f) = n" "n < rs_sending_count a"
      "InnerFrame_open P f (key_at P c (unat n)) = Ok pt"
    and room: "step_room b f"
    and draw: "DhKeyPair_generate P r = (Ok kp, r')"
      "DhKeyPair_diffie_hellman P kp (kp_public (rs_dh_pair a)) = Ok z2" "fresh_for (kp_public kp) a"
  shows "\<exists>b' c2. RatchetState_decrypt P f b r = (Ok pt, b', r') \<and> ahead P c2 b' a \<and> live_link P c a b'"
proof -
  let ?pk = "kp_public (rs_dh_pair a)"
  from s obtain c' where ok: "ratchet_ok P a" "ratchet_ok P b"
    and same: "rs_session_id a = rs_session_id b" "rs_suite a = rs_suite b"
    and fresh: "fresh_for ?pk b"
    and link: "live_link P c' b a"
    and chain: "rs_sending_chain a = chain_at P c (unat (rs_sending_count a))"
    by (auto simp: ahead_def)
  have kps: "key_pair_ok P (rs_dh_pair a)" "key_pair_ok P (rs_dh_pair b)" "key_pair_ok P kp"
    using ok DhKeyPair_generate_pair_ok [OF P(1) draw(1)] by (simp_all add: ratchet_ok_def)
  obtain cold old root2 chain2 where root2: "root_step P (rs_root_key a) z2 = Ok (root2, chain2)"
    and old: "derive_range P (rs_receiving_chain b) (rs_receiving_count b)
      (fh_previous_chain_len (if_header f)) (length (rs_skipped b)) = Ok (cold, old)"
    and run0: "RatchetState_decrypt P f b r = (Ok pt, bump_generation ((add_skipped ?pk (numbered_keys P c 0 (unat n))
      (add_skipped (rs_remote_dh b) old b))
      \<lparr>rs_root_key := root2, rs_receiving_chain := chain_at P c (Suc (unat n)), rs_sending_chain := chain2,
       rs_dh_pair := kp, rs_remote_dh := ?pk, rs_previous_sending_chain_len := rs_sending_count b,
       rs_sending_count := 0, rs_receiving_count := n + 1\<rparr>), r')"
    by (rule decrypt_ahead_run [OF P s f room draw(1,2)])
  define b' where "b' = bump_generation ((add_skipped ?pk (numbered_keys P c 0 (unat n))
      (add_skipped (rs_remote_dh b) old b))
      \<lparr>rs_root_key := root2, rs_receiving_chain := chain_at P c (Suc (unat n)), rs_sending_chain := chain2,
       rs_dh_pair := kp, rs_remote_dh := ?pk, rs_previous_sending_chain_len := rs_sending_count b,
       rs_sending_count := 0, rs_receiving_count := n + 1\<rparr>)"
  have run: "RatchetState_decrypt P f b r = (Ok pt, b', r')" using run0 by (simp add: b'_def)
  have fields: "rs_session_id b' = rs_session_id b" "rs_suite b' = rs_suite b" "rs_dh_pair b' = kp"
    "rs_root_key b' = root2" "rs_sending_chain b' = chain2" "rs_sending_count b' = 0"
    "rs_previous_sending_chain_len b' = rs_sending_count b" "rs_remote_dh b' = ?pk"
    "rs_receiving_chain b' = chain_at P c (Suc (unat n))" "rs_receiving_count b' = n + 1"
    by (simp_all add: b'_def)
  have "length (rs_skipped b') \<le> MAX_SKIPPED_KEYS"
    using room derive_range_shape(3) [OF old] f(4,5) by (simp add: b'_def step_room_def numbered_keys_def)
  have nb: "unat n < 2 ^ 32 - 1" "unat n \<le> MAX_SKIPPED_KEYS" using room f(5) by (auto simp: step_room_def MAX_SKIPPED_KEYS_def)
  then have n1: "unat (n + 1) = Suc (unat n)" by (simp add: unat_word_ariths)
  have h: "header_ok (if_header f)"
    using f(1,3) key_pair_public_length [OF P(1) kps(1)] ok(1) by (simp add: header_ok_def ratchet_ok_def)
  have ok': "ratchet_ok P b'" by (rule decrypt_ratchet_ok [OF P(1) ok(2) h run])
  have own: "own_entries b' = map (\<lambda>i. \<lparr>sk_remote_dh = ?pk, sk_message_number = word_of_nat i, sk_key = key_at P c i\<rparr>) [0 ..< unat n]"
    using own_entries_numbered [OF fresh, of "numbered_keys P c 0 (unat n)" old]
    by (simp add: own_entries_def b'_def numbered_keys_def o_def)
  have small: "unat (word_of_nat i :: u32) = i" if "i < unat n" for i
    using that nb by (simp add: unat_of_nat)
  have "inj_on (\<lambda>i. word_of_nat i :: u32) {0 ..< unat n}"
    using small by (intro inj_onI) (metis atLeastLessThan_iff)
  then have follows: "follows P c b'"
    using ok' small by (auto simp: follows_def own fields n1 ratchet_ok_def distinct_map o_def word_less_nat_alt)
  have "n + 1 \<le> rs_sending_count a" using f(6) by (simp add: word_le_nat_alt word_less_nat_alt n1)
  then have live: "live_link P c a b'"
    using follows chain same by (simp add: live_link_def chain_link_def fields)
  have "rs_remote_dh a = kp_public (rs_dh_pair b)" "rs_receiving_count a \<le> rs_sending_count b"
    using link by (simp_all add: live_link_def chain_link_def)
  then have "ahead P chain2 b' a"
    using ok ok' same draw(2,3) root2 live by (auto simp: ahead_def fields)
  with run live show ?thesis by blast
qed

section \<open>Replies on the running chain\<close>

lemma decrypt_same_fields:
  assumes "decrypt_same_ratchet P pk f st = (res, st')"
  shows "rs_session_id st' = rs_session_id st \<and> rs_suite st' = rs_suite st \<and> rs_dh_pair st' = rs_dh_pair st \<and>
    rs_root_key st' = rs_root_key st \<and> rs_sending_chain st' = rs_sending_chain st \<and>
    rs_sending_count st' = rs_sending_count st \<and>
    rs_previous_sending_chain_len st' = rs_previous_sending_chain_len st \<and> rs_remote_dh st' = rs_remote_dh st"
  using assms
proof (cases rule: decrypt_same_cases)
  case (skipped pt)
  from skipped(3) show ?thesis by (cases rule: decrypt_skipped_cases) simp_all
qed simp_all

definition same_room :: "ratchet_state \<Rightarrow> inner_frame \<Rightarrow> bool" where
  "same_room a f \<longleftrightarrow>
     length (rs_skipped a) + (unat (fh_message_number (if_header f)) - unat (rs_receiving_count a))
       \<le> MAX_SKIPPED_KEYS"

lemma reply_ahead:
  assumes P: "sizes_ok P" "aeads_ok P" "hkdf_total P" and s: "ahead P c a b"
    and run: "RatchetState_encrypt P kind pt b r = (Inr f, b', r')"
  shows "same_room a f \<Longrightarrow> \<exists>a'. RatchetState_decrypt P f a r2 = (Ok pt, a', r2) \<and> ahead P c a' b'"
    and "ahead P c a b'"
proof -
  from s obtain c' where b: "ratchet_ok P b" and a: "ratchet_ok P a" and live: "live_link P c' b a"
    by (auto simp: ahead_def)
  then have link: "chain_link P c' b a" and le: "rs_receiving_count a \<le> rs_sending_count b"
    by (simp_all add: live_link_def)
  have chain: "rs_sending_chain b = chain_at P c' (unat (rs_sending_count b))"
    using link by (simp add: chain_link_def)
  note enc = encrypt_Ok [OF P b run chain] and el = encrypt_link [OF P b run link]
  have same: "rs_session_id b' = rs_session_id b" "rs_suite b' = rs_suite b" "rs_dh_pair b' = rs_dh_pair b"
    "rs_root_key b' = rs_root_key b" "rs_remote_dh b' = rs_remote_dh b"
    "rs_receiving_chain b' = rs_receiving_chain b" "rs_receiving_count b' = rs_receiving_count b"
    "rs_skipped b' = rs_skipped b"
    by (subst enc(7), simp)+
  have live': "live_link P c' b' a"
    using el(2) le enc(6) by (simp add: live_link_def word_le_nat_alt)
  show stay: "ahead P c a b'"
    using s live' encrypt_ratchet_ok [OF P(1) b run] by (auto simp: ahead_def fresh_for_def same)
  have st: "follows P c' a" using link by (simp add: chain_link_def)
  have m: "fh_message_number (if_header f) = rs_sending_count b" by (simp add: enc(1))
  obtain a' where dec: "RatchetState_decrypt P f a r2 =
      (delivers pt (fst (window_receive (unat (rs_sending_count b)) (window_of a))), a', r2)"
    and st': "follows P c' a'" and win: "window_of a' = snd (window_receive (unat (rs_sending_count b)) (window_of a))"
    using decrypt_refines_window [OF P(3) st el(1) refl, of r2] enc(5) by (auto simp: m)
  have "\<not> unat (rs_sending_count b) < win_next (window_of a)"
    using le by (simp add: window_of_def word_le_nat_alt)
  moreover have "win_others (window_of a) + card (win_missing (window_of a)) +
      (unat (rs_sending_count b) - win_next (window_of a)) \<le> MAX_SKIPPED_KEYS"
    if "same_room a f" using that kept_keys [OF st] by (simp add: same_room_def m) (simp add: window_of_def)
  moreover assume room: "same_room a f"
  ultimately have ok: "fst (window_receive (unat (rs_sending_count b)) (window_of a)) = Ok ()"
    and next': "win_next (window_of a') = Suc (unat (rs_sending_count b))"
    by (simp_all add: window_receive_def win)
  have "decrypt_same_ratchet P (rs_remote_dh a) f a = (Ok pt, a')"
    using dec el(1) ok by (auto simp: RatchetState_decrypt_def of_chain_def split: prod.splits)
  note fields = decrypt_same_fields [OF this]
  have h: "header_ok (if_header f)" using enc(3) by (simp add: frame_ok_def)
  have a': "ratchet_ok P a'" by (rule decrypt_ratchet_ok [OF P(1) a h dec])
  have "rs_receiving_count a' \<le> rs_sending_count b'"
    using next' enc(6) by (simp add: window_of_def word_le_nat_alt)
  then have "live_link P c' b' a'"
    using live' st' fields by (simp add: live_link_def chain_link_def)
  then have "ahead P c a' b'"
    using stay a' fields by (auto simp: ahead_def)
  with dec ok show "\<exists>a'. RatchetState_decrypt P f a r2 = (Ok pt, a', r2) \<and> ahead P c a' b'" by auto
qed

lemma reply_keeps_ratchet:
  assumes P: "sizes_ok P" "aeads_ok P" "hkdf_total P" and s: "ahead P c a b"
    and run: "RatchetState_encrypt P kind pt b r = (Inr f, b', r')"
    and dec: "RatchetState_decrypt P f a r2 = (Inr pt', a', r3)"
  shows "rs_dh_pair a' = rs_dh_pair a"
proof -
  obtain c' where b: "ratchet_ok P b" and link: "chain_link P c' b a"
    using s by (auto simp: ahead_def live_link_def)
  have "of_chain P c' a f pt" by (rule encrypt_link [OF P b run link])
  then have pk: "DhPublicKey (fh_ratchet_public (if_header f)) = rs_remote_dh a" by (simp add: of_chain_def)
  from dec show ?thesis
    by (cases rule: decrypt_cases) (use pk decrypt_same_fields in auto)
qed

section \<open>A conversation that loses messages\<close>

text \<open>A draw that gives a usable, new ratchet key.\<close>

definition fresh_draw :: "primitives \<Rightarrow> ratchet_state \<Rightarrow> rng \<Rightarrow> bool" where
  "fresh_draw P a r \<longleftrightarrow>
     (case DhKeyPair_generate P r of
        (Inr kp, r') \<Rightarrow> fresh_for (kp_public kp) a \<and>
          (case DhKeyPair_diffie_hellman P kp (kp_public (rs_dh_pair a)) of Inr z \<Rightarrow> True | Inl e \<Rightarrow> False)
      | _ \<Rightarrow> False)"

text \<open>
  Steps of a pair whose first component is ahead. Either side's frame may be lost; the frame of the
  side ahead, delivered, exchanges the roles; a reply on the running chain leaves them.
\<close>

inductive talk :: "primitives \<Rightarrow> ratchet_state \<times> ratchet_state \<Rightarrow> ratchet_state \<times> ratchet_state \<Rightarrow> bool"
  for P where
  lost: "RatchetState_encrypt P kind pt a r = (Inr f, a', r') \<Longrightarrow> talk P (a, b) (a', b)"
| lost_reply: "RatchetState_encrypt P kind pt b r = (Inr f, b', r') \<Longrightarrow> talk P (a, b) (a, b')"
| turn: "RatchetState_encrypt P kind pt a r = (Inr f, a', r') \<Longrightarrow> step_room b f \<Longrightarrow> fresh_draw P a' r2 \<Longrightarrow>
    RatchetState_decrypt P f b r2 = (res, b', r3) \<Longrightarrow> talk P (a, b) (b', a')"
| reply: "RatchetState_encrypt P kind pt b r = (Inr f, b', r') \<Longrightarrow> same_room a f \<Longrightarrow>
    RatchetState_decrypt P f a r2 = (res, a', r3) \<Longrightarrow> talk P (a, b) (a', b')"

inductive_cases talkE: "talk P s s'"

definition one_ahead :: "primitives \<Rightarrow> ratchet_state \<times> ratchet_state \<Rightarrow> bool" where
  "one_ahead P s \<longleftrightarrow> (\<exists>c. ahead P c (fst s) (snd s))"

lemma turn_delivers:
  assumes P: "sizes_ok P" "aeads_ok P" "x25519_ok P" "hkdf_total P" and s: "ahead P c a b"
    and run: "RatchetState_encrypt P kind pt a r = (Inr f, a', r')"
    and room: "step_room b f" and draw: "fresh_draw P a' r2"
  shows "\<exists>b' r3. RatchetState_decrypt P f b r2 = (Ok pt, b', r3) \<and> one_ahead P (b', a')"
proof -
  note enc = encrypt_ahead [OF P(1,2,4) s run]
  from draw obtain kp r3 z where kp: "DhKeyPair_generate P r2 = (Ok kp, r3)"
    "DhKeyPair_diffie_hellman P kp (kp_public (rs_dh_pair a')) = Ok z" "fresh_for (kp_public kp) a'"
    by (auto simp: fresh_draw_def split: prod.splits sum.splits)
  have "rs_session_id a' = rs_session_id a" "rs_suite a' = rs_suite a"
    using enc(1) s by (simp_all add: ahead_def)
  with decrypt_ahead [OF P(1,3,4) enc(1) _ _ _ _ _ enc(6) enc(5) room kp] enc(2,3,4,7)
  show ?thesis by (auto simp: one_ahead_def)
qed

text \<open>What the step leaves: a new pair of keys of its own, and the peer's new key as the remote one.\<close>

lemma new_ratchet_steps:
  assumes "RatchetState_decrypt P f b r = (Inr pt, b', r')"
    and "DhPublicKey (fh_ratchet_public (if_header f)) \<noteq> rs_remote_dh b"
  shows "DhKeyPair_generate P r = (Ok (rs_dh_pair b'), r')"
    "rs_remote_dh b' = DhPublicKey (fh_ratchet_public (if_header f))" "rs_sending_count b' = 0"
    "rs_receiving_count b' = fh_message_number (if_header f) + 1"
    "rs_previous_sending_chain_len b' = rs_sending_count b"
proof -
  have "decrypt_new_ratchet P (DhPublicKey (fh_ratchet_public (if_header f))) f b r = (Inr pt, b', r')"
    using assms by (cases rule: decrypt_cases) simp_all
  then show "DhKeyPair_generate P r = (Ok (rs_dh_pair b'), r')"
    "rs_remote_dh b' = DhPublicKey (fh_ratchet_public (if_header f))" "rs_sending_count b' = 0"
    "rs_receiving_count b' = fh_message_number (if_header f) + 1"
    "rs_previous_sending_chain_len b' = rs_sending_count b"
    by (cases rule: decrypt_new_cases; simp)+
qed

lemma turn_steps:
  assumes P: "sizes_ok P" "aeads_ok P" "hkdf_total P" and s: "ahead P c a b"
    and run: "RatchetState_encrypt P kind pt a r = (Inr f, a', r')"
    and dec: "RatchetState_decrypt P f b r2 = (Inr pt', b', r3)"
  shows "DhKeyPair_generate P r2 = (Ok (rs_dh_pair b'), r3) \<and> rs_remote_dh b' = current_public_key a' \<and>
    rs_remote_dh b' \<noteq> rs_remote_dh b \<and> rs_sending_count b' = 0 \<and> rs_previous_sending_chain_len b' = rs_sending_count b"
proof -
  note enc = encrypt_ahead [OF P s run]
  have pk: "DhPublicKey (fh_ratchet_public (if_header f)) = current_public_key a'"
    by (simp add: enc(3,7) current_public_key_def)
  moreover have "current_public_key a' \<noteq> rs_remote_dh b"
    using s by (auto simp: ahead_def fresh_for_def current_public_key_def enc(7))
  ultimately show ?thesis using new_ratchet_steps [OF dec] by simp
qed

lemma talk_one_ahead:
  assumes P: "sizes_ok P" "aeads_ok P" "x25519_ok P" "hkdf_total P"
    and step: "talk P s s'" and s: "one_ahead P s"
  shows "one_ahead P s'"
  using step s
proof (cases rule: talk.cases)
  case (lost kind pt a r f a' r' b)
  from s obtain c where "ahead P c a b" by (auto simp: one_ahead_def lost(1))
  from encrypt_ahead(1) [OF P(1,2,4) this lost(3)] show ?thesis by (auto simp: one_ahead_def lost(2))
next
  case (lost_reply kind pt b r f b' r' a)
  from s obtain c where "ahead P c a b" by (auto simp: one_ahead_def lost_reply(1))
  from reply_ahead(2) [OF P(1,2,4) this lost_reply(3)] show ?thesis
    by (auto simp: one_ahead_def lost_reply(2))
next
  case (turn kind pt a r f a' r' b r2 res b' r3)
  from s obtain c where "ahead P c a b" by (auto simp: one_ahead_def turn(1))
  from turn_delivers [OF P this turn(3,4,5)] turn(2,6) show ?thesis by auto
next
  case (reply kind pt b r f b' r' a r2 res a' r3)
  from s obtain c where "ahead P c a b" by (auto simp: one_ahead_def reply(1))
  from reply_ahead(1) [OF P(1,2,4) this reply(3,4), of r2] reply(2,5) show ?thesis
    by (auto simp: one_ahead_def)
qed

lemma conversation_one_ahead:
  assumes P: "sizes_ok P" "aeads_ok P" "x25519_ok P" "hkdf_total P"
  shows "(talk P)\<^sup>*\<^sup>* s s' \<Longrightarrow> one_ahead P s \<Longrightarrow> one_ahead P s'"
  by (induction rule: rtranclp_induct) (simp_all add: talk_one_ahead [OF P])

section \<open>Calls after which the sides part\<close>

text \<open>
  After a Diffie-Hellman step the keys kept for the previous chain are never looked up: a frame of
  any other chain is taken for a newer one, and a frame of the first chain is always refused.
\<close>

lemma decrypt_new_stale:
  assumes "fh_previous_chain_len (if_header g) < rs_receiving_count st"
  shows "decrypt_new_ratchet P pk g st r = (Err RatchetStateMismatch, st, r)"
  using assms by (simp add: decrypt_new_ratchet_def derive_range_def io_bind_def)

lemma old_chain_refused:
  assumes step: "RatchetState_decrypt P f b r = (Inr pt, b', r')"
      "DhPublicKey (fh_ratchet_public (if_header f)) \<noteq> rs_remote_dh b"
    and g: "DhPublicKey (fh_ratchet_public (if_header g)) = rs_remote_dh b"
      "fh_previous_chain_len (if_header g) = 0"
  shows "RatchetState_decrypt P g b' r2 = (Err RatchetStateMismatch, b', r2)"
proof -
  have new: "decrypt_new_ratchet P (DhPublicKey (fh_ratchet_public (if_header f))) f b r = (Inr pt, b', r')"
    using step by (auto simp: RatchetState_decrypt_def Let_def split: if_splits)
  then show ?thesis
  proof (cases rule: decrypt_new_cases)
    case (commit c old z1 root1 chain1 kp z2 root2 chain2 rc k new pt')
    obtain before where range: "derive_range P chain1 0 (fh_message_number (if_header f))
        (length (rs_skipped b) + length old) = Inr (before, new)"
      using commit(7) by (auto simp: derive_for_message_Ok)
    from checked_add_word_Some [OF small_number_add [OF range]]
    have "unat (rs_receiving_count b') = Suc (unat (fh_message_number (if_header f)))"
      by (simp add: commit(10))
    then have "fh_previous_chain_len (if_header g) < rs_receiving_count b'"
      using g(2) by (simp add: word_less_nat_alt)
    moreover have "DhPublicKey (fh_ratchet_public (if_header g)) \<noteq> rs_remote_dh b'"
      using step(2) g(1) by (simp add: commit(10))
    ultimately show ?thesis
      by (simp add: RatchetState_decrypt_def decrypt_new_stale Let_def)
  qed simp
qed

text \<open>Two rotations without a message between them announce an empty previous chain.\<close>

lemma double_rotation_refused:
  assumes rot: "rotate_sending_ratchet P a r = (Inr (), a1, r1)"
      "rotate_sending_ratchet P a1 r1 = (Inr (), a2, r2)"
    and enc: "RatchetState_encrypt P kind pt a2 r2 = (Inr f, a3, r3)"
    and b: "rs_receiving_count b > 0" "kp_public (rs_dh_pair a2) \<noteq> rs_remote_dh b"
    and P: "aeads_ok P" "sizes_ok P" "ratchet_ok P a"
  shows "RatchetState_decrypt P f b r4 = (Err RatchetStateMismatch, b, r4)"
proof -
  have "rs_sending_count a1 = 0"
    using rot(1) by (cases rule: rotate_cases) simp_all
  moreover have "rs_previous_sending_chain_len a2 = rs_sending_count a1"
    using rot(2) by (cases rule: rotate_cases) simp_all
  ultimately have prev: "rs_previous_sending_chain_len a2 = 0" by simp
  have a2: "ratchet_ok P a2"
    using rotate_ratchet_ok [OF P(2)] rot P(3) by blast
  have f: "if_header f = FrameHeader_new kind (rs_session_id a2) (dh_public_bytes (kp_public (rs_dh_pair a2)))
      (rs_previous_sending_chain_len a2) (rs_sending_count a2)"
    using enc
  proof (cases rule: encrypt_cases)
    case (sent f' c k n)
    with InnerFrame_seal_frame(2) [OF P(1) own_header_ok [OF P(2) a2] sent(3)] show ?thesis by simp
  qed simp_all
  have "fh_previous_chain_len (if_header f) < rs_receiving_count b" using b(1) by (simp add: f prev)
  moreover have "DhPublicKey (fh_ratchet_public (if_header f)) \<noteq> rs_remote_dh b" using b(2) by (simp add: f)
  ultimately show ?thesis by (simp add: RatchetState_decrypt_def decrypt_new_stale Let_def)
qed

text \<open>At the last message number the chain key moves on although no frame comes out.\<close>

lemma encrypt_exhausted_moves_chain:
  assumes "hkdf_total P" "rs_sending_count a = - 1"
    "InnerFrame_seal P (chain_message P (rs_sending_chain a)) (rs_suite a)
      (FrameHeader_new kind (rs_session_id a) (dh_public_bytes (kp_public (rs_dh_pair a)))
        (rs_previous_sending_chain_len a) (- 1)) pt r = (Inr f, r')"
  shows "RatchetState_encrypt P kind pt a r =
    (Err CounterExhausted, a\<lparr>rs_sending_chain := chain_next P (rs_sending_chain a)\<rparr>, r')"
proof -
  have "checked_add_word (- 1 :: u32) 1 = None"
    by (simp add: checked_add_word_def unsigned_minus_1_eq_mask mask_eq_exp_minus_1)
  with assms show ?thesis
    by (simp add: RatchetState_encrypt_def chain_step_total Let_def)
qed

end
