(* ===== verification/Mef_Replay.thy ===== *)
theory Mef_Replay
  imports Mef_Crypto
begin

text \<open>
  Mailbox capabilities and transport identifiers (\<open>src/envelope/capability.rs\<close>) and the bounded
  replay cache (\<open>src/envelope/replay.rs\<close>), with its abstract specification: the set of accepted
  identifiers that have not expired.
\<close>

section \<open>Capabilities and identifiers (capability.rs)\<close>

definition CAPABILITY_LEN :: nat where
  "CAPABILITY_LEN = 32"

definition TRANSPORT_ID_LEN :: nat where
  "TRANSPORT_ID_LEN = 16"

datatype mailbox_capability = MailboxCapability (mailbox_bytes: bytes)

datatype transport_id = TransportMessageId (transport_bytes: bytes)

text \<open>Constructors and accessors.\<close>

definition MailboxCapability_from_bytes :: "bytes \<Rightarrow> mailbox_capability" where
  "MailboxCapability_from_bytes bs = MailboxCapability bs"

definition MailboxCapability_to_bytes :: "mailbox_capability \<Rightarrow> bytes" where
  "MailboxCapability_to_bytes m = mailbox_bytes m"

definition TransportMessageId_from_bytes :: "bytes \<Rightarrow> transport_id" where
  "TransportMessageId_from_bytes bs = TransportMessageId bs"

definition TransportMessageId_to_bytes :: "transport_id \<Rightarrow> bytes" where
  "TransportMessageId_to_bytes i = transport_bytes i"

declare MailboxCapability_from_bytes_def [simp] MailboxCapability_to_bytes_def [simp]
  TransportMessageId_from_bytes_def [simp] TransportMessageId_to_bytes_def [simp]

definition MailboxCapability_generate :: "primitives \<Rightarrow> rng \<Rightarrow> mailbox_capability res \<times> rng" where
  "MailboxCapability_generate P =
     io_bind (random_bytes P CAPABILITY_LEN) (\<lambda>bs. io_lift (Ok (MailboxCapability bs)))"

definition MailboxCapability_storage_id :: "primitives \<Rightarrow> mailbox_capability \<Rightarrow> bytes res" where
  "MailboxCapability_storage_id P m =
     blake3_id P (ascii ''mailbox-capability-v1'') [mailbox_bytes m]"

definition TransportMessageId_generate :: "primitives \<Rightarrow> rng \<Rightarrow> transport_id res \<times> rng" where
  "TransportMessageId_generate P =
     io_bind (random_bytes P TRANSPORT_ID_LEN) (\<lambda>bs. io_lift (Ok (TransportMessageId bs)))"

lemma TransportMessageId_generate_Ok [res_iff]:
  "TransportMessageId_generate P r = (Inr i, r') \<longleftrightarrow>
     (\<exists>bs. sys_rng P r 16 = Some bs \<and> i = TransportMessageId bs \<and> r' = Suc r)"
  by (auto simp: TransportMessageId_generate_def io_bind_Ok random_bytes_Ok io_lift_def TRANSPORT_ID_LEN_def)

lemma TransportMessageId_generate_no_panic [simp]: "TransportMessageId_generate P r \<noteq> (Panics, r')"
  by (auto simp: TransportMessageId_generate_def io_bind_Inl io_lift_def random_bytes_Inl)

lemma storage_id_total:
  "length (mailbox_bytes m) = 32 \<Longrightarrow> \<exists>h. MailboxCapability_storage_id P m = Ok h"
  by (simp add: MailboxCapability_storage_id_def blake3_id_def word_try_from_def MAX_CIPHERTEXT_LEN_def ascii_def)

section \<open>The cache (replay.rs)\<close>

record replay_cache =
  rc_capacity :: nat
  rc_entries :: "(transport_id \<times> u64) list"

definition ReplayCache_new :: "nat \<Rightarrow> replay_cache res" where
  "ReplayCache_new capacity =
     (if capacity = 0 then Err InvalidLength else Ok \<lparr>rc_capacity = capacity, rc_entries = []\<rparr>)"

definition check_and_insert ::
    "transport_id \<Rightarrow> u64 \<Rightarrow> u64 \<Rightarrow> replay_cache \<Rightarrow> unit res \<times> replay_cache" where
  "check_and_insert message_id expires_at_unix now_unix cache =
     (let cache = cache\<lparr>rc_entries := filter (\<lambda>(_, expires_at). expires_at \<ge> now_unix) (rc_entries cache)\<rparr> in
      if \<exists>(existing, _) \<in> set (rc_entries cache). existing = message_id
      then (Err ReplayDetected, cache)
      else if length (rc_entries cache) \<ge> rc_capacity cache then (Err InvalidState, cache)
      else (Ok (), cache\<lparr>rc_entries := rc_entries cache @ [(message_id, expires_at_unix)]\<rparr>))"

definition ReplayCache_len :: "replay_cache \<Rightarrow> nat" where
  "ReplayCache_len cache = length (rc_entries cache)"

definition ReplayCache_is_empty :: "replay_cache \<Rightarrow> bool" where
  "ReplayCache_is_empty cache \<longleftrightarrow> rc_entries cache = []"

definition cache_ok :: "replay_cache \<Rightarrow> bool" where
  "cache_ok cache \<longleftrightarrow>
     0 < rc_capacity cache \<and> length (rc_entries cache) \<le> rc_capacity cache \<and>
     distinct (map fst (rc_entries cache))"

lemma ReplayCache_new_ok: "ReplayCache_new n = Ok c \<Longrightarrow> cache_ok c"
  by (auto simp: ReplayCache_new_def cache_ok_def split: if_splits)

lemma check_and_insert_ok:
  assumes "cache_ok c"
  shows "cache_ok (snd (check_and_insert i e now c))"
proof -
  let ?live = "filter (\<lambda>(_, expires_at). expires_at \<ge> now) (rc_entries c)"
  have "length ?live \<le> rc_capacity c"
    using assms by (intro order_trans [OF length_filter_le]) (simp add: cache_ok_def)
  moreover have "distinct (map fst ?live)"
    using assms by (simp add: cache_ok_def distinct_map_filter)
  ultimately show ?thesis
    using assms by (force simp: check_and_insert_def cache_ok_def Let_def)
qed

text \<open>The calls, with the identifier, its expiry and the clock.\<close>

fun cache_step :: "transport_id \<times> u64 \<times> u64 \<Rightarrow> replay_cache \<Rightarrow> replay_cache" where
  "cache_step (i, e, now) c = snd (check_and_insert i e now c)"

interpretation cache: call_machine cache_step cache_ok
proof
  show "cache_ok (cache_step k c)" if "cache_ok c" for c k
    using that check_and_insert_ok by (cases k) simp
qed

section \<open>Specification\<close>

text \<open>The identifiers the cache refuses at a time: those it holds that have not expired.\<close>

lemma cache_capacity_run: "rc_capacity (fold cache_step calls c) = rc_capacity c"
  by (induction calls arbitrary: c) (auto simp: check_and_insert_def Let_def)

definition live_ids :: "u64 \<Rightarrow> replay_cache \<Rightarrow> transport_id set" where
  "live_ids now c = {i. \<exists>e. (i, e) \<in> set (rc_entries c) \<and> now \<le> e}"

definition live_count :: "u64 \<Rightarrow> replay_cache \<Rightarrow> nat" where
  "live_count now c = length (filter (\<lambda>(_, e). now \<le> e) (rc_entries c))"

lemma check_and_insert_result:
  "fst (check_and_insert i e now c) =
    (if i \<in> live_ids now c then Err ReplayDetected
     else if live_count now c \<ge> rc_capacity c then Err InvalidState else Ok ())"
  by (auto simp: check_and_insert_def live_ids_def live_count_def Let_def)

lemma check_and_insert_live:
  "live_ids now (snd (check_and_insert i e now c)) =
    (if fst (check_and_insert i e now c) = Ok () \<and> now \<le> e then insert i (live_ids now c) else live_ids now c)"
  by (auto simp: check_and_insert_def live_ids_def Let_def)

lemma check_and_insert_entries:
  "fst (check_and_insert i e now c) = Ok () \<Longrightarrow> (i, e) \<in> set (rc_entries (snd (check_and_insert i e now c)))"
  by (auto simp: check_and_insert_def Let_def split: if_splits)

text \<open>An accepted entry stays until the clock passes its expiry.\<close>

lemma entry_kept:
  "(i, e) \<in> set (rc_entries c) \<Longrightarrow> now \<le> e \<Longrightarrow> (i, e) \<in> set (rc_entries (snd (check_and_insert j e' now c)))"
  by (auto simp: check_and_insert_def Let_def)

lemma entry_kept_run:
  "(i, e) \<in> set (rc_entries c) \<Longrightarrow> \<forall>(j, e', now) \<in> set ks. now \<le> e \<Longrightarrow>
     (i, e) \<in> set (rc_entries (fold cache_step ks c))"
proof (induction ks arbitrary: c)
  case (Cons k ks)
  obtain j e' now where k: "k = (j, e', now)" by (metis prod.exhaust)
  have "(i, e) \<in> set (rc_entries (cache_step k c))"
    using Cons.prems entry_kept [of i e c now j e'] by (simp add: k)
  with Cons show ?case by simp
qed simp

lemma live_refused:
  "(i, e) \<in> set (rc_entries c) \<Longrightarrow> now \<le> e \<Longrightarrow> fst (check_and_insert i e' now c) = Err ReplayDetected"
  by (auto simp: check_and_insert_result live_ids_def)

end
