(* ===== verification/Mef_Envelope.thy ===== *)
theory Mef_Envelope
  imports Mef_Replay Mef_Keys Mef_Frame
begin

text \<open>
  The outer envelope of \<open>src/envelope/outer.rs\<close>: its header and strict wire format, sealing an inner
  frame with encrypted zero padding for a recipient's delivery key, opening, and opening once
  against a replay cache.
\<close>

section \<open>Envelope\<close>

definition OUTER_MAGIC :: bytes where
  "OUTER_MAGIC = ascii ''MEO''"

definition OUTER_VERSION :: u8 where
  "OUTER_VERSION = 1"

definition OUTER_FIXED_LEN :: nat where
  "OUTER_FIXED_LEN = 3 + 1 + 1 + CAPABILITY_LEN + TRANSPORT_ID_LEN + 8 + 32 + 1 + 4"

definition OUTER_SUITE :: aead_suite where
  "OUTER_SUITE = XChaCha20Poly1305"

record outer_envelope =
  oe_mailbox :: mailbox_capability
  oe_message_id :: transport_id
  oe_expires_at_unix :: u64
  oe_sender_ephemeral :: dh_public
  oe_ciphertext :: ciphertext

text \<open>Its accessors.\<close>

definition OuterEnvelope_mailbox :: "outer_envelope \<Rightarrow> mailbox_capability" where
  "OuterEnvelope_mailbox e = oe_mailbox e"

definition OuterEnvelope_message_id :: "outer_envelope \<Rightarrow> transport_id" where
  "OuterEnvelope_message_id e = oe_message_id e"

definition OuterEnvelope_expires_at_unix :: "outer_envelope \<Rightarrow> u64" where
  "OuterEnvelope_expires_at_unix e = oe_expires_at_unix e"

declare OuterEnvelope_mailbox_def [simp] OuterEnvelope_message_id_def [simp]
  OuterEnvelope_expires_at_unix_def [simp]

definition outer_encode_aad ::
    "mailbox_capability \<Rightarrow> transport_id \<Rightarrow> u64 \<Rightarrow> dh_public \<Rightarrow> nat \<Rightarrow> bytes res" where
  "outer_encode_aad mailbox message_id expires_at_unix sender_ephemeral body_len =
     bind_res (ok_or (word_try_from body_len :: u32 option) InvalidLength) (\<lambda>body_len.
     bind_res (ok_or (word_try_from (AeadSuite_nonce_len OUTER_SUITE) :: u8 option) InvalidLength) (\<lambda>nonce_len.
     let aad =
       OUTER_MAGIC @ [OUTER_VERSION] @ [AeadSuite_id OUTER_SUITE] @ mailbox_bytes mailbox
         @ transport_bytes message_id @ to_be_bytes expires_at_unix
         @ dh_public_bytes sender_ephemeral @ [nonce_len] @ to_be_bytes body_len
     in if length aad \<noteq> OUTER_FIXED_LEN then Err InvalidFrame else Ok aad))"

definition OuterEnvelope_aad :: "outer_envelope \<Rightarrow> bytes res" where
  "OuterEnvelope_aad e =
     outer_encode_aad (oe_mailbox e) (oe_message_id e) (oe_expires_at_unix e) (oe_sender_ephemeral e)
       (length (ct_body (oe_ciphertext e)))"

definition OuterEnvelope_from_ciphertext ::
    "mailbox_capability \<Rightarrow> transport_id \<Rightarrow> u64 \<Rightarrow> dh_public \<Rightarrow> ciphertext \<Rightarrow> outer_envelope res" where
  "OuterEnvelope_from_ciphertext mailbox message_id expires_at_unix sender_ephemeral ciphertext =
     (if ct_suite ciphertext \<noteq> OUTER_SUITE then Err InvalidFrame else
      bind_res (outer_encode_aad mailbox message_id expires_at_unix sender_ephemeral
          (length (ct_body ciphertext))) (\<lambda>aad.
      if length aad \<noteq> OUTER_FIXED_LEN then Err InvalidFrame
      else Ok \<lparr>oe_mailbox = mailbox, oe_message_id = message_id, oe_expires_at_unix = expires_at_unix,
        oe_sender_ephemeral = sender_ephemeral, oe_ciphertext = ciphertext\<rparr>))"

definition OuterEnvelope_seal ::
    "primitives \<Rightarrow> dh_public \<Rightarrow> mailbox_capability \<Rightarrow> u64 \<Rightarrow> inner_frame \<Rightarrow> nat \<Rightarrow> rng
       \<Rightarrow> outer_envelope res \<times> rng" where
  "OuterEnvelope_seal P recipient_delivery_key mailbox expires_at_unix inner_frame padding_len =
     io_bind (DhKeyPair_generate P) (\<lambda>sender_ephemeral.
     io_bind (io_lift (DhKeyPair_diffie_hellman P sender_ephemeral recipient_delivery_key)) (\<lambda>shared.
     io_bind (io_lift (derive_aead_key P (mailbox_bytes mailbox) (ascii ''outer-envelope-v1'') shared)) (\<lambda>key.
     io_bind (TransportMessageId_generate P) (\<lambda>message_id.
     io_bind (io_lift (InnerFrame_encode inner_frame)) (\<lambda>inner_bytes.
     io_bind (io_lift (ok_or (checked_add_usize (length inner_bytes) padding_len) InvalidLength)) (\<lambda>plaintext_len.
     if plaintext_len > MAX_CIPHERTEXT_LEN - AEAD_TAG_LEN then io_lift (Err InvalidLength)
     else
       io_bind (io_lift (ok_or (checked_add_usize plaintext_len AEAD_TAG_LEN) InvalidLength)) (\<lambda>body_len.
       let plaintext = inner_bytes @ replicate (plaintext_len - length inner_bytes) 0 in
       io_bind (io_lift (outer_encode_aad mailbox message_id expires_at_unix (kp_public sender_ephemeral) body_len)) (\<lambda>aad.
       io_bind (aead_seal P key OUTER_SUITE aad plaintext) (\<lambda>ciphertext.
       io_lift (OuterEnvelope_from_ciphertext mailbox message_id expires_at_unix
         (kp_public sender_ephemeral) ciphertext))))))))))"

definition OuterEnvelope_open :: "primitives \<Rightarrow> outer_envelope \<Rightarrow> dh_secret \<Rightarrow> u64 \<Rightarrow> bytes res" where
  "OuterEnvelope_open P e recipient_delivery_secret now_unix =
     (if now_unix > oe_expires_at_unix e then Err EnvelopeExpired else
      bind_res (DhSecretKey_diffie_hellman P recipient_delivery_secret (oe_sender_ephemeral e)) (\<lambda>shared.
      bind_res (derive_aead_key P (mailbox_bytes (oe_mailbox e)) (ascii ''outer-envelope-v1'') shared) (\<lambda>key.
      bind_res (OuterEnvelope_aad e) (\<lambda>aad.
      aead_open P key (oe_ciphertext e) aad))))"

definition OuterEnvelope_open_inner :: "primitives \<Rightarrow> outer_envelope \<Rightarrow> dh_secret \<Rightarrow> u64 \<Rightarrow> inner_frame res" where
  "OuterEnvelope_open_inner P e recipient_delivery_secret now_unix =
     bind_res (OuterEnvelope_open P e recipient_delivery_secret now_unix) (\<lambda>plaintext.
     bind_res (InnerFrame_decode_prefix plaintext) (\<lambda>(frame, consumed).
     bind_res (slice consumed (length plaintext) plaintext) (\<lambda>padding.
     if \<exists>byte \<in> set padding. byte \<noteq> 0 then Err InvalidFrame else Ok frame)))"

definition OuterEnvelope_open_inner_once ::
    "primitives \<Rightarrow> outer_envelope \<Rightarrow> dh_secret \<Rightarrow> u64 \<Rightarrow> replay_cache \<Rightarrow> inner_frame res \<times> replay_cache" where
  "OuterEnvelope_open_inner_once P e recipient_delivery_secret now_unix cache =
     (case OuterEnvelope_open_inner P e recipient_delivery_secret now_unix of
        Inl err \<Rightarrow> (Inl err, cache)
      | Inr frame \<Rightarrow>
          (case check_and_insert (oe_message_id e) (oe_expires_at_unix e) now_unix cache of
             (Inl err, cache') \<Rightarrow> (Inl err, cache')
           | (Inr u, cache') \<Rightarrow> (Ok frame, cache')))"

definition OuterEnvelope_encode :: "outer_envelope \<Rightarrow> bytes res" where
  "OuterEnvelope_encode e =
     bind_res (OuterEnvelope_aad e) (\<lambda>aad.
     bind_res
       (ok_or (Option.bind (checked_add_usize (length aad) (length (ct_nonce (oe_ciphertext e))))
          (\<lambda>value. checked_add_usize value (length (ct_body (oe_ciphertext e))))) InvalidLength)
       (\<lambda>total_len. Ok (aad @ ct_nonce (oe_ciphertext e) @ ct_body (oe_ciphertext e))))"

definition OuterEnvelope_decode :: "bytes \<Rightarrow> outer_envelope res" where
  "OuterEnvelope_decode bs =
     (if length bs < OUTER_FIXED_LEN \<or> length bs > MAX_CIPHERTEXT_LEN + (OUTER_FIXED_LEN + 24)
      then Err InvalidFrame
      else
        bind_res (slice 0 3 bs) (\<lambda>magic.
        if magic \<noteq> OUTER_MAGIC then Err InvalidFrame else
        bind_res (index_at bs 3) (\<lambda>version.
        if version \<noteq> OUTER_VERSION then Err InvalidFrame else
        bind_res (index_at bs 4) (\<lambda>suite_id.
        bind_res (AeadSuite_from_id suite_id) (\<lambda>suite.
        if suite \<noteq> OUTER_SUITE then Err InvalidFrame else
        bind_res (field 32 5 37 bs) (\<lambda>mailbox.
        bind_res (field 16 37 53 bs) (\<lambda>message_id.
        bind_res (field 8 53 61 bs) (\<lambda>expires.
        bind_res (field 32 61 93 bs) (\<lambda>sender_ephemeral.
        bind_res (index_at bs 93) (\<lambda>nonce_len_byte.
        bind_res (field 4 94 98 bs) (\<lambda>body_len_bytes.
        let nonce_len = unat nonce_len_byte;
            body_len = unat (from_be_bytes body_len_bytes :: u32) in
        if nonce_len \<noteq> AeadSuite_nonce_len OUTER_SUITE
           \<or> \<not> (AEAD_TAG_LEN \<le> body_len \<and> body_len \<le> MAX_CIPHERTEXT_LEN)
        then Err InvalidFrame else
        bind_res
          (ok_or (Option.bind (checked_add_usize OUTER_FIXED_LEN nonce_len)
             (\<lambda>value. checked_add_usize value body_len)) InvalidLength) (\<lambda>expected.
        if length bs \<noteq> expected then Err InvalidFrame else
        bind_res (add_usize OUTER_FIXED_LEN nonce_len) (\<lambda>nonce_end.
        bind_res (slice OUTER_FIXED_LEN nonce_end bs) (\<lambda>nonce.
        bind_res (slice nonce_end (length bs) bs) (\<lambda>body.
        bind_res (Ciphertext_from_parts OUTER_SUITE nonce body) (\<lambda>ciphertext.
        OuterEnvelope_from_ciphertext (MailboxCapability mailbox) (TransportMessageId message_id)
          (from_be_bytes expires) (DhPublicKey sender_ephemeral) ciphertext))))))))))))))))"

section \<open>Wire format\<close>

definition envelope_ok :: "outer_envelope \<Rightarrow> bool" where
  "envelope_ok e \<longleftrightarrow>
     length (mailbox_bytes (oe_mailbox e)) = 32 \<and> length (transport_bytes (oe_message_id e)) = 16 \<and>
     length (dh_public_bytes (oe_sender_ephemeral e)) = 32 \<and>
     ct_suite (oe_ciphertext e) = OUTER_SUITE \<and> ciphertext_ok (oe_ciphertext e)"

definition outer_aad_bytes :: "mailbox_capability \<Rightarrow> transport_id \<Rightarrow> u64 \<Rightarrow> dh_public \<Rightarrow> nat \<Rightarrow> bytes" where
  "outer_aad_bytes m i t pk n =
     OUTER_MAGIC @ [OUTER_VERSION, AeadSuite_id OUTER_SUITE] @ mailbox_bytes m @ transport_bytes i
       @ to_be_bytes t @ dh_public_bytes pk @ [24] @ to_be_bytes (word_of_nat n :: u32)"

definition envelope_bytes :: "outer_envelope \<Rightarrow> bytes" where
  "envelope_bytes e =
     outer_aad_bytes (oe_mailbox e) (oe_message_id e) (oe_expires_at_unix e) (oe_sender_ephemeral e)
         (length (ct_body (oe_ciphertext e)))
       @ ct_nonce (oe_ciphertext e) @ ct_body (oe_ciphertext e)"

lemma outer_consts: "OUTER_MAGIC = [77, 69, 79]" "OUTER_FIXED_LEN = 98" "AeadSuite_id OUTER_SUITE = 4"
  "AeadSuite_nonce_len OUTER_SUITE = 24" "OUTER_VERSION = 1"
  by (simp_all add: OUTER_MAGIC_def ascii_def of_char_def OUTER_FIXED_LEN_def OUTER_SUITE_def
      CAPABILITY_LEN_def TRANSPORT_ID_LEN_def XCHACHA_NONCE_LEN_def OUTER_VERSION_def)

definition envelope_fields_ok :: "mailbox_capability \<Rightarrow> transport_id \<Rightarrow> dh_public \<Rightarrow> bool" where
  "envelope_fields_ok m i pk \<longleftrightarrow>
     length (mailbox_bytes m) = 32 \<and> length (transport_bytes i) = 16 \<and> length (dh_public_bytes pk) = 32"

lemma length_outer_aad_bytes [simp]:
  "envelope_fields_ok m i pk \<Longrightarrow> length (outer_aad_bytes m i t pk n) = 98"
  by (simp add: outer_aad_bytes_def outer_consts envelope_fields_ok_def)

lemma outer_encode_aad_Ok:
  "envelope_fields_ok m i pk \<Longrightarrow> outer_encode_aad m i t pk n =
     (if n < 2 ^ 32 then Ok (outer_aad_bytes m i t pk n) else Err InvalidLength)"
  by (simp add: outer_encode_aad_def word_try_from_def outer_aad_bytes_def Let_def outer_consts
      envelope_fields_ok_def)

text \<open>The associated data determines the mailbox, the identifier, the expiry and the sender's key.\<close>

lemma outer_aad_bytes_inj:
  assumes "envelope_fields_ok m i pk" "envelope_fields_ok m' i' pk'" "n < 2 ^ 32" "n' < 2 ^ 32"
    "outer_aad_bytes m i t pk n = outer_aad_bytes m' i' t' pk' n'"
  shows "m = m' \<and> i = i' \<and> t = t' \<and> pk = pk' \<and> n = n'"
proof -
  note eq = assms(1,2,5) [unfolded outer_aad_bytes_def envelope_fields_ok_def outer_consts]
  have "word_of_nat n = (word_of_nat n' :: u32)" using eq by simp
  then have "n = n'" using assms(3,4) by (rule u32_of_nat_inj [rotated 2])
  moreover have "mailbox_bytes m = mailbox_bytes m'" "transport_bytes i = transport_bytes i'" "t = t'"
    "dh_public_bytes pk = dh_public_bytes pk'" using eq by simp_all
  ultimately show ?thesis
    by (simp add: mailbox_capability.expand transport_id.expand dh_public.expand)
qed

lemma envelope_okD:
  assumes "envelope_ok e"
  shows "envelope_fields_ok (oe_mailbox e) (oe_message_id e) (oe_sender_ephemeral e)"
    "length (ct_nonce (oe_ciphertext e)) = 24" "16 \<le> length (ct_body (oe_ciphertext e))"
    "length (ct_body (oe_ciphertext e)) \<le> MAX_CIPHERTEXT_LEN" "length (ct_body (oe_ciphertext e)) < 2 ^ 32"
    "ct_suite (oe_ciphertext e) = OUTER_SUITE" "ciphertext_ok (oe_ciphertext e)"
  using assms
  by (simp_all add: envelope_ok_def envelope_fields_ok_def ciphertext_ok_def outer_consts limits)

lemma OuterEnvelope_aad_Ok:
  "envelope_ok e \<Longrightarrow> OuterEnvelope_aad e =
     Ok (outer_aad_bytes (oe_mailbox e) (oe_message_id e) (oe_expires_at_unix e) (oe_sender_ephemeral e)
       (length (ct_body (oe_ciphertext e))))"
  using envelope_okD [of e] by (simp add: OuterEnvelope_aad_def outer_encode_aad_Ok)

lemma length_envelope_bytes:
  "envelope_ok e \<Longrightarrow> length (envelope_bytes e) = 122 + length (ct_body (oe_ciphertext e))"
  using envelope_okD [of e] by (simp add: envelope_bytes_def)

lemma OuterEnvelope_encode_Ok: "envelope_ok e \<Longrightarrow> OuterEnvelope_encode e = Ok (envelope_bytes e)"
  using envelope_okD [of e]
  by (simp add: OuterEnvelope_encode_def OuterEnvelope_aad_Ok checked_add_usize_def usize_limit_def
      envelope_bytes_def)

lemma from_ciphertext_outer:
  "envelope_ok e \<Longrightarrow> OuterEnvelope_from_ciphertext (oe_mailbox e) (oe_message_id e) (oe_expires_at_unix e)
     (oe_sender_ephemeral e) (oe_ciphertext e) = Ok e"
  using envelope_okD [of e]
  by (simp add: OuterEnvelope_from_ciphertext_def outer_encode_aad_Ok outer_consts)

lemma from_ciphertext_outer_fields:
  "OuterEnvelope_from_ciphertext m i t pk c = Inr e \<Longrightarrow>
     e = \<lparr>oe_mailbox = m, oe_message_id = i, oe_expires_at_unix = t, oe_sender_ephemeral = pk, oe_ciphertext = c\<rparr>"
  by (auto simp: OuterEnvelope_from_ciphertext_def bind_res_Ok split: if_splits)

text \<open>The parser within the length bounds.\<close>

definition envelope_at :: "bytes \<Rightarrow> outer_envelope" where
  "envelope_at bs =
     \<lparr>oe_mailbox = MailboxCapability (sub_list 5 37 bs),
      oe_message_id = TransportMessageId (sub_list 37 53 bs),
      oe_expires_at_unix = from_be_bytes (sub_list 53 61 bs),
      oe_sender_ephemeral = DhPublicKey (sub_list 61 93 bs),
      oe_ciphertext = \<lparr>ct_suite = OUTER_SUITE, ct_nonce = sub_list 98 122 bs,
        ct_body = sub_list 122 (length bs) bs\<rparr>\<rparr>"

lemma outer_decode_in_range:
  assumes "98 \<le> length bs" "length bs \<le> MAX_CIPHERTEXT_LEN + 122"
  shows "OuterEnvelope_decode bs =
    (if sub_list 0 3 bs \<noteq> OUTER_MAGIC \<or> bs ! 3 \<noteq> OUTER_VERSION then Err InvalidFrame else
     bind_res (AeadSuite_from_id (bs ! 4)) (\<lambda>suite.
     let body_len = unat (from_be_bytes (sub_list 94 98 bs) :: u32) in
     if suite \<noteq> OUTER_SUITE \<or> unat (bs ! 93) \<noteq> 24 \<or> \<not> (16 \<le> body_len \<and> body_len \<le> MAX_CIPHERTEXT_LEN)
        \<or> length bs \<noteq> 122 + body_len
     then Err InvalidFrame else Ok (envelope_at bs)))"
proof -
  have range: "\<not> (length bs < OUTER_FIXED_LEN \<or> length bs > MAX_CIPHERTEXT_LEN + (OUTER_FIXED_LEN + 24))"
    using assms by (simp add: outer_consts)
  have tail: "OuterEnvelope_from_ciphertext (MailboxCapability (sub_list 5 37 bs))
      (TransportMessageId (sub_list 37 53 bs)) (from_be_bytes (sub_list 53 61 bs))
      (DhPublicKey (sub_list 61 93 bs))
      \<lparr>ct_suite = OUTER_SUITE, ct_nonce = sub_list 98 122 bs, ct_body = sub_list 122 (length bs) bs\<rparr> = Ok (envelope_at bs)"
    if "138 \<le> length bs"
  proof -
    have "16 \<le> length bs - 122" "length bs - 122 \<le> MAX_CIPHERTEXT_LEN" using assms that by linarith+
    then have "envelope_ok (envelope_at bs)"
      using that by (simp add: envelope_at_def envelope_ok_def ciphertext_ok_def outer_consts AEAD_TAG_LEN_def)
    from from_ciphertext_outer [OF this] show ?thesis by (simp add: envelope_at_def)
  qed
  show ?thesis
    unfolding OuterEnvelope_decode_def if_not_P [OF range] outer_consts
    using assms tail
    by (auto simp: Let_def add_usize_def limits outer_consts checked_add_usize_def Ciphertext_from_parts_def
        split: res_split if_splits)
qed

lemma outer_decode_out_of_range:
  "length bs < 98 \<or> length bs > MAX_CIPHERTEXT_LEN + 122 \<Longrightarrow> OuterEnvelope_decode bs = Err InvalidFrame"
  by (simp add: OuterEnvelope_decode_def outer_consts)

lemma envelope_bytes_fields:
  assumes "envelope_ok e"
  shows "sub_list 0 3 (envelope_bytes e) = OUTER_MAGIC" "envelope_bytes e ! 3 = OUTER_VERSION"
    "envelope_bytes e ! 4 = AeadSuite_id OUTER_SUITE"
    "sub_list 5 37 (envelope_bytes e) = mailbox_bytes (oe_mailbox e)"
    "sub_list 37 53 (envelope_bytes e) = transport_bytes (oe_message_id e)"
    "sub_list 53 61 (envelope_bytes e) = to_be_bytes (oe_expires_at_unix e)"
    "sub_list 61 93 (envelope_bytes e) = dh_public_bytes (oe_sender_ephemeral e)"
    "envelope_bytes e ! 93 = 24"
    "sub_list 94 98 (envelope_bytes e) = to_be_bytes (word_of_nat (length (ct_body (oe_ciphertext e))) :: u32)"
    "sub_list 98 122 (envelope_bytes e) = ct_nonce (oe_ciphertext e)"
    "sub_list 122 (122 + length (ct_body (oe_ciphertext e))) (envelope_bytes e) = ct_body (oe_ciphertext e)"
  using envelope_okD [OF assms]
  by (simp_all add: envelope_bytes_def outer_aad_bytes_def envelope_fields_ok_def outer_consts
      sub_list_def nth_append nth_Cons')

lemma ciphertext_eta [simp]:
  "\<lparr>ct_suite = ct_suite c, ct_nonce = ct_nonce c, ct_body = ct_body c\<rparr> = c"
  by simp

lemma envelope_at_encoded: "envelope_ok e \<Longrightarrow> envelope_at (envelope_bytes e) = e"
  using envelope_okD(6) [of e, symmetric] length_envelope_bytes [of e]
  by (simp add: envelope_at_def envelope_bytes_fields)

lemma outer_decode_Ok:
  "OuterEnvelope_decode bs = Ok e \<longleftrightarrow> envelope_ok e \<and> bs = envelope_bytes e"
proof
  assume run: "OuterEnvelope_decode bs = Ok e"
  have range: "98 \<le> length bs" "length bs \<le> MAX_CIPHERTEXT_LEN + 122"
    using run outer_decode_out_of_range [of bs] by (auto simp: not_less [symmetric])
  from run have magic: "sub_list 0 3 bs = OUTER_MAGIC" and version: "bs ! 3 = OUTER_VERSION"
    and suite: "AeadSuite_from_id (bs ! 4) = Ok OUTER_SUITE" and nl: "unat (bs ! 93) = 24"
    and bl: "16 \<le> unat (from_be_bytes (sub_list 94 98 bs) :: u32)"
      "unat (from_be_bytes (sub_list 94 98 bs) :: u32) \<le> MAX_CIPHERTEXT_LEN"
      "length bs = 122 + unat (from_be_bytes (sub_list 94 98 bs) :: u32)" and e: "e = envelope_at bs"
    by (auto simp: outer_decode_in_range [OF range] bind_res_Ok Let_def split: if_splits)
  have "envelope_ok e"
    using bl by (simp add: e envelope_at_def envelope_ok_def ciphertext_ok_def outer_consts AEAD_TAG_LEN_def)
  moreover have id4: "AeadSuite_id OUTER_SUITE = bs ! 4" using suite by (simp add: suite.to_of_id)
  moreover have "unat (24 :: u8) = unat (bs ! 93)" using nl by simp
  then have n24: "(24 :: u8) = bs ! 93" by (simp only: unsigned_word_eqI)
  moreover have body: "length (ct_body (oe_ciphertext e)) = unat (from_be_bytes (sub_list 94 98 bs) :: u32)"
    using bl(3) by (simp add: e envelope_at_def)
  moreover have "envelope_bytes e = sub_list 0 3 bs @ [bs ! 3] @ [bs ! 4] @ sub_list 5 37 bs @ sub_list 37 53 bs
      @ sub_list 53 61 bs @ sub_list 61 93 bs @ [bs ! 93] @ sub_list 94 98 bs @ sub_list 98 122 bs
      @ sub_list 122 (length bs) bs"
    unfolding envelope_bytes_def outer_aad_bytes_def body id4 n24 magic [symmetric] version [symmetric]
    using bl by (simp add: e envelope_at_def)
  moreover have "\<dots> = bs" using bl by (simp add: slice_join)
  ultimately show "envelope_ok e \<and> bs = envelope_bytes e" by simp
next
  assume "envelope_ok e \<and> bs = envelope_bytes e"
  then have e: "envelope_ok e" and bs: "bs = envelope_bytes e" by simp_all
  note ok = envelope_okD [OF e] and len = length_envelope_bytes [OF e]
  have range: "98 \<le> length bs" "length bs \<le> MAX_CIPHERTEXT_LEN + 122" using len ok by (simp_all add: bs)
  have u: "unat (word_of_nat (length (ct_body (oe_ciphertext e))) :: u32) = length (ct_body (oe_ciphertext e))"
    using ok(5) by (simp add: unat_of_nat)
  show "OuterEnvelope_decode bs = Ok e"
    using outer_decode_in_range [OF range] ok u
    by (simp add: bs envelope_bytes_fields [OF e] suite.of_to_id Let_def len envelope_at_encoded [OF e])
qed

lemma envelope_truncated:
  assumes e: "envelope_ok e" and n: "n < length (envelope_bytes e)"
  shows "OuterEnvelope_decode (take n (envelope_bytes e)) = Err InvalidFrame"
proof (cases "98 \<le> n")
  case True
  let ?bs = "take n (envelope_bytes e)"
  note ok = envelope_okD [OF e] and fields = envelope_bytes_fields [OF e]
  have u: "unat (word_of_nat (length (ct_body (oe_ciphertext e))) :: u32) = length (ct_body (oe_ciphertext e))"
    using ok(5) by (simp add: unat_of_nat)
  have len: "length ?bs = n" using n by simp
  have "n \<le> MAX_CIPHERTEXT_LEN + 122" using n length_envelope_bytes [OF e] ok(4) by simp
  then show ?thesis
    using n True outer_decode_in_range [of ?bs] length_envelope_bytes [OF e]
    by (simp add: len sub_list_take fields suite.of_to_id u Let_def)
next
  case False
  then show ?thesis using n by (simp add: outer_decode_out_of_range)
qed

lemma envelope_extended:
  assumes e: "envelope_ok e" and ext: "ext \<noteq> []"
  shows "OuterEnvelope_decode (envelope_bytes e @ ext) = Err InvalidFrame"
proof (cases "length (envelope_bytes e @ ext) \<le> MAX_CIPHERTEXT_LEN + 122")
  case True
  let ?bs = "envelope_bytes e @ ext"
  note ok = envelope_okD [OF e] and fields = envelope_bytes_fields [OF e]
  have "98 \<le> length (envelope_bytes e)" using length_envelope_bytes [OF e] by simp
  then have same: "sub_list a b ?bs = sub_list a b (envelope_bytes e)" "i < 98 \<Longrightarrow> ?bs ! i = envelope_bytes e ! i"
    if "a \<le> b" "b \<le> 98" for a b i
    using that by (simp_all add: sub_list_def nth_append)
  have u: "unat (word_of_nat (length (ct_body (oe_ciphertext e))) :: u32) = length (ct_body (oe_ciphertext e))"
    using ok(5) by (simp add: unat_of_nat)
  show ?thesis
    using ext outer_decode_in_range [of ?bs] True length_envelope_bytes [OF e]
    by (simp add: same same(2) [of 0 0] fields suite.of_to_id u Let_def)
next
  case False
  then show ?thesis by (simp add: outer_decode_out_of_range)
qed

lemma outer_decode_no_panic: "OuterEnvelope_decode bs \<noteq> Panics"
proof (cases "98 \<le> length bs \<and> length bs \<le> MAX_CIPHERTEXT_LEN + 122")
  case True
  then show ?thesis
    by (auto simp: outer_decode_in_range Let_def bind_res_Inl dest: suite.of_id_error)
next
  case False
  then have "length bs < 98 \<or> length bs > MAX_CIPHERTEXT_LEN + 122" by linarith
  then show ?thesis by (simp add: outer_decode_out_of_range)
qed

interpretation outer: self_delimiting_format OuterEnvelope_encode OuterEnvelope_decode envelope_ok
proof unfold_locales
  show "OuterEnvelope_decode bs \<noteq> Panics" for bs by (rule outer_decode_no_panic)
  show "ext = []" if "OuterEnvelope_decode bs = Ok x" "OuterEnvelope_decode (bs @ ext) = Ok y" for bs x ext y
  proof -
    have x: "envelope_ok x" "bs = envelope_bytes x" and y: "envelope_ok y" "bs @ ext = envelope_bytes y"
      using that by (simp_all add: outer_decode_Ok)
    have "sub_list 94 98 (bs @ ext) = sub_list 94 98 bs"
      using length_envelope_bytes [OF x(1)] by (simp add: x(2) sub_list_def)
    then have "(to_be_bytes (word_of_nat (length (ct_body (oe_ciphertext y))) :: u32)) =
        to_be_bytes (word_of_nat (length (ct_body (oe_ciphertext x))) :: u32)"
      using envelope_bytes_fields(9) [OF x(1)] envelope_bytes_fields(9) [OF y(1)] x(2) y(2) by simp
    then have "length (ct_body (oe_ciphertext y)) = length (ct_body (oe_ciphertext x))"
      using envelope_okD(5) [OF x(1)] envelope_okD(5) [OF y(1)] by (intro u32_of_nat_inj) simp_all
    then have "length (bs @ ext) = length bs"
      using length_envelope_bytes [OF x(1)] length_envelope_bytes [OF y(1)] x(2) y(2) by simp
    then show ?thesis by simp
  qed
qed (auto simp: outer_decode_Ok OuterEnvelope_encode_Ok)

section \<open>Opening what was sealed\<close>

definition envelope_key :: "primitives \<Rightarrow> mailbox_capability \<Rightarrow> bytes \<Rightarrow> aead_key res" where
  "envelope_key P mailbox shared = derive_aead_key P (mailbox_bytes mailbox) (ascii ''outer-envelope-v1'') shared"

lemma seal_envelope:
  assumes f: "frame_ok f" and m: "length (mailbox_bytes m) = 32" and P: "sizes_ok P"
    and run: "OuterEnvelope_seal P pk m t f pad r = (Inr e, r')"
  obtains kp shared key where
    "DhKeyPair_generate P r = (Ok kp, Suc r)" "DhKeyPair_diffie_hellman P kp pk = Ok shared"
    "envelope_key P m shared = Ok key"
    "oe_mailbox e = m" "oe_expires_at_unix e = t" "oe_sender_ephemeral e = kp_public kp"
    "envelope_ok e" "length (frame_bytes f) + pad \<le> MAX_CIPHERTEXT_LEN - AEAD_TAG_LEN"
    "aead_seal P key OUTER_SUITE
       (outer_aad_bytes m (oe_message_id e) t (kp_public kp) (length (frame_bytes f) + pad + AEAD_TAG_LEN))
       (frame_bytes f @ replicate pad 0) (Suc (Suc r)) = (Ok (oe_ciphertext e), r')"
proof -
  note enc = InnerFrame_encode_Ok [OF f]
  from run obtain kp r1 shared key i r2 aad c where
    kp: "DhKeyPair_generate P r = (Ok kp, r1)" and shared: "DhKeyPair_diffie_hellman P kp pk = Ok shared"
    and key: "envelope_key P m shared = Ok key" and i: "TransportMessageId_generate P r1 = (Ok i, r2)"
    and small: "length (frame_bytes f) + pad \<le> MAX_CIPHERTEXT_LEN - AEAD_TAG_LEN"
    and aad: "outer_encode_aad m i t (kp_public kp) (length (frame_bytes f) + pad + AEAD_TAG_LEN) = Ok aad"
    and seal: "aead_seal P key OUTER_SUITE aad (frame_bytes f @ replicate pad 0) r2 = (Ok c, r')"
    and e: "OuterEnvelope_from_ciphertext m i t (kp_public kp) c = Ok e"
    unfolding OuterEnvelope_seal_def
    by (auto simp: io_bind_Ok io_lift_def enc ok_or_Ok checked_add_usize_def Let_def envelope_key_def
        split: if_splits)
  have r: "r1 = Suc r" "r2 = Suc (Suc r)" and bs: "length (transport_bytes i) = 16"
    using kp i sizes_okD(1) [OF P] by (auto simp: DhKeyPair_generate_Ok TransportMessageId_generate_Ok)
  have fields: "envelope_fields_ok m i (kp_public kp)"
    using m bs key_pair_public_length [OF P DhKeyPair_generate_pair_ok [OF P kp]]
    by (simp add: envelope_fields_ok_def)
  then have "aad = outer_aad_bytes m i t (kp_public kp) (length (frame_bytes f) + pad + AEAD_TAG_LEN)"
    using aad by (simp add: outer_encode_aad_Ok split: if_splits)
  moreover have parts: "e = \<lparr>oe_mailbox = m, oe_message_id = i, oe_expires_at_unix = t,
      oe_sender_ephemeral = kp_public kp, oe_ciphertext = c\<rparr>"
    using from_ciphertext_outer_fields [OF e] .
  moreover have "envelope_ok e"
    using fields aead_seal_ciphertext(1,2) [OF seal] by (simp add: parts envelope_ok_def envelope_fields_ok_def)
  ultimately show thesis
    using that [of kp shared key] kp shared key small seal r by simp
qed

text \<open>Sealing succeeds for a frame that fits and a key the exchange accepts.\<close>

lemma seal_envelope_runs:
  assumes P: "sizes_ok P" "aeads_ok P" "hkdf_total P"
    and ib: "sys_rng P (Suc r) 16 = Some ib"
    and nonce: "sys_rng P (Suc (Suc r)) (AeadSuite_nonce_len OUTER_SUITE) = Some nonce"
    and f: "frame_ok f" and m: "length (mailbox_bytes m) = 32"
    and kp: "DhKeyPair_generate P r = (Ok kp, Suc r)" and shared: "DhKeyPair_diffie_hellman P kp pk = Ok shared"
    and small: "length (frame_bytes f) + pad \<le> MAX_CIPHERTEXT_LEN - AEAD_TAG_LEN"
  shows "\<exists>e. OuterEnvelope_seal P pk m t f pad r = (Ok e, Suc (Suc (Suc r)))"
proof -
  have "length shared \<le> MAX_CIPHERTEXT_LEN" "ascii ''outer-envelope-v1'' \<noteq> []" "length (ascii ''outer-envelope-v1'') \<le> 255"
    using diffie_hellman_length [OF P(1) shared] by (simp_all add: MAX_CIPHERTEXT_LEN_def ascii_def)
  then obtain key where key: "derive_aead_key P (mailbox_bytes m) (ascii ''outer-envelope-v1'') shared = Ok key"
    using derive_aead_key_total [OF P(3)] by blast
  have id: "TransportMessageId_generate P (Suc r) = (Ok (TransportMessageId ib), Suc (Suc r))"
    using ib by (simp add: TransportMessageId_generate_Ok)
  let ?n = "length (frame_bytes f) + pad"
  have fields: "envelope_fields_ok m (TransportMessageId ib) (kp_public kp)"
    using m sizes_okD(1) [OF P(1) ib] key_pair_public_length [OF P(1) DhKeyPair_generate_pair_ok [OF P(1) kp]]
    by (simp add: envelope_fields_ok_def)
  have lim: "?n + AEAD_TAG_LEN < 2 ^ 32" using small by (simp add: limits)
  let ?aad = "outer_aad_bytes m (TransportMessageId ib) t (kp_public kp) (?n + AEAD_TAG_LEN)"
  have aad: "outer_encode_aad m (TransportMessageId ib) t (kp_public kp) (?n + AEAD_TAG_LEN) = Ok ?aad"
    using fields lim by (simp add: outer_encode_aad_Ok)
  have len: "length ?aad \<le> MAX_AAD_LEN" using fields by (simp add: MAX_AAD_LEN_def)
  obtain c where c: "aead_seal P key OUTER_SUITE ?aad (frame_bytes f @ replicate pad 0) (Suc (Suc r)) =
      (Ok c, Suc (Suc (Suc r)))"
    using aead_seal_total [OF P(2,1) derive_aead_key_length [OF P(1) key] len _ nonce,
        of "frame_bytes f @ replicate pad 0"] small by auto
  let ?e = "\<lparr>oe_mailbox = m, oe_message_id = TransportMessageId ib, oe_expires_at_unix = t,
      oe_sender_ephemeral = kp_public kp, oe_ciphertext = c\<rparr>"
  have "envelope_ok ?e"
    using fields aead_seal_ciphertext(1,2) [OF c] by (simp add: envelope_ok_def envelope_fields_ok_def)
  from from_ciphertext_outer [OF this]
  have "OuterEnvelope_from_ciphertext m (TransportMessageId ib) t (kp_public kp) c = Ok ?e" by simp
  with kp shared key id small lim aad c InnerFrame_encode_Ok [OF f] show ?thesis
    by (simp add: OuterEnvelope_seal_def io_bind_def checked_add_usize_def limits)
qed

lemma seal_envelope_total:
  assumes P: "sizes_ok P" "aeads_ok P" "hkdf_total P" "rng_total P"
    and rest: "frame_ok f" "length (mailbox_bytes m) = 32"
      "DhKeyPair_generate P r = (Ok kp, Suc r)" "DhKeyPair_diffie_hellman P kp pk = Ok shared"
      "length (frame_bytes f) + pad \<le> MAX_CIPHERTEXT_LEN - AEAD_TAG_LEN"
  shows "\<exists>e. OuterEnvelope_seal P pk m t f pad r = (Ok e, Suc (Suc (Suc r)))"
proof -
  obtain ib nonce where "sys_rng P (Suc r) 16 = Some ib"
    "sys_rng P (Suc (Suc r)) (AeadSuite_nonce_len OUTER_SUITE) = Some nonce"
    using P(4) unfolding rng_total_def by blast
  from seal_envelope_runs [OF P(1-3) this rest] show ?thesis .
qed

text \<open>
  The recipient gets back the frame, whatever the padding, until the envelope expires.
\<close>

lemma open_sealed_plaintext:
  assumes P: "sizes_ok P" "aeads_ok P" "x25519_ok P"
    and f: "frame_ok f" and m: "length (mailbox_bytes m) = 32"
    and recipient: "key_pair_ok P kp0"
    and run: "OuterEnvelope_seal P (kp_public kp0) m t f pad r = (Inr e, r')"
  shows "OuterEnvelope_open P e (kp_secret kp0) now =
    (if now > t then Err EnvelopeExpired else Ok (frame_bytes f @ replicate pad 0))"
    and "length (frame_bytes f) + pad \<le> MAX_CIPHERTEXT_LEN - AEAD_TAG_LEN"
proof -
  obtain kp shared key where
    kp: "DhKeyPair_generate P r = (Ok kp, Suc r)" and shared: "DhKeyPair_diffie_hellman P kp (kp_public kp0) = Ok shared"
    and key: "envelope_key P m shared = Ok key"
    and e: "oe_mailbox e = m" "oe_expires_at_unix e = t" "oe_sender_ephemeral e = kp_public kp"
    and ok: "envelope_ok e" and small: "length (frame_bytes f) + pad \<le> MAX_CIPHERTEXT_LEN - AEAD_TAG_LEN"
    and seal: "aead_seal P key OUTER_SUITE
       (outer_aad_bytes m (oe_message_id e) t (kp_public kp) (length (frame_bytes f) + pad + AEAD_TAG_LEN))
       (frame_bytes f @ replicate pad 0) (Suc (Suc r)) = (Ok (oe_ciphertext e), r')"
    by (rule seal_envelope [OF f m P(1) run])
  have "DhKeyPair_diffie_hellman P kp0 (kp_public kp) = Ok shared"
    using diffie_hellman_agrees [OF P(3) recipient DhKeyPair_generate_pair_ok [OF P(1) kp]] shared by simp
  then have dh: "DhSecretKey_diffie_hellman P (kp_secret kp0) (kp_public kp) = Ok shared"
    by (simp add: DhKeyPair_diffie_hellman_def)
  have "length (ct_body (oe_ciphertext e)) = length (frame_bytes f) + pad + AEAD_TAG_LEN"
    using aead_seal_body_length [OF P(2) seal] by simp
  then show "OuterEnvelope_open P e (kp_secret kp0) now =
      (if now > t then Err EnvelopeExpired else Ok (frame_bytes f @ replicate pad 0))"
    using dh key open_seal [OF P(2) seal] OuterEnvelope_aad_Ok [OF ok]
    by (simp add: OuterEnvelope_open_def e envelope_key_def)
  show "length (frame_bytes f) + pad \<le> MAX_CIPHERTEXT_LEN - AEAD_TAG_LEN" by (rule small)
qed

lemma open_sealed_envelope:
  assumes P: "sizes_ok P" "aeads_ok P" "x25519_ok P"
    and f: "frame_ok f" and m: "length (mailbox_bytes m) = 32"
    and recipient: "key_pair_ok P kp0"
    and run: "OuterEnvelope_seal P (kp_public kp0) m t f pad r = (Inr e, r')"
  shows "OuterEnvelope_open_inner P e (kp_secret kp0) now =
    (if now \<le> t then Ok f else Err EnvelopeExpired)"
proof -
  note opened = open_sealed_plaintext [OF assms]
  have "length (frame_bytes f @ replicate pad 0) \<le> MAX_CIPHERTEXT_LEN + 107" using opened(2) by simp
  from decode_prefix_encoded [OF f this] show ?thesis
    by (auto simp: OuterEnvelope_open_inner_def opened(1) sub_list_def)
qed

text \<open>What is opened is a frame followed by zeros, sealed for exactly this envelope.\<close>

lemma open_inner_sound:
  assumes P: "aeads_ok P" and e: "envelope_ok e"
    and run: "OuterEnvelope_open_inner P e secret now = Ok f"
  shows "\<exists>shared key pad. now \<le> oe_expires_at_unix e \<and> frame_ok f \<and>
    DhSecretKey_diffie_hellman P secret (oe_sender_ephemeral e) = Ok shared \<and>
    envelope_key P (oe_mailbox e) shared = Ok key \<and>
    seal_with_nonce P key OUTER_SUITE (ct_nonce (oe_ciphertext e))
      (outer_aad_bytes (oe_mailbox e) (oe_message_id e) (oe_expires_at_unix e) (oe_sender_ephemeral e)
        (length (ct_body (oe_ciphertext e))))
      (frame_bytes f @ replicate pad 0) = Ok (oe_ciphertext e)"
proof -
  from run obtain pt n where pt: "OuterEnvelope_open P e secret now = Ok pt"
    and pre: "InnerFrame_decode_prefix pt = Ok (f, n)"
    and zeros: "bind_res (slice n (length pt) pt) (\<lambda>padding.
      if \<exists>byte \<in> set padding. byte \<noteq> 0 then Err InvalidFrame else Ok f) = Ok f"
    by (auto simp: OuterEnvelope_open_inner_def bind_res_Ok split: if_splits)
  note sound = decode_prefix_sound [OF pre]
  have "\<forall>byte \<in> set (drop n pt). byte = 0"
    using zeros sound(3) by (auto simp: sub_list_def split: if_splits)
  then have "drop n pt = replicate (length pt - n) 0"
    by (intro replicate_eqI) simp_all
  then have form: "pt = frame_bytes f @ replicate (length pt - n) 0"
    using append_take_drop_id [of n pt] sound(4) by simp
  note ok = envelope_okD [OF e]
  from pt obtain shared key where now: "now \<le> oe_expires_at_unix e"
    and dh: "DhSecretKey_diffie_hellman P secret (oe_sender_ephemeral e) = Ok shared"
    and key: "envelope_key P (oe_mailbox e) shared = Ok key"
    and opened: "aead_open P key (oe_ciphertext e)
      (outer_aad_bytes (oe_mailbox e) (oe_message_id e) (oe_expires_at_unix e) (oe_sender_ephemeral e)
        (length (ct_body (oe_ciphertext e)))) = Ok pt"
    by (auto simp: OuterEnvelope_open_def OuterEnvelope_aad_Ok [OF e] envelope_key_def bind_res_Ok not_less
        split: if_splits)
  have "length (outer_aad_bytes (oe_mailbox e) (oe_message_id e) (oe_expires_at_unix e) (oe_sender_ephemeral e)
        (length (ct_body (oe_ciphertext e)))) \<le> MAX_AAD_LEN"
    using ok(1) by (simp add: limits)
  from open_iff_seal [OF P ok(7) this] opened ok(6)
  have "seal_with_nonce P key OUTER_SUITE (ct_nonce (oe_ciphertext e))
      (outer_aad_bytes (oe_mailbox e) (oe_message_id e) (oe_expires_at_unix e) (oe_sender_ephemeral e)
        (length (ct_body (oe_ciphertext e)))) pt = Ok (oe_ciphertext e)" by simp
  with now dh key form sound(1) show ?thesis by metis
qed

lemma open_inner_complete:
  assumes P: "aeads_ok P" and e: "envelope_ok e" and now: "now \<le> oe_expires_at_unix e" and f: "frame_ok f"
    and dh: "DhSecretKey_diffie_hellman P secret (oe_sender_ephemeral e) = Ok shared"
    and key: "envelope_key P (oe_mailbox e) shared = Ok key"
    and seal: "seal_with_nonce P key OUTER_SUITE (ct_nonce (oe_ciphertext e))
      (outer_aad_bytes (oe_mailbox e) (oe_message_id e) (oe_expires_at_unix e) (oe_sender_ephemeral e)
        (length (ct_body (oe_ciphertext e))))
      (frame_bytes f @ replicate pad 0) = Ok (oe_ciphertext e)"
  shows "OuterEnvelope_open_inner P e secret now = Ok f"
proof -
  note ok = envelope_okD [OF e]
  let ?aad = "outer_aad_bytes (oe_mailbox e) (oe_message_id e) (oe_expires_at_unix e) (oe_sender_ephemeral e)
    (length (ct_body (oe_ciphertext e)))"
  have "length ?aad \<le> MAX_AAD_LEN" using ok(1) by (simp add: limits)
  from open_iff_seal [OF P ok(7) this] seal ok(6)
  have "aead_open P key (oe_ciphertext e) ?aad = Ok (frame_bytes f @ replicate pad 0)" by simp
  then have opened: "OuterEnvelope_open P e secret now = Ok (frame_bytes f @ replicate pad 0)"
    using now dh key OuterEnvelope_aad_Ok [OF e] by (simp add: OuterEnvelope_open_def envelope_key_def)
  have "length (frame_bytes f @ replicate pad 0) \<le> MAX_CIPHERTEXT_LEN + 107"
    using seal unfolding seal_with_nonce_Ok by linarith
  from decode_prefix_encoded [OF f this] show ?thesis
    by (simp add: OuterEnvelope_open_inner_def opened sub_list_def)
qed

section \<open>At most once\<close>

text \<open>Deliveries of envelopes at given times, against one cache.\<close>

fun open_all ::
    "primitives \<Rightarrow> dh_secret \<Rightarrow> (outer_envelope \<times> u64) list \<Rightarrow> replay_cache
       \<Rightarrow> inner_frame res list \<times> replay_cache" where
  "open_all P secret [] cache = ([], cache)"
| "open_all P secret ((e, now) # rest) cache =
     (case OuterEnvelope_open_inner_once P e secret now cache of (res, cache1) \<Rightarrow>
        case open_all P secret rest cache1 of (results, cache2) \<Rightarrow> (res # results, cache2))"

lemma open_once_Ok:
  "OuterEnvelope_open_inner_once P e secret now cache = (Inr f, cache') \<longleftrightarrow>
     OuterEnvelope_open_inner P e secret now = Inr f \<and>
     check_and_insert (oe_message_id e) (oe_expires_at_unix e) now cache = (Inr (), cache')"
  by (auto simp: OuterEnvelope_open_inner_once_def split: sum.splits prod.splits)

text \<open>A failed opening leaves the cache alone.\<close>

lemma open_once_unauthenticated:
  "OuterEnvelope_open_inner P e secret now = Inl err \<Longrightarrow>
     OuterEnvelope_open_inner_once P e secret now cache = (Inl err, cache)"
  by (simp add: OuterEnvelope_open_inner_once_def)

lemma open_inner_expired:
  "now > oe_expires_at_unix e \<Longrightarrow> OuterEnvelope_open_inner P e secret now = Err EnvelopeExpired"
  by (simp add: OuterEnvelope_open_inner_def OuterEnvelope_open_def)

lemma open_once_cache:
  "snd (OuterEnvelope_open_inner_once P e secret now cache) =
     (case OuterEnvelope_open_inner P e secret now of
        Inl err \<Rightarrow> cache
      | Inr f \<Rightarrow> cache_step (oe_message_id e, oe_expires_at_unix e, now) cache)"
  by (auto simp: OuterEnvelope_open_inner_once_def split: sum.splits prod.splits)

text \<open>Once accepted, an envelope is refused at every time, as long as the clock did not pass its expiry in between.\<close>

lemma accepted_once:
  assumes "(oe_message_id e, oe_expires_at_unix e) \<in> set (rc_entries cache)"
  shows "fst (OuterEnvelope_open_inner_once P e secret now cache) \<noteq> Inr f"
proof (cases "now \<le> oe_expires_at_unix e")
  case True
  show ?thesis
  proof
    assume "fst (OuterEnvelope_open_inner_once P e secret now cache) = Inr f"
    then obtain cache' where "OuterEnvelope_open_inner_once P e secret now cache = (Inr f, cache')"
      by (metis prod.collapse)
    then have "check_and_insert (oe_message_id e) (oe_expires_at_unix e) now cache = (Inr (), cache')"
      by (simp add: open_once_Ok)
    with live_refused [OF assms True, of "oe_expires_at_unix e"] show False by simp
  qed
next
  case False
  then show ?thesis using open_inner_expired [of e now P secret]
    by (simp add: open_once_unauthenticated)
qed

text \<open>Which deliveries of one envelope are accepted, in a sequence with a clock that never goes back.\<close>

fun clock_ok :: "u64 \<Rightarrow> (outer_envelope \<times> u64) list \<Rightarrow> bool" where
  "clock_ok t [] = True"
| "clock_ok t ((e, now) # rest) = (t \<le> now \<and> clock_ok now rest)"

fun accepted :: "outer_envelope \<Rightarrow> (outer_envelope \<times> u64) list \<Rightarrow> inner_frame res list \<Rightarrow> nat" where
  "accepted e ((e', now) # ds) (res # results) =
     (if e' = e \<and> (case res of Inr f \<Rightarrow> True | Inl err \<Rightarrow> False) then 1 else 0) + accepted e ds results"
| "accepted e ds results = 0"

lemma clock_ok_after: "clock_ok t ds \<Longrightarrow> (e, now) \<in> set ds \<Longrightarrow> t \<le> now"
proof (induction ds arbitrary: t)
  case (Cons d ds)
  obtain e1 now1 where d: "d = (e1, now1)" by (cases d)
  from Cons have "(e, now) = d \<or> (e, now) \<in> set ds" "t \<le> now1" "clock_ok now1 ds" by (auto simp: d)
  then show ?case using Cons.IH d by fastforce
qed simp

definition spent :: "outer_envelope \<Rightarrow> u64 \<Rightarrow> replay_cache \<Rightarrow> bool" where
  "spent e t cache \<longleftrightarrow>
     (oe_message_id e, oe_expires_at_unix e) \<in> set (rc_entries cache) \<or> t > oe_expires_at_unix e"

lemma spent_refused:
  assumes "spent e t cache" "t \<le> now"
  shows "fst (OuterEnvelope_open_inner_once P e secret now cache) \<noteq> Inr f"
  using assms accepted_once [of e cache P secret now f] open_inner_expired [of e now P secret]
  by (auto simp: spent_def open_once_unauthenticated dest: less_le_trans)

lemma spent_kept:
  assumes "spent e t cache" "t \<le> now"
  shows "spent e now (snd (OuterEnvelope_open_inner_once P e' secret now cache))"
proof (cases "now \<le> oe_expires_at_unix e")
  case True
  with assms have "(oe_message_id e, oe_expires_at_unix e) \<in> set (rc_entries cache)"
    by (auto simp: spent_def)
  with True show ?thesis
    by (auto simp: spent_def open_once_cache intro: entry_kept split: sum.split)
qed (simp add: spent_def not_le)

lemma accepted_spent:
  "spent e t cache \<Longrightarrow> clock_ok t ds \<Longrightarrow> accepted e ds (fst (open_all P secret ds cache)) = 0"
proof (induction ds arbitrary: t cache)
  case (Cons d ds)
  obtain e1 now where d: "d = (e1, now)" by (cases d)
  have le: "t \<le> now" and rest: "clock_ok now ds" using Cons.prems(2) by (simp_all add: d)
  obtain res cache1 where step: "OuterEnvelope_open_inner_once P e1 secret now cache = (res, cache1)"
    by (metis prod.exhaust)
  have "spent e now cache1" using spent_kept [OF Cons.prems(1) le, of P e1 secret] by (simp add: step)
  note later = Cons.IH [OF this rest]
  have "e1 = e \<Longrightarrow> res \<noteq> Inr f" for f
    using spent_refused [OF Cons.prems(1) le, of P secret f] step by auto
  with later show ?case
    by (auto simp: d step case_prod_unfold split: sum.split)
qed simp

lemma at_most_once:
  "clock_ok t ds \<Longrightarrow> accepted e ds (fst (open_all P secret ds cache)) \<le> 1"
proof (induction ds arbitrary: t cache)
  case (Cons d ds)
  obtain e1 now where d: "d = (e1, now)" by (cases d)
  have rest: "clock_ok now ds" using Cons.prems by (simp add: d)
  obtain res cache1 where step: "OuterEnvelope_open_inner_once P e1 secret now cache = (res, cache1)"
    by (metis prod.exhaust)
  show ?case
  proof (cases "e1 = e \<and> (\<exists>f. res = Inr f)")
    case True
    then obtain f where "OuterEnvelope_open_inner_once P e secret now cache = (Inr f, cache1)" using step by auto
    then have "check_and_insert (oe_message_id e) (oe_expires_at_unix e) now cache = (Inr (), cache1)"
      by (simp add: open_once_Ok)
    with check_and_insert_entries [of "oe_message_id e" "oe_expires_at_unix e" now cache]
    have "spent e now cache1" by (simp add: spent_def)
    from accepted_spent [OF this rest] show ?thesis
      by (simp add: d step case_prod_unfold split: sum.split)
  next
    case False
    with Cons.IH [OF rest, of cache1] show ?thesis
      by (auto simp: d step case_prod_unfold split: sum.split)
  qed
qed simp

section \<open>No panics\<close>

lemma outer_encode_aad_no_panic [simp]: "outer_encode_aad m i t pk n \<noteq> Panics"
  by (auto simp: outer_encode_aad_def Let_def bind_res_Inl)

lemma open_inner_no_panic: "OuterEnvelope_open_inner P e secret now \<noteq> Panics"
proof
  assume run: "OuterEnvelope_open_inner P e secret now = Panics"
  have no: "OuterEnvelope_open P e secret now \<noteq> Panics"
    by (auto simp: OuterEnvelope_open_def OuterEnvelope_aad_def bind_res_Inl derive_aead_key_def
        DhSecretKey_diffie_hellman_def Let_def)
  from run no decode_prefix_no_panic obtain pt f n where
    "InnerFrame_decode_prefix pt = Ok (f, n)" "slice n (length pt) pt = Panics"
    by (auto simp: OuterEnvelope_open_inner_def bind_res_Inl split: if_splits)
  with decode_prefix_sound(3) show False by (fastforce simp: slice_def)
qed

lemma open_once_no_panic: "fst (OuterEnvelope_open_inner_once P e secret now cache) \<noteq> Panics"
  using open_inner_no_panic [of P e secret now] check_and_insert_result [of "oe_message_id e" "oe_expires_at_unix e" now cache]
  by (auto simp: OuterEnvelope_open_inner_once_def split: sum.splits prod.splits if_splits)

section \<open>Labels (mod.rs)\<close>

definition envelope_label :: bytes where
  "envelope_label = ascii ''MEF-26/outer-envelope-v1''"

definition envelope_protocol_id :: bytes where
  "envelope_protocol_id = PROTOCOL_ID"

end
