(* ===== verification/Mef_Mlkem.thy ===== *)
theory Mef_Mlkem
  imports Mef_Crypto
begin

text \<open>
  The typed ML-KEM-768 adapter of \<open>src/pq.rs\<close>: keys, ciphertexts and shared secrets as newtypes of bytes
  with their length checks. ML-KEM itself is a parameter.
\<close>

section \<open>ML-KEM-768 (pq.rs)\<close>

datatype mlkem_public_key = MlKem768PublicKey (mlkem_public_bytes: bytes)

datatype mlkem_ciphertext = MlKem768Ciphertext (mlkem_ciphertext_bytes: bytes)

record mlkem_key_pair =
  mk_secret :: bytes
  mk_public :: mlkem_public_key

definition MlKem768KeyPair_public :: "mlkem_key_pair \<Rightarrow> mlkem_public_key" where
  "MlKem768KeyPair_public kp = mk_public kp"

definition MlKem768KeyPair_public_key :: "mlkem_key_pair \<Rightarrow> mlkem_public_key" where
  "MlKem768KeyPair_public_key kp = mk_public kp"

definition MlKem768Ciphertext_to_bytes :: "mlkem_ciphertext \<Rightarrow> bytes" where
  "MlKem768Ciphertext_to_bytes c = mlkem_ciphertext_bytes c"

definition MlKem768PublicKey_to_bytes :: "mlkem_public_key \<Rightarrow> bytes" where
  "MlKem768PublicKey_to_bytes pk = mlkem_public_bytes pk"

declare MlKem768KeyPair_public_def [simp] MlKem768KeyPair_public_key_def [simp]
  MlKem768Ciphertext_to_bytes_def [simp] MlKem768PublicKey_to_bytes_def [simp]

definition SHARED_KEY_LEN :: nat where
  "SHARED_KEY_LEN = 32"

datatype mlkem_shared_secret = MlKem768SharedSecret (mlkem_shared_bytes: bytes)

text \<open>The shared secret has a copying accessor for the tests and a borrowing one for the handshake.\<close>

definition MlKem768SharedSecret_copy_bytes :: "mlkem_shared_secret \<Rightarrow> bytes" where
  "MlKem768SharedSecret_copy_bytes z = mlkem_shared_bytes z"

definition MlKem768SharedSecret_as_bytes :: "mlkem_shared_secret \<Rightarrow> bytes" where
  "MlKem768SharedSecret_as_bytes z = mlkem_shared_bytes z"

declare MlKem768SharedSecret_copy_bytes_def [simp] MlKem768SharedSecret_as_bytes_def [simp]

text \<open>\<open>copy_from_slice\<close> into 32 bytes panics on another length.\<close>

definition shared_secret_from_slice :: "bytes \<Rightarrow> mlkem_shared_secret res" where
  "shared_secret_from_slice bs = (if length bs = SHARED_KEY_LEN then Ok (MlKem768SharedSecret bs) else Panics)"

lemma shared_secret_Ok [res_iff]:
  "shared_secret_from_slice bs = Inr z \<longleftrightarrow> length bs = 32 \<and> z = MlKem768SharedSecret bs"
  by (auto simp: shared_secret_from_slice_def SHARED_KEY_LEN_def)

lemma shared_secret_32 [simp]:
  "length bs = 32 \<Longrightarrow> shared_secret_from_slice bs = Ok (MlKem768SharedSecret bs)"
  by (simp add: shared_secret_from_slice_def SHARED_KEY_LEN_def)

definition MlKem768KeyPair_generate :: "primitives \<Rightarrow> rng \<Rightarrow> mlkem_key_pair res \<times> rng" where
  "MlKem768KeyPair_generate P r =
     (case mlkem_keygen P r of
        None \<Rightarrow> (Err RandomnessUnavailable, Suc r)
      | Some secret \<Rightarrow>
          (Ok \<lparr>mk_secret = secret, mk_public = MlKem768PublicKey (mlkem_public P secret)\<rparr>, Suc r))"

definition MlKem768KeyPair_decapsulate :: "primitives \<Rightarrow> mlkem_key_pair \<Rightarrow> mlkem_ciphertext \<Rightarrow> mlkem_shared_secret res" where
  "MlKem768KeyPair_decapsulate P kp c =
     shared_secret_from_slice (mlkem_decapsulate P (mk_secret kp) (mlkem_ciphertext_bytes c))"

definition MlKem768Ciphertext_from_bytes :: "bytes \<Rightarrow> mlkem_ciphertext res" where
  "MlKem768Ciphertext_from_bytes bs =
     (if length bs \<noteq> 1088 then Err InvalidLength else Ok (MlKem768Ciphertext bs))"

definition MlKem768PublicKey_from_bytes :: "primitives \<Rightarrow> bytes \<Rightarrow> mlkem_public_key res" where
  "MlKem768PublicKey_from_bytes P bs =
     (if length bs \<noteq> 1184 then Err InvalidLength
      else if \<not> mlkem_key_ok P bs then Err AuthenticationFailed
      else Ok (MlKem768PublicKey bs))"

definition MlKem768PublicKey_encapsulate ::
    "primitives \<Rightarrow> mlkem_public_key \<Rightarrow> rng \<Rightarrow> (mlkem_ciphertext \<times> mlkem_shared_secret) res \<times> rng" where
  "MlKem768PublicKey_encapsulate P pk =
     io_bind (fill_secure P 32) (\<lambda>randomness.
     let (ciphertext, shared) = mlkem_encapsulate P (mlkem_public_bytes pk) randomness in
     io_lift (bind_res (shared_secret_from_slice shared) (\<lambda>secret.
       Ok (MlKem768Ciphertext ciphertext, secret))))"

end
