(* ===== verification/Mef_Hybrid.thy ===== *)
theory Mef_Hybrid
  imports Mef_Agreement Mef_Mlkem
begin

text \<open>
  The hybrid handshake: the hybrid bundles and messages of \<open>src/hybrid.rs\<close> with their encodings, and
  the two sides that mix the encapsulated secret into the classical session.
\<close>

section \<open>Hybrid bundles and messages (hybrid.rs)\<close>

definition HYBRID_MAGIC :: bytes where
  "HYBRID_MAGIC = ascii ''MEQ''"

definition HYBRID_VERSION :: u8 where
  "HYBRID_VERSION = 1"

definition TRANSCRIPT_LABEL :: bytes where
  "TRANSCRIPT_LABEL = ascii ''handshake-mlkem768-bundle-v1''"

record hybrid_bundle =
  hb_classical :: responder_bundle
  hb_pq_public :: mlkem_public_key
  hb_pq_signature :: bytes

record hybrid_material =
  hm_classical :: responder_material
  hm_pq :: mlkem_key_pair

record hybrid_message =
  hi_classical :: initiator_handshake
  hi_pq_ciphertext :: mlkem_ciphertext

definition HybridResponderPrekeyBundle_classical :: "hybrid_bundle \<Rightarrow> responder_bundle" where
  "HybridResponderPrekeyBundle_classical b = hb_classical b"

definition HybridResponderPrekeyBundle_pq_public :: "hybrid_bundle \<Rightarrow> mlkem_public_key" where
  "HybridResponderPrekeyBundle_pq_public b = hb_pq_public b"

definition HybridInitiatorHandshake_classical :: "hybrid_message \<Rightarrow> initiator_handshake" where
  "HybridInitiatorHandshake_classical m = hi_classical m"

declare HybridResponderPrekeyBundle_classical_def [simp]
  HybridResponderPrekeyBundle_pq_public_def [simp] HybridInitiatorHandshake_classical_def [simp]

definition binding_transcript :: "primitives \<Rightarrow> responder_bundle \<Rightarrow> mlkem_public_key \<Rightarrow> bytes res" where
  "binding_transcript P classical pq_public =
     (let classical_wire = ResponderPrekeyBundle_encode classical;
          pq_wire = MlKem768PublicKey_to_bytes pq_public in
      blake3_id P TRANSCRIPT_LABEL [classical_wire, pq_wire])"

definition HybridResponderPrekeyBundle_encode :: "hybrid_bundle \<Rightarrow> bytes" where
  "HybridResponderPrekeyBundle_encode b =
     (let classical = ResponderPrekeyBundle_encode (hb_classical b);
          pq_public = mlkem_public_bytes (hb_pq_public b) in
      HYBRID_MAGIC @ [HYBRID_VERSION]
        @ to_be_bytes (word_of_nat (length classical) :: u16) @ classical
        @ to_be_bytes (word_of_nat (length pq_public) :: u16) @ pq_public @ hb_pq_signature b)"

definition HybridResponderPrekeyBundle_decode :: "primitives \<Rightarrow> bytes \<Rightarrow> hybrid_bundle res" where
  "HybridResponderPrekeyBundle_decode P bs =
     (if length bs < 8 then Err InvalidFrame else
      bind_res (slice 0 3 bs) (\<lambda>magic.
      if magic \<noteq> HYBRID_MAGIC then Err InvalidFrame else
      bind_res (index_at bs 3) (\<lambda>version.
      if version \<noteq> HYBRID_VERSION then Err InvalidFrame else
      bind_res (field 2 4 6 bs) (\<lambda>classical_len_bytes.
      let classical_len = unat (from_be_bytes classical_len_bytes :: u16) in
      bind_res (ok_or (checked_add_usize 6 classical_len) InvalidLength) (\<lambda>classical_end.
      bind_res (add_usize classical_end 2) (\<lambda>pq_start.
      if length bs < pq_start then Err InvalidFrame else
      bind_res (slice 6 classical_end bs) (\<lambda>classical_bytes.
      bind_res (ResponderPrekeyBundle_decode P classical_bytes) (\<lambda>classical.
      bind_res (field 2 classical_end pq_start bs) (\<lambda>pq_len_bytes.
      let pq_len = unat (from_be_bytes pq_len_bytes :: u16) in
      bind_res (ok_or (checked_add_usize pq_start pq_len) InvalidLength) (\<lambda>pq_end.
      bind_res (ok_or (checked_add_usize pq_end 64) InvalidLength) (\<lambda>signature_end.
      if signature_end \<noteq> length bs then Err InvalidFrame else
      bind_res (slice pq_start pq_end bs) (\<lambda>pq_bytes.
      bind_res (MlKem768PublicKey_from_bytes P pq_bytes) (\<lambda>pq_public.
      bind_res (field 64 pq_end signature_end bs) (\<lambda>pq_signature.
      bind_res (binding_transcript P classical pq_public) (\<lambda>transcript.
      bind_res (IdentityDhPublic_verify_signature P (rb_identity classical) transcript pq_signature) (\<lambda>_.
      Ok \<lparr>hb_classical = classical, hb_pq_public = pq_public, hb_pq_signature = pq_signature\<rparr>))))))))))))))))"

definition HybridResponderPrekeyBundle_verify :: "primitives \<Rightarrow> hybrid_bundle \<Rightarrow> u64 \<Rightarrow> unit res" where
  "HybridResponderPrekeyBundle_verify P b now_unix =
     bind_res (ResponderPrekeyBundle_verify P (hb_classical b) now_unix) (\<lambda>_.
     bind_res (binding_transcript P (hb_classical b) (hb_pq_public b)) (\<lambda>transcript.
     IdentityDhPublic_verify_signature P (rb_identity (hb_classical b)) transcript (hb_pq_signature b)))"

definition HybridResponderPrekeyMaterial_generate ::
    "primitives \<Rightarrow> u32 \<Rightarrow> u64 \<Rightarrow> rng \<Rightarrow> hybrid_material res \<times> rng" where
  "HybridResponderPrekeyMaterial_generate P signed_prekey_id expires_at_unix =
     io_bind (ResponderPrekeyMaterial_generate P signed_prekey_id expires_at_unix) (\<lambda>classical.
     io_bind (MlKem768KeyPair_generate P) (\<lambda>pq.
     io_lift (Ok \<lparr>hm_classical = classical, hm_pq = pq\<rparr>)))"

definition HybridResponderPrekeyMaterial_bundle :: "primitives \<Rightarrow> hybrid_material \<Rightarrow> hybrid_bundle res" where
  "HybridResponderPrekeyMaterial_bundle P m =
     (let classical = ResponderPrekeyMaterial_bundle P (hm_classical m);
          pq_public = MlKem768KeyPair_public_key (hm_pq m) in
      bind_res (binding_transcript P classical pq_public) (\<lambda>transcript.
      let pq_signature = ResponderPrekeyMaterial_sign_message P (hm_classical m) transcript in
      Ok \<lparr>hb_classical = classical, hb_pq_public = pq_public, hb_pq_signature = pq_signature\<rparr>))"

definition hybrid_add_one_time_prekey ::
    "primitives \<Rightarrow> u32 \<Rightarrow> hybrid_material \<Rightarrow> rng \<Rightarrow> unit res \<times> hybrid_material \<times> rng" where
  "hybrid_add_one_time_prekey P i m r =
     (case add_one_time_prekey P i (hm_classical m) r of
        (res, classical, r') \<Rightarrow> (res, m\<lparr>hm_classical := classical\<rparr>, r'))"

definition hybrid_available_one_time_prekeys :: "hybrid_material \<Rightarrow> nat" where
  "hybrid_available_one_time_prekeys m = available_one_time_prekeys (hm_classical m)"

definition hybrid_accept ::
    "primitives \<Rightarrow> hybrid_material \<Rightarrow> hybrid_message \<Rightarrow> authenticated_handshake res \<times> hybrid_material" where
  "hybrid_accept P m msg =
     (case handshake_accept P (hm_classical m) (hi_classical msg) of
        (Inl e, classical) \<Rightarrow> (Inl e, m\<lparr>hm_classical := classical\<rparr>)
      | (Inr handshake, classical) \<Rightarrow>
          (bind_res (MlKem768KeyPair_decapsulate P (hm_pq m) (hi_pq_ciphertext msg)) (\<lambda>pq_shared.
           mix_ml_kem768 P handshake (MlKem768SharedSecret_as_bytes pq_shared)),
           m\<lparr>hm_classical := classical\<rparr>))"

definition HybridInitiatorHandshake_encode :: "hybrid_message \<Rightarrow> bytes" where
  "HybridInitiatorHandshake_encode msg =
     (let classical = InitiatorHandshake_encode (hi_classical msg);
          ciphertext = mlkem_ciphertext_bytes (hi_pq_ciphertext msg) in
      HYBRID_MAGIC @ [HYBRID_VERSION]
        @ to_be_bytes (word_of_nat (length classical) :: u16) @ classical
        @ to_be_bytes (word_of_nat (length ciphertext) :: u16) @ ciphertext)"

definition HybridInitiatorHandshake_decode :: "primitives \<Rightarrow> bytes \<Rightarrow> hybrid_message res" where
  "HybridInitiatorHandshake_decode P bs =
     (if length bs < 8 then Err InvalidFrame else
      bind_res (slice 0 3 bs) (\<lambda>magic.
      if magic \<noteq> HYBRID_MAGIC then Err InvalidFrame else
      bind_res (index_at bs 3) (\<lambda>version.
      if version \<noteq> HYBRID_VERSION then Err InvalidFrame else
      bind_res (field 2 4 6 bs) (\<lambda>classical_len_bytes.
      let classical_len = unat (from_be_bytes classical_len_bytes :: u16) in
      bind_res (ok_or (checked_add_usize 6 classical_len) InvalidLength) (\<lambda>classical_end.
      bind_res (add_usize classical_end 2) (\<lambda>ciphertext_start.
      if length bs < ciphertext_start then Err InvalidFrame else
      bind_res (slice 6 classical_end bs) (\<lambda>classical_bytes.
      bind_res (InitiatorHandshake_decode P classical_bytes) (\<lambda>classical.
      bind_res (field 2 classical_end ciphertext_start bs) (\<lambda>ciphertext_len_bytes.
      let ciphertext_len = unat (from_be_bytes ciphertext_len_bytes :: u16) in
      bind_res (ok_or (checked_add_usize ciphertext_start ciphertext_len) InvalidLength) (\<lambda>ciphertext_end.
      if ciphertext_end \<noteq> length bs then Err InvalidFrame else
      bind_res (slice ciphertext_start ciphertext_end bs) (\<lambda>ciphertext_bytes.
      bind_res (MlKem768Ciphertext_from_bytes ciphertext_bytes) (\<lambda>pq_ciphertext.
      Ok \<lparr>hi_classical = classical, hi_pq_ciphertext = pq_ciphertext\<rparr>))))))))))))"

definition hybrid_initiate ::
    "primitives \<Rightarrow> local_identity \<Rightarrow> hybrid_bundle \<Rightarrow> u64 \<Rightarrow> rng
       \<Rightarrow> (hybrid_message \<times> authenticated_handshake) res \<times> rng" where
  "hybrid_initiate P identity bundle now_unix =
     io_bind (io_lift (HybridResponderPrekeyBundle_verify P bundle now_unix)) (\<lambda>_.
     io_bind (handshake_initiate P identity (HybridResponderPrekeyBundle_classical bundle) now_unix) (\<lambda>(classical, handshake).
     io_bind (MlKem768PublicKey_encapsulate P (hb_pq_public bundle)) (\<lambda>(pq_ciphertext, pq_shared).
     io_bind (io_lift (mix_ml_kem768 P handshake (MlKem768SharedSecret_as_bytes pq_shared))) (\<lambda>handshake.
     io_lift (Ok (\<lparr>hi_classical = classical, hi_pq_ciphertext = pq_ciphertext\<rparr>, handshake))))))"

section \<open>Wire formats\<close>

definition hybrid_bundle_ok :: "primitives \<Rightarrow> hybrid_bundle \<Rightarrow> bool" where
  "hybrid_bundle_ok P b \<longleftrightarrow>
     bundle_ok P (hb_classical b) \<and> length (mlkem_public_bytes (hb_pq_public b)) = 1184 \<and>
     mlkem_key_ok P (mlkem_public_bytes (hb_pq_public b)) \<and> length (hb_pq_signature b) = 64 \<and>
     (case binding_transcript P (hb_classical b) (hb_pq_public b) of
        Inl e \<Rightarrow> False
      | Inr t \<Rightarrow> IdentityPublicKey_verify P (id_signing (rb_identity (hb_classical b))) t (hb_pq_signature b) = Ok ())"

definition hybrid_message_ok :: "primitives \<Rightarrow> hybrid_message \<Rightarrow> bool" where
  "hybrid_message_ok P m \<longleftrightarrow>
     message_ok P (hi_classical m) \<and> length (mlkem_ciphertext_bytes (hi_pq_ciphertext m)) = 1088"

lemma hybrid_consts: "HYBRID_MAGIC = [77, 69, 81]" "HYBRID_VERSION = 1"
  by (simp_all add: HYBRID_MAGIC_def ascii_def of_char_def HYBRID_VERSION_def)

lemma u16_small: "unat (w :: u16) < 65536"
  using unsigned_less [of w, where ?'a = nat] by simp

lemma u16_field:
  "length xs = 2 \<Longrightarrow> unat (from_be_bytes xs :: u16) = k \<Longrightarrow> to_be_bytes (word_of_nat k :: u16) = xs"
  by auto

lemma pq_from_bytes_Ok [res_iff]:
  "MlKem768PublicKey_from_bytes P bs = Inr k \<longleftrightarrow>
     length bs = 1184 \<and> mlkem_key_ok P bs \<and> k = MlKem768PublicKey bs"
  "MlKem768Ciphertext_from_bytes bs = Inr c \<longleftrightarrow> length bs = 1088 \<and> c = MlKem768Ciphertext bs"
  by (auto simp: MlKem768PublicKey_from_bytes_def MlKem768Ciphertext_from_bytes_def)

lemma hybrid_message_in_range:
  assumes "8 \<le> length bs"
  defines "n \<equiv> unat (from_be_bytes (sub_list 4 6 bs) :: u16)"
  shows "HybridInitiatorHandshake_decode P bs =
    (if sub_list 0 3 bs \<noteq> HYBRID_MAGIC \<or> bs ! 3 \<noteq> HYBRID_VERSION \<or> length bs < 8 + n then Err InvalidFrame
     else bind_res (InitiatorHandshake_decode P (sub_list 6 (6 + n) bs)) (\<lambda>classical.
       if 8 + n + unat (from_be_bytes (sub_list (6 + n) (8 + n) bs) :: u16) \<noteq> length bs then Err InvalidFrame
       else bind_res (MlKem768Ciphertext_from_bytes (sub_list (8 + n) (length bs) bs)) (\<lambda>c.
         Ok \<lparr>hi_classical = classical, hi_pq_ciphertext = c\<rparr>)))"
  using assms(1) u16_small [of "from_be_bytes (sub_list 4 6 bs)", folded n_def]
    u16_small [of "from_be_bytes (sub_list (6 + n) (8 + n) bs)"]
  by (auto simp: HybridInitiatorHandshake_decode_def n_def [symmetric] checked_add_usize_def add_usize_def
      usize_limit_def Let_def split: res_split)

lemma hybrid_bundle_in_range:
  assumes "8 \<le> length bs"
  defines "n \<equiv> unat (from_be_bytes (sub_list 4 6 bs) :: u16)"
  defines "m \<equiv> unat (from_be_bytes (sub_list (6 + n) (8 + n) bs) :: u16)"
  shows "HybridResponderPrekeyBundle_decode P bs =
    (if sub_list 0 3 bs \<noteq> HYBRID_MAGIC \<or> bs ! 3 \<noteq> HYBRID_VERSION \<or> length bs < 8 + n then Err InvalidFrame
     else bind_res (ResponderPrekeyBundle_decode P (sub_list 6 (6 + n) bs)) (\<lambda>classical.
       if 72 + n + m \<noteq> length bs then Err InvalidFrame
       else bind_res (MlKem768PublicKey_from_bytes P (sub_list (8 + n) (8 + n + m) bs)) (\<lambda>pk.
         bind_res (binding_transcript P classical pk) (\<lambda>t.
         bind_res (IdentityPublicKey_verify P (id_signing (rb_identity classical)) t
           (sub_list (8 + n + m) (72 + n + m) bs)) (\<lambda>_.
         Ok \<lparr>hb_classical = classical, hb_pq_public = pk,
             hb_pq_signature = sub_list (8 + n + m) (72 + n + m) bs\<rparr>)))))"
  using assms(1) u16_small [of "from_be_bytes (sub_list 4 6 bs)", folded n_def]
    u16_small [of "from_be_bytes (sub_list (6 + n) (8 + n) bs)", folded m_def]
  by (auto simp: HybridResponderPrekeyBundle_decode_def n_def [symmetric] m_def [symmetric]
      checked_add_usize_def add_usize_def usize_limit_def Let_def add.assoc split: res_split)

text \<open>Both encodings, with the lengths their classical parts have.\<close>

lemma hybrid_message_bytes:
  assumes "hybrid_message_ok P m" "bs = HybridInitiatorHandshake_encode m"
  shows "length bs = 1301" "sub_list 0 3 bs = HYBRID_MAGIC" "bs ! 3 = HYBRID_VERSION"
    "sub_list 4 6 bs = to_be_bytes (205 :: u16)"
    "sub_list 6 211 bs = InitiatorHandshake_encode (hi_classical m)"
    "sub_list 211 213 bs = to_be_bytes (1088 :: u16)"
    "sub_list 213 1301 bs = mlkem_ciphertext_bytes (hi_pq_ciphertext m)"
  using assms length_message_encode [of P "hi_classical m"]
  by (simp_all add: HybridInitiatorHandshake_encode_def hybrid_message_ok_def Let_def hybrid_consts
      sub_list_def nth_append nth_Cons')

lemma hybrid_message_decode_encode:
  assumes "hybrid_message_ok P m"
  shows "HybridInitiatorHandshake_decode P (HybridInitiatorHandshake_encode m) = Ok m"
proof -
  have "message_ok P (hi_classical m)" "length (mlkem_ciphertext_bytes (hi_pq_ciphertext m)) = 1088"
    using assms by (simp_all add: hybrid_message_ok_def)
  then show ?thesis
    using hybrid_message_in_range [of "HybridInitiatorHandshake_encode m" P]
    by (simp add: hybrid_message_bytes [OF assms refl] message_decode_encode MlKem768Ciphertext_from_bytes_def)
qed

lemma hybrid_message_decode_sound:
  assumes "HybridInitiatorHandshake_decode P bs = Ok m"
  shows "hybrid_message_ok P m" "HybridInitiatorHandshake_encode m = bs"
proof -
  have len: "8 \<le> length bs" using assms by (auto simp: HybridInitiatorHandshake_decode_def split: if_splits)
  define n where "n = unat (from_be_bytes (sub_list 4 6 bs) :: u16)"
  from assms have magic: "sub_list 0 3 bs = HYBRID_MAGIC" "bs ! 3 = HYBRID_VERSION" and ln: "8 + n \<le> length bs"
    and cl: "InitiatorHandshake_decode P (sub_list 6 (6 + n) bs) = Ok (hi_classical m)"
    and lm: "8 + n + unat (from_be_bytes (sub_list (6 + n) (8 + n) bs) :: u16) = length bs"
    and ct: "length (sub_list (8 + n) (length bs) bs) = 1088"
      "hi_pq_ciphertext m = MlKem768Ciphertext (sub_list (8 + n) (length bs) bs)"
    by (auto simp: hybrid_message_in_range [OF len, folded n_def] bind_res_Ok pq_from_bytes_Ok not_less
        split: if_splits)
  note classical = message_decode_sound [OF cl]
  have n: "n = 205"
    using length_message_encode [OF classical(1)] classical(2) ln by simp
  have c: "unat (from_be_bytes (sub_list 211 213 bs) :: u16) = 1088" using lm ct(1) n by simp
  show "hybrid_message_ok P m" using classical(1) ct by (simp add: hybrid_message_ok_def)
  have w205: "to_be_bytes (205 :: u16) = sub_list 4 6 bs"
    using u16_field [of "sub_list 4 6 bs" 205] len n by (simp add: n_def)
  have w1088: "to_be_bytes (1088 :: u16) = sub_list 211 213 bs"
    using u16_field [of "sub_list 211 213 bs" 1088] c ln n by simp
  have "HybridInitiatorHandshake_encode m = sub_list 0 3 bs @ [bs ! 3] @ sub_list 4 6 bs @ sub_list 6 211 bs
      @ sub_list 211 213 bs @ sub_list 213 (length bs) bs"
    using classical(2) ct n length_message_encode [OF classical(1)]
    by (simp add: HybridInitiatorHandshake_encode_def Let_def magic w205 w1088)
  also have "\<dots> = bs" using ln n by (simp add: slice_join)
  finally show "HybridInitiatorHandshake_encode m = bs" .
qed

interpretation hybrid_message: fixed_width_format "\<lambda>m. Ok (HybridInitiatorHandshake_encode m)"
  "HybridInitiatorHandshake_decode P" "hybrid_message_ok P" 1301 for P
proof unfold_locales
  show "HybridInitiatorHandshake_decode P bs \<noteq> Panics" for bs
  proof (cases "8 \<le> length bs")
    case True
    then show ?thesis
      by (auto simp: hybrid_message_in_range bind_res_Inl message.dec_no_panic MlKem768Ciphertext_from_bytes_def)
  next
    case False
    then show ?thesis by (simp add: HybridInitiatorHandshake_decode_def)
  qed
  show "length bs = 1301" if "HybridInitiatorHandshake_decode P bs = Ok m" for bs m
    using hybrid_message_decode_sound [OF that] hybrid_message_bytes(1) [OF _ refl] by blast
qed (auto simp: hybrid_message_decode_encode dest: hybrid_message_decode_sound)

lemma hybrid_bundle_bytes:
  assumes "hybrid_bundle_ok P b" "bs = HybridResponderPrekeyBundle_encode b"
  shows "length bs = 1533" "sub_list 0 3 bs = HYBRID_MAGIC" "bs ! 3 = HYBRID_VERSION"
    "sub_list 4 6 bs = to_be_bytes (277 :: u16)"
    "sub_list 6 283 bs = ResponderPrekeyBundle_encode (hb_classical b)"
    "sub_list 283 285 bs = to_be_bytes (1184 :: u16)"
    "sub_list 285 1469 bs = mlkem_public_bytes (hb_pq_public b)"
    "sub_list 1469 1533 bs = hb_pq_signature b"
  using assms length_bundle_encode [of P "hb_classical b"]
  by (simp_all add: HybridResponderPrekeyBundle_encode_def hybrid_bundle_ok_def Let_def hybrid_consts
      sub_list_def nth_append nth_Cons')

lemma hybrid_bundle_decode_encode:
  assumes "hybrid_bundle_ok P b"
  shows "HybridResponderPrekeyBundle_decode P (HybridResponderPrekeyBundle_encode b) = Ok b"
proof -
  have b: "bundle_ok P (hb_classical b)" "length (mlkem_public_bytes (hb_pq_public b)) = 1184"
    "mlkem_key_ok P (mlkem_public_bytes (hb_pq_public b))"
    using assms by (simp_all add: hybrid_bundle_ok_def)
  obtain t where "binding_transcript P (hb_classical b) (hb_pq_public b) = Ok t"
    "IdentityPublicKey_verify P (id_signing (rb_identity (hb_classical b))) t (hb_pq_signature b) = Ok ()"
    using assms by (auto simp: hybrid_bundle_ok_def split: sum.splits)
  with b show ?thesis
    using hybrid_bundle_in_range [of "HybridResponderPrekeyBundle_encode b" P]
    by (simp add: hybrid_bundle_bytes [OF assms refl] bundle_decode_encode MlKem768PublicKey_from_bytes_def)
qed

lemma hybrid_bundle_decode_sound:
  assumes "HybridResponderPrekeyBundle_decode P bs = Ok b"
  shows "hybrid_bundle_ok P b" "HybridResponderPrekeyBundle_encode b = bs"
proof -
  have len: "8 \<le> length bs" using assms by (auto simp: HybridResponderPrekeyBundle_decode_def split: if_splits)
  define n where "n = unat (from_be_bytes (sub_list 4 6 bs) :: u16)"
  define m where "m = unat (from_be_bytes (sub_list (6 + n) (8 + n) bs) :: u16)"
  from assms have magic: "sub_list 0 3 bs = HYBRID_MAGIC" "bs ! 3 = HYBRID_VERSION" and ln: "8 + n \<le> length bs"
    and cl: "ResponderPrekeyBundle_decode P (sub_list 6 (6 + n) bs) = Ok (hb_classical b)"
    and lm: "72 + n + m = length bs"
    and pk: "length (sub_list (8 + n) (8 + n + m) bs) = 1184" "mlkem_key_ok P (sub_list (8 + n) (8 + n + m) bs)"
      "hb_pq_public b = MlKem768PublicKey (sub_list (8 + n) (8 + n + m) bs)"
    and sig: "hb_pq_signature b = sub_list (8 + n + m) (72 + n + m) bs"
    and bound: "case binding_transcript P (hb_classical b) (hb_pq_public b) of Inl e \<Rightarrow> False
      | Inr t \<Rightarrow> IdentityPublicKey_verify P (id_signing (rb_identity (hb_classical b))) t (hb_pq_signature b) = Ok ()"
    by (auto simp: hybrid_bundle_in_range [OF len, folded n_def, folded m_def] bind_res_Ok pq_from_bytes_Ok
        not_less simp del: length_sub_list split: if_splits)
  note classical = bundle_decode_sound [OF cl]
  have n: "n = 277" using length_bundle_encode [OF classical(1)] classical(2) ln by simp
  have m: "m = 1184" using pk(1) lm by simp
  show "hybrid_bundle_ok P b"
    using classical(1) pk sig bound lm by (simp add: hybrid_bundle_ok_def)
  have w277: "to_be_bytes (277 :: u16) = sub_list 4 6 bs"
    using u16_field [of "sub_list 4 6 bs" 277] len n by (simp add: n_def)
  have w1184: "to_be_bytes (1184 :: u16) = sub_list 283 285 bs"
    using u16_field [of "sub_list 283 285 bs" 1184] ln n m by (simp add: m_def)
  have "HybridResponderPrekeyBundle_encode b = sub_list 0 3 bs @ [bs ! 3] @ sub_list 4 6 bs @ sub_list 6 283 bs
      @ sub_list 283 285 bs @ sub_list 285 1469 bs @ sub_list 1469 1533 bs"
    using classical(2) pk sig n m length_bundle_encode [OF classical(1)]
    by (simp add: HybridResponderPrekeyBundle_encode_def Let_def magic w277 w1184)
  also have "\<dots> = bs" using lm n m by (simp add: slice_join)
  finally show "HybridResponderPrekeyBundle_encode b = bs" .
qed

interpretation hybrid_bundle: fixed_width_format "\<lambda>b. Ok (HybridResponderPrekeyBundle_encode b)"
  "HybridResponderPrekeyBundle_decode P" "hybrid_bundle_ok P" 1533 for P
proof unfold_locales
  show "HybridResponderPrekeyBundle_decode P bs \<noteq> Panics" for bs
  proof (cases "8 \<le> length bs")
    case True
    have "binding_transcript P c pk \<noteq> Panics" for c pk by (simp add: binding_transcript_def Let_def)
    with True show ?thesis
      by (auto simp: hybrid_bundle_in_range bind_res_Inl prekey_bundle.dec_no_panic
          MlKem768PublicKey_from_bytes_def IdentityPublicKey_verify_def)
  next
    case False
    then show ?thesis by (simp add: HybridResponderPrekeyBundle_decode_def)
  qed
  show "length bs = 1533" if "HybridResponderPrekeyBundle_decode P bs = Ok b" for bs b
    using hybrid_bundle_decode_sound [OF that] hybrid_bundle_bytes(1) [OF _ refl] by blast
qed (auto simp: hybrid_bundle_decode_encode dest: hybrid_bundle_decode_sound)

section \<open>Agreement\<close>

definition hybrid_material_ok :: "primitives \<Rightarrow> hybrid_material \<Rightarrow> bool" where
  "hybrid_material_ok P m \<longleftrightarrow>
     material_ok P (hm_classical m) \<and>
     (\<exists>i. mlkem_keygen P i = Some (mk_secret (hm_pq m))) \<and>
     mk_public (hm_pq m) = MlKem768PublicKey (mlkem_public P (mk_secret (hm_pq m)))"

lemma hybrid_generate_ok:
  assumes "sizes_ok P" "HybridResponderPrekeyMaterial_generate P i t r = (Inr m, r')"
  shows "hybrid_material_ok P m"
  using assms material_generate_ok
  by (fastforce simp: HybridResponderPrekeyMaterial_generate_def io_bind_Ok io_lift_def hybrid_material_ok_def
      MlKem768KeyPair_generate_def split: option.splits)

lemma hybrid_accept_ok:
  assumes "hybrid_material_ok P m" "hybrid_accept P m msg = (res, m')"
  shows "hybrid_material_ok P m'"
  using assms accept_material_ok [of P "hm_classical m" "hi_classical msg"]
  by (auto simp: hybrid_accept_def hybrid_material_ok_def split: prod.splits sum.splits)

lemma encapsulate_decapsulate:
  assumes P: "mlkem_ok P" "sizes_ok P" and keygen: "mlkem_keygen P i = Some (mk_secret kp)"
    and pk: "mk_public kp = MlKem768PublicKey (mlkem_public P (mk_secret kp))"
    and run: "MlKem768PublicKey_encapsulate P (mk_public kp) r = (Inr (c, z), r')"
  shows "MlKem768KeyPair_decapsulate P kp c = Ok z" "length (mlkem_shared_bytes z) = 32"
    "length (mlkem_ciphertext_bytes c) = 1088"
proof -
  from run obtain rnd where rnd: "sys_rng P r 32 = Some rnd"
    and out: "(let (ct, z') = mlkem_encapsulate P (mlkem_public P (mk_secret kp)) rnd in
      io_lift (bind_res (shared_secret_from_slice z') (\<lambda>secret. Ok (MlKem768Ciphertext ct, secret)))) (Suc r) =
      (Inr (c, z), r')"
    by (auto simp: MlKem768PublicKey_encapsulate_def io_bind_Ok fill_secure_def ok_or_Ok pk)
  obtain ct z' where enc: "mlkem_encapsulate P (mlkem_public P (mk_secret kp)) rnd = (ct, z')"
    by (cases "mlkem_encapsulate P (mlkem_public P (mk_secret kp)) rnd")
  with out have ct: "mlkem_encapsulate P (mlkem_public P (mk_secret kp)) rnd = (ct, mlkem_shared_bytes z)"
    and c: "c = MlKem768Ciphertext ct" and z: "length (mlkem_shared_bytes z) = 32"
    by (auto simp: bind_res_Ok res_iff)
  have "length rnd = 32" using sizes_okD(1) [OF P(2) rnd] .
  with P(1) keygen ct have "mlkem_decapsulate P (mk_secret kp) ct = mlkem_shared_bytes z" unfolding mlkem_ok_def by blast
  with z show "MlKem768KeyPair_decapsulate P kp c = Ok z"
    by (simp add: MlKem768KeyPair_decapsulate_def c)
  show "length (mlkem_shared_bytes z) = 32" by (rule z)
  show "length (mlkem_ciphertext_bytes c) = 1088"
    using P(1) ct by (auto simp: mlkem_ok_def mlkem_sizes_ok_def c)
qed

lemma hybrid_agrees:
  assumes P: "sizes_ok P" "x25519_ok P" "ed25519_ok P" "mlkem_ok P"
    and li: "local_identity_ok P li" and m: "hybrid_material_ok P m"
    and held: "holds_prekeys P (hm_classical m) (hb_classical b)" "hb_pq_public b = mk_public (hm_pq m)"
    and init: "hybrid_initiate P li b now r = (Inr (msg, a), r')"
  shows "\<exists>h m'. hybrid_accept P m msg = (Inr h, m') \<and> matching P a h" "hybrid_message_ok P msg"
    "length (ah_session_id a) = 32" "length (secret_bytes (ah_root_secret a)) = 32"
proof -
  from init obtain cmsg ca r1 c z where
    cl: "handshake_initiate P li (hb_classical b) now r = (Inr (cmsg, ca), r1)"
    and enc: "MlKem768PublicKey_encapsulate P (mk_public (hm_pq m)) r1 = (Inr (c, z), r')"
    and mixed: "mix_ml_kem768 P ca (mlkem_shared_bytes z) = Inr a"
    and msg: "msg = \<lparr>hi_classical = cmsg, hi_pq_ciphertext = c\<rparr>"
    by (auto simp: hybrid_initiate_def io_bind_Ok io_lift_def held(2))
  have cm: "material_ok P (hm_classical m)" using m by (simp add: hybrid_material_ok_def)
  from accept_agrees [OF P(1,2,3) li cm held(1) cl] obtain h cm' where
    acc: "handshake_accept P (hm_classical m) cmsg = (Inr h, cm')" and match: "matching P ca h" by blast
  obtain i where "mlkem_keygen P i = Some (mk_secret (hm_pq m))"
    "mk_public (hm_pq m) = MlKem768PublicKey (mlkem_public P (mk_secret (hm_pq m)))"
    using m by (auto simp: hybrid_material_ok_def)
  note kem = encapsulate_decapsulate [OF P(4,1) this enc]
  from mix_matching [OF match mixed] kem(1)
  show "\<exists>h m'. hybrid_accept P m msg = (Inr h, m') \<and> matching P a h"
    by (auto simp: hybrid_accept_def msg acc)
  show "hybrid_message_ok P msg"
    using kem(3) initiate_message_ok [OF P(1,3) li cl] by (simp add: hybrid_message_ok_def msg)
  show "length (ah_session_id a) = 32" "length (secret_bytes (ah_root_secret a)) = 32"
    using mixed P(1)
    by (auto simp: mix_ml_kem768_def Let_def bind_res_Ok dest: blake3_id_length derive_secret_length)
qed

text \<open>A published hybrid bundle verifies, until the signed prekey expires.\<close>

lemma hybrid_bundle_published:
  assumes P: "sizes_ok P" "ed25519_ok P" "mlkem_ok P" and m: "hybrid_material_ok P m"
    and pub: "HybridResponderPrekeyMaterial_bundle P m = Ok b"
  shows "hybrid_bundle_ok P b" "holds_prekeys P (hm_classical m) (hb_classical b)"
    "hb_pq_public b = mk_public (hm_pq m)"
proof -
  let ?c = "hm_classical m"
  have cm: "material_ok P ?c" using m by (simp add: hybrid_material_ok_def)
  then have li: "local_identity_ok P (rm_identity ?c)" by (simp add: material_ok_def)
  from pub obtain t where t: "binding_transcript P (ResponderPrekeyMaterial_bundle P ?c) (mk_public (hm_pq m)) = Ok t"
    and b: "b = \<lparr>hb_classical = ResponderPrekeyMaterial_bundle P ?c, hb_pq_public = mk_public (hm_pq m),
      hb_pq_signature = IdentityKeyPair_sign P (li_signing (rm_identity ?c)) t\<rparr>"
    by (auto simp: HybridResponderPrekeyMaterial_bundle_def Let_def bind_res_Ok)
  have "IdentityPublicKey_verify P (ik_public (li_signing (rm_identity ?c))) t
      (IdentityKeyPair_sign P (li_signing (rm_identity ?c)) t) = Ok ()"
    using verify_sign [OF P(2)] li by (simp add: local_identity_ok_def)
  moreover have ident: "id_signing (rb_identity (hb_classical b)) = ik_public (li_signing (rm_identity ?c))"
    by (simp add: b ResponderPrekeyMaterial_bundle_def LocalIdentity_public_def Let_def)
  moreover have "bundle_ok P (ResponderPrekeyMaterial_bundle P ?c)" by (rule published_bundle_ok [OF P(1,2) cm])
  moreover have "length (mlkem_public P d) = 1184" for d using P(3) by (simp add: mlkem_ok_def mlkem_sizes_ok_def)
  moreover have "mlkem_key_ok P (mlkem_public P (mk_secret (hm_pq m)))"
    using P(3) m by (auto simp: mlkem_ok_def hybrid_material_ok_def)
  ultimately show "hybrid_bundle_ok P b"
    using t m P(1) by (auto simp: hybrid_bundle_ok_def b hybrid_material_ok_def)
  show "holds_prekeys P ?c (hb_classical b)" using bundle_held by (simp add: b)
  show "hb_pq_public b = mk_public (hm_pq m)" by (simp add: b)
qed

text \<open>Honest parties never fail: the classical handshake completes, and so do encapsulation and mixing.\<close>

lemma hybrid_bundle_total:
  assumes P: "sizes_ok P" "ed25519_ok P" "mlkem_ok P" and m: "hybrid_material_ok P m"
  shows "\<exists>b. HybridResponderPrekeyMaterial_bundle P m = Ok b \<and> hb_classical b = ResponderPrekeyMaterial_bundle P (hm_classical m)"
proof -
  have "material_ok P (hm_classical m)" using m by (simp add: hybrid_material_ok_def)
  from length_bundle_encode [OF published_bundle_ok [OF P(1,2) this]]
  have "length (ResponderPrekeyBundle_encode (ResponderPrekeyMaterial_bundle P (hm_classical m))) \<le> MAX_CIPHERTEXT_LEN"
    by (simp add: MAX_CIPHERTEXT_LEN_def)
  moreover have "length (mlkem_public_bytes (mk_public (hm_pq m))) \<le> MAX_CIPHERTEXT_LEN"
    using m P(3) by (simp add: hybrid_material_ok_def mlkem_ok_def mlkem_sizes_ok_def MAX_CIPHERTEXT_LEN_def)
  moreover have "TRANSCRIPT_LABEL \<noteq> []" "length TRANSCRIPT_LABEL \<le> 255"
    by (simp_all add: TRANSCRIPT_LABEL_def ascii_def)
  ultimately obtain t where "binding_transcript P (ResponderPrekeyMaterial_bundle P (hm_classical m)) (mk_public (hm_pq m)) = Ok t"
    using blake3_id_total [of TRANSCRIPT_LABEL] by (fastforce simp: binding_transcript_def Let_def)
  then show ?thesis by (simp add: HybridResponderPrekeyMaterial_bundle_def Let_def)
qed

lemma mix_total:
  assumes P: "hkdf_total P" and len: "length (ah_session_id a) = 32" "length (secret_bytes (ah_root_secret a)) = 32" "length z = 32"
  shows "\<exists>a'. mix_ml_kem768 P a z = Ok a' \<and> ah_role a' = ah_role a"
proof -
  have lab: "HYBRID_SESSION_LABEL \<noteq> []" "length HYBRID_SESSION_LABEL \<le> 255" "HYBRID_ROOT_LABEL \<noteq> []" "length HYBRID_ROOT_LABEL \<le> 255"
    by (simp_all add: HYBRID_SESSION_LABEL_def HYBRID_ROOT_LABEL_def ascii_def)
  have "\<forall>p \<in> set [ah_session_id a, z]. length p \<le> MAX_CIPHERTEXT_LEN" using len by (simp add: MAX_CIPHERTEXT_LEN_def)
  from blake3_id_total [OF lab(1,2) this] obtain sid where "blake3_id P HYBRID_SESSION_LABEL [ah_session_id a, z] = Ok sid" by blast
  moreover have "length (secret_bytes (ah_root_secret a) @ z) \<le> MAX_CIPHERTEXT_LEN" using len by (simp add: MAX_CIPHERTEXT_LEN_def)
  then obtain root where "derive_secret P sid HYBRID_ROOT_LABEL (secret_bytes (ah_root_secret a) @ z) = Ok root"
    using derive_secret_total [OF P lab(3,4)] by blast
  ultimately show ?thesis by (simp add: mix_ml_kem768_def)
qed

lemma hybrid_initiate_total:
  assumes P: "sizes_ok P" "ed25519_ok P" "x25519_live P" "mlkem_ok P" "hkdf_total P" "rng_total P"
    and li: "local_identity_ok P li" and m: "hybrid_material_ok P m"
    and pub: "HybridResponderPrekeyMaterial_bundle P m = Ok b"
    and fresh: "now \<le> sp_expires_at_unix (rm_signed_record (hm_classical m))"
  shows "\<exists>msg a. hybrid_initiate P li b now r = (Ok (msg, a), Suc (Suc (Suc r)))"
proof -
  note published = hybrid_bundle_published [OF P(1,2,4) m pub]
  have cm: "material_ok P (hm_classical m)" using m by (simp add: hybrid_material_ok_def)
  obtain t where t: "binding_transcript P (hb_classical b) (hb_pq_public b) = Ok t"
    and b: "hb_classical b = ResponderPrekeyMaterial_bundle P (hm_classical m)"
      "hb_pq_signature b = IdentityKeyPair_sign P (li_signing (rm_identity (hm_classical m))) t"
    using pub by (auto simp: HybridResponderPrekeyMaterial_bundle_def Let_def bind_res_Ok)
  have v: "ResponderPrekeyBundle_verify P (hb_classical b) now = Ok ()"
    using published_bundle_verifies [OF P(1,2) cm] fresh by (simp add: b(1))
  obtain msg a where init: "handshake_initiate P li (hb_classical b) now r = (Ok (msg, a), Suc (Suc r))"
    using initiate_total [OF P(1,2,3,5,6) li cm published(2) v] by blast
  have ident: "identity_pair_ok P (li_signing (rm_identity (hm_classical m)))" by (rule current_prekey(2) [OF cm])
  have "id_signing (rb_identity (hb_classical b)) = ik_public (li_signing (rm_identity (hm_classical m)))"
    by (simp add: b(1) ResponderPrekeyMaterial_bundle_def LocalIdentity_public_def Let_def)
  then have "IdentityPublicKey_verify P (id_signing (rb_identity (hb_classical b))) t (hb_pq_signature b) = Ok ()"
    using verify_sign [OF P(2) ident] by (simp add: b(2))
  with v t have hv: "HybridResponderPrekeyBundle_verify P b now = Ok ()"
    by (simp add: HybridResponderPrekeyBundle_verify_def)
  obtain rnd where rnd: "sys_rng P (Suc (Suc r)) 32 = Some rnd" using P(6) by (auto simp: rng_total_def)
  obtain c z where enc: "mlkem_encapsulate P (mlkem_public_bytes (hb_pq_public b)) rnd = (c, z)" by fastforce
  have z: "length z = 32" using P(4) enc by (auto simp: mlkem_ok_def mlkem_sizes_ok_def)
  have encap: "MlKem768PublicKey_encapsulate P (hb_pq_public b) (Suc (Suc r)) = (Ok (MlKem768Ciphertext c, MlKem768SharedSecret z), Suc (Suc (Suc r)))"
    using rnd enc z by (simp add: MlKem768PublicKey_encapsulate_def fill_secure_def io_bind_def)
  obtain a' where "mix_ml_kem768 P a z = Ok a'"
    using mix_total [OF P(5) matching_lengths [OF P(1) init] z] by blast
  with hv init encap show ?thesis by (simp add: hybrid_initiate_def io_bind_def)
qed

text \<open>Acceptance does not depend on the ML-KEM ciphertext being one that was made for the key.\<close>

lemma hybrid_accept_any:
  assumes P: "sizes_ok P" "hkdf_total P" "mlkem_sizes_ok P"
    and run: "handshake_accept P (hm_classical m) (hi_classical msg) = (Inr h, classical)"
  shows "\<exists>h'. hybrid_accept P m msg = (Inr h', m\<lparr>hm_classical := classical\<rparr>)"
proof -
  let ?z = "mlkem_decapsulate P (mk_secret (hm_pq m)) (mlkem_ciphertext_bytes (hi_pq_ciphertext msg))"
  have z: "length ?z = 32" using P(3) by (simp add: mlkem_sizes_ok_def)
  note len = accept_lengths(1,2) [OF P(1) run]
  obtain sid where sid: "blake3_id P HYBRID_SESSION_LABEL [ah_session_id h, ?z] = Ok sid"
    using blake3_id_total [of HYBRID_SESSION_LABEL "[ah_session_id h, ?z]" P] len z
    by (auto simp: HYBRID_SESSION_LABEL_def ascii_def MAX_CIPHERTEXT_LEN_def)
  obtain s where "derive_secret P sid HYBRID_ROOT_LABEL (secret_bytes (ah_root_secret h) @ ?z) = Ok s"
    using derive_secret_total [OF P(2), of HYBRID_ROOT_LABEL "secret_bytes (ah_root_secret h) @ ?z" sid] len z
    by (auto simp: HYBRID_ROOT_LABEL_def ascii_def MAX_CIPHERTEXT_LEN_def)
  with sid show ?thesis
    by (simp add: hybrid_accept_def run MlKem768KeyPair_decapsulate_def z mix_ml_kem768_def)
qed

lemma mix_no_panic [simp]: "mix_ml_kem768 P h z \<noteq> Panics"
  by (auto simp: mix_ml_kem768_def Let_def bind_res_Inl)

lemma hybrid_accept_no_panic:
  assumes "mlkem_sizes_ok P"
  shows "fst (hybrid_accept P m msg) \<noteq> Panics"
  using accept_no_panic [of P "hm_classical m" "hi_classical msg"] assms
  by (auto simp: hybrid_accept_def bind_res_Inl MlKem768KeyPair_decapsulate_def mlkem_sizes_ok_def split: prod.splits sum.splits)

end
