(* ===== verification/Mef_Persistence.thy ===== *)
theory Mef_Persistence
  imports Mef_Ratchet
begin

text \<open>
  Encrypted snapshots of the ratchet (\<open>src/ratchet/persistence.rs\<close>): the plaintext record of version
  2 with its strict parser (which also reads version 1), sealing under a storage key and context,
  and restoring against a rollback floor.
\<close>

section \<open>The record\<close>

definition STATE_MAGIC :: bytes where
  "STATE_MAGIC = ascii ''MRS''"

definition STATE_VERSION :: u8 where
  "STATE_VERSION = 2"

definition LEGACY_VERSION :: u8 where
  "LEGACY_VERSION = 1"

definition STATE_NONCE_LEN :: nat where
  "STATE_NONCE_LEN = 24"

definition STATE_HEADER_LEN :: nat where
  "STATE_HEADER_LEN = 3 + 1 + 8 + 1 + 4"

definition PLAINTEXT_FIXED_LEN_V1 :: nat where
  "PLAINTEXT_FIXED_LEN_V1 = 32 + 32 + 32 + 32 + 32 + 32 + 4 + 4 + 4 + 2"

definition PLAINTEXT_FIXED_LEN_V2 :: nat where
  "PLAINTEXT_FIXED_LEN_V2 = PLAINTEXT_FIXED_LEN_V1 + 1"

definition AAD_LABEL_V1 :: bytes where
  "AAD_LABEL_V1 = ascii ''MEF-26/ratchet-state-v1'' @ [0]"

definition AAD_LABEL_V2 :: bytes where
  "AAD_LABEL_V2 = ascii ''MEF-26/ratchet-state-v2'' @ [0]"

datatype state_seal_key = StateSealKey (seal_key: aead_key)

definition StateSealKey_from_bytes :: "bytes \<Rightarrow> state_seal_key" where
  "StateSealKey_from_bytes bs = StateSealKey (AeadKey bs)"

definition encode_entry :: "skipped_message_key \<Rightarrow> bytes" where
  "encode_entry entry =
     dh_public_bytes (sk_remote_dh entry) @ to_be_bytes (sk_message_number entry)
       @ aead_key_bytes (sk_key entry)"

definition encode_state :: "ratchet_state \<Rightarrow> bytes res" where
  "encode_state st =
     (if length (rs_skipped st) > MAX_SKIPPED_KEYS then Err InvalidState else
      bind_res (ok_or (word_try_from (length (rs_skipped st)) :: u16 option) InvalidState) (\<lambda>skipped_len.
      bind_res (ok_or (checked_mul_usize (unat skipped_len) 68) InvalidLength) (\<lambda>entries_len.
      bind_res (ok_or (checked_add_usize PLAINTEXT_FIXED_LEN_V2 entries_len) InvalidLength) (\<lambda>capacity.
      Ok (rs_session_id st @ secret_bytes (rs_root_key st) @ secret_bytes (rs_sending_chain st)
        @ secret_bytes (rs_receiving_chain st) @ DhKeyPair_secret_bytes (rs_dh_pair st)
        @ dh_public_bytes (rs_remote_dh st)
        @ to_be_bytes (rs_previous_sending_chain_len st) @ to_be_bytes (rs_sending_count st)
        @ to_be_bytes (rs_receiving_count st) @ [AeadSuite_id (rs_suite st)]
        @ to_be_bytes skipped_len @ concat (map encode_entry (rs_skipped st)))))))"

text \<open>The loop of \<open>decode_state\<close> over the indices that are left, with the entries read so far.\<close>

fun decode_entries ::
    "bytes \<Rightarrow> nat \<Rightarrow> skipped_message_key list \<Rightarrow> nat list \<Rightarrow> skipped_message_key list res" where
  "decode_entries bs fixed_len skipped [] = Ok skipped"
| "decode_entries bs fixed_len skipped (index # indices) =
     bind_res (ok_or (checked_mul_usize index 68) InvalidLength) (\<lambda>entries_len.
     bind_res (add_usize fixed_len entries_len) (\<lambda>offset.
     bind_res (field 32 offset (offset + 32) bs) (\<lambda>remote_dh.
     bind_res (field 4 (offset + 32) (offset + 36) bs) (\<lambda>number.
     let message_number = from_be_bytes number in
     if \<exists>entry \<in> set skipped. sk_remote_dh entry = DhPublicKey remote_dh
          \<and> sk_message_number entry = message_number
     then Err InvalidState else
     bind_res (field 32 (offset + 36) (offset + 68) bs) (\<lambda>key.
     decode_entries bs fixed_len
       (skipped @ [\<lparr>sk_remote_dh = DhPublicKey remote_dh, sk_message_number = message_number,
          sk_key = AeadKey key\<rparr>]) indices)))))"

definition decode_state :: "primitives \<Rightarrow> bytes \<Rightarrow> u64 \<Rightarrow> u8 \<Rightarrow> ratchet_state res" where
  "decode_state P bs generation version =
     bind_res
       (if version = LEGACY_VERSION then Ok PLAINTEXT_FIXED_LEN_V1
        else if version = STATE_VERSION then Ok PLAINTEXT_FIXED_LEN_V2
        else Err InvalidFrame) (\<lambda>fixed_len.
     if length bs < fixed_len then Err InvalidFrame else
     bind_res
       (if version = LEGACY_VERSION then Ok (XChaCha20Poly1305, 204)
        else
          bind_res (index_at bs 204) (\<lambda>suite_id.
          bind_res (AeadSuite_from_id suite_id) (\<lambda>suite. Ok (suite, 205)))) (\<lambda>(suite, count_offset).
     bind_res (field 2 count_offset (count_offset + 2) bs) (\<lambda>count_bytes.
     let skipped_count = unat (from_be_bytes count_bytes :: u16) in
     if skipped_count > MAX_SKIPPED_KEYS then Err InvalidState else
     bind_res (ok_or (checked_mul_usize skipped_count 68) InvalidLength) (\<lambda>entries_len.
     bind_res (ok_or (checked_add_usize fixed_len entries_len) InvalidLength) (\<lambda>expected.
     if length bs \<noteq> expected then Err InvalidFrame else
     bind_res (field 32 0 32 bs) (\<lambda>session_id.
     bind_res (field 32 32 64 bs) (\<lambda>root_key.
     bind_res (field 32 64 96 bs) (\<lambda>sending_chain.
     bind_res (field 32 96 128 bs) (\<lambda>receiving_chain.
     bind_res (field 32 128 160 bs) (\<lambda>dh_secret.
     bind_res (field 32 160 192 bs) (\<lambda>remote_dh.
     bind_res (field 4 192 196 bs) (\<lambda>previous_sending_chain_len.
     bind_res (field 4 196 200 bs) (\<lambda>sending_count.
     bind_res (field 4 200 204 bs) (\<lambda>receiving_count.
     bind_res (field 2 count_offset (count_offset + 2) bs) (\<lambda>encoded_bytes.
     let encoded_count = unat (from_be_bytes encoded_bytes :: u16) in
     if encoded_count \<noteq> skipped_count then Err InvalidFrame else
     bind_res (decode_entries bs fixed_len [] [0 ..< skipped_count]) (\<lambda>skipped.
     Ok \<lparr>rs_session_id = session_id, rs_root_key = Secret root_key,
         rs_sending_chain = Secret sending_chain, rs_receiving_chain = Secret receiving_chain,
         rs_dh_pair = DhKeyPair_from_secret P (DhSecretKey dh_secret),
         rs_remote_dh = DhPublicKey remote_dh,
         rs_previous_sending_chain_len = from_be_bytes previous_sending_chain_len,
         rs_sending_count = from_be_bytes sending_count,
         rs_receiving_count = from_be_bytes receiving_count,
         rs_generation = generation, rs_suite = suite, rs_skipped = skipped\<rparr>))))))))))))))))"

definition state_aad :: "bytes \<Rightarrow> u8 \<Rightarrow> bytes res" where
  "state_aad context version =
     (let label = (if version = LEGACY_VERSION then AAD_LABEL_V1 else AAD_LABEL_V2) in
      bind_res (ok_or (checked_add_usize (length label) (length context)) InvalidLength) (\<lambda>capacity.
      if capacity > MAX_AAD_LEN then Err InvalidLength else Ok (label @ context)))"

section \<open>Sealing and restoring\<close>

definition seal_state ::
    "primitives \<Rightarrow> state_seal_key \<Rightarrow> bytes \<Rightarrow> ratchet_state \<Rightarrow> rng \<Rightarrow> bytes res \<times> rng" where
  "seal_state P key context st =
     io_bind (io_lift (state_aad context STATE_VERSION)) (\<lambda>aad.
     io_bind (io_lift (encode_state st)) (\<lambda>plaintext.
     io_bind (aead_seal P (seal_key key) XChaCha20Poly1305 aad plaintext) (\<lambda>ciphertext.
     io_lift
       (bind_res (ok_or (word_try_from (length (ct_body ciphertext)) :: u32 option) InvalidLength) (\<lambda>body_len.
        bind_res (ok_or (word_try_from (length (ct_nonce ciphertext)) :: u8 option) InvalidLength) (\<lambda>nonce_len.
        Ok (STATE_MAGIC @ [STATE_VERSION] @ to_be_bytes (rs_generation st) @ [nonce_len]
          @ to_be_bytes body_len @ ct_nonce ciphertext @ ct_body ciphertext)))))))"

definition restore_state ::
    "primitives \<Rightarrow> state_seal_key \<Rightarrow> bytes \<Rightarrow> u64 \<Rightarrow> bytes \<Rightarrow> ratchet_state res" where
  "restore_state P key context minimum_generation blob =
     (if length blob < STATE_HEADER_LEN + STATE_NONCE_LEN + 16 then Err InvalidFrame else
      bind_res (slice 0 3 blob) (\<lambda>magic.
      if magic \<noteq> STATE_MAGIC then Err InvalidFrame else
      bind_res (index_at blob 3) (\<lambda>version.
      if \<not> (version = LEGACY_VERSION \<or> version = STATE_VERSION) then Err InvalidFrame else
      bind_res (field 8 4 12 blob) (\<lambda>generation_bytes.
      let generation = from_be_bytes generation_bytes in
      if generation < minimum_generation then Err StateRollbackDetected else
      bind_res (index_at blob 12) (\<lambda>nonce_len_byte.
      let nonce_len = unat nonce_len_byte in
      bind_res (field 4 13 17 blob) (\<lambda>body_len_bytes.
      let body_len = unat (from_be_bytes body_len_bytes :: u32) in
      bind_res
        (ok_or (Option.bind (checked_add_usize STATE_HEADER_LEN nonce_len)
           (\<lambda>value. checked_add_usize value body_len)) InvalidLength) (\<lambda>expected.
      if nonce_len \<noteq> STATE_NONCE_LEN \<or> expected \<noteq> length blob then Err InvalidFrame else
      bind_res (slice STATE_HEADER_LEN (STATE_HEADER_LEN + STATE_NONCE_LEN) blob) (\<lambda>nonce.
      bind_res (slice (STATE_HEADER_LEN + STATE_NONCE_LEN) (length blob) blob) (\<lambda>body.
      bind_res (Ciphertext_from_parts XChaCha20Poly1305 nonce body) (\<lambda>ciphertext.
      bind_res (index_at blob 3) (\<lambda>version.
      bind_res (state_aad context version) (\<lambda>aad.
      bind_res (aead_open P (seal_key key) ciphertext aad) (\<lambda>plaintext.
      decode_state P plaintext generation version)))))))))))))"

section \<open>The plaintext record\<close>

text \<open>A state whose kept keys have different chain and number, as the parser requires.\<close>

definition entry_id :: "skipped_message_key \<Rightarrow> dh_public \<times> u32" where
  "entry_id e = (sk_remote_dh e, sk_message_number e)"

definition snapshot_ok :: "primitives \<Rightarrow> ratchet_state \<Rightarrow> bool" where
  "snapshot_ok P st \<longleftrightarrow> ratchet_ok P st \<and> distinct (map entry_id (rs_skipped st))"

definition fixed_part :: "ratchet_state \<Rightarrow> bytes" where
  "fixed_part st =
     rs_session_id st @ secret_bytes (rs_root_key st) @ secret_bytes (rs_sending_chain st)
       @ secret_bytes (rs_receiving_chain st) @ DhKeyPair_secret_bytes (rs_dh_pair st)
       @ dh_public_bytes (rs_remote_dh st)
       @ to_be_bytes (rs_previous_sending_chain_len st) @ to_be_bytes (rs_sending_count st)
       @ to_be_bytes (rs_receiving_count st)"

definition count_bytes :: "ratchet_state \<Rightarrow> bytes" where
  "count_bytes st = to_be_bytes (word_of_nat (length (rs_skipped st)) :: u16)"

definition entries_part :: "ratchet_state \<Rightarrow> bytes" where
  "entries_part st = concat (map encode_entry (rs_skipped st))"

lemma fixed_lens: "PLAINTEXT_FIXED_LEN_V1 = 206" "PLAINTEXT_FIXED_LEN_V2 = 207" "STATE_HEADER_LEN = 17"
  "STATE_NONCE_LEN = 24" "LEGACY_VERSION = 1" "STATE_VERSION = 2"
  by (simp_all add: PLAINTEXT_FIXED_LEN_V1_def PLAINTEXT_FIXED_LEN_V2_def STATE_HEADER_LEN_def
      STATE_NONCE_LEN_def LEGACY_VERSION_def STATE_VERSION_def)

lemma length_fixed_part: "ratchet_ok P st \<Longrightarrow> length (fixed_part st) = 204"
  by (simp add: fixed_part_def ratchet_ok_def key_pair_ok_def DhKeyPair_secret_bytes_def)

lemma length_encode_entry: "skipped_ok e \<Longrightarrow> length (encode_entry e) = 68"
  by (simp add: encode_entry_def skipped_ok_def)

lemma length_entries: "\<forall>e \<in> set es. skipped_ok e \<Longrightarrow> length (concat (map encode_entry es)) = 68 * length es"
  by (induction es) (simp_all add: length_encode_entry)

lemma encode_state_Ok:
  assumes "length (rs_skipped st) \<le> MAX_SKIPPED_KEYS"
  shows "encode_state st = Ok (fixed_part st @ [AeadSuite_id (rs_suite st)] @ count_bytes st @ entries_part st)"
proof -
  let ?n = "length (rs_skipped st)"
  have n: "?n \<le> 1024" using assms by (simp add: MAX_SKIPPED_KEYS_def)
  then have "(word_try_from ?n :: u16 option) = Some (word_of_nat ?n)" "unat (word_of_nat ?n :: u16) = ?n"
    by (simp_all add: word_try_from_def unat_of_nat)
  with n show ?thesis
    by (simp add: encode_state_def assms not_less checked_mul_usize_def checked_add_usize_def
        usize_limit_def fixed_lens fixed_part_def count_bytes_def entries_part_def)
qed

lemma entry_eta [simp]:
  "\<lparr>sk_remote_dh = sk_remote_dh e, sk_message_number = sk_message_number e, sk_key = sk_key e\<rparr> = e"
  by simp

text \<open>One entry, read at its offset.\<close>

lemma entry_fields:
  assumes "skipped_ok e" "length pre = off"
  shows "sub_list off (off + 32) (pre @ encode_entry e @ post) = dh_public_bytes (sk_remote_dh e)"
    "sub_list (off + 32) (off + 36) (pre @ encode_entry e @ post) = to_be_bytes (sk_message_number e)"
    "sub_list (off + 36) (off + 68) (pre @ encode_entry e @ post) = aead_key_bytes (sk_key e)"
  using assms by (simp_all add: encode_entry_def skipped_ok_def sub_list_def)

lemma decode_entries_encoded:
  assumes fixed: "length pre = n" "n \<le> 207" and es: "\<forall>e \<in> set (done @ es). skipped_ok e"
    and len: "length (done @ es) \<le> MAX_SKIPPED_KEYS"
    and dist: "distinct (map entry_id done)"
  shows "decode_entries (pre @ concat (map encode_entry (done @ es))) n done [length done ..< length (done @ es)] =
    (if distinct (map entry_id (done @ es)) then Ok (done @ es) else Err InvalidState)"
  using es len dist
proof (induction es arbitrary: "done")
  case (Cons e es)
  let ?bs = "pre @ concat (map encode_entry (done @ e # es))"
  have e: "skipped_ok e" using Cons.prems(1) by simp
  let ?off = "n + 68 * length done"
  let ?pre = "pre @ concat (map encode_entry done)" and ?post = "concat (map encode_entry es)"
  have bs: "?bs = ?pre @ encode_entry e @ ?post" by simp
  have pre: "length ?pre = ?off" using fixed(1) length_entries [of "done"] Cons.prems(1) by simp
  have lbs: "?off + 68 \<le> length ?bs" unfolding bs using pre length_encode_entry [OF e] by simp
  note fields = entry_fields [OF e pre, of ?post, folded bs]
  have small: "length done < 1024" using Cons.prems(2) by (simp add: MAX_SKIPPED_KEYS_def)
  have up: "[length done ..< length (done @ e # es)] = length done # [length (done @ [e]) ..< length ((done @ [e]) @ es)]"
    by (simp add: upt_rec)
  have step: "decode_entries ?bs n done (length done # is) =
      (if entry_id e \<in> entry_id ` set done then Err InvalidState
       else decode_entries ?bs n (done @ [e]) is)" for "is"
    using small fixed(2) lbs fields
    by (auto simp: checked_mul_usize_def add_usize_def usize_limit_def Let_def entry_id_def mult.commute image_iff)
  show ?case
  proof (cases "entry_id e \<in> entry_id ` set done")
    case True
    then show ?thesis unfolding up step by auto
  next
    case False
    with Cons.IH [of "done @ [e]"] Cons.prems show ?thesis unfolding up step by simp
  qed
qed simp

text \<open>The parser on a string that holds the fixed part, for both versions.\<close>

definition state_record ::
    "primitives \<Rightarrow> bytes \<Rightarrow> u64 \<Rightarrow> aead_suite \<Rightarrow> skipped_message_key list \<Rightarrow> ratchet_state" where
  "state_record P bs g suite skipped =
     \<lparr>rs_session_id = sub_list 0 32 bs, rs_root_key = Secret (sub_list 32 64 bs),
      rs_sending_chain = Secret (sub_list 64 96 bs), rs_receiving_chain = Secret (sub_list 96 128 bs),
      rs_dh_pair = DhKeyPair_from_secret P (DhSecretKey (sub_list 128 160 bs)),
      rs_remote_dh = DhPublicKey (sub_list 160 192 bs),
      rs_previous_sending_chain_len = from_be_bytes (sub_list 192 196 bs),
      rs_sending_count = from_be_bytes (sub_list 196 200 bs),
      rs_receiving_count = from_be_bytes (sub_list 200 204 bs),
      rs_generation = g, rs_suite = suite, rs_skipped = skipped\<rparr>"

lemma count_small: "unat (w :: u16) < 65536"
  using unsigned_less [of w, where ?'a = nat] by simp

lemma decode_state_v2:
  assumes "207 \<le> length bs"
  shows "decode_state P bs g 2 =
    bind_res (AeadSuite_from_id (bs ! 204)) (\<lambda>suite.
    let n = unat (from_be_bytes (sub_list 205 207 bs) :: u16) in
    if n > MAX_SKIPPED_KEYS then Err InvalidState
    else if length bs \<noteq> 207 + 68 * n then Err InvalidFrame
    else bind_res (decode_entries bs 207 [] [0 ..< n]) (\<lambda>skipped. Ok (state_record P bs g suite skipped)))"
  using assms count_small [of "from_be_bytes (sub_list 205 207 bs)"]
  by (cases "AeadSuite_from_id (bs ! 204)")
     (simp_all add: decode_state_def fixed_lens Let_def checked_mul_usize_def checked_add_usize_def
       usize_limit_def state_record_def mult.commute)

lemma decode_state_v1:
  assumes "206 \<le> length bs"
  shows "decode_state P bs g 1 =
    (let n = unat (from_be_bytes (sub_list 204 206 bs) :: u16) in
    if n > MAX_SKIPPED_KEYS then Err InvalidState
    else if length bs \<noteq> 206 + 68 * n then Err InvalidFrame
    else bind_res (decode_entries bs 206 [] [0 ..< n])
      (\<lambda>skipped. Ok (state_record P bs g XChaCha20Poly1305 skipped)))"
  using assms count_small [of "from_be_bytes (sub_list 204 206 bs)"]
  by (simp add: decode_state_def fixed_lens Let_def checked_mul_usize_def checked_add_usize_def
       usize_limit_def state_record_def mult.commute)

lemma decode_state_short:
  "length bs < 207 \<Longrightarrow> decode_state P bs g 2 = Err InvalidFrame"
  "length bs < 206 \<Longrightarrow> decode_state P bs g 1 = Err InvalidFrame"
  by (simp_all add: decode_state_def fixed_lens)

lemma state_record_encoded:
  assumes "ratchet_ok P st"
  shows "state_record P (fixed_part st @ rest) g (rs_suite st) (rs_skipped st) = st\<lparr>rs_generation := g\<rparr>"
proof -
  have "DhKeyPair_from_secret P (DhSecretKey (DhKeyPair_secret_bytes (rs_dh_pair st))) = rs_dh_pair st"
    using assms by (simp add: ratchet_ok_def)
  then show ?thesis
    using assms
    by (simp add: state_record_def fixed_part_def ratchet_ok_def sub_list_def key_pair_ok_def
        DhKeyPair_secret_bytes_def)
qed

lemma count_bytes_read:
  "length (rs_skipped st) \<le> MAX_SKIPPED_KEYS \<Longrightarrow>
     unat (from_be_bytes (count_bytes st) :: u16) = length (rs_skipped st)"
  by (simp add: count_bytes_def unat_of_nat MAX_SKIPPED_KEYS_def)

lemma decode_state_encoded:
  assumes ok: "ratchet_ok P st" and enc: "encode_state st = Ok bs"
  shows "decode_state P bs g STATE_VERSION =
    (if distinct (map entry_id (rs_skipped st)) then Ok (st\<lparr>rs_generation := g\<rparr>) else Err InvalidState)"
proof -
  have len: "length (rs_skipped st) \<le> MAX_SKIPPED_KEYS" and es: "\<forall>e \<in> set (rs_skipped st). skipped_ok e"
    using ok by (simp_all add: ratchet_ok_def)
  let ?pre = "fixed_part st @ [AeadSuite_id (rs_suite st)] @ count_bytes st"
  have bs: "bs = ?pre @ entries_part st"
    using enc encode_state_Ok [OF len] by simp
  note fl = length_fixed_part [OF ok]
  have cl: "length (count_bytes st) = 2" by (simp add: count_bytes_def)
  have pre: "length ?pre = 207" by (simp add: fl cl)
  have lbs: "length bs = 207 + 68 * length (rs_skipped st)"
    using length_entries [OF es] by (simp add: bs fl cl entries_part_def)
  have suite: "AeadSuite_from_id (bs ! 204) = Ok (rs_suite st)"
    using fl by (simp add: bs nth_append suite.of_to_id)
  have count: "sub_list 205 207 bs = count_bytes st"
    using fl cl by (simp add: bs sub_list_def)
  have entries: "decode_entries bs 207 [] [0 ..< length (rs_skipped st)] =
      (if distinct (map entry_id (rs_skipped st)) then Ok (rs_skipped st) else Err InvalidState)"
    using decode_entries_encoded [OF pre, of "[]" "rs_skipped st"] es len
    by (simp add: bs entries_part_def)
  have rec: "state_record P bs g (rs_suite st) (rs_skipped st) = st\<lparr>rs_generation := g\<rparr>"
    unfolding bs append_assoc using state_record_encoded [OF ok] .
  have "207 \<le> length bs" by (simp add: lbs)
  then show ?thesis
    using len by (simp add: fixed_lens decode_state_v2 suite count count_bytes_read entries rec lbs)
qed

text \<open>A snapshot of version 1 has no suite byte.\<close>

lemma decode_legacy_state:
  assumes ok: "snapshot_ok P st" and suite: "rs_suite st = XChaCha20Poly1305"
  shows "decode_state P (fixed_part st @ count_bytes st @ entries_part st) g LEGACY_VERSION =
    Ok (st\<lparr>rs_generation := g\<rparr>)"
proof -
  have r: "ratchet_ok P st" and dist: "distinct (map entry_id (rs_skipped st))"
    using ok by (simp_all add: snapshot_ok_def)
  have len: "length (rs_skipped st) \<le> MAX_SKIPPED_KEYS" and es: "\<forall>e \<in> set (rs_skipped st). skipped_ok e"
    using r by (simp_all add: ratchet_ok_def)
  let ?pre = "fixed_part st @ count_bytes st"
  define bs where "bs = ?pre @ entries_part st"
  note fl = length_fixed_part [OF r]
  have cl: "length (count_bytes st) = 2" by (simp add: count_bytes_def)
  have pre: "length ?pre = 206" by (simp add: fl cl)
  have lbs: "length bs = 206 + 68 * length (rs_skipped st)"
    using length_entries [OF es] by (simp add: bs_def fl cl entries_part_def)
  have count: "sub_list 204 206 bs = count_bytes st"
    using fl cl by (simp add: bs_def sub_list_def)
  have entries: "decode_entries bs 206 [] [0 ..< length (rs_skipped st)] = Ok (rs_skipped st)"
    using decode_entries_encoded [OF pre, of "[]" "rs_skipped st"] es len dist
    by (simp add: bs_def entries_part_def)
  have rec: "state_record P bs g XChaCha20Poly1305 (rs_skipped st) = st\<lparr>rs_generation := g\<rparr>"
    unfolding bs_def append_assoc using state_record_encoded [OF r] suite by simp
  have "206 \<le> length bs" by (simp add: lbs)
  then have "decode_state P bs g LEGACY_VERSION = Ok (st\<lparr>rs_generation := g\<rparr>)"
    using len by (simp add: fixed_lens decode_state_v1 count count_bytes_read entries rec lbs)
  then show ?thesis by (simp add: bs_def)
qed

text \<open>What the parser accepts is a valid state, and is its encoding.\<close>

lemma decode_entries_sound:
  assumes "decode_entries bs n acc [i ..< i + k] = Ok out" "n \<le> 207" "i + k \<le> MAX_SKIPPED_KEYS"
    "n + 68 * (i + k) \<le> length bs" "distinct (map entry_id acc)" "\<forall>e \<in> set acc. skipped_ok e"
  shows "\<exists>es. out = acc @ es \<and> length es = k \<and> distinct (map entry_id out) \<and> (\<forall>e \<in> set out. skipped_ok e) \<and>
    concat (map encode_entry es) = sub_list (n + 68 * i) (n + 68 * (i + k)) bs"
  using assms
proof (induction k arbitrary: i acc)
  case 0
  then show ?case by (simp add: sub_list_def)
next
  case (Suc k)
  let ?off = "n + 68 * i"
  define e where "e = \<lparr>sk_remote_dh = DhPublicKey (sub_list ?off (?off + 32) bs),
    sk_message_number = from_be_bytes (sub_list (?off + 32) (?off + 36) bs),
    sk_key = AeadKey (sub_list (?off + 36) (?off + 68) bs)\<rparr>"
  have small: "i < 1024" using Suc.prems(3) by (simp add: MAX_SKIPPED_KEYS_def)
  have up: "[i ..< i + Suc k] = i # [Suc i ..< Suc i + k]" by (simp add: upt_rec)
  have room: "?off + 68 \<le> length bs" using Suc.prems(4) by simp
  have "entry_id e \<notin> entry_id ` set acc"
    and rest: "decode_entries bs n (acc @ [e]) [Suc i ..< Suc i + k] = Ok out"
    using Suc.prems(1) small room Suc.prems(2) unfolding up
    by (auto simp: checked_mul_usize_def add_usize_def usize_limit_def Let_def entry_id_def e_def
        mult.commute image_iff split: if_splits)
  moreover have e: "skipped_ok e" using room by (simp add: skipped_ok_def e_def)
  ultimately obtain es where es: "out = (acc @ [e]) @ es" "length es = k" "distinct (map entry_id out)"
    "\<forall>e \<in> set out. skipped_ok e"
    "concat (map encode_entry es) = sub_list (n + 68 * Suc i) (n + 68 * (Suc i + k)) bs"
    using Suc.IH [OF rest] Suc.prems by auto
  have "encode_entry e = sub_list ?off (?off + 68) bs"
    using room by (simp add: encode_entry_def e_def slice_join)
  with es show ?case
    by (intro exI [of _ "e # es"]) (simp add: slice_join algebra_simps)
qed

lemma state_record_sound:
  assumes len: "206 \<le> n" "n \<le> 207" "length bs = n + 68 * k" "k \<le> MAX_SKIPPED_KEYS"
    and entries: "decode_entries bs n [] [0 ..< k] = Ok es" and st: "st = state_record P bs g suite es"
  shows "snapshot_ok P st" "rs_generation st = g" "rs_suite st = suite" "length (rs_skipped st) = k"
    "fixed_part st = sub_list 0 204 bs" "entries_part st = sub_list n (length bs) bs"
proof -
  from decode_entries_sound [of bs n "[]" 0 k es] entries len
  have es: "length es = k" "distinct (map entry_id es)" "\<forall>e \<in> set es. skipped_ok e"
    "concat (map encode_entry es) = sub_list n (n + 68 * k) bs" by auto
  show "snapshot_ok P st" "rs_generation st = g" "rs_suite st = suite" "length (rs_skipped st) = k"
    using es len by (simp_all add: snapshot_ok_def ratchet_ok_def st state_record_def)
  show "fixed_part st = sub_list 0 204 bs"
    using len
    by (simp add: fixed_part_def st state_record_def DhKeyPair_from_secret_def DhKeyPair_secret_bytes_def slice_join)
  show "entries_part st = sub_list n (length bs) bs"
    using es(4) len(3) by (simp add: entries_part_def st state_record_def)
qed

lemma decode_state_sound:
  assumes "decode_state P bs g STATE_VERSION = Ok st"
  shows "snapshot_ok P st" "rs_generation st = g" "encode_state st = Ok bs"
proof -
  have len: "207 \<le> length bs"
    using assms decode_state_short(1) [of bs P g] by (auto simp: fixed_lens not_less [symmetric])
  define n where "n = unat (from_be_bytes (sub_list 205 207 bs) :: u16)"
  from assms len obtain suite es where
    suite: "AeadSuite_from_id (bs ! 204) = Ok suite" and n: "n \<le> MAX_SKIPPED_KEYS"
    and lbs: "length bs = 207 + 68 * n" and entries: "decode_entries bs 207 [] [0 ..< n] = Ok es"
    and st: "st = state_record P bs g suite es"
    by (auto simp: fixed_lens decode_state_v2 bind_res_Ok Let_def n_def not_less split: if_splits)
  note rec = state_record_sound [OF _ _ lbs n entries st, simplified]
  show "snapshot_ok P st" "rs_generation st = g" by (rule rec)+
  have "AeadSuite_id (rs_suite st) = bs ! 204" using suite by (simp add: rec suite.to_of_id)
  moreover have "count_bytes st = sub_list 205 207 bs" using len by (simp add: count_bytes_def rec n_def)
  ultimately have "fixed_part st @ [AeadSuite_id (rs_suite st)] @ count_bytes st @ entries_part st =
      sub_list 0 204 bs @ [bs ! 204] @ sub_list 205 207 bs @ sub_list 207 (length bs) bs" by (simp add: rec)
  also have "\<dots> = bs" using len by (simp add: slice_join)
  finally show "encode_state st = Ok bs" using encode_state_Ok [of st] n by (simp add: rec)
qed

lemma decode_legacy_sound:
  assumes "decode_state P bs g LEGACY_VERSION = Ok st"
  shows "snapshot_ok P st" "rs_generation st = g" "rs_suite st = XChaCha20Poly1305"
    "bs = fixed_part st @ count_bytes st @ entries_part st"
proof -
  have len: "206 \<le> length bs"
    using assms decode_state_short(2) [of bs P g] by (auto simp: fixed_lens not_less [symmetric])
  define n where "n = unat (from_be_bytes (sub_list 204 206 bs) :: u16)"
  from assms len obtain es where
    n: "n \<le> MAX_SKIPPED_KEYS" and lbs: "length bs = 206 + 68 * n" and entries: "decode_entries bs 206 [] [0 ..< n] = Ok es"
    and st: "st = state_record P bs g XChaCha20Poly1305 es"
    by (auto simp: fixed_lens decode_state_v1 bind_res_Ok Let_def n_def not_less split: if_splits)
  note rec = state_record_sound [OF _ _ lbs n entries st, simplified]
  show "snapshot_ok P st" "rs_generation st = g" "rs_suite st = XChaCha20Poly1305" by (rule rec)+
  have "count_bytes st = sub_list 204 206 bs" using len by (simp add: count_bytes_def rec n_def)
  then show "bs = fixed_part st @ count_bytes st @ entries_part st" using len by (simp add: rec slice_join)
qed

text \<open>A version 1 plaintext is a version 2 plaintext under XChaCha20-Poly1305 without its suite byte.\<close>

lemma decode_legacy_exact:
  "decode_state P bs g LEGACY_VERSION = Ok st \<longleftrightarrow>
     snapshot_ok P st \<and> rs_suite st = XChaCha20Poly1305 \<and> rs_generation st = g \<and>
     (\<exists>full. encode_state st = Ok full \<and> bs = take 204 full @ drop 205 full)"
proof -
  have split: "take 204 full @ drop 205 full = fixed_part st @ count_bytes st @ entries_part st"
    if "snapshot_ok P st" "encode_state st = Ok full" for full
    using that encode_state_Ok [of st] length_fixed_part [of P st] by (auto simp: snapshot_ok_def ratchet_ok_def)
  have enc: "\<exists>full. encode_state st = Ok full" if "snapshot_ok P st"
    using that encode_state_Ok [of st] by (auto simp: snapshot_ok_def ratchet_ok_def)
  show ?thesis
  proof
    assume *: "decode_state P bs g LEGACY_VERSION = Ok st"
    with decode_legacy_sound [OF *] enc split show "snapshot_ok P st \<and> rs_suite st = XChaCha20Poly1305 \<and>
        rs_generation st = g \<and> (\<exists>full. encode_state st = Ok full \<and> bs = take 204 full @ drop 205 full)"
      by metis
  next
    assume *: "snapshot_ok P st \<and> rs_suite st = XChaCha20Poly1305 \<and>
        rs_generation st = g \<and> (\<exists>full. encode_state st = Ok full \<and> bs = take 204 full @ drop 205 full)"
    then have "bs = fixed_part st @ count_bytes st @ entries_part st" using split by blast
    moreover have "st\<lparr>rs_generation := g\<rparr> = st" using * by (metis (no_types) ratchet_state.surjective ratchet_state.update_convs(10))
    ultimately show "decode_state P bs g LEGACY_VERSION = Ok st" using * decode_legacy_state [of P st g] by simp
  qed
qed

lemma decode_state_generation:
  assumes "v = LEGACY_VERSION \<or> v = STATE_VERSION" "decode_state P bs g v = Ok st"
  shows "rs_generation st = g"
proof (cases "v = STATE_VERSION")
  case True
  with decode_state_sound(2) assms(2) show ?thesis by blast
next
  case False
  then have v: "v = 1" using assms(1) by (simp add: fixed_lens)
  then have "206 \<le> length bs" using decode_state_short(2) [of bs P g] assms(2) by (cases "length bs < 206") auto
  from decode_state_v1 [OF this, of P g] show ?thesis
    using assms(2) by (auto simp: v state_record_def Let_def bind_res_Ok split: if_splits)
qed

lemma decode_entries_no_panic:
  assumes "n \<le> 207" "\<forall>i \<in> set is. i < 1024 \<and> n + 68 * i + 68 \<le> length bs"
  shows "decode_entries bs n acc is \<noteq> Panics"
  using assms(2)
proof (induction "is" arbitrary: acc)
  case (Cons i "is")
  with assms(1) show ?case
    by (auto simp: checked_mul_usize_def add_usize_def usize_limit_def Let_def mult.commute split: res_split)
qed simp

lemma decode_state_no_panic: "decode_state P bs g v \<noteq> Panics"
proof -
  consider "v = 2" | "v = 1" | "v \<noteq> 2" "v \<noteq> 1" by blast
  then show ?thesis
  proof cases
    case 1
    have "decode_entries bs 207 [] [0 ..< n] \<noteq> Panics"
      if "n \<le> MAX_SKIPPED_KEYS" "length bs = 207 + 68 * n" for n
      using that by (intro decode_entries_no_panic) (auto simp: MAX_SKIPPED_KEYS_def)
    then show ?thesis
      using 1 decode_state_short(1) [of bs P g] suite.of_id_error
      by (cases "length bs < 207") (auto simp: decode_state_v2 Let_def not_less bind_res_Inl)
  next
    case 2
    have "decode_entries bs 206 [] [0 ..< n] \<noteq> Panics"
      if "n \<le> MAX_SKIPPED_KEYS" "length bs = 206 + 68 * n" for n
      using that by (intro decode_entries_no_panic) (auto simp: MAX_SKIPPED_KEYS_def)
    then show ?thesis
      using 2 decode_state_short(2) [of bs P g]
      by (cases "length bs < 206") (auto simp: decode_state_v1 Let_def not_less bind_res_Inl)
  qed (simp add: decode_state_def fixed_lens)
qed

interpretation snapshot: wire_format encode_state "\<lambda>bs. decode_state P bs g STATE_VERSION"
  "\<lambda>st. snapshot_ok P st \<and> rs_generation st = g" for P g
proof unfold_locales
  show "\<exists>bs. encode_state st = Ok bs" if "snapshot_ok P st \<and> rs_generation st = g" for st
    using that encode_state_Ok [of st] by (auto simp: snapshot_ok_def ratchet_ok_def)
  show "decode_state P bs g STATE_VERSION = Ok st"
    if "snapshot_ok P st \<and> rs_generation st = g" "encode_state st = Ok bs" for st bs
    using that decode_state_encoded [of P st bs g] by (auto simp: snapshot_ok_def)
  show "snapshot_ok P st \<and> rs_generation st = g" "encode_state st = Ok bs"
    if "decode_state P bs g STATE_VERSION = Ok st" for bs st
    using decode_state_sound [OF that] by simp_all
qed (rule decode_state_no_panic)

section \<open>Sealed snapshots\<close>

definition snapshot_bytes :: "u8 \<Rightarrow> u64 \<Rightarrow> ciphertext \<Rightarrow> bytes" where
  "snapshot_bytes version g c =
     STATE_MAGIC @ [version] @ to_be_bytes g @ [word_of_nat (length (ct_nonce c))]
       @ to_be_bytes (word_of_nat (length (ct_body c)) :: u32) @ ct_nonce c @ ct_body c"

definition context_ok :: "bytes \<Rightarrow> bool" where
  "context_ok context \<longleftrightarrow> 24 + length context \<le> MAX_AAD_LEN"

definition state_label :: "u8 \<Rightarrow> bytes" where
  "state_label version = (if version = LEGACY_VERSION then AAD_LABEL_V1 else AAD_LABEL_V2)"

lemma STATE_MAGIC_bytes: "STATE_MAGIC = [77, 82, 83]"
  by (simp add: STATE_MAGIC_def ascii_def of_char_def)

lemma length_state_label: "length (state_label v) = 24"
  by (simp add: state_label_def AAD_LABEL_V1_def AAD_LABEL_V2_def ascii_def)

lemma state_aad_eq:
  "state_aad context v = (if context_ok context then Ok (state_label v @ context) else Err InvalidLength)"
  using length_state_label [of v]
  by (auto simp: state_aad_def context_ok_def state_label_def [symmetric] Let_def checked_add_usize_def
      usize_limit_def MAX_AAD_LEN_def)

text \<open>The associated data separates versions and contexts.\<close>

lemma state_aad_inj:
  assumes "v \<in> {LEGACY_VERSION, STATE_VERSION}" "v' \<in> {LEGACY_VERSION, STATE_VERSION}"
    "state_aad context v = Ok aad" "state_aad context' v' = Ok aad"
  shows "context = context' \<and> v = v'"
proof -
  have aad: "aad = state_label v @ context" "aad = state_label v' @ context'"
    using assms(3,4) by (auto simp: state_aad_eq split: if_splits)
  then have "state_label v = state_label v'" "context = context'"
    using length_state_label [of v] length_state_label [of v'] by (metis append_eq_append_conv)+
  moreover have "AAD_LABEL_V1 \<noteq> AAD_LABEL_V2"
    by (simp add: AAD_LABEL_V1_def AAD_LABEL_V2_def ascii_def of_char_def)
  ultimately show ?thesis using assms(1,2) by (auto simp: state_label_def fixed_lens split: if_splits)
qed

lemma snapshot_tail:
  assumes "aead_seal P k XChaCha20Poly1305 aad pt r = (Inr c, r')"
  shows "bind_res (ok_or (word_try_from (length (ct_body c)) :: u32 option) InvalidLength) (\<lambda>body_len.
      bind_res (ok_or (word_try_from (length (ct_nonce c)) :: u8 option) InvalidLength) (\<lambda>nonce_len.
      Ok (STATE_MAGIC @ [STATE_VERSION] @ to_be_bytes g @ [nonce_len] @ to_be_bytes body_len
        @ ct_nonce c @ ct_body c))) = Ok (snapshot_bytes STATE_VERSION g c)"
proof -
  have "ciphertext_ok c" "ct_suite c = XChaCha20Poly1305"
    using aead_seal_ciphertext [OF assms] by simp_all
  then have "length (ct_body c) < 2 ^ 32" "length (ct_nonce c) < 2 ^ 8"
    by (simp_all add: ciphertext_ok_def MAX_CIPHERTEXT_LEN_def XCHACHA_NONCE_LEN_def)
  then show ?thesis by (simp add: word_try_from_def snapshot_bytes_def)
qed

lemma seal_state_Ok:
  "seal_state P key context st r = (Inr blob, r') \<longleftrightarrow>
    (\<exists>c pt. context_ok context \<and> encode_state st = Ok pt \<and>
       aead_seal P (seal_key key) XChaCha20Poly1305 (state_label STATE_VERSION @ context) pt r = (Inr c, r') \<and>
       blob = snapshot_bytes STATE_VERSION (rs_generation st) c)" (is "?L \<longleftrightarrow> ?R")
proof
  assume ?L
  then obtain aad pt c r1 where "state_aad context STATE_VERSION = Ok aad" and pt: "encode_state st = Ok pt"
    and seal: "aead_seal P (seal_key key) XChaCha20Poly1305 aad pt r = (Inr c, r1)"
    and tail: "bind_res (ok_or (word_try_from (length (ct_body c)) :: u32 option) InvalidLength) (\<lambda>body_len.
      bind_res (ok_or (word_try_from (length (ct_nonce c)) :: u8 option) InvalidLength) (\<lambda>nonce_len.
      Ok (STATE_MAGIC @ [STATE_VERSION] @ to_be_bytes (rs_generation st) @ [nonce_len] @ to_be_bytes body_len
        @ ct_nonce c @ ct_body c))) = Ok blob" and "r1 = r'"
    unfolding seal_state_def io_bind_Ok io_lift_def by blast
  then show ?R using snapshot_tail [OF seal] by (auto simp: state_aad_eq split: if_splits)
next
  assume ?R
  then obtain c pt where "context_ok context" "encode_state st = Ok pt" and
    seal: "aead_seal P (seal_key key) XChaCha20Poly1305 (state_label STATE_VERSION @ context) pt r = (Inr c, r')"
    and "blob = snapshot_bytes STATE_VERSION (rs_generation st) c" by blast
  then show ?L by (simp add: seal_state_def state_aad_eq snapshot_tail [OF seal, simplified])
qed

text \<open>A long enough blob, read at the offsets of its fields.\<close>

lemma restore_state_in_range:
  assumes "57 \<le> length blob"
  shows "restore_state P key context floor blob =
    (if sub_list 0 3 blob \<noteq> STATE_MAGIC \<or> \<not> (blob ! 3 = 1 \<or> blob ! 3 = 2) then Err InvalidFrame
     else if from_be_bytes (sub_list 4 12 blob) < floor then Err StateRollbackDetected
     else if unat (blob ! 12) \<noteq> 24 \<or>
       41 + unat (from_be_bytes (sub_list 13 17 blob) :: u32) \<noteq> length blob then Err InvalidFrame
     else bind_res (Ciphertext_from_parts XChaCha20Poly1305 (sub_list 17 41 blob)
         (sub_list 41 (length blob) blob)) (\<lambda>c.
       bind_res (state_aad context (blob ! 3)) (\<lambda>aad.
       bind_res (aead_open P (seal_key key) c aad) (\<lambda>pt.
       decode_state P pt (from_be_bytes (sub_list 4 12 blob)) (blob ! 3)))))"
proof -
  have b: "unat (from_be_bytes (sub_list 13 17 blob) :: u32) < 2 ^ 32"
    using unsigned_less [of "from_be_bytes (sub_list 13 17 blob) :: u32", where ?'a = nat] by simp
  have n: "unat (blob ! 12) < 256" using unsigned_less [of "blob ! 12", where ?'a = nat] by simp
  have sum: "Option.bind (checked_add_usize 17 (unat (blob ! 12)))
      (\<lambda>value. checked_add_usize value (unat (from_be_bytes (sub_list 13 17 blob) :: u32))) =
      Some (17 + unat (blob ! 12) + unat (from_be_bytes (sub_list 13 17 blob) :: u32))"
    using b n by (simp add: checked_add_usize_def usize_limit_def)
  show ?thesis
    using assms sum by (simp add: restore_state_def fixed_lens Let_def cong: if_cong) 
qed

definition snapshot_ciphertext :: "ciphertext \<Rightarrow> bool" where
  "snapshot_ciphertext c \<longleftrightarrow> ciphertext_ok c \<and> ct_suite c = XChaCha20Poly1305"

lemma snapshot_ciphertext_lengths:
  "snapshot_ciphertext c \<Longrightarrow>
     length (ct_nonce c) = 24 \<and> 16 \<le> length (ct_body c) \<and> length (ct_body c) < 2 ^ 32"
  by (simp add: snapshot_ciphertext_def ciphertext_ok_def XCHACHA_NONCE_LEN_def AEAD_TAG_LEN_def
      MAX_CIPHERTEXT_LEN_def)

lemma snapshot_bytes_fields:
  assumes "snapshot_ciphertext c"
  shows "length (snapshot_bytes v g c) = 41 + length (ct_body c)"
    "sub_list 0 3 (snapshot_bytes v g c) = STATE_MAGIC" "snapshot_bytes v g c ! 3 = v"
    "sub_list 4 12 (snapshot_bytes v g c) = to_be_bytes g" "snapshot_bytes v g c ! 12 = 24"
    "sub_list 13 17 (snapshot_bytes v g c) = to_be_bytes (word_of_nat (length (ct_body c)) :: u32)"
    "sub_list 17 41 (snapshot_bytes v g c) = ct_nonce c"
    "sub_list 41 (41 + length (ct_body c)) (snapshot_bytes v g c) = ct_body c"
  using snapshot_ciphertext_lengths [OF assms]
  by (simp_all add: snapshot_bytes_def STATE_MAGIC_bytes sub_list_def nth_append nth_Cons')

lemma from_parts_snapshot:
  assumes "snapshot_ciphertext c"
  shows "Ciphertext_from_parts XChaCha20Poly1305 (ct_nonce c) (ct_body c) = Ok c"
proof -
  have "ciphertext_ok c" "ct_suite c = XChaCha20Poly1305" using assms by (simp_all add: snapshot_ciphertext_def)
  then show ?thesis using from_parts_of_ciphertext [of c] by simp
qed

lemma restore_snapshot_bytes:
  assumes c: "snapshot_ciphertext c" and v: "v = 1 \<or> v = 2"
  shows "restore_state P key context floor (snapshot_bytes v g c) =
    (if g < floor then Err StateRollbackDetected
     else bind_res (state_aad context v) (\<lambda>aad.
       bind_res (aead_open P (seal_key key) c aad) (\<lambda>pt. decode_state P pt g v)))"
proof -
  note f = snapshot_bytes_fields [OF c, of v g]
  note len = snapshot_ciphertext_lengths [OF c]
  have u: "unat (word_of_nat (length (ct_body c)) :: u32) = length (ct_body c)"
    using len by (simp add: unat_of_nat)
  have "57 \<le> length (snapshot_bytes v g c)" using len by (simp add: f(1))
  then show ?thesis
    using v by (simp add: restore_state_in_range f u from_parts_snapshot [OF c])
qed

text \<open>Restoring accepts exactly the records sealed under this key, this context and their version.\<close>

lemma restore_state_sound:
  assumes P: "aeads_ok P" and run: "restore_state P key context floor blob = Ok st"
  obtains v g c pt where "v = 1 \<or> v = 2" "snapshot_ciphertext c" "blob = snapshot_bytes v g c"
    "floor \<le> g" "context_ok context"
    "seal_with_nonce P (seal_key key) XChaCha20Poly1305 (ct_nonce c) (state_label v @ context) pt = Ok c"
    "decode_state P pt g v = Ok st"
proof -
  have len: "57 \<le> length blob"
    using run by (auto simp: restore_state_def fixed_lens split: if_splits)
  define g where "g = (from_be_bytes (sub_list 4 12 blob) :: u64)"
  define v where "v = blob ! 3"
  from run len obtain c aad pt where
    m: "sub_list 0 3 blob = STATE_MAGIC" and v: "v = 1 \<or> v = 2" and floor: "floor \<le> g"
    and nl: "unat (blob ! 12) = 24"
    and bl: "41 + unat (from_be_bytes (sub_list 13 17 blob) :: u32) = length blob"
    and c: "Ciphertext_from_parts XChaCha20Poly1305 (sub_list 17 41 blob) (sub_list 41 (length blob) blob) = Ok c"
    and aad: "state_aad context v = Ok aad" and pt: "aead_open P (seal_key key) c aad = Ok pt"
    and st: "decode_state P pt g v = Ok st"
    by (auto simp: restore_state_in_range g_def v_def bind_res_Ok not_less split: if_splits)
  have cc: "snapshot_ciphertext c" and parts: "ct_nonce c = sub_list 17 41 blob"
    "ct_body c = sub_list 41 (length blob) blob"
    using c by (auto simp: from_parts_Ok snapshot_ciphertext_def)
  have ctx: "context_ok context" "aad = state_label v @ context"
    using aad by (auto simp: state_aad_eq split: if_splits)
  have "unat (24 :: u8) = unat (blob ! 12)" using nl by simp
  then have n24: "(24 :: u8) = blob ! 12" by (simp only: unsigned_word_eqI)
  have body: "length (ct_body c) = unat (from_be_bytes (sub_list 13 17 blob) :: u32)"
    using bl by (simp add: parts)
  have "snapshot_bytes v g c = sub_list 0 3 blob @ [blob ! 3] @ sub_list 4 12 blob @ [blob ! 12]
      @ sub_list 13 17 blob @ sub_list 17 41 blob @ sub_list 41 (length blob) blob"
    unfolding snapshot_bytes_def body using len n24
    by (simp add: m v_def g_def parts)
  also have "\<dots> = blob" using len by (simp add: slice_join)
  finally have "blob = snapshot_bytes v g c" by simp
  moreover have "seal_with_nonce P (seal_key key) XChaCha20Poly1305 (ct_nonce c) (state_label v @ context) pt = Ok c"
  proof -
    have "length aad \<le> MAX_AAD_LEN" using pt by (auto simp: aead_open_def split: if_splits)
    with open_iff_seal [OF P, of c aad] pt cc ctx show ?thesis by (simp add: snapshot_ciphertext_def)
  qed
  ultimately show thesis using that v cc floor ctx st by blast
qed

lemma sealed_snapshot:
  assumes "seal_state P key context st r = (Inr blob, r')"
  obtains c pt where "snapshot_ciphertext c" "context_ok context" "encode_state st = Ok pt"
    "blob = snapshot_bytes STATE_VERSION (rs_generation st) c"
    "aead_seal P (seal_key key) XChaCha20Poly1305 (state_label STATE_VERSION @ context) pt r = (Inr c, r')"
  using assms aead_seal_ciphertext(1,2) unfolding seal_state_Ok snapshot_ciphertext_def by blast

text \<open>Every state the ratchet can be in can be sealed.\<close>

lemma encode_state_fits:
  assumes st: "ratchet_ok P st"
  obtains pt where "encode_state st = Ok pt" "length pt \<le> MAX_CIPHERTEXT_LEN - AEAD_TAG_LEN"
proof -
  have room: "length (rs_skipped st) \<le> MAX_SKIPPED_KEYS" and sk: "\<forall>e \<in> set (rs_skipped st). skipped_ok e"
    using st by (simp_all add: ratchet_ok_def)
  obtain pt where "encode_state st = Ok pt" "length pt = 207 + 68 * length (rs_skipped st)"
    using encode_state_Ok [OF room] length_fixed_part [OF st] length_entries [OF sk]
    by (simp add: count_bytes_def entries_part_def)
  with that room show thesis by (simp add: limits MAX_SKIPPED_KEYS_def)
qed

lemma seal_state_total:
  assumes P: "aeads_ok P" "sizes_ok P" and st: "ratchet_ok P st" and ctx: "context_ok context"
    and key: "length (aead_key_bytes (seal_key key)) = 32" and rng: "sys_rng P r 24 = Some nonce"
  shows "\<exists>blob. seal_state P key context st r = (Ok blob, Suc r)"
proof -
  obtain pt where pt: "encode_state st = Ok pt" "length pt \<le> MAX_CIPHERTEXT_LEN - AEAD_TAG_LEN"
    by (rule encode_state_fits [OF st])
  have "length (state_label STATE_VERSION @ context) \<le> MAX_AAD_LEN"
    using ctx by (simp add: length_state_label context_ok_def)
  moreover have "sys_rng P r (AeadSuite_nonce_len XChaCha20Poly1305) = Some nonce"
    using rng by (simp add: XCHACHA_NONCE_LEN_def)
  ultimately obtain c where
    "aead_seal P (seal_key key) XChaCha20Poly1305 (state_label STATE_VERSION @ context) pt r = (Ok c, Suc r)"
    using aead_seal_total [OF P key _ pt(2)] by blast
  with pt(1) ctx show ?thesis unfolding seal_state_Ok by blast
qed

text \<open>A sealed state comes back under the same key and context, above the floor.\<close>

lemma restore_sealed:
  assumes P: "aeads_ok P" and st: "ratchet_ok P st"
    and sealed: "seal_state P key context st r = (Inr blob, r')"
  shows "restore_state P key context floor blob =
    (if rs_generation st < floor then Err StateRollbackDetected
     else if distinct (map entry_id (rs_skipped st)) then Ok st else Err InvalidState)"
proof -
  obtain c pt where c: "snapshot_ciphertext c" and ctx: "context_ok context" and pt: "encode_state st = Ok pt"
    and blob: "blob = snapshot_bytes STATE_VERSION (rs_generation st) c"
    and seal: "aead_seal P (seal_key key) XChaCha20Poly1305 (state_label STATE_VERSION @ context) pt r = (Inr c, r')"
    using sealed by (rule sealed_snapshot)
  show ?thesis
    using restore_snapshot_bytes [OF c, of 2] open_seal [OF P seal] ctx
      decode_state_encoded [OF st pt, of "rs_generation st"]
    by (simp add: blob fixed_lens state_aad_eq)
qed

text \<open>
  The generation in the header is not authenticated: whoever can write the blob can put any
  generation there, and the record passes the rollback check with its old contents.
\<close>

lemma restore_forged_generation:
  assumes P: "aeads_ok P" and st: "snapshot_ok P st" and floor: "floor \<le> g"
    and sealed: "seal_state P key context st r = (Inr blob, r')"
  shows "restore_state P key context floor (take 4 blob @ to_be_bytes g @ drop 12 blob) =
    Ok (st\<lparr>rs_generation := g\<rparr>)"
proof -
  obtain c pt where c: "snapshot_ciphertext c" and ctx: "context_ok context" and pt: "encode_state st = Ok pt"
    and blob: "blob = snapshot_bytes STATE_VERSION (rs_generation st) c"
    and seal: "aead_seal P (seal_key key) XChaCha20Poly1305 (state_label STATE_VERSION @ context) pt r = (Inr c, r')"
    using sealed by (rule sealed_snapshot)
  have forged: "take 4 blob @ to_be_bytes g @ drop 12 blob = snapshot_bytes STATE_VERSION g c"
    by (simp add: blob snapshot_bytes_def STATE_MAGIC_bytes)
  have "ratchet_ok P st" "distinct (map entry_id (rs_skipped st))" using st by (simp_all add: snapshot_ok_def)
  then show ?thesis
    unfolding forged
    using restore_snapshot_bytes [OF c, of 2] open_seal [OF P seal] ctx floor decode_state_encoded [OF _ pt, of P g]
    by (simp add: fixed_lens state_aad_eq)
qed

text \<open>Another context never opens what was sealed: the record would have to be its encryption too.\<close>

lemma restore_other_context:
  assumes P: "aeads_ok P" and sealed: "seal_state P key context st r = (Inr blob, r')"
    and restored: "restore_state P key context' floor blob = Ok st'"
  shows "\<exists>c pt'. blob = snapshot_bytes STATE_VERSION (rs_generation st) c \<and>
    seal_with_nonce P (seal_key key) XChaCha20Poly1305 (ct_nonce c) (state_label STATE_VERSION @ context') pt' = Ok c"
proof -
  obtain c0 where c0: "snapshot_ciphertext c0" and blob: "blob = snapshot_bytes STATE_VERSION (rs_generation st) c0"
    using sealed by (rule sealed_snapshot)
  obtain v g c pt where c: "snapshot_ciphertext c" and b: "blob = snapshot_bytes v g c"
    and seal: "seal_with_nonce P (seal_key key) XChaCha20Poly1305 (ct_nonce c) (state_label v @ context') pt = Ok c"
    using P restored by (rule restore_state_sound)
  have "v = STATE_VERSION" "to_be_bytes g = to_be_bytes (rs_generation st)"
    using snapshot_bytes_fields(3,4) [OF c, of v g] snapshot_bytes_fields(3,4) [OF c0, of STATE_VERSION "rs_generation st"] b blob
    by simp_all
  with b seal show ?thesis by auto
qed

lemma restore_no_panic: "restore_state P key context floor blob \<noteq> Panics"
proof (cases "57 \<le> length blob")
  case True
  then show ?thesis
    by (auto simp: restore_state_in_range bind_res_Inl decode_state_no_panic Ciphertext_from_parts_def state_aad_eq)
next
  case False
  then show ?thesis by (simp add: restore_state_def fixed_lens)
qed

end
