(* ===== verification/Mef_Session.thy ===== *)
theory Mef_Session
  imports Mef_Conversation Mef_Envelope Mef_Hybrid Mef_Persistence
begin

text \<open>
  The components composed the way a client composes them: a handshake over its wire messages, the
  two ratchets it gives, frames sent as bytes and received in any order, and one frame carried in a
  sealed envelope.
\<close>

section \<open>Messages as bytes\<close>

fun receive_all ::
    "primitives \<Rightarrow> bytes list \<Rightarrow> ratchet_state \<Rightarrow> rng \<Rightarrow> bytes res list \<times> ratchet_state \<times> rng" where
  "receive_all P [] st r = ([], st, r)"
| "receive_all P (bs # bss) st r =
     (case receive_bytes P bs st r of (res, st1, r1) \<Rightarrow>
        case receive_all P bss st1 r1 of (results, st2, r2) \<Rightarrow> (res # results, st2, r2))"

lemma receive_encoded: "frame_ok f \<Longrightarrow> receive_bytes P (frame_bytes f) st r = RatchetState_decrypt P f st r"
  using InnerFrame_decode_Ok [of "frame_bytes f" f] by (simp add: receive_bytes_def)

lemma receive_all_encoded:
  "\<forall>f \<in> set fs. frame_ok f \<Longrightarrow> receive_all P (map frame_bytes fs) st r = decrypt_all P fs st r"
  by (induction fs arbitrary: st r) (simp_all add: receive_encoded split: prod.splits)

lemma encrypt_all_frames:
  assumes P: "sizes_ok P" "aeads_ok P" "hkdf_total P"
  shows "ratchet_ok P a \<Longrightarrow> chain_link P c a b \<Longrightarrow> encrypt_all P kind pts a r = (Inr fs, a', r') \<Longrightarrow>
    \<forall>f \<in> set fs. frame_ok f"
proof (induction pts arbitrary: a r fs)
  case (Cons pt pts)
  obtain f a1 r1 fs1 where f: "RatchetState_encrypt P kind pt a r = (Inr f, a1, r1)"
    and rest: "encrypt_all P kind pts a1 r1 = (Inr fs1, a', r')" and fs: "fs = f # fs1"
    using Cons.prems(3) by (auto split: prod.splits sum.splits)
  have "rs_sending_chain a = chain_at P c (unat (rs_sending_count a))"
    using Cons.prems(2) by (simp add: chain_link_def)
  from encrypt_Ok(3) [OF P Cons.prems(1) f this]
    Cons.IH [OF encrypt_ratchet_ok [OF P(1) Cons.prems(1) f] encrypt_link(2) [OF P Cons.prems(1) f Cons.prems(2)] rest]
  show ?case by (simp add: fs)
qed simp

lemma encrypt_all_total:
  assumes P: "sizes_ok P" "aeads_ok P" "hkdf_total P" "rng_total P"
  shows "ratchet_ok P a \<Longrightarrow> chain_link P c a b \<Longrightarrow>
    \<forall>pt \<in> set pts. length pt \<le> MAX_CIPHERTEXT_LEN - AEAD_TAG_LEN \<Longrightarrow>
    unat (rs_sending_count a) + length pts < 2 ^ 32 \<Longrightarrow>
    \<exists>fs a' r'. encrypt_all P kind pts a r = (Ok fs, a', r')"
proof (induction pts arbitrary: a r)
  case (Cons pt pts)
  obtain nonce where rng: "sys_rng P r (AeadSuite_nonce_len (rs_suite a)) = Some nonce"
    using P(4) by (auto simp: rng_total_def)
  obtain f a1 where f: "RatchetState_encrypt P kind pt a r = (Ok f, a1, Suc r)"
    using encrypt_total [OF P(1-3) Cons.prems(1) _ rng, of pt kind] Cons.prems(3,4) by auto
  have chain: "rs_sending_chain a = chain_at P c (unat (rs_sending_count a))"
    using Cons.prems(2) by (simp add: chain_link_def)
  have "unat (rs_sending_count a1) + length pts < 2 ^ 32"
    using encrypt_Ok(6) [OF P(1-3) Cons.prems(1) f chain] Cons.prems(4) by simp
  then obtain fs a2 r2 where "encrypt_all P kind pts a1 (Suc r) = (Ok fs, a2, r2)"
    using Cons.IH [OF encrypt_ratchet_ok [OF P(1) Cons.prems(1) f] encrypt_link(2) [OF P(1-3) Cons.prems(1) f Cons.prems(2)]]
      Cons.prems(3) by (metis list.set_intros(2))
  with f show ?case by simp
qed simp

section \<open>After a handshake\<close>

lemma accepted_synced:
  assumes P: "sizes_ok P" "x25519_ok P" "ed25519_ok P" "hkdf_total P"
    and li: "local_identity_ok P li" and m: "material_ok P m" and held: "holds_prekeys P m b"
    and init: "handshake_initiate P li b now r = (Inr (msg, ha), r')"
  shows "\<exists>hb m' x y. handshake_accept P m msg = (Inr hb, m') \<and>
    from_authenticated_handshake_with_suite P ha s = Ok x \<and>
    from_authenticated_handshake_with_suite P hb s = Ok y \<and> synced P x y"
proof -
  obtain hb m' where "handshake_accept P m msg = (Inr hb, m')" "matching P ha hb"
    using accept_agrees [OF P(1-3) li m held init] by auto
  with matching_synced [OF P(1,4) _ matching_lengths [OF P(1) init], of hb s] show ?thesis by blast
qed

lemma hybrid_accepted_synced:
  assumes P: "sizes_ok P" "x25519_ok P" "ed25519_ok P" "mlkem_ok P" "hkdf_total P"
    and li: "local_identity_ok P li" and m: "hybrid_material_ok P m"
    and held: "holds_prekeys P (hm_classical m) (hb_classical b)" "hb_pq_public b = mk_public (hm_pq m)"
    and init: "hybrid_initiate P li b now r = (Inr (msg, ha), r')"
  shows "\<exists>hb m' x y. hybrid_accept P m msg = (Inr hb, m') \<and>
    from_authenticated_handshake_with_suite P ha s = Ok x \<and>
    from_authenticated_handshake_with_suite P hb s = Ok y \<and> synced P x y"
proof -
  note agreed = hybrid_agrees [OF P(1-4) li m held init]
  then obtain hb m' where "hybrid_accept P m msg = (Inr hb, m')" "matching P ha hb" by auto
  with matching_synced [OF P(1,5) _ agreed(3,4), of hb s] show ?thesis by blast
qed

lemma synced_sym: "synced P a b \<Longrightarrow> synced P b a"
  by (auto simp: synced_def)

lemma synced_any_order:
  assumes P: "sizes_ok P" "aeads_ok P" "hkdf_total P" "rng_total P"
    and s: "synced P a b" and sync: "rs_sending_count a = rs_receiving_count b"
    and room: "length (rs_skipped b) + length pts \<le> MAX_SKIPPED_KEYS"
    and small: "\<forall>pt \<in> set pts. length pt \<le> MAX_CIPHERTEXT_LEN - AEAD_TAG_LEN"
    and count: "unat (rs_sending_count a) + length pts < 2 ^ 32"
  shows "\<exists>fs a' r'. encrypt_all P kind pts a r = (Ok fs, a', r') \<and> length fs = length pts \<and>
    (\<exists>wires. map InnerFrame_encode fs = map Ok wires \<and>
      (\<forall>is r2. (\<forall>i \<in> set is. i < length pts) \<longrightarrow>
         fst (receive_all P (map ((!) wires) is) b r2) = map2 (\<lambda>i. delivers (pts ! i)) is (deliveries {} is)))"
proof -
  obtain c where a: "ratchet_ok P a" and link: "chain_link P c a b"
    using s by (auto simp: synced_def live_link_def)
  obtain fs a' r' where sent: "encrypt_all P kind pts a r = (Inr fs, a', r')"
    using encrypt_all_total [OF P a link small count] by blast
  have fs: "\<forall>f \<in> set fs. frame_ok f" by (rule encrypt_all_frames [OF P(1-3) a link sent])
  have len: "length fs = length pts" using encrypt_all_link [OF P(1-3) a link sent] by simp
  have "fst (receive_all P (map ((!) (map frame_bytes fs)) is) b r2) = map2 (\<lambda>i. delivers (pts ! i)) is (deliveries {} is)"
    if idx: "\<forall>i \<in> set is. i < length pts" for "is" r2
  proof -
    have eq: "map ((!) (map frame_bytes fs)) is = map frame_bytes (map ((!) fs) is)"
      and ok: "\<forall>f \<in> set (map ((!) fs) is). frame_ok f"
      using idx len fs by auto
    show ?thesis unfolding eq receive_all_encoded [OF ok]
      by (rule any_order_exactly_once [OF P(1-3) a link sync room sent idx])
  qed
  moreover have "map InnerFrame_encode fs = map Ok (map frame_bytes fs)"
    using fs by (simp add: InnerFrame_encode_Ok)
  ultimately show ?thesis using sent len by blast
qed

section \<open>A frame in an envelope\<close>

lemma live_link_delivers:
  assumes P: "sizes_ok P" "aeads_ok P" "hkdf_total P" and a: "ratchet_ok P a" and live: "live_link P c a b"
    and run: "RatchetState_encrypt P kind pt a r = (Inr f, a', r')" and room: "same_room b f"
  shows "\<exists>b'. RatchetState_decrypt P f b r2 = (Ok pt, b', r2)"
proof -
  have link: "chain_link P c a b" and le: "rs_receiving_count b \<le> rs_sending_count a"
    using live by (simp_all add: live_link_def)
  have chain: "rs_sending_chain a = chain_at P c (unat (rs_sending_count a))" and st: "follows P c b"
    using link by (simp_all add: chain_link_def)
  note enc = encrypt_Ok [OF P a run chain] and el = encrypt_link [OF P a run link]
  have m: "fh_message_number (if_header f) = rs_sending_count a" by (simp add: enc(1))
  have "fst (window_receive (unat (rs_sending_count a)) (window_of b)) = Ok ()"
    using le room kept_keys [OF st] m by (simp add: window_receive_def same_room_def word_le_nat_alt)
      (simp add: window_of_def)
  with decrypt_refines_window [OF P(3) st el(1) refl, of r2] enc(5) show ?thesis by (auto simp: m)
qed

lemma posted_frame_delivered:
  assumes P: "sizes_ok P" "aeads_ok P" "hkdf_total P" "x25519_ok P"
    and s: "synced P a b" and run: "RatchetState_encrypt P kind pt a r = (Inr f, a', r1)" and room: "same_room b f"
    and kp: "key_pair_ok P kp" and m: "length (mailbox_bytes m) = 32"
    and sealed: "OuterEnvelope_seal P (kp_public kp) m t f pad r1 = (Inr e, r2)"
    and now: "now \<le> t" and unseen: "oe_message_id e \<notin> live_ids now cache"
    and space: "live_count now cache < rc_capacity cache"
  shows "\<exists>bs. OuterEnvelope_encode e = Ok bs \<and> OuterEnvelope_decode bs = Ok e \<and>
    fst (OuterEnvelope_open_inner_once P e (kp_secret kp) now cache) = Ok f \<and>
    (\<exists>b'. RatchetState_decrypt P f b r3 = (Ok pt, b', r3))"
proof -
  obtain c where a: "ratchet_ok P a" and live: "live_link P c a b"
    using s by (auto simp: synced_def)
  then have chain: "rs_sending_chain a = chain_at P c (unat (rs_sending_count a))"
    by (simp add: live_link_def chain_link_def)
  have f: "frame_ok f" by (rule encrypt_Ok(3) [OF P(1-3) a run chain])
  have e: "envelope_ok e" "oe_expires_at_unix e = t"
    by (rule seal_envelope [OF f m P(1) sealed], simp)+
  have "OuterEnvelope_open_inner P e (kp_secret kp) now = Ok f"
    using open_sealed_envelope [OF P(1,2,4) f m kp sealed] now by simp
  moreover have "fst (check_and_insert (oe_message_id e) (oe_expires_at_unix e) now cache) = Ok ()"
    using unseen space by (simp add: check_and_insert_result)
  ultimately have "fst (OuterEnvelope_open_inner_once P e (kp_secret kp) now cache) = Ok f"
    by (auto simp: OuterEnvelope_open_inner_once_def split: prod.splits)
  with live_link_delivers [OF P(1-3) a live run room] outer.dec_iff [of "envelope_bytes e" e]
    OuterEnvelope_encode_Ok [OF e(1)] e(1) show ?thesis by blast
qed

end
