(* ===== verification/Mef_Duplex.thy ===== *)
theory Mef_Duplex
  imports Mef_Conversation
begin

text \<open>
  Both directions of a session at once, between two ratchet steps: either side sends at any time, and
  any frame sent so far may reach the other side at any time, any number of times, or never.
\<close>

section \<open>One direction\<close>

text \<open>\<open>a\<close> sends to \<open>b\<close> on chain \<open>c\<close>; \<open>fs\<close> are the frames sent so far, with their plaintexts.\<close>

definition direction ::
    "primitives \<Rightarrow> secret \<Rightarrow> ratchet_state \<Rightarrow> ratchet_state \<Rightarrow> (inner_frame \<times> bytes) list \<Rightarrow> bool" where
  "direction P c a b fs \<longleftrightarrow>
     chain_link P c a b \<and>
     (\<forall>(f, pt) \<in> set fs. frame_ok f \<and> of_chain P c b f pt \<and> fh_message_number (if_header f) < rs_sending_count a)"

lemma direction_send:
  assumes P: "sizes_ok P" "aeads_ok P" "hkdf_total P" and a: "ratchet_ok P a" and dir: "direction P c a b fs"
    and run: "RatchetState_encrypt P kind pt a r = (Inr f, a', r')"
  shows "direction P c a' b ((f, pt) # fs)"
proof -
  have link: "chain_link P c a b" using dir by (simp add: direction_def)
  note el = encrypt_link [OF P a run link]
  have "rs_sending_chain a = chain_at P c (unat (rs_sending_count a))" using link by (simp add: chain_link_def)
  from encrypt_Ok(3) [OF P a run this] have f: "frame_ok f" .
  have count: "unat (rs_sending_count a') = Suc (unat (rs_sending_count a))" by (rule encrypt_success [OF run])
  have "fh_message_number (if_header f) < rs_sending_count a'"
    using el(3) count by (simp add: word_less_nat_alt)
  moreover have "fh_message_number (if_header g) < rs_sending_count a'" if "(g, q) \<in> set fs" for g q
    using dir that count by (auto simp: direction_def word_less_nat_alt)
  ultimately show ?thesis using f el dir by (auto simp: direction_def)
qed

text \<open>What \<open>b\<close> sends does not disturb what it receives.\<close>

lemma direction_other_send:
  assumes dir: "direction P c a b fs" and run: "RatchetState_encrypt P kind pt b r = (Inr f, b', r')"
  shows "direction P c a b' fs"
proof -
  obtain s n g where b': "b' = b\<lparr>rs_sending_chain := s, rs_sending_count := n, rs_generation := g\<rparr>"
    using encrypt_success(2) [OF run] by blast
  have "follows P c b' \<longleftrightarrow> follows P c b" by (simp add: b' follows_def own_entries_def)
  moreover have "of_chain P c b' g q \<longleftrightarrow> of_chain P c b g q" for g q by (simp add: b' of_chain_def)
  ultimately show ?thesis using dir by (simp add: direction_def chain_link_def b')
qed

text \<open>A frame sent so far is received as the window says, and the direction stands.\<close>

lemma direction_receive:
  assumes P: "hkdf_total P" and dir: "direction P c a b fs" and f: "(f, pt) \<in> set fs"
  obtains b' where
    "RatchetState_decrypt P f b r =
       (delivers pt (fst (window_receive (unat (fh_message_number (if_header f))) (window_of b))), b', r)"
    "direction P c a b' fs" "decrypt_same_ratchet P (rs_remote_dh b) f b =
       (delivers pt (fst (window_receive (unat (fh_message_number (if_header f))) (window_of b))), b')"
proof -
  have of: "of_chain P c b f pt" and less: "fh_message_number (if_header f) < rs_sending_count a"
    and st: "follows P c b"
    using dir f by (auto simp: direction_def chain_link_def)
  have small: "unat (fh_message_number (if_header f)) < 2 ^ 32 - 1"
    using less unsigned_less [of "rs_sending_count a", where ?'a = nat] by (simp add: word_less_nat_alt)
  obtain b' where dec: "RatchetState_decrypt P f b r =
      (delivers pt (fst (window_receive (unat (fh_message_number (if_header f))) (window_of b))), b', r)"
    and b': "follows P c b'" "rs_session_id b' = rs_session_id b" "rs_suite b' = rs_suite b"
      "rs_remote_dh b' = rs_remote_dh b"
    using decrypt_refines_window [OF P st of refl small] by blast
  have "direction P c a b' fs"
    using dir b' by (auto simp: direction_def chain_link_def of_chain_def)
  moreover have "decrypt_same_ratchet P (rs_remote_dh b) f b =
      (delivers pt (fst (window_receive (unat (fh_message_number (if_header f))) (window_of b))), b')"
    using dec of by (auto simp: RatchetState_decrypt_def of_chain_def split: prod.splits)
  ultimately show thesis using that [OF dec] by blast
qed

text \<open>What \<open>a\<close> receives does not disturb what it sends.\<close>

lemma direction_other_receive:
  assumes dir: "direction P c a b fs" and run: "decrypt_same_ratchet P pk f a = (res, a')"
  shows "direction P c a' b fs"
  using dir decrypt_same_fields [OF run] by (simp add: direction_def chain_link_def)

section \<open>Both directions\<close>

type_synonym traffic =
  "ratchet_state \<times> ratchet_state \<times> (inner_frame \<times> bytes) list \<times> (inner_frame \<times> bytes) list"

inductive duplex :: "primitives \<Rightarrow> traffic \<Rightarrow> traffic \<Rightarrow> bool" for P where
  send_left: "RatchetState_encrypt P kind pt a r = (Inr f, a', r') \<Longrightarrow>
    duplex P (a, b, fs, gs) (a', b, (f, pt) # fs, gs)"
| send_right: "RatchetState_encrypt P kind pt b r = (Inr g, b', r') \<Longrightarrow>
    duplex P (a, b, fs, gs) (a, b', fs, (g, pt) # gs)"
| receive_right: "(f, pt) \<in> set fs \<Longrightarrow> RatchetState_decrypt P f b r = (res, b', r') \<Longrightarrow>
    duplex P (a, b, fs, gs) (a, b', fs, gs)"
| receive_left: "(g, pt) \<in> set gs \<Longrightarrow> RatchetState_decrypt P g a r = (res, a', r') \<Longrightarrow>
    duplex P (a, b, fs, gs) (a', b, fs, gs)"

inductive_cases duplexE: "duplex P s s'"

definition duplex_ok :: "primitives \<Rightarrow> traffic \<Rightarrow> bool" where
  "duplex_ok P s \<longleftrightarrow>
     (case s of (a, b, fs, gs) \<Rightarrow>
        ratchet_ok P a \<and> ratchet_ok P b \<and> (\<exists>c. direction P c a b fs) \<and> (\<exists>c. direction P c b a gs))"

lemma synced_duplex_ok: "synced P a b \<Longrightarrow> duplex_ok P (a, b, [], [])"
  by (auto simp: synced_def duplex_ok_def direction_def live_link_def)

lemma receive_duplex:
  assumes P: "sizes_ok P" "hkdf_total P" and b: "ratchet_ok P b"
    and dir: "direction P c a b fs" and opp: "direction P c' b a gs" and f: "(f, pt) \<in> set fs"
    and run: "RatchetState_decrypt P f b r = (res, b', r')"
  shows "ratchet_ok P b' \<and> direction P c a b' fs \<and> direction P c' b' a gs"
proof -
  obtain b1 where dec: "RatchetState_decrypt P f b r =
      (delivers pt (fst (window_receive (unat (fh_message_number (if_header f))) (window_of b))), b1, r)"
    and same: "direction P c a b1 fs" "decrypt_same_ratchet P (rs_remote_dh b) f b =
       (delivers pt (fst (window_receive (unat (fh_message_number (if_header f))) (window_of b))), b1)"
    by (rule direction_receive [OF P(2) dir f])
  have b1: "b' = b1" using run dec by simp
  have "header_ok (if_header f)" using dir f by (auto simp: direction_def frame_ok_def)
  from decrypt_ratchet_ok [OF P(1) b this run] same direction_other_receive [OF opp same(2)]
  show ?thesis by (simp add: b1)
qed

lemma duplex_step_ok:
  assumes P: "sizes_ok P" "aeads_ok P" "hkdf_total P" and step: "duplex P s s'" and s: "duplex_ok P s"
  shows "duplex_ok P s'"
  using step
proof cases
  case (send_left kind pt a r f a' r' b fs gs)
  then obtain c c' where "ratchet_ok P a" "ratchet_ok P b" "direction P c a b fs" "direction P c' b a gs"
    using s by (auto simp: duplex_ok_def)
  with direction_send [OF P _ _ send_left(3)] direction_other_send [OF _ send_left(3)]
    encrypt_ratchet_ok [OF P(1) _ send_left(3)] send_left(2)
  show ?thesis by (simp add: duplex_ok_def) blast
next
  case (send_right kind pt b r g b' r' a fs gs)
  then obtain c c' where "ratchet_ok P a" "ratchet_ok P b" "direction P c a b fs" "direction P c' b a gs"
    using s by (auto simp: duplex_ok_def)
  with direction_send [OF P _ _ send_right(3)] direction_other_send [OF _ send_right(3)]
    encrypt_ratchet_ok [OF P(1) _ send_right(3)] send_right(2)
  show ?thesis by (simp add: duplex_ok_def) blast
next
  case (receive_right f pt fs b r res b' r' a gs)
  then obtain c c' where "ratchet_ok P a" "ratchet_ok P b" "direction P c a b fs" "direction P c' b a gs"
    using s by (auto simp: duplex_ok_def)
  with receive_duplex [OF P(1,3) _ _ _ receive_right(3,4)] receive_right(2)
  show ?thesis by (simp add: duplex_ok_def) blast
next
  case (receive_left g pt gs a r res a' r' b fs)
  then obtain c c' where "ratchet_ok P a" "ratchet_ok P b" "direction P c a b fs" "direction P c' b a gs"
    using s by (auto simp: duplex_ok_def)
  with receive_duplex [OF P(1,3) _ _ _ receive_left(3,4)] receive_left(2)
  show ?thesis by (simp add: duplex_ok_def) blast
qed

lemma duplex_run_ok:
  assumes "sizes_ok P" "aeads_ok P" "hkdf_total P"
  shows "(duplex P)\<^sup>*\<^sup>* s s' \<Longrightarrow> duplex_ok P s \<Longrightarrow> duplex_ok P s'"
  by (induction rule: rtranclp_induct) (auto intro: duplex_step_ok [OF assms])

text \<open>A window delivers, reports a number it has delivered before, or is full.\<close>

lemma window_receive_results:
  "fst (window_receive m w) \<in> {Ok (), Err MessageKeyConsumed, Err SkippedKeyLimitExceeded}"
  by (simp add: window_receive_def)

lemma duplex_delivers:
  assumes P: "sizes_ok P" "aeads_ok P" "hkdf_total P" and s: "synced P a b"
    and run: "(duplex P)\<^sup>*\<^sup>* (a, b, [], []) (x, y, fs, gs)" and f: "(f, pt) \<in> set fs"
  shows "\<exists>y'. RatchetState_decrypt P f y r =
    (delivers pt (fst (window_receive (unat (fh_message_number (if_header f))) (window_of y))), y', r)"
proof -
  obtain c where "direction P c x y fs"
    using duplex_run_ok [OF P run synced_duplex_ok [OF s]] by (auto simp: duplex_ok_def)
  from direction_receive [OF P(3) this f] show ?thesis by blast
qed

section \<open>A direction that has ended\<close>

text \<open>
  After two rotations in a row \<open>a\<close> announces an empty previous chain under a ratchet key \<open>b\<close> does not
  know. Once \<open>b\<close> has received anything, no traffic between the two gets them out of this.
\<close>

definition ended :: "primitives \<Rightarrow> traffic \<Rightarrow> bool" where
  "ended P s \<longleftrightarrow>
     (case s of (a, b, fs, gs) \<Rightarrow>
        ratchet_ok P a \<and> ratchet_ok P b \<and> rs_receiving_count b > 0 \<and>
        rs_previous_sending_chain_len a = 0 \<and> current_public_key a \<noteq> rs_remote_dh b \<and>
        rs_remote_dh a = current_public_key b \<and>
        (\<forall>(f, pt) \<in> set fs. fh_previous_chain_len (if_header f) = 0 \<and>
           DhPublicKey (fh_ratchet_public (if_header f)) \<noteq> rs_remote_dh b) \<and>
        (\<forall>(g, pt) \<in> set gs. frame_ok g \<and> DhPublicKey (fh_ratchet_public (if_header g)) = rs_remote_dh a))"

lemma encrypt_header:
  assumes P: "aeads_ok P" "sizes_ok P" and a: "ratchet_ok P a"
    and run: "RatchetState_encrypt P kind pt a r = (Inr f, a', r')"
  shows "frame_ok f \<and>
    if_header f = FrameHeader_new kind (rs_session_id a) (dh_public_bytes (kp_public (rs_dh_pair a)))
      (rs_previous_sending_chain_len a) (rs_sending_count a) \<and>
    rs_dh_pair a' = rs_dh_pair a \<and> rs_remote_dh a' = rs_remote_dh a \<and>
    rs_receiving_count a' = rs_receiving_count a \<and>
    rs_previous_sending_chain_len a' = rs_previous_sending_chain_len a"
  using run
proof (cases rule: encrypt_cases)
  case (sent f' c k n)
  from InnerFrame_seal_frame(1,2) [OF P(1) own_header_ok [OF P(2) a] sent(3)] sent(1) sent(5)
  show ?thesis by simp
qed simp_all

lemma ended_refuses:
  assumes "ended P (a, b, fs, gs)" "(f, pt) \<in> set fs"
  shows "RatchetState_decrypt P f b r = (Err RatchetStateMismatch, b, r)"
proof -
  have "fh_previous_chain_len (if_header f) < rs_receiving_count b"
    "DhPublicKey (fh_ratchet_public (if_header f)) \<noteq> rs_remote_dh b"
    using assms by (auto simp: ended_def)
  then show ?thesis by (simp add: RatchetState_decrypt_def decrypt_new_stale Let_def)
qed

lemma ended_step:
  assumes P: "aeads_ok P" "sizes_ok P" and s: "ended P s" and step: "duplex P s s'"
  shows "ended P s'"
  using step
proof cases
  case (send_left kind pt a r f a' r' b fs gs)
  then have "ratchet_ok P a" using s by (simp add: ended_def)
  with encrypt_header [OF P this send_left(3)] encrypt_ratchet_ok [OF P(2) this send_left(3)] s show ?thesis
    by (auto simp: ended_def send_left(1,2) current_public_key_def)
next
  case (send_right kind pt b r g b' r' a fs gs)
  then have "ratchet_ok P b" using s by (simp add: ended_def)
  with encrypt_header [OF P this send_right(3)] encrypt_ratchet_ok [OF P(2) this send_right(3)] s show ?thesis
    by (auto simp: ended_def send_right(1,2) current_public_key_def)
next
  case (receive_right f pt fs b r res b' r' a gs)
  with ended_refuses [of P a b fs gs f pt r] s show ?thesis by simp
next
  case (receive_left g pt gs a r res a' r' b fs)
  have g: "frame_ok g" "DhPublicKey (fh_ratchet_public (if_header g)) = rs_remote_dh a" and a: "ratchet_ok P a"
    using s receive_left(1,3) by (auto simp: ended_def)
  have "header_ok (if_header g)" using g(1) by (simp add: frame_ok_def)
  note ok = decrypt_ratchet_ok [OF P(2) a this receive_left(4)]
  have same: "rs_dh_pair a' = rs_dh_pair a \<and> rs_remote_dh a' = rs_remote_dh a \<and>
      rs_previous_sending_chain_len a' = rs_previous_sending_chain_len a"
    using receive_left(4)
  proof (cases rule: decrypt_cases)
    case same
    from decrypt_same_fields [OF same(3)] show ?thesis by simp
  qed (use g(2) in simp_all)
  with ok s show ?thesis by (auto simp: ended_def receive_left(1,2) current_public_key_def)
qed

lemma ended_run:
  assumes "aeads_ok P" "sizes_ok P"
  shows "(duplex P)\<^sup>*\<^sup>* s s' \<Longrightarrow> ended P s \<Longrightarrow> ended P s'"
  by (induction rule: rtranclp_induct) (auto intro: ended_step [OF assms])

lemma double_rotation_ends:
  assumes P: "aeads_ok P" "sizes_ok P" and ok: "ratchet_ok P a" "ratchet_ok P b"
    and rot: "rotate_sending_ratchet P a r = (Inr (), a1, r1)" "rotate_sending_ratchet P a1 r1' = (Inr (), a2, r2)"
    and b: "rs_receiving_count b > 0" "rs_remote_dh a = current_public_key b" "current_public_key a2 \<noteq> rs_remote_dh b"
  shows "ended P (a2, b, [], [])"
proof -
  have "rs_sending_count a1 = 0 \<and> rs_remote_dh a1 = rs_remote_dh a"
    using rot(1) by (cases rule: rotate_cases) simp_all
  moreover have "rs_previous_sending_chain_len a2 = rs_sending_count a1 \<and> rs_remote_dh a2 = rs_remote_dh a1"
    using rot(2) by (cases rule: rotate_cases) simp_all
  moreover have "ratchet_ok P a2"
    using rotate_ratchet_ok [OF P(2) rotate_ratchet_ok [OF P(2) ok(1) rot(1)] rot(2)] .
  ultimately show ?thesis using ok(2) b by (simp add: ended_def)
qed

end
