(* ===== verification/Mef_Channel.thy ===== *)
theory Mef_Channel
  imports Mef_Session Mef_Duplex
begin

text \<open>
  A session as its two users see it: a pair of ratchets, the frames each side has sent, and for each
  receiver the window its answers follow. Between two ratchet steps every \<open>encrypt\<close> succeeds and every
  \<open>decrypt\<close> answers as the window says; from a lawful environment a handshake and both ratchets are
  always established.
\<close>

section \<open>The frames in flight\<close>

definition channel ::
    "primitives \<Rightarrow> ratchet_state \<Rightarrow> ratchet_state \<Rightarrow> (inner_frame \<times> bytes) list \<Rightarrow> (inner_frame \<times> bytes) list \<Rightarrow> bool" where
  "channel P a b fs gs \<longleftrightarrow> lawful P \<and> duplex_ok P (a, b, fs, gs)"

lemma channel_sym: "channel P a b fs gs \<longleftrightarrow> channel P b a gs fs"
  by (auto simp: channel_def duplex_ok_def)

lemma lawfulD:
  assumes "lawful P"
  shows "sizes_ok P" "aeads_ok P" "x25519_ok P" "x25519_live P" "ed25519_ok P" "mlkem_ok P"
    "hkdf_total P" "rng_total P" "\<exists>d. mlkem_keygen P i = Some d"
  using assms by (simp_all add: lawful_def)

lemma channel_parts:
  assumes "channel P a b fs gs"
  obtains c where "ratchet_ok P a" "direction P c a b fs" "sizes_ok P" "aeads_ok P" "hkdf_total P" "rng_total P"
  using assms by (auto simp: channel_def duplex_ok_def lawful_def)

text \<open>What \<open>encrypt\<close> leaves alone is all the receiving side depends on.\<close>

lemma window_of_encrypt:
  "RatchetState_encrypt P kind pt st r = (Inr f, st', r') \<Longrightarrow> window_of st' = window_of st"
  by (drule encrypt_success(2)) (auto simp: window_of_def own_entries_def)

lemma channel_send:
  assumes ch: "channel P a b fs gs" and small: "length pt \<le> MAX_CIPHERTEXT_LEN - AEAD_TAG_LEN"
    and count: "unat (rs_sending_count a) < 2 ^ 32 - 1"
  obtains f a' where "RatchetState_encrypt P kind pt a r = (Ok f, a', Suc r)" "channel P a' b ((f, pt) # fs) gs"
    "fh_message_number (if_header f) = rs_sending_count a"
    "unat (rs_sending_count a') = Suc (unat (rs_sending_count a))" "window_of a' = window_of a" "frame_ok f"
    "ct_suite (if_ciphertext f) = rs_suite a" "length (ct_body (if_ciphertext f)) = length pt + AEAD_TAG_LEN"
proof -
  obtain c where a: "ratchet_ok P a" and dir: "direction P c a b fs"
    and P: "sizes_ok P" "aeads_ok P" "hkdf_total P" "rng_total P"
    by (rule channel_parts [OF ch])
  obtain nonce where "sys_rng P r (AeadSuite_nonce_len (rs_suite a)) = Some nonce"
    using P(4) by (auto simp: rng_total_def)
  then obtain f a' where run: "RatchetState_encrypt P kind pt a r = (Ok f, a', Suc r)"
    using encrypt_total [OF P(1-3) a small _ count] by blast
  have "rs_sending_chain a = chain_at P c (unat (rs_sending_count a))"
    using dir by (simp add: direction_def chain_link_def)
  note enc = encrypt_Ok [OF P(1-3) a run this]
  have "duplex P (a, b, fs, gs) (a', b, (f, pt) # fs, gs)" by (rule duplex.send_left [OF run])
  then have "channel P a' b ((f, pt) # fs) gs"
    using ch duplex_step_ok [OF P(1-3)] by (auto simp: channel_def)
  moreover have "length (ct_body (if_ciphertext f)) = length pt + AEAD_TAG_LEN"
    using run
  proof (cases rule: encrypt_cases)
    case (sent f' c k n)
    then show ?thesis using InnerFrame_seal_frame(4) [OF P(2) own_header_ok [OF P(1) a] sent(3)] by simp
  qed simp_all
  ultimately show thesis
    using that [OF run] enc window_of_encrypt [OF run] by simp
qed

lemma channel_receive:
  assumes ch: "channel P a b fs gs" and f: "(f, pt) \<in> set fs"
    and m: "m = unat (fh_message_number (if_header f))"
  obtains b' where "RatchetState_decrypt P f b r = (delivers pt (fst (window_receive m (window_of b))), b', r)"
    "channel P a b' fs gs" "window_of b' = snd (window_receive m (window_of b))"
    "rs_sending_count b' = rs_sending_count b" "rs_suite b' = rs_suite b"
proof -
  obtain c where dir: "direction P c a b fs"
    and P: "sizes_ok P" "aeads_ok P" "hkdf_total P" "rng_total P"
    by (rule channel_parts [OF ch])
  from direction_receive [OF P(3) dir f] obtain b' where
    run: "RatchetState_decrypt P f b r = (delivers pt (fst (window_receive m (window_of b))), b', r)"
    and same: "decrypt_same_ratchet P (rs_remote_dh b) f b = (delivers pt (fst (window_receive m (window_of b))), b')"
    using m by metis
  have "duplex P (a, b, fs, gs) (a, b', fs, gs)" by (rule duplex.receive_right [OF f run])
  then have "channel P a b' fs gs" using ch duplex_step_ok [OF P(1-3)] by (auto simp: channel_def)
  moreover have "of_chain P c b f pt" "follows P c b" "unat (fh_message_number (if_header f)) < 2 ^ 32 - 1"
    using dir f unsigned_less [of "rs_sending_count a", where ?'a = nat]
    by (auto simp: direction_def chain_link_def word_less_nat_alt)
  then have "window_of b' = snd (window_receive m (window_of b))"
    using decrypt_refines_window [OF P(3), of c b f pt "fh_message_number (if_header f)" r] run m by auto
  ultimately show thesis
    using that [OF run] decrypt_same_fields [OF same] by simp
qed

lemma channel_kept:
  assumes "channel P a b fs gs"
  shows "skipped_key_count b = win_others (window_of b) + card (win_missing (window_of b))"
proof -
  obtain c where "direction P c a b fs" by (rule channel_parts [OF assms])
  then have "follows P c b" by (simp add: direction_def chain_link_def)
  from kept_keys [OF this] show ?thesis by (simp add: skipped_key_count_def)
qed

section \<open>Establishing a session\<close>

text \<open>The opening moves of every client: both identities, the prekeys, the handshake, two ratchets.\<close>

definition calling :: "(rng \<Rightarrow> 'a res \<times> 's \<times> rng) \<Rightarrow> ('a \<Rightarrow> 's \<Rightarrow> rng \<Rightarrow> 'b res \<times> rng) \<Rightarrow> rng \<Rightarrow> 'b res \<times> rng" where
  "calling m k r = (case m r of (Inl e, _, r') \<Rightarrow> (Inl e, r') | (Inr x, s, r') \<Rightarrow> k x s r')"

definition no_draw :: "'a res \<times> 's \<Rightarrow> rng \<Rightarrow> 'a res \<times> 's \<times> rng" where
  "no_draw x r = (case x of (res, s) \<Rightarrow> (res, s, r))"

lemma calling_simps [simp]:
  "m r = (Inr x, s, r') \<Longrightarrow> calling m k r = k x s r'"
  "m r = (Inl e, s, r') \<Longrightarrow> calling m k r = (Inl e, r')"
  by (simp_all add: calling_def)

lemma no_draw_simp [simp]: "no_draw (res, s) r = (res, s, r)"
  by (simp add: no_draw_def)

definition establish ::
    "primitives \<Rightarrow> u32 \<Rightarrow> u64 \<Rightarrow> u32 \<Rightarrow> u64 \<Rightarrow> aead_suite \<Rightarrow> rng \<Rightarrow> (ratchet_state \<times> ratchet_state) res \<times> rng" where
  "establish P prekey_id expires otp_id now suite =
     io_bind (LocalIdentity_generate P) (\<lambda>alice_identity.
     io_bind (ResponderPrekeyMaterial_generate P prekey_id expires) (\<lambda>bob_material.
     calling (add_one_time_prekey P otp_id bob_material) (\<lambda>_ bob_material.
     io_bind (handshake_initiate P alice_identity (ResponderPrekeyMaterial_bundle P bob_material) now)
       (\<lambda>(message, alice_handshake).
     calling (no_draw (handshake_accept P bob_material message)) (\<lambda>bob_handshake _.
     io_bind (io_lift (from_authenticated_handshake_with_suite P alice_handshake suite)) (\<lambda>alice.
     io_bind (io_lift (from_authenticated_handshake_with_suite P bob_handshake suite)) (\<lambda>bob.
     io_lift (Ok (alice, bob)))))))))"

lemma IdentityKeyPair_generate_total:
  assumes "rng_total P"
  obtains ik where "IdentityKeyPair_generate P r = (Ok ik, Suc r)"
proof -
  obtain bs where "sys_rng P r 32 = Some bs" using assms by (auto simp: rng_total_def)
  then have "random_bytes P 32 r = (Ok bs, Suc r)" by (simp add: random_bytes_Ok)
  then show thesis using that by (simp add: IdentityKeyPair_generate_def)
qed

lemma LocalIdentity_generate_total:
  assumes P: "sizes_ok P" "rng_total P"
  obtains li where "LocalIdentity_generate P r = (Ok li, Suc (Suc r))" "local_identity_ok P li"
proof -
  obtain ik where ik: "IdentityKeyPair_generate P r = (Ok ik, Suc r)" by (rule IdentityKeyPair_generate_total [OF P(2)])
  obtain kp where "DhKeyPair_generate P (Suc r) = (Ok kp, Suc (Suc r))" by (rule DhKeyPair_generate_total [OF P])
  with ik have run: "LocalIdentity_generate P r = (Ok \<lparr>li_signing = ik, li_dh = kp\<rparr>, Suc (Suc r))"
    by (simp add: LocalIdentity_generate_def)
  with LocalIdentity_generate_Ok [OF P(1) run] that show thesis by blast
qed

lemma material_generate_total:
  assumes P: "sizes_ok P" "rng_total P"
  obtains m where "ResponderPrekeyMaterial_generate P i t r = (Ok m, Suc (Suc (Suc r)))" "material_ok P m"
    "rm_one_time_prekeys m = []" "sp_expires_at_unix (rm_signed_record m) = t" "sp_key_id (rm_signed_record m) = i"
proof -
  obtain li where li: "LocalIdentity_generate P r = (Ok li, Suc (Suc r))"
    by (rule LocalIdentity_generate_total [OF P])
  obtain kp where kp: "DhKeyPair_generate P (Suc (Suc r)) = (Ok kp, Suc (Suc (Suc r)))"
    by (rule DhKeyPair_generate_total [OF P])
  let ?m = "\<lparr>rm_identity = li, rm_signed_prekey = kp,
      rm_signed_record = SignedPrekey_issue P (li_signing li) i (kp_public kp) t,
      rm_retired_signed_prekeys = [], rm_one_time_prekeys = []\<rparr>"
  have run: "ResponderPrekeyMaterial_generate P i t r = (Ok ?m, Suc (Suc (Suc r)))"
    using li kp by (simp add: ResponderPrekeyMaterial_generate_def)
  from that [OF run material_generate_ok [OF P(1) run]] show thesis by (simp add: SignedPrekey_issue_def Let_def)
qed

lemma add_one_time_total:
  assumes P: "sizes_ok P" "rng_total P" and m: "material_ok P m" "one_time_absent i m"
  obtains key m' where "add_one_time_prekey P i m r = (Ok (), m', Suc r)" "material_ok P m'"
    "rm_signed_record m' = rm_signed_record m"
    "rm_one_time_prekeys m' = rm_one_time_prekeys m @
       [\<lparr>otp_public = \<lparr>otpk_id = i, otpk_public = kp_public key\<rparr>, otp_key = key\<rparr>]"
proof -
  obtain key where "DhKeyPair_generate P r = (Ok key, Suc r)" by (rule DhKeyPair_generate_total [OF P])
  with m(2) have run: "add_one_time_prekey P i m r = (Ok (), m\<lparr>rm_one_time_prekeys := rm_one_time_prekeys m @
      [\<lparr>otp_public = \<lparr>otpk_id = i, otpk_public = kp_public key\<rparr>, otp_key = key\<rparr>]\<rparr>, Suc r)"
    by (auto simp: add_one_time_prekey_def one_time_absent_def one_time_id_def)
  from that [OF run add_one_time_prekey_ok [OF P(1) m(1) run]] show thesis by simp
qed

lemma establish_channel:
  assumes P: "lawful P" and fresh: "now \<le> expires"
  obtains a b r' where "establish P i expires j now suite r = (Ok (a, b), r')" "channel P a b [] []" "synced P a b"
    "rs_suite a = suite" "rs_suite b = suite" "rs_sending_count a = 0" "rs_sending_count b = 0"
    "rs_skipped a = []" "rs_skipped b = []" "rs_receiving_count a = 0" "rs_receiving_count b = 0"
    "rs_generation a = 0" "rs_generation b = 0"
proof -
  note law = lawfulD [OF P]
  obtain li r1 where li: "LocalIdentity_generate P r = (Ok li, r1)" "local_identity_ok P li"
    by (rule LocalIdentity_generate_total [OF law(1,8)])
  obtain m r2 where m: "ResponderPrekeyMaterial_generate P i expires r1 = (Ok m, r2)" "material_ok P m"
    "rm_one_time_prekeys m = []" "sp_expires_at_unix (rm_signed_record m) = expires"
    by (rule material_generate_total [OF law(1,8)])
  have "one_time_absent j m" using m(3) by (simp add: one_time_absent_def)
  then obtain m' r3 where m': "add_one_time_prekey P j m r2 = (Ok (), m', r3)" "material_ok P m'"
    "rm_signed_record m' = rm_signed_record m"
    by (rule add_one_time_total [OF law(1,8) m(2)])
  have "ResponderPrekeyBundle_verify P (ResponderPrekeyMaterial_bundle P m') now = Ok ()"
    using published_bundle_verifies [OF law(1,5) m'(2)] fresh m'(3) m(4) by simp
  then obtain msg ha r4 where init:
    "handshake_initiate P li (ResponderPrekeyMaterial_bundle P m') now r3 = (Ok (msg, ha), r4)"
    using initiate_total [OF law(1,5,4,7,8) li(2) m'(2) bundle_held] by blast
  obtain hb m'' a b where "handshake_accept P m' msg = (Ok hb, m'')"
    and a: "from_authenticated_handshake_with_suite P ha suite = Ok a"
    and b: "from_authenticated_handshake_with_suite P hb suite = Ok b" and s: "synced P a b"
    using accepted_synced [OF law(1,3,5,7) li(2) m'(2) bundle_held init, of suite] by blast
  then have run: "establish P i expires j now suite r = (Ok (a, b), r4)"
    using li(1) m(1) m'(1) init by (simp add: establish_def)
  have "channel P a b [] []" using P synced_duplex_ok [OF s] by (simp add: channel_def)
  from that [OF run this s] from_handshake_Ok [OF a] from_handshake_Ok [OF b] show thesis by simp
qed

text \<open>
  The session identifier of the pair is the hash of the handshake's transcript, which names the ephemeral
  key of that handshake: the seventh of its eight draws.
\<close>

lemma establish_session_id:
  assumes P: "lawful P" and run: "establish P i expires j now suite r = (Ok (a, b), r')"
  obtains msg who eph where "message_ok P msg" "identity_ok P who" "DhKeyPair_generate P (r + 6) = (Ok eph, r + 7)"
    "ih_initiator_ephemeral msg = kp_public eph" "rs_session_id a = blake3 P (session_transcript msg who)" "r' = r + 8"
proof -
  note law = lawfulD [OF P]
  obtain li where li: "LocalIdentity_generate P r = (Ok li, Suc (Suc r))" "local_identity_ok P li"
    by (rule LocalIdentity_generate_total [OF law(1,8)])
  obtain m where m: "ResponderPrekeyMaterial_generate P i expires (Suc (Suc r)) = (Ok m, Suc (Suc (Suc (Suc (Suc r)))))"
    "material_ok P m" "rm_one_time_prekeys m = []"
    by (rule material_generate_total [OF law(1,8)])
  have "one_time_absent j m" using m(3) by (simp add: one_time_absent_def)
  then obtain m' where m': "add_one_time_prekey P j m (Suc (Suc (Suc (Suc (Suc r))))) = (Ok (), m', Suc (r + 5))"
    "material_ok P m'"
    using add_one_time_total [OF law(1,8) m(2), of j "Suc (Suc (Suc (Suc (Suc r))))"] by (auto simp: numeral_eq_Suc)
  from run li(1) m(1) m'(1) obtain msg ha r4 hb mm where
    init: "handshake_initiate P li (ResponderPrekeyMaterial_bundle P m') now (Suc (r + 5)) = (Ok (msg, ha), r4)"
    and a: "from_authenticated_handshake_with_suite P ha suite = Ok a" and r': "r' = r4"
    by (auto simp: establish_def io_bind_Ok io_lift_def calling_def no_draw_def split: prod.split_asm sum.split_asm)
  from init obtain eph rat dh1 dh2 dh3 dh4 where
    e: "DhKeyPair_generate P (Suc (r + 5)) = (Ok eph, Suc (Suc (r + 5)))" "DhKeyPair_generate P (Suc (Suc (r + 5))) = (Ok rat, r4)"
    "derive_handshake_values P msg (rb_identity (ResponderPrekeyMaterial_bundle P m')) dh1 dh2 dh3 dh4 =
       Ok (ah_session_id ha, ah_root_secret ha)"
    "ih_initiator_ephemeral msg = kp_public eph"
    by (rule initiate_Ok) auto
  have who: "identity_ok P (rb_identity (ResponderPrekeyMaterial_bundle P m'))"
    using local_identity_public_ok [OF law(1,5)] m'(2) by (simp add: ResponderPrekeyMaterial_bundle_def material_ok_def)
  have "r4 = r + 8" using e(2) by (auto simp: res_iff)
  with that [OF initiate_message_ok [OF law(1,5) li(2) init] who] e(1,4) session_id_hash [OF e(3)]
    from_handshake_Ok(1) [OF a] r' show thesis by (simp add: numeral_eq_Suc)
qed

lemma window_of_new:
  "rs_skipped st = [] \<Longrightarrow> rs_receiving_count st = 0 \<Longrightarrow> window_of st = \<lparr>win_next = 0, win_missing = {}, win_others = 0\<rparr>"
  by (simp add: window_of_def own_entries_def)

section \<open>Texts sent and received\<close>

text \<open>One message sent and at once received, on a pair that has lost nothing.\<close>

definition in_step :: "ratchet_state \<Rightarrow> ratchet_state \<Rightarrow> nat \<Rightarrow> bool" where
  "in_step a b n \<longleftrightarrow> unat (rs_sending_count a) = n \<and> window_of b = \<lparr>win_next = n, win_missing = {}, win_others = 0\<rparr>"

lemma channel_exchange:
  assumes ch: "channel P a b fs gs" and step: "in_step a b n" "in_step b a k" and n: "n < 1000"
    and short: "length pt \<le> 1000"
  obtains f a' b' where "RatchetState_encrypt P kind pt a r = (Ok f, a', Suc r)"
    "RatchetState_decrypt P f b r2 = (Ok pt, b', r2)" "channel P a' b' ((f, pt) # fs) gs"
    "in_step a' b' (Suc n)" "in_step b' a' k" "unat (fh_message_number (if_header f)) = n" "rs_suite b' = rs_suite b"
    "frame_ok f" "length (frame_bytes f) \<le> 1200"
proof -
  have small: "length pt \<le> MAX_CIPHERTEXT_LEN - AEAD_TAG_LEN"
    using short by (simp add: MAX_CIPHERTEXT_LEN_def AEAD_TAG_LEN_def)
  have count: "unat (rs_sending_count a) < 2 ^ 32 - 1" using step n by (simp add: in_step_def)
  obtain f a' where f: "RatchetState_encrypt P kind pt a r = (Ok f, a', Suc r)" "channel P a' b ((f, pt) # fs) gs"
    "fh_message_number (if_header f) = rs_sending_count a"
    "unat (rs_sending_count a') = Suc (unat (rs_sending_count a))" "window_of a' = window_of a" "frame_ok f"
    "ct_suite (if_ciphertext f) = rs_suite a" "length (ct_body (if_ciphertext f)) = length pt + AEAD_TAG_LEN"
    by (rule channel_send [OF ch small count])
  have len: "length (frame_bytes f) \<le> 1200"
    using length_frame_bytes [OF f(6)] f(8) short nonce_len_bound [of "rs_suite a"]
    by (simp add: f(7) AEAD_TAG_LEN_def)
  have num: "n = unat (fh_message_number (if_header f))" using f(3) step by (simp add: in_step_def)
  obtain b' where b': "RatchetState_decrypt P f b r2 =
      (delivers pt (fst (window_receive n (window_of b))), b', r2)"
    "channel P a' b' ((f, pt) # fs) gs" "window_of b' = snd (window_receive n (window_of b))"
    "rs_sending_count b' = rs_sending_count b" "rs_suite b' = rs_suite b"
    by (rule channel_receive [OF f(2) list.set_intros(1) num])
  have win: "window_receive n (window_of b) = (Ok (), \<lparr>win_next = Suc n, win_missing = {}, win_others = 0\<rparr>)"
    using step(1) by (simp add: in_step_def window_receive_def)
  show thesis
  proof (rule that [OF f(1) _ b'(2)])
    show "RatchetState_decrypt P f b r2 = (Ok pt, b', r2)" using b'(1) by (simp add: win)
    show "in_step a' b' (Suc n)" using f(4) b'(3) [unfolded win snd_conv] step(1) by (simp add: in_step_def)
    show "in_step b' a' k" using f(5) step(2) b'(4) by (simp add: in_step_def)
  qed (use num b'(5) f(6) len in simp_all)
qed

lemma establish_in_step:
  assumes "lawful P" "now \<le> expires"
  obtains a b r' where "establish P i expires j now suite r = (Ok (a, b), r')" "channel P a b [] []"
    "in_step a b 0" "in_step b a 0" "rs_suite a = suite" "rs_suite b = suite" "synced P a b"
proof -
  obtain a b r' where "establish P i expires j now suite r = (Ok (a, b), r')" "channel P a b [] []" "synced P a b"
    "rs_suite a = suite" "rs_suite b = suite" "rs_sending_count a = 0" "rs_sending_count b = 0"
    "rs_skipped a = []" "rs_skipped b = []" "rs_receiving_count a = 0" "rs_receiving_count b = 0"
    by (rule establish_channel [OF assms])
  then show thesis using that by (simp add: in_step_def window_of_new)
qed

lemma channel_replay:
  assumes ch: "channel P a b fs gs" and f: "(f, pt) \<in> set fs" and step: "in_step a b n"
    and old: "unat (fh_message_number (if_header f)) < n"
  obtains b' where "RatchetState_decrypt P f b r = (Err MessageKeyConsumed, b', r)"
proof -
  have "window_receive (unat (fh_message_number (if_header f))) (window_of b) = (Err MessageKeyConsumed, window_of b)"
    using step old by (simp add: in_step_def window_receive_def)
  moreover obtain b' where "RatchetState_decrypt P f b r =
      (delivers pt (fst (window_receive (unat (fh_message_number (if_header f))) (window_of b))), b', r)"
    by (rule channel_receive [OF ch f refl])
  ultimately show thesis using that by simp
qed

text \<open>A frame posted to a fresh delivery key.\<close>

lemma MailboxCapability_generate_total:
  assumes "sizes_ok P" "rng_total P"
  obtains m where "MailboxCapability_generate P r = (Ok m, Suc r)" "length (mailbox_bytes m) = 32"
proof -
  obtain bs where bs: "sys_rng P r 32 = Some bs" using assms(2) by (auto simp: rng_total_def)
  then have "random_bytes P CAPABILITY_LEN r = (Ok bs, Suc r)" by (simp add: random_bytes_Ok CAPABILITY_LEN_def)
  with sizes_okD(1) [OF assms(1) bs] show thesis
    using that [of "MailboxCapability bs"] by (simp add: MailboxCapability_generate_def)
qed

lemma mailing_fits:
  assumes P: "lawful P" and f: "frame_ok f" and kp: "key_pair_ok P kp"
    and small: "length (frame_bytes f) + pad \<le> MAX_CIPHERTEXT_LEN - AEAD_TAG_LEN" and m: "length (mailbox_bytes m) = 32"
  obtains e where "OuterEnvelope_seal P (kp_public kp) m t f pad r = (Ok e, Suc (Suc (Suc r)))"
    "OuterEnvelope_encode e = Ok (envelope_bytes e)" "OuterEnvelope_decode (envelope_bytes e) = Ok e"
    "\<forall>now. OuterEnvelope_open P e (kp_secret kp) now =
       (if t < now then Err EnvelopeExpired else Ok (frame_bytes f @ replicate pad 0))"
    "\<forall>now. OuterEnvelope_open_inner P e (kp_secret kp) now = (if now \<le> t then Ok f else Err EnvelopeExpired)"
    "envelope_ok e" "oe_expires_at_unix e = t"
proof -
  note law = lawfulD [OF P]
  obtain eph where eph: "DhKeyPair_generate P r = (Ok eph, Suc r)" "key_pair_ok P eph"
    by (rule DhKeyPair_generate_total [OF law(1,8)])
  obtain z where z: "DhKeyPair_diffie_hellman P eph (kp_public kp) = Ok z"
    by (rule honest_exchange [OF law(4) eph(2) kp])
  obtain e where e: "OuterEnvelope_seal P (kp_public kp) m t f pad r = (Ok e, Suc (Suc (Suc r)))"
    using seal_envelope_total [OF law(1,2,7,8) f m eph(1) z small] by blast
  have ok: "envelope_ok e" "oe_expires_at_unix e = t"
    by (rule seal_envelope [OF f m law(1) e], simp)+
  show thesis
  proof (rule that [OF e OuterEnvelope_encode_Ok [OF ok(1)] _ _ _ ok])
    show "OuterEnvelope_decode (envelope_bytes e) = Ok e" using ok(1) by (simp add: outer_decode_Ok)
    show "\<forall>now. OuterEnvelope_open_inner P e (kp_secret kp) now = (if now \<le> t then Ok f else Err EnvelopeExpired)"
      using open_sealed_envelope [OF law(1-3) f m kp e] by blast
    show "\<forall>now. OuterEnvelope_open P e (kp_secret kp) now =
       (if t < now then Err EnvelopeExpired else Ok (frame_bytes f @ replicate pad 0))"
      using open_sealed_plaintext(1) [OF law(1-3) f m kp e] by blast
  qed
qed

lemma mailing:
  assumes P: "lawful P" and f: "frame_ok f" "length (frame_bytes f) \<le> 1200" and pad: "pad \<le> 1000" and kp: "key_pair_ok P kp"
    and m: "length (mailbox_bytes m) = 32"
  obtains e where "OuterEnvelope_seal P (kp_public kp) m t f pad r = (Ok e, Suc (Suc (Suc r)))"
    "OuterEnvelope_encode e = Ok (envelope_bytes e)" "OuterEnvelope_decode (envelope_bytes e) = Ok e"
    "\<forall>now. OuterEnvelope_open P e (kp_secret kp) now =
       (if t < now then Err EnvelopeExpired else Ok (frame_bytes f @ replicate pad 0))"
    "\<forall>now. OuterEnvelope_open_inner P e (kp_secret kp) now = (if now \<le> t then Ok f else Err EnvelopeExpired)"
    "envelope_ok e" "oe_expires_at_unix e = t"
proof -
  have "length (frame_bytes f) + pad \<le> MAX_CIPHERTEXT_LEN - AEAD_TAG_LEN"
    using f(2) pad by (simp add: limits)
  from mailing_fits [OF P f(1) kp this m] that show thesis by blast
qed

lemma posting_to:
  assumes P: "lawful P" and f: "frame_ok f" "length (frame_bytes f) \<le> 1200" and pad: "pad \<le> 1000" and kp: "key_pair_ok P kp"
  obtains m e where "MailboxCapability_generate P r = (Ok m, Suc r)"
    "OuterEnvelope_seal P (kp_public kp) m t f pad (Suc r) = (Ok e, Suc (Suc (Suc (Suc r))))"
    "OuterEnvelope_encode e = Ok (envelope_bytes e)" "OuterEnvelope_decode (envelope_bytes e) = Ok e" "envelope_ok e"
    "\<forall>now. OuterEnvelope_open_inner P e (kp_secret kp) now = (if now \<le> t then Ok f else Err EnvelopeExpired)"
    "\<forall>now. OuterEnvelope_open P e (kp_secret kp) now =
       (if t < now then Err EnvelopeExpired else Ok (frame_bytes f @ replicate pad 0))" "oe_expires_at_unix e = t"
proof -
  obtain m where m: "MailboxCapability_generate P r = (Ok m, Suc r)" "length (mailbox_bytes m) = 32"
    by (rule MailboxCapability_generate_total [OF lawfulD(1,8) [OF P]])
  show thesis
    by (rule mailing [OF P f pad kp m(2), where r = "Suc r" and t = t], rule that [OF m(1)])
qed

lemma posting:
  assumes P: "lawful P" and f: "frame_ok f" "length (frame_bytes f) \<le> 1200" and pad: "pad \<le> 1000"
  obtains kp m e where "DhKeyPair_generate P r = (Ok kp, Suc r)" "MailboxCapability_generate P (Suc r) = (Ok m, Suc (Suc r))"
    "OuterEnvelope_seal P (kp_public kp) m t f pad (Suc (Suc r)) = (Ok e, Suc (Suc (Suc (Suc (Suc r)))))"
    "OuterEnvelope_encode e = Ok (envelope_bytes e)" "OuterEnvelope_decode (envelope_bytes e) = Ok e" "envelope_ok e"
    "\<forall>now. OuterEnvelope_open_inner P e (kp_secret kp) now = (if now \<le> t then Ok f else Err EnvelopeExpired)"
    "\<forall>now. OuterEnvelope_open P e (kp_secret kp) now =
       (if t < now then Err EnvelopeExpired else Ok (frame_bytes f @ replicate pad 0))"
proof -
  obtain kp where kp: "DhKeyPair_generate P r = (Ok kp, Suc r)" "key_pair_ok P kp"
    by (rule DhKeyPair_generate_total [OF lawfulD(1,8) [OF P]])
  show thesis
    by (rule posting_to [OF P f pad kp(2), where r = "Suc r" and t = t], rule that [OF kp(1)])
qed

lemma encrypt_oversized:
  assumes ch: "channel P a b fs gs" and big: "length pt > MAX_CIPHERTEXT_LEN - AEAD_TAG_LEN"
  shows "RatchetState_encrypt P kind pt a r = (Err InvalidLength, a, r)"
proof -
  obtain c where a: "ratchet_ok P a" and P: "sizes_ok P" "hkdf_total P" by (rule channel_parts [OF ch])
  obtain ck where "chain_step P (rs_sending_chain a) = Ok ck" using chain_step_total [OF P(2)] by blast
  with InnerFrame_seal_too_long [OF own_header_ok [OF P(1) a] big] show ?thesis
    by (cases ck) (simp add: RatchetState_encrypt_def Let_def)
qed

lemma channel_send_many:
  assumes "channel P a b fs gs" "\<forall>pt \<in> set pts. length pt \<le> MAX_CIPHERTEXT_LEN - AEAD_TAG_LEN"
    and "unat (rs_sending_count a) = n" "n + length pts < 2 ^ 32"
  shows "\<exists>sent a' r'. encrypt_all P kind pts a r = (Ok sent, a', r') \<and> channel P a' b (rev (zip sent pts) @ fs) gs \<and>
    length sent = length pts \<and> (\<forall>i < length pts. unat (fh_message_number (if_header (sent ! i))) = n + i) \<and>
    (\<forall>i < length pts. frame_ok (sent ! i) \<and>
       length (ct_body (if_ciphertext (sent ! i))) = length (pts ! i) + AEAD_TAG_LEN)"
  using assms
proof (induction pts arbitrary: a fs n r)
  case (Cons pt pts)
  have small: "length pt \<le> MAX_CIPHERTEXT_LEN - AEAD_TAG_LEN" using Cons.prems(2) by simp
  have count: "unat (rs_sending_count a) < 2 ^ 32 - 1" using Cons.prems(3,4) by simp
  obtain f a1 where f: "RatchetState_encrypt P kind pt a r = (Ok f, a1, Suc r)" "channel P a1 b ((f, pt) # fs) gs"
    "fh_message_number (if_header f) = rs_sending_count a" "unat (rs_sending_count a1) = Suc (unat (rs_sending_count a))"
    "frame_ok f" "length (ct_body (if_ciphertext f)) = length pt + AEAD_TAG_LEN"
    by (rule channel_send [OF Cons.prems(1) small count])
  have "\<forall>pt \<in> set pts. length pt \<le> MAX_CIPHERTEXT_LEN - AEAD_TAG_LEN" "unat (rs_sending_count a1) = Suc n"
    "Suc n + length pts < 2 ^ 32"
    using Cons.prems f(4) by simp_all
  from Cons.IH [OF f(2) this, of "Suc r"] obtain sent a' r' where
    "encrypt_all P kind pts a1 (Suc r) = (Ok sent, a', r')" "channel P a' b (rev (zip sent pts) @ (f, pt) # fs) gs"
    "length sent = length pts" "\<forall>i < length pts. unat (fh_message_number (if_header (sent ! i))) = Suc n + i"
    "\<forall>i < length pts. frame_ok (sent ! i) \<and>
       length (ct_body (if_ciphertext (sent ! i))) = length (pts ! i) + AEAD_TAG_LEN" by blast
  with f Cons.prems(3) show ?case by (auto simp: nth_Cons' less_Suc_eq_0_disj)
qed simp

lemma channel_send_all:
  assumes "channel P a b fs gs" "\<forall>pt \<in> set pts. length pt \<le> 1000" "unat (rs_sending_count a) = n" "n + length pts < 2 ^ 32"
  shows "\<exists>sent a' r'. encrypt_all P kind pts a r = (Ok sent, a', r') \<and> channel P a' b (rev (zip sent pts) @ fs) gs \<and>
    length sent = length pts \<and> (\<forall>i < length pts. unat (fh_message_number (if_header (sent ! i))) = n + i)"
proof -
  have "\<forall>pt \<in> set pts. length pt \<le> MAX_CIPHERTEXT_LEN - AEAD_TAG_LEN"
    using assms(2) by (fastforce simp: MAX_CIPHERTEXT_LEN_def AEAD_TAG_LEN_def)
  from channel_send_many [OF assms(1) this assms(3,4)] show ?thesis by blast
qed

text \<open>A short text sent, with the number it goes under.\<close>

lemma channel_say:
  assumes ch: "channel P a b fs gs" and n: "unat (rs_sending_count a) = n" "n < 1000" and short: "length pt \<le> 1000"
  obtains f a' where "RatchetState_encrypt P kind pt a r = (Ok f, a', Suc r)" "channel P a' b ((f, pt) # fs) gs"
    "n = unat (fh_message_number (if_header f))" "unat (rs_sending_count a') = Suc n"
proof -
  have small: "length pt \<le> MAX_CIPHERTEXT_LEN - AEAD_TAG_LEN" using short by (simp add: limits)
  have count: "unat (rs_sending_count a) < 2 ^ 32 - 1" using n by simp
  obtain f a' where "RatchetState_encrypt P kind pt a r = (Ok f, a', Suc r)" "channel P a' b ((f, pt) # fs) gs"
    "fh_message_number (if_header f) = rs_sending_count a" "unat (rs_sending_count a') = Suc (unat (rs_sending_count a))"
    by (rule channel_send [OF ch small count])
  with that n show thesis by simp
qed

text \<open>A frame received where the window is known.\<close>

lemma channel_hear:
  assumes ch: "channel P a b fs gs" and f: "(f, pt) \<in> set fs" and m: "m = unat (fh_message_number (if_header f))"
    and win: "window_of b = w" "window_receive m w = (answer, w')"
  obtains b' where "RatchetState_decrypt P f b r = (delivers pt answer, b', r)" "channel P a b' fs gs" "window_of b' = w'"
proof -
  obtain b' where "RatchetState_decrypt P f b r = (delivers pt (fst (window_receive m (window_of b))), b', r)"
    "channel P a b' fs gs" "window_of b' = snd (window_receive m (window_of b))"
    by (rule channel_receive [OF ch f m])
  then show thesis by (intro that [of b']) (simp_all add: win)
qed

text \<open>A snapshot of a receiver that keeps keys of its current chain only restores.\<close>

lemma channel_snapshot:
  assumes ch: "channel P a b fs gs" and own: "win_others (window_of b) = 0" and ctx: "length ctx \<le> 1000"
  obtains blob where "seal_state P (StateSealKey (AeadKey (replicate 32 k))) ctx b r = (Ok blob, Suc r)"
    "restore_state P (StateSealKey (AeadKey (replicate 32 k))) ctx (rs_generation b) blob = Ok b"
proof -
  obtain c where dir: "direction P c a b fs" and P: "sizes_ok P" "aeads_ok P" "rng_total P"
    by (rule channel_parts [OF ch])
  have b: "ratchet_ok P b" using ch by (simp add: channel_def duplex_ok_def)
  obtain nonce where "sys_rng P r 24 = Some nonce" using P(3) by (auto simp: rng_total_def)
  moreover have "context_ok ctx" using ctx by (simp add: context_ok_def MAX_AAD_LEN_def)
  ultimately obtain blob where blob: "seal_state P (StateSealKey (AeadKey (replicate 32 k))) ctx b r = (Ok blob, Suc r)"
    using seal_state_total [OF P(2,1) b, of ctx "StateSealKey (AeadKey (replicate 32 k))" r] by auto
  have "length (own_entries b) = length (rs_skipped b)"
    using own by (simp add: window_of_def own_entries_def) (metis le_antisym length_filter_le)
  then have "own_entries b = rs_skipped b"
    by (simp add: own_entries_def) (metis filter_True length_filter_less less_irrefl)
  moreover have "distinct (map sk_message_number (own_entries b))"
    using dir by (simp add: direction_def chain_link_def follows_def)
  ultimately have "distinct (map entry_id (rs_skipped b))"
    by (auto simp: distinct_map entry_id_def inj_on_def)
  with restore_sealed [OF P(2) b blob, of "rs_generation b"] that [OF blob] show thesis by simp
qed

end
