(* ===== verification/Mef_Scenarios.thy ===== *)
theory Mef_Scenarios
  imports Mef_Channel
begin

text \<open>
  The programs the repository ships with the crate: the example \<open>examples/in_memory_chat.rs\<close>, the
  integration tests under \<open>tests/\<close> and unit tests of the modules, as functions of the model, and the
  proof that in a lawful environment every one of them runs to its end for whatever the random source
  answers: no call fails that the program expects to succeed, and every assertion holds. A failed
  assertion panics.
\<close>

section \<open>Writing a client program\<close>

definition assert_that :: "bool \<Rightarrow> unit res" where
  "assert_that c = (if c then Ok () else Panics)"

text \<open>A method call whose result is inspected instead of propagated.\<close>

definition attempt :: "(rng \<Rightarrow> 'a res \<times> 's \<times> rng) \<Rightarrow> ('a res \<Rightarrow> 's \<Rightarrow> rng \<Rightarrow> 'b res \<times> rng) \<Rightarrow> rng \<Rightarrow> 'b res \<times> rng" where
  "attempt m k r = (case m r of (res, s, r') \<Rightarrow> k res s r')"

definition is_err :: "'a res \<Rightarrow> bool" where
  "is_err x = (case x of Inl (Error e) \<Rightarrow> True | _ \<Rightarrow> False)"

lemma assert_simps [simp]: "assert_that True = Ok ()" "assert_that False = Panics" "is_err (Err e)" "\<not> is_err (Ok x)"
  by (simp_all add: assert_that_def is_err_def)

lemma attempt_simp [simp]: "m r = (res, s, r') \<Longrightarrow> attempt m k r = k res s r'"
  by (simp add: attempt_def)

section \<open>examples/in_memory_chat.rs\<close>

definition in_memory_chat :: "primitives \<Rightarrow> rng \<Rightarrow> unit res \<times> rng" where
  "in_memory_chat P =
     io_bind (establish P 7 2000000000 19 1800000000 DEFAULT_SUITE) (\<lambda>(alice, bob).
     calling (RatchetState_encrypt P Message (ascii ''hello from Alice'') alice) (\<lambda>outbound alice.
     calling (RatchetState_decrypt P outbound bob) (\<lambda>received bob.
     io_bind (io_lift (assert_that (received = ascii ''hello from Alice''))) (\<lambda>_.
     calling (RatchetState_encrypt P Message (ascii ''hello from Bob'') bob) (\<lambda>reply bob.
     calling (RatchetState_decrypt P reply alice) (\<lambda>received_reply alice.
     io_lift (assert_that (received_reply = ascii ''hello from Bob''))))))))"

section \<open>tests/e2e_flow.rs\<close>

definition opaque_text :: bytes where
  "opaque_text = ascii ''message carried through an opaque envelope''"

definition two_party_flow_survives_transport_wrapping :: "primitives \<Rightarrow> rng \<Rightarrow> unit res \<times> rng" where
  "two_party_flow_survives_transport_wrapping P =
     io_bind (establish P 42 2000000000 43 1800000000 DEFAULT_SUITE) (\<lambda>(alice, bob).
     calling (RatchetState_encrypt P Message opaque_text alice) (\<lambda>encrypted alice.
     io_bind (DhKeyPair_generate P) (\<lambda>delivery_pair.
     io_bind (MailboxCapability_generate P) (\<lambda>mailbox.
     io_bind (OuterEnvelope_seal P (kp_public delivery_pair) mailbox 1900000000 encrypted 128) (\<lambda>envelope.
     io_bind (io_lift (OuterEnvelope_encode envelope)) (\<lambda>wire.
     io_bind (io_lift (OuterEnvelope_decode wire)) (\<lambda>received_envelope.
     io_bind (io_lift (OuterEnvelope_open_inner P received_envelope (kp_secret delivery_pair) 1800000000))
       (\<lambda>decoded_inner.
     calling (RatchetState_decrypt P decoded_inner bob) (\<lambda>plaintext bob.
     io_lift (assert_that (plaintext = opaque_text)))))))))))"

definition replayed_inner_frame_is_rejected :: "primitives \<Rightarrow> rng \<Rightarrow> unit res \<times> rng" where
  "replayed_inner_frame_is_rejected P =
     io_bind (establish P 11 2000000000 12 1800000000 DEFAULT_SUITE) (\<lambda>(alice, bob).
     calling (RatchetState_encrypt P Message (ascii ''one-time delivery'') alice) (\<lambda>frame alice.
     calling (RatchetState_decrypt P frame bob) (\<lambda>plaintext bob.
     io_bind (io_lift (assert_that (plaintext = ascii ''one-time delivery''))) (\<lambda>_.
     attempt (RatchetState_decrypt P frame bob) (\<lambda>replayed bob.
     io_lift (assert_that (replayed = Err MessageKeyConsumed)))))))"

section \<open>tests/security_regressions.rs\<close>

definition regression_pair :: "primitives \<Rightarrow> rng \<Rightarrow> (ratchet_state \<times> ratchet_state) res \<times> rng" where
  "regression_pair P = establish P 7 2000 19 1000 DEFAULT_SUITE"

definition failed_outbound_framing :: "primitives \<Rightarrow> rng \<Rightarrow> unit res \<times> rng" where
  "failed_outbound_framing P =
     io_bind (regression_pair P) (\<lambda>(alice, bob).
     attempt (RatchetState_encrypt P Message (replicate MAX_CIPHERTEXT_LEN 0) alice) (\<lambda>oversized alice.
     io_bind (io_lift (assert_that (is_err oversized))) (\<lambda>_.
     calling (RatchetState_encrypt P Message (ascii ''first valid message'') alice) (\<lambda>frame alice.
     io_bind (io_lift (assert_that (fh_message_number (if_header frame) = 0))) (\<lambda>_.
     calling (RatchetState_decrypt P frame bob) (\<lambda>plaintext bob.
     io_lift (assert_that (plaintext = ascii ''first valid message''))))))))"

definition skipped_key_limit_rejects_large_gap :: "primitives \<Rightarrow> rng \<Rightarrow> unit res \<times> rng" where
  "skipped_key_limit_rejects_large_gap P =
     io_bind (regression_pair P) (\<lambda>(alice, bob).
     io_bind (io_lift (ok_or (checked_add_usize MAX_SKIPPED_KEYS 2) CounterExhausted)) (\<lambda>frame_count.
     calling (encrypt_all P Message (replicate frame_count (ascii ''bounded gap'')) alice) (\<lambda>frames alice.
     io_bind (io_lift (ok_or (if frames = [] then None else Some (last frames)) InvalidFrame)) (\<lambda>final_frame.
     attempt (RatchetState_decrypt P final_frame bob) (\<lambda>refused bob.
     io_bind (io_lift (assert_that (refused = Err SkippedKeyLimitExceeded))) (\<lambda>_.
     io_bind (io_lift (assert_that (skipped_key_count bob = 0))) (\<lambda>_.
     io_bind (io_lift (index_at frames 0)) (\<lambda>first.
     calling (RatchetState_decrypt P first bob) (\<lambda>plaintext bob.
     io_lift (assert_that (plaintext = ascii ''bounded gap'')))))))))))"

definition wrong_session_frame_is_rejected :: "primitives \<Rightarrow> rng \<Rightarrow> unit res \<times> rng" where
  "wrong_session_frame_is_rejected P =
     io_bind (regression_pair P) (\<lambda>(alice, bob).
     io_bind (regression_pair P) (\<lambda>(foreign_alice, _).
     calling (RatchetState_encrypt P Message (ascii ''valid session'') alice) (\<lambda>valid alice.
     calling (RatchetState_encrypt P Message (ascii ''foreign session'') foreign_alice) (\<lambda>foreign foreign_alice.
     attempt (RatchetState_decrypt P foreign bob) (\<lambda>refused bob.
     io_bind (io_lift (assert_that (refused = Err RatchetStateMismatch))) (\<lambda>_.
     calling (RatchetState_decrypt P valid bob) (\<lambda>plaintext bob.
     io_lift (assert_that (plaintext = ascii ''valid session'')))))))))"

definition envelope_expiry_is_checked :: "primitives \<Rightarrow> rng \<Rightarrow> unit res \<times> rng" where
  "envelope_expiry_is_checked P =
     io_bind (regression_pair P) (\<lambda>(alice, _).
     calling (RatchetState_encrypt P Message (ascii ''expiry guard'') alice) (\<lambda>inner alice.
     io_bind (DhKeyPair_generate P) (\<lambda>delivery.
     io_bind (MailboxCapability_generate P) (\<lambda>mailbox.
     io_bind (OuterEnvelope_seal P (kp_public delivery) mailbox 500 inner 0) (\<lambda>envelope.
     io_bind (io_lift (OuterEnvelope_encode envelope)) (\<lambda>wire.
     io_bind (io_lift (OuterEnvelope_decode wire)) (\<lambda>decoded.
     io_bind (io_lift (assert_that (OuterEnvelope_open P decoded (kp_secret delivery) 501 = Err EnvelopeExpired))) (\<lambda>_.
     io_bind (io_lift (InnerFrame_encode inner)) (\<lambda>inner_wire.
     io_bind (io_lift (InnerFrame_decode inner_wire)) (\<lambda>decoded_inner.
     io_bind (io_lift (InnerFrame_encode decoded_inner)) (\<lambda>inner_again.
     io_lift (assert_that (inner_again = inner_wire)))))))))))))"

definition canonical_parsers_reject_altered_wire :: "primitives \<Rightarrow> rng \<Rightarrow> unit res \<times> rng" where
  "canonical_parsers_reject_altered_wire P =
     io_bind (regression_pair P) (\<lambda>(alice, _).
     calling (RatchetState_encrypt P Message (ascii ''parser strictness'') alice) (\<lambda>inner alice.
     io_bind (io_lift (InnerFrame_encode inner)) (\<lambda>inner_wire.
     io_bind (io_lift (assert_that (InnerFrame_decode (butlast inner_wire) = Err InvalidFrame))) (\<lambda>_.
     io_bind (io_lift (assert_that (InnerFrame_decode (inner_wire @ [0]) = Err InvalidFrame))) (\<lambda>_.
     io_bind (DhKeyPair_generate P) (\<lambda>delivery.
     io_bind (MailboxCapability_generate P) (\<lambda>mailbox.
     io_bind (OuterEnvelope_seal P (kp_public delivery) mailbox 1000 inner 0) (\<lambda>envelope.
     io_bind (io_lift (OuterEnvelope_encode envelope)) (\<lambda>outer_wire.
     io_bind (io_lift (assert_that (OuterEnvelope_decode (butlast outer_wire) = Err InvalidFrame))) (\<lambda>_.
     io_lift (assert_that (OuterEnvelope_decode (outer_wire @ [0]) = Err InvalidFrame))))))))))))"

section \<open>Unit tests of the ratchet\<close>

definition pair_with_suite :: "primitives \<Rightarrow> aead_suite \<Rightarrow> rng \<Rightarrow> (ratchet_state \<times> ratchet_state) res \<times> rng" where
  "pair_with_suite P suite = establish P 7 2000 19 1000 suite"

definition ratchet_pair :: "primitives \<Rightarrow> rng \<Rightarrow> (ratchet_state \<times> ratchet_state) res \<times> rng" where
  "ratchet_pair P = pair_with_suite P XChaCha20Poly1305"

declare ratchet_pair_def [simp]

definition aes_gcm_siv_round_trip_and_restore :: "primitives \<Rightarrow> rng \<Rightarrow> unit res \<times> rng" where
  "aes_gcm_siv_round_trip_and_restore P =
     io_bind (pair_with_suite P Aes256GcmSiv) (\<lambda>(alice, bob).
     io_bind (io_lift (assert_that (rs_suite alice = Aes256GcmSiv))) (\<lambda>_.
     calling (RatchetState_encrypt P Message (ascii ''siv payload'') alice) (\<lambda>frame alice.
     calling (RatchetState_decrypt P frame bob) (\<lambda>plaintext bob.
     io_bind (io_lift (assert_that (plaintext = ascii ''siv payload''))) (\<lambda>_.
     let key = StateSealKey (AeadKey (replicate 32 17)) in
     io_bind (seal_state P key (ascii ''v011/aes-siv'') bob) (\<lambda>blob.
     io_bind (io_lift (restore_state P key (ascii ''v011/aes-siv'') (rs_generation bob) blob)) (\<lambda>restored.
     io_lift (assert_that (rs_suite restored = Aes256GcmSiv)))))))))"

definition bidirectional_messages_round_trip :: "primitives \<Rightarrow> rng \<Rightarrow> unit res \<times> rng" where
  "bidirectional_messages_round_trip P =
     io_bind (ratchet_pair P) (\<lambda>(alice, bob).
     calling (RatchetState_encrypt P Message (ascii ''from alice'') alice) (\<lambda>frame alice.
     calling (RatchetState_decrypt P frame bob) (\<lambda>plaintext bob.
     io_bind (io_lift (assert_that (plaintext = ascii ''from alice''))) (\<lambda>_.
     calling (RatchetState_encrypt P Message (ascii ''from bob'') bob) (\<lambda>frame bob.
     calling (RatchetState_decrypt P frame alice) (\<lambda>plaintext alice.
     io_lift (assert_that (plaintext = ascii ''from bob''))))))))"

definition out_of_order_messages :: "primitives \<Rightarrow> rng \<Rightarrow> unit res \<times> rng" where
  "out_of_order_messages P =
     io_bind (ratchet_pair P) (\<lambda>(alice, bob).
     calling (RatchetState_encrypt P Message (ascii ''one'') alice) (\<lambda>one alice.
     calling (RatchetState_encrypt P Message (ascii ''two'') alice) (\<lambda>two alice.
     calling (RatchetState_encrypt P Message (ascii ''three'') alice) (\<lambda>three alice.
     calling (RatchetState_decrypt P three bob) (\<lambda>plaintext bob.
     io_bind (io_lift (assert_that (plaintext = ascii ''three''))) (\<lambda>_.
     io_bind (io_lift (assert_that (skipped_key_count bob = 2))) (\<lambda>_.
     calling (RatchetState_decrypt P one bob) (\<lambda>plaintext bob.
     io_bind (io_lift (assert_that (plaintext = ascii ''one''))) (\<lambda>_.
     calling (RatchetState_decrypt P two bob) (\<lambda>plaintext bob.
     io_bind (io_lift (assert_that (plaintext = ascii ''two''))) (\<lambda>_.
     io_bind (io_lift (assert_that (skipped_key_count bob = 0))) (\<lambda>_.
     attempt (RatchetState_decrypt P one bob) (\<lambda>replayed bob.
     io_lift (assert_that (replayed = Err MessageKeyConsumed)))))))))))))))"

definition snapshot_restores_out_of_order_state :: "primitives \<Rightarrow> rng \<Rightarrow> unit res \<times> rng" where
  "snapshot_restores_out_of_order_state P =
     (let key = StateSealKey (AeadKey (replicate 32 9)) in
      io_bind (establish P 1 2000 2 1000 DEFAULT_SUITE) (\<lambda>(alice, bob).
      calling (RatchetState_encrypt P Message (ascii ''first'') alice) (\<lambda>first alice.
      calling (RatchetState_encrypt P Message (ascii ''second'') alice) (\<lambda>second alice.
      calling (RatchetState_decrypt P second bob) (\<lambda>plaintext bob.
      io_bind (io_lift (assert_that (plaintext = ascii ''second''))) (\<lambda>_.
      io_bind (seal_state P key (ascii ''account/device/session'') bob) (\<lambda>blob.
      io_bind (io_lift (restore_state P key (ascii ''account/device/session'') (rs_generation bob) blob)) (\<lambda>restored.
      calling (RatchetState_decrypt P first restored) (\<lambda>plaintext restored.
      io_lift (assert_that (plaintext = ascii ''first'')))))))))))"

section \<open>They run to the end\<close>

lemma chat_runs:
  assumes P: "lawful P"
  shows "fst (in_memory_chat P r) = Ok ()"
proof -
  have now: "(1800000000 :: u64) \<le> 2000000000" and n: "(0 :: nat) < 1000" by simp_all
  obtain a b r1 where e: "establish P 7 2000000000 19 1800000000 DEFAULT_SUITE r = (Ok (a, b), r1)"
    "channel P a b [] []" "in_step a b 0" "in_step b a 0"
    by (rule establish_in_step [OF P now])
  have short: "length (ascii ''hello from Alice'') \<le> 1000" "length (ascii ''hello from Bob'') \<le> 1000" by simp_all
  obtain f a1 b1 where f: "RatchetState_encrypt P Message (ascii ''hello from Alice'') a r1 = (Ok f, a1, Suc r1)"
    "RatchetState_decrypt P f b (Suc r1) = (Ok (ascii ''hello from Alice''), b1, Suc r1)"
    "channel P a1 b1 [(f, ascii ''hello from Alice'')] []" "in_step a1 b1 (Suc 0)" "in_step b1 a1 0"
    by (rule channel_exchange [OF e(2-4) n short(1)])
  obtain g b2 a2 where "RatchetState_encrypt P Message (ascii ''hello from Bob'') b1 (Suc r1) = (Ok g, b2, Suc (Suc r1))"
    "RatchetState_decrypt P g a1 (Suc (Suc r1)) = (Ok (ascii ''hello from Bob''), a2, Suc (Suc r1))"
    by (rule channel_exchange [OF f(3) [THEN channel_sym [THEN iffD1]] f(5,4) n short(2)])
  with e f show ?thesis by (simp add: in_memory_chat_def)
qed

lemma replay_runs:
  assumes P: "lawful P"
  shows "fst (replayed_inner_frame_is_rejected P r) = Ok ()"
proof -
  have now: "(1800000000 :: u64) \<le> 2000000000" and n: "(0 :: nat) < 1000" by simp_all
  obtain a b r1 where e: "establish P 11 2000000000 12 1800000000 DEFAULT_SUITE r = (Ok (a, b), r1)"
    "channel P a b [] []" "in_step a b 0" "in_step b a 0"
    by (rule establish_in_step [OF P now])
  have short: "length (ascii ''one-time delivery'') \<le> 1000" by simp
  obtain f a1 b1 where f: "RatchetState_encrypt P Message (ascii ''one-time delivery'') a r1 = (Ok f, a1, Suc r1)"
    "RatchetState_decrypt P f b (Suc r1) = (Ok (ascii ''one-time delivery''), b1, Suc r1)"
    "channel P a1 b1 [(f, ascii ''one-time delivery'')] []" "in_step a1 b1 (Suc 0)"
    "unat (fh_message_number (if_header f)) = 0"
    by (rule channel_exchange [OF e(2-4) n short])
  obtain b2 where "RatchetState_decrypt P f b1 (Suc r1) = (Err MessageKeyConsumed, b2, Suc r1)"
    by (rule channel_replay [OF f(3) list.set_intros(1) f(4)]) (simp_all add: f(5))
  with e f show ?thesis by (simp add: replayed_inner_frame_is_rejected_def)
qed

lemma two_party_flow_runs:
  assumes P: "lawful P"
  shows "fst (two_party_flow_survives_transport_wrapping P r) = Ok ()"
proof -
  have now: "(1800000000 :: u64) \<le> 2000000000" and n: "(0 :: nat) < 1000" and pad: "(128 :: nat) \<le> 1000" by simp_all
  obtain a b r1 where e: "establish P 42 2000000000 43 1800000000 DEFAULT_SUITE r = (Ok (a, b), r1)"
    "channel P a b [] []" "in_step a b 0" "in_step b a 0"
    by (rule establish_in_step [OF P now])
  have short: "length opaque_text \<le> 1000" by (simp add: opaque_text_def)
  obtain f a1 b1 where f: "RatchetState_encrypt P Message opaque_text a r1 = (Ok f, a1, Suc r1)"
    "RatchetState_decrypt P f b (Suc (Suc (Suc (Suc (Suc (Suc r1)))))) =
      (Ok opaque_text, b1, Suc (Suc (Suc (Suc (Suc (Suc r1))))))"
    "frame_ok f" "length (frame_bytes f) \<le> 1200"
    by (rule channel_exchange [OF e(2-4) n short])
  obtain kp m e' where "DhKeyPair_generate P (Suc r1) = (Ok kp, Suc (Suc r1))"
    "MailboxCapability_generate P (Suc (Suc r1)) = (Ok m, Suc (Suc (Suc r1)))"
    "OuterEnvelope_seal P (kp_public kp) m 1900000000 f 128 (Suc (Suc (Suc r1))) =
       (Ok e', Suc (Suc (Suc (Suc (Suc (Suc r1))))))"
    "OuterEnvelope_encode e' = Ok (envelope_bytes e')" "OuterEnvelope_decode (envelope_bytes e') = Ok e'"
    "\<forall>now. OuterEnvelope_open_inner P e' (kp_secret kp) now = (if now \<le> 1900000000 then Ok f else Err EnvelopeExpired)"
    by (rule posting [OF P f(3,4) pad, where r = "Suc r1" and t = 1900000000])
  with e f show ?thesis by (simp add: two_party_flow_survives_transport_wrapping_def)
qed

section \<open>The regressions\<close>

lemma regression_start:
  assumes P: "lawful P"
  obtains a b r' where "regression_pair P r = (Ok (a, b), r')" "channel P a b [] []" "in_step a b 0" "in_step b a 0"
proof -
  have "(1000 :: u64) \<le> 2000" by simp
  from establish_in_step [OF P this, of 7 19 DEFAULT_SUITE r] that show thesis
    unfolding regression_pair_def by blast
qed

lemma failed_outbound_runs:
  assumes P: "lawful P"
  shows "fst (failed_outbound_framing P r) = Ok ()"
proof -
  obtain a b r1 where e: "regression_pair P r = (Ok (a, b), r1)" "channel P a b [] []" "in_step a b 0" "in_step b a 0"
    by (rule regression_start [OF P])
  have "length (replicate MAX_CIPHERTEXT_LEN (0 :: u8)) > MAX_CIPHERTEXT_LEN - AEAD_TAG_LEN"
    by (simp add: MAX_CIPHERTEXT_LEN_def AEAD_TAG_LEN_def)
  note big = encrypt_oversized [OF e(2) this, of Message r1]
  have short: "length (ascii ''first valid message'') \<le> 1000" and n: "(0 :: nat) < 1000" by simp_all
  obtain f a1 b1 where f: "RatchetState_encrypt P Message (ascii ''first valid message'') a r1 = (Ok f, a1, Suc r1)"
    "RatchetState_decrypt P f b (Suc r1) = (Ok (ascii ''first valid message''), b1, Suc r1)"
    "unat (fh_message_number (if_header f)) = 0"
    by (rule channel_exchange [OF e(2-4) n short])
  then have "fh_message_number (if_header f) = 0" by (simp add: unat_eq_0)
  with e(1) big f show ?thesis by (simp add: failed_outbound_framing_def)
qed

lemma skipped_key_limit_runs:
  assumes P: "lawful P"
  shows "fst (skipped_key_limit_rejects_large_gap P r) = Ok ()"
proof -
  obtain a b r1 where e: "regression_pair P r = (Ok (a, b), r1)" "channel P a b [] []" "in_step a b 0" "in_step b a 0"
    by (rule regression_start [OF P])
  define pt pts where "pt = ascii ''bounded gap''" and "pts = replicate 1026 pt"
  have pts: "\<forall>q \<in> set pts. length q \<le> 1000" "unat (rs_sending_count a) = 0" "0 + length pts < 2 ^ 32" "length pts = 1026"
    using e(3) by (simp_all add: pts_def pt_def in_step_def del: replicate.simps)
  obtain sent a1 r2 where sent: "encrypt_all P Message pts a r1 = (Ok sent, a1, r2)"
    "channel P a1 b (rev (zip sent pts)) []" "length sent = 1026"
    "\<forall>i < 1026. unat (fh_message_number (if_header (sent ! i))) = i"
    using channel_send_all [OF e(2) pts(1,2,3), of Message r1] by (auto simp: pts(4))
  have mem: "(sent ! i, pt) \<in> set (rev (zip sent pts))" if "i < 1026" for i
  proof -
    have "zip sent pts ! i = (sent ! i, pt)" using that sent(3) pts(4) by (simp add: pts_def del: replicate.simps)
    moreover have "i < length (zip sent pts)" using that sent(3) pts(4) by simp
    ultimately show ?thesis by (metis nth_mem set_rev)
  qed
  have num: "1025 = unat (fh_message_number (if_header (sent ! 1025)))" "0 = unat (fh_message_number (if_header (sent ! 0)))"
    using sent(4) by simp_all
  have win: "window_of b = \<lparr>win_next = 0, win_missing = {}, win_others = 0\<rparr>" using e(3) by (simp add: in_step_def)
  have over: "window_receive 1025 (window_of b) = (Err SkippedKeyLimitExceeded, window_of b)"
    by (simp add: win window_receive_def MAX_SKIPPED_KEYS_def)
  obtain b1 where b1: "RatchetState_decrypt P (sent ! 1025) b r2 =
      (delivers pt (fst (window_receive 1025 (window_of b))), b1, r2)" "channel P a1 b1 (rev (zip sent pts)) []"
    "window_of b1 = snd (window_receive 1025 (window_of b))"
    by (rule channel_receive [OF sent(2) mem num(1)]) simp_all
  note win1 = trans [OF b1(3) [unfolded over snd_conv] win]
  have kept: "skipped_key_count b1 = 0" using channel_kept [OF b1(2)] by (simp add: win1)
  obtain b2 where b2: "RatchetState_decrypt P (sent ! 0) b1 r2 =
      (delivers pt (fst (window_receive 0 (window_of b1))), b2, r2)"
    by (rule channel_receive [OF b1(2) mem num(2)]) simp_all
  have first: "fst (window_receive 0 (window_of b1)) = Ok ()"
    by (simp add: win1 window_receive_def)
  have ne: "sent \<noteq> []" using sent(3) by auto
  have "last sent = sent ! 1025" using last_conv_nth [OF ne] sent(3) by simp
  moreover have "checked_add_usize MAX_SKIPPED_KEYS 2 = Some 1026"
    by (simp add: checked_add_usize_def MAX_SKIPPED_KEYS_def usize_limit_def)
  ultimately show ?thesis
    using e(1) sent(1,3) b1(1) b2 kept ne
    by (simp add: skipped_key_limit_rejects_large_gap_def over first pts_def pt_def del: replicate.simps)
qed

text \<open>
  A receiver that has received nothing never answers \<open>RatchetStateMismatch\<close> to a frame of its own session
  and suite: every other failure has an error of its own.
\<close>

lemma chain_errors:
  "derive_secret P salt label input \<noteq> Err RatchetStateMismatch"
  "derive_aead_key P salt label input \<noteq> Err RatchetStateMismatch"
  "chain_step P ck \<noteq> Err RatchetStateMismatch" "root_step P rk z \<noteq> Err RatchetStateMismatch"
  "derive_range_loop P ck ks ns \<noteq> Err RatchetStateMismatch"
proof -
  show s: "derive_secret P salt label input \<noteq> Err RatchetStateMismatch" for salt label input
    using derive_secret_error by fastforce
  then show k: "derive_aead_key P salt label input \<noteq> Err RatchetStateMismatch" for salt label input
    by (auto simp: derive_aead_key_def bind_res_Inl)
  show c: "chain_step P ck \<noteq> Err RatchetStateMismatch" for ck
    by (auto simp: chain_step_def Let_def bind_res_Inl s k)
  show "root_step P rk z \<noteq> Err RatchetStateMismatch"
    by (auto simp: root_step_def Let_def bind_res_Inl s)
  show "derive_range_loop P ck ks ns \<noteq> Err RatchetStateMismatch"
    by (induction ns arbitrary: ck ks) (auto simp: bind_res_Inl c)
qed

lemma derive_first_errors:
  "derive_range P ck 0 n k \<noteq> Err RatchetStateMismatch" "derive_for_message P ck 0 n k \<noteq> Err RatchetStateMismatch"
  by (auto simp: derive_for_message_def derive_range_def Let_def bind_res_Inl chain_errors split: option.splits)

lemma other_errors:
  "InnerFrame_open P f k \<noteq> Err RatchetStateMismatch" "DhKeyPair_diffie_hellman P kp pk \<noteq> Err RatchetStateMismatch"
proof -
  have "aead_open P k c aad \<noteq> Err RatchetStateMismatch" for c aad
    by (auto simp: aead_open_def cipher_open_def ok_or_def split: option.splits aead_suite.splits)
  moreover have "InnerFrame_aad f \<noteq> Err RatchetStateMismatch"
    by (auto simp: InnerFrame_aad_def frame_encode_aad_def Let_def bind_res_Inl ok_or_def split: option.splits if_splits)
  ultimately show "InnerFrame_open P f k \<noteq> Err RatchetStateMismatch"
    by (auto simp: InnerFrame_open_def bind_res_Inl)
  show "DhKeyPair_diffie_hellman P kp pk \<noteq> Err RatchetStateMismatch"
    by (auto simp: DhKeyPair_diffie_hellman_def DhSecretKey_diffie_hellman_def Let_def)
qed

lemma decrypt_first_errors:
  assumes st: "rs_receiving_count st = 0" and f: "fh_session_id (if_header f) = rs_session_id st"
    "ct_suite (if_ciphertext f) = rs_suite st"
  shows "fst (RatchetState_decrypt P f st r) \<noteq> Err RatchetStateMismatch"
proof (cases "DhPublicKey (fh_ratchet_public (if_header f)) = rs_remote_dh st")
  case True
  have "fst (decrypt_same_ratchet P pk f st) \<noteq> Err RatchetStateMismatch" for pk
    by (auto simp: decrypt_same_ratchet_def Let_def st bind_res_Inl derive_first_errors other_errors
        split: sum.splits option.splits dest: sym)
  with True show ?thesis by (simp add: RatchetState_decrypt_def Let_def f split: prod.split) (metis fst_conv)
next
  case False
  have "fst (decrypt_new_ratchet P pk f st r) \<noteq> Err RatchetStateMismatch" for pk
    by (auto simp: decrypt_new_ratchet_def Let_def st io_bind_Inl io_lift_def bind_res_Inl derive_first_errors other_errors
        chain_errors res_iff ok_or_def split: sum.splits option.splits prod.splits dest: sym)
  with False show ?thesis by (simp add: RatchetState_decrypt_def Let_def f)
qed

text \<open>
  The foreign frame is refused exactly when the two handshakes have different session identifiers: the
  hashes of two transcripts, which are different ones whenever the ephemeral keys drawn are.
\<close>

lemma wrong_session_runs:
  assumes P: "lawful P"
  shows "\<exists>a b c d m1 m2 w1 w2 e1 e2.
    regression_pair P r = (Ok (a, b), r + 8) \<and> regression_pair P (r + 8) = (Ok (c, d), r + 16) \<and>
    DhKeyPair_generate P (r + 6) = (Ok e1, r + 7) \<and> ih_initiator_ephemeral m1 = kp_public e1 \<and>
    DhKeyPair_generate P (r + 14) = (Ok e2, r + 15) \<and> ih_initiator_ephemeral m2 = kp_public e2 \<and>
    rs_session_id b = blake3 P (session_transcript m1 w1) \<and> rs_session_id c = blake3 P (session_transcript m2 w2) \<and>
    (session_transcript m1 w1 = session_transcript m2 w2 \<longleftrightarrow> m1 = m2 \<and> w1 = w2) \<and>
    message_ok P m1 \<and> message_ok P m2 \<and>
    (fst (wrong_session_frame_is_rejected P r) = Ok () \<longleftrightarrow> rs_session_id b \<noteq> rs_session_id c)"
proof -
  have live: "(1000 :: u64) \<le> 2000" by simp
  obtain a b r1 where e: "regression_pair P r = (Ok (a, b), r1)" "channel P a b [] []" "in_step a b 0" "in_step b a 0"
    "rs_suite a = DEFAULT_SUITE" "rs_suite b = DEFAULT_SUITE"
    unfolding regression_pair_def by (rule establish_in_step [OF P live])
  obtain c d r2 where g: "regression_pair P r1 = (Ok (c, d), r2)" "channel P c d [] []" "in_step c d 0" "in_step d c 0"
    "rs_suite c = DEFAULT_SUITE"
    unfolding regression_pair_def by (rule establish_in_step [OF P live])
  obtain m1 w1 e1 where t1: "message_ok P m1" "identity_ok P w1" "DhKeyPair_generate P (r + 6) = (Ok e1, r + 7)"
    "ih_initiator_ephemeral m1 = kp_public e1" "rs_session_id a = blake3 P (session_transcript m1 w1)" "r1 = r + 8"
    by (rule establish_session_id [OF P e(1) [unfolded regression_pair_def]])
  obtain m2 w2 e2 where t2: "message_ok P m2" "identity_ok P w2" "DhKeyPair_generate P (r1 + 6) = (Ok e2, r1 + 7)"
    "ih_initiator_ephemeral m2 = kp_public e2" "rs_session_id c = blake3 P (session_transcript m2 w2)" "r2 = r1 + 8"
    by (rule establish_session_id [OF P g(1) [unfolded regression_pair_def]])
  obtain x where x: "ratchet_ok P a" "direction P x a b []" by (rule channel_parts [OF e(2)])
  have short: "length (ascii ''valid session'') \<le> 1000" "length (ascii ''foreign session'') \<le> 1000" "(0 :: nat) < 1000"
    by simp_all
  obtain f a1 b1 where f: "RatchetState_encrypt P Message (ascii ''valid session'') a r2 = (Ok f, a1, Suc r2)"
    "RatchetState_decrypt P f b (Suc (Suc r2)) = (Ok (ascii ''valid session''), b1, Suc (Suc r2))"
    by (rule channel_exchange [OF e(2-4) short(3,1)])
  obtain h c1 d1 where h: "RatchetState_encrypt P Message (ascii ''foreign session'') c (Suc r2) = (Ok h, c1, Suc (Suc r2))"
    by (rule channel_exchange [OF g(2-4) short(3,2)])
  obtain z where z: "ratchet_ok P c" "direction P z c d []" and Q: "sizes_ok P" "aeads_ok P" "hkdf_total P"
    by (rule channel_parts [OF g(2)])
  then have "rs_sending_chain c = chain_at P z (unat (rs_sending_count c))"
    by (simp add: direction_def chain_link_def)
  note hd = encrypt_Ok(1,2) [OF Q z(1) h this]
  have ids: "rs_session_id a = rs_session_id b" using x(2) by (simp add: direction_def chain_link_def)
  have first: "rs_receiving_count b = 0" using e(3) by (simp add: in_step_def window_of_def unat_eq_0)
  have "fst (RatchetState_decrypt P h b (Suc (Suc r2))) = Err RatchetStateMismatch \<longleftrightarrow> rs_session_id b \<noteq> rs_session_id c"
    using decrypt_first_errors [OF first, of h P "Suc (Suc r2)"] hd g(5) e(6)
    by (auto simp: RatchetState_decrypt_def Let_def)
  moreover have "RatchetState_decrypt P h b (Suc (Suc r2)) = (Err RatchetStateMismatch, b, Suc (Suc r2))"
    if "rs_session_id b \<noteq> rs_session_id c"
    using that hd(1) by (auto simp: RatchetState_decrypt_def Let_def)
  ultimately have "fst (wrong_session_frame_is_rejected P r) = Ok () \<longleftrightarrow> rs_session_id b \<noteq> rs_session_id c"
    using e(1) g(1) f h
    by (cases "RatchetState_decrypt P h b (Suc (Suc r2))"; cases "rs_session_id b = rs_session_id c")
       (simp_all add: wrong_session_frame_is_rejected_def assert_that_def attempt_def)
  then show ?thesis
    using e(1) g(1) t1 t2 ids session_transcript_inj [OF t1(1) t2(1) t1(2) t2(2)] by (simp add: add.assoc) blast
qed

text \<open>The live functions give every session an identifier of its own, the bytes of the initiator's ephemeral key.\<close>

lemma live_session_hash:
  assumes "message_ok live_primitives m"
  shows "blake3 live_primitives (session_transcript m w) = dh_public_bytes (ih_initiator_ephemeral m)"
proof -
  let ?i = "ih_initiator_identity m"
  have len: "length (identity_public_bytes (id_signing ?i)) = 32" "length (dh_public_bytes (id_dh ?i)) = 32"
    "length (id_signature ?i) = 64" "length (dh_public_bytes (ih_initiator_ephemeral m)) = 32"
    using assms by (simp_all add: message_ok_def identity_ok_def)
  let ?before = "PROTOCOL_ID @ [0] @ ascii ''blake3-id'' @ [0] @ SESSION_LABEL @
      to_be_bytes (word_of_nat (length (InitiatorHandshake_encode m)) :: u64) @ HANDSHAKE_MAGIC @ [HANDSHAKE_VERSION] @
      identity_public_bytes (id_signing ?i) @ dh_public_bytes (id_dh ?i) @ id_signature ?i"
  have "length ?before = 177"
    using len by (simp add: PROTOCOL_ID_def SESSION_LABEL_def HANDSHAKE_MAGIC_def ascii_def)
  moreover have "\<exists>after. session_transcript m w = ?before @ dh_public_bytes (ih_initiator_ephemeral m) @ after"
    unfolding session_transcript_def blake3_transcript_def delimited.simps
    by (subst (2) InitiatorHandshake_encode_def) (simp add: append_assoc)
  ultimately obtain after where "drop 177 (session_transcript m w) = dh_public_bytes (ih_initiator_ephemeral m) @ after"
    by (metis append_eq_conv_conj)
  moreover have "padded 32 (dh_public_bytes (ih_initiator_ephemeral m) @ after) = dh_public_bytes (ih_initiator_ephemeral m)" for after
    using len(4) by (simp add: padded_def)
  ultimately show ?thesis by (simp add: live_primitives_def)
qed

lemma live_keys_differ:
  assumes "DhKeyPair_generate live_primitives 6 = (Inr e1, 7)" "DhKeyPair_generate live_primitives 14 = (Inr e2, 15)"
  shows "dh_public_bytes (kp_public e1) \<noteq> dh_public_bytes (kp_public e2)"
proof -
  have "tl (padded 32 (replicate 32 (7 :: u8))) \<noteq> tl (padded 32 (replicate 32 15))"
    by (simp add: padded_id)
  then show ?thesis
    using assms by (auto simp: DhKeyPair_generate_Ok DhKeyPair_from_secret_def DhSecretKey_public_key_def live_primitives_def
        live_public_def simp del: replicate.simps)
qed

lemma envelope_expiry_runs:
  assumes P: "lawful P"
  shows "fst (envelope_expiry_is_checked P r) = Ok ()"
proof -
  obtain a b r1 where e: "regression_pair P r = (Ok (a, b), r1)" "channel P a b [] []" "in_step a b 0" "in_step b a 0"
    by (rule regression_start [OF P])
  have short: "length (ascii ''expiry guard'') \<le> 1000" "(0 :: nat) < 1000" "(0 :: nat) \<le> 1000" by simp_all
  obtain f a1 b1 where f: "RatchetState_encrypt P Message (ascii ''expiry guard'') a r1 = (Ok f, a1, Suc r1)"
    "frame_ok f" "length (frame_bytes f) \<le> 1200"
    by (rule channel_exchange [OF e(2-4) short(2,1)])
  obtain kp m v where v: "DhKeyPair_generate P (Suc r1) = (Ok kp, Suc (Suc r1))"
    "MailboxCapability_generate P (Suc (Suc r1)) = (Ok m, Suc (Suc (Suc r1)))"
    "OuterEnvelope_seal P (kp_public kp) m 500 f 0 (Suc (Suc (Suc r1))) = (Ok v, Suc (Suc (Suc (Suc (Suc (Suc r1))))))"
    "OuterEnvelope_encode v = Ok (envelope_bytes v)" "OuterEnvelope_decode (envelope_bytes v) = Ok v"
    "\<forall>now. OuterEnvelope_open P v (kp_secret kp) now =
       (if 500 < now then Err EnvelopeExpired else Ok (frame_bytes f @ replicate 0 0))"
    by (rule posting [OF P f(2,3) short(3), where r = "Suc r1" and t = 500])
  have "InnerFrame_encode f = Ok (frame_bytes f)" "InnerFrame_decode (frame_bytes f) = Ok f"
    using f(2) by (simp_all add: InnerFrame_encode_Ok InnerFrame_decode_Ok)
  with e(1) f(1) v show ?thesis by (simp add: envelope_expiry_is_checked_def)
qed

lemma parsers_reject_runs:
  assumes P: "lawful P"
  shows "fst (canonical_parsers_reject_altered_wire P r) = Ok ()"
proof -
  obtain a b r1 where e: "regression_pair P r = (Ok (a, b), r1)" "channel P a b [] []" "in_step a b 0" "in_step b a 0"
    by (rule regression_start [OF P])
  have short: "length (ascii ''parser strictness'') \<le> 1000" "(0 :: nat) < 1000" "(0 :: nat) \<le> 1000" by simp_all
  obtain f a1 b1 where f: "RatchetState_encrypt P Message (ascii ''parser strictness'') a r1 = (Ok f, a1, Suc r1)"
    "frame_ok f" "length (frame_bytes f) \<le> 1200"
    by (rule channel_exchange [OF e(2-4) short(2,1)])
  obtain kp m v where v: "DhKeyPair_generate P (Suc r1) = (Ok kp, Suc (Suc r1))"
    "MailboxCapability_generate P (Suc (Suc r1)) = (Ok m, Suc (Suc (Suc r1)))"
    "OuterEnvelope_seal P (kp_public kp) m 1000 f 0 (Suc (Suc (Suc r1))) = (Ok v, Suc (Suc (Suc (Suc (Suc (Suc r1))))))"
    "OuterEnvelope_encode v = Ok (envelope_bytes v)" "envelope_ok v"
    by (rule posting [OF P f(2,3) short(3), where r = "Suc r1" and t = 1000])
  have "0 < length (frame_bytes f)" "0 < length (envelope_bytes v)"
    using length_frame_bytes [OF f(2)] length_envelope_bytes [OF v(5)] by simp_all
  then have "InnerFrame_decode (butlast (frame_bytes f)) = Err InvalidFrame"
    "OuterEnvelope_decode (butlast (envelope_bytes v)) = Err InvalidFrame"
    using frame_truncated [OF f(2), of "length (frame_bytes f) - 1"]
      envelope_truncated [OF v(5), of "length (envelope_bytes v) - 1"] by (simp_all add: butlast_conv_take)
  moreover have "InnerFrame_decode (frame_bytes f @ [0]) = Err InvalidFrame"
    "OuterEnvelope_decode (envelope_bytes v @ [0]) = Err InvalidFrame"
    by (rule frame_extended [OF f(2)], simp, rule envelope_extended [OF v(5)], simp)
  ultimately show ?thesis
    using e(1) f(1) v InnerFrame_encode_Ok [OF f(2)] by (simp add: canonical_parsers_reject_altered_wire_def)
qed

section \<open>The ratchet's unit tests\<close>

lemma suite_start:
  assumes P: "lawful P"
  obtains a b r' where "pair_with_suite P s r = (Ok (a, b), r')" "channel P a b [] []" "in_step a b 0" "in_step b a 0"
    "rs_suite a = s" "rs_suite b = s"
proof -
  have "(1000 :: u64) \<le> 2000" by simp
  from establish_in_step [OF P this, of 7 19 s r] that show thesis
    unfolding pair_with_suite_def by blast
qed

lemma bidirectional_runs:
  assumes P: "lawful P"
  shows "fst (bidirectional_messages_round_trip P r) = Ok ()"
proof -
  obtain a b r1 where e: "pair_with_suite P XChaCha20Poly1305 r = (Ok (a, b), r1)" "channel P a b [] []"
    "in_step a b 0" "in_step b a 0"
    by (rule suite_start [OF P])
  have short: "length (ascii ''from alice'') \<le> 1000" "length (ascii ''from bob'') \<le> 1000" "(0 :: nat) < 1000" by simp_all
  obtain f a1 b1 where f: "RatchetState_encrypt P Message (ascii ''from alice'') a r1 = (Ok f, a1, Suc r1)"
    "RatchetState_decrypt P f b (Suc r1) = (Ok (ascii ''from alice''), b1, Suc r1)"
    "channel P a1 b1 [(f, ascii ''from alice'')] []" "in_step a1 b1 (Suc 0)" "in_step b1 a1 0"
    by (rule channel_exchange [OF e(2-4) short(3,1)])
  obtain g b2 a2 where "RatchetState_encrypt P Message (ascii ''from bob'') b1 (Suc r1) = (Ok g, b2, Suc (Suc r1))"
    "RatchetState_decrypt P g a1 (Suc (Suc r1)) = (Ok (ascii ''from bob''), a2, Suc (Suc r1))"
    by (rule channel_exchange [OF f(3) [THEN channel_sym [THEN iffD1]] f(5,4) short(3,2)])
  with e f show ?thesis by (simp add: bidirectional_messages_round_trip_def)
qed

lemma out_of_order_runs:
  assumes P: "lawful P"
  shows "fst (out_of_order_messages P r) = Ok ()"
proof -
  obtain a b r1 where e: "pair_with_suite P XChaCha20Poly1305 r = (Ok (a, b), r1)" "channel P a b [] []"
    "in_step a b 0" "in_step b a 0"
    by (rule suite_start [OF P])
  have short: "length (ascii ''one'') \<le> 1000" "length (ascii ''two'') \<le> 1000" "length (ascii ''three'') \<le> 1000"
    "(0 :: nat) < 1000" "Suc 0 < 1000" "Suc (Suc 0) < 1000" by simp_all
  have start: "unat (rs_sending_count a) = 0" "window_of b = \<lparr>win_next = 0, win_missing = {}, win_others = 0\<rparr>"
    using e(3) by (simp_all add: in_step_def)
  obtain f a1 where f: "RatchetState_encrypt P Message (ascii ''one'') a r1 = (Ok f, a1, Suc r1)"
    "channel P a1 b [(f, ascii ''one'')] []" "0 = unat (fh_message_number (if_header f))" "unat (rs_sending_count a1) = Suc 0"
    by (rule channel_say [OF e(2) start(1) short(4,1)])
  obtain g a2 where g: "RatchetState_encrypt P Message (ascii ''two'') a1 (Suc r1) = (Ok g, a2, Suc (Suc r1))"
    "channel P a2 b [(g, ascii ''two''), (f, ascii ''one'')] []" "Suc 0 = unat (fh_message_number (if_header g))"
    "unat (rs_sending_count a2) = Suc (Suc 0)"
    by (rule channel_say [OF f(2,4) short(5,2)])
  obtain h a3 where h: "RatchetState_encrypt P Message (ascii ''three'') a2 (Suc (Suc r1)) = (Ok h, a3, Suc (Suc (Suc r1)))"
    "channel P a3 b [(h, ascii ''three''), (g, ascii ''two''), (f, ascii ''one'')] []"
    "Suc (Suc 0) = unat (fh_message_number (if_header h))"
    by (rule channel_say [OF g(2,4) short(6,3)])
  let ?w = "\<lambda>missing. \<lparr>win_next = 3, win_missing = missing, win_others = 0\<rparr>"
  have win: "window_receive (Suc (Suc 0)) \<lparr>win_next = 0, win_missing = {}, win_others = 0\<rparr> = (Ok (), ?w {0, 1})"
    "window_receive 0 (?w {0, 1}) = (Ok (), ?w {1})" "window_receive (Suc 0) (?w {1}) = (Ok (), ?w {})"
    "window_receive 0 (?w {}) = (Err MessageKeyConsumed, ?w {})"
    by (auto simp: window_receive_def MAX_SKIPPED_KEYS_def)
  let ?fs = "[(h, ascii ''three''), (g, ascii ''two''), (f, ascii ''one'')]"
  have sent: "(f, ascii ''one'') \<in> set ?fs" "(g, ascii ''two'') \<in> set ?fs" "(h, ascii ''three'') \<in> set ?fs" by simp_all
  obtain b1 where b1: "RatchetState_decrypt P h b (Suc (Suc (Suc r1))) =
      (delivers (ascii ''three'') (Ok ()), b1, Suc (Suc (Suc r1)))" "channel P a3 b1 ?fs []" "window_of b1 = ?w {0, 1}"
    by (rule channel_hear [OF h(2) sent(3) h(3) start(2) win(1)])
  obtain b2 where b2: "RatchetState_decrypt P f b1 (Suc (Suc (Suc r1))) =
      (delivers (ascii ''one'') (Ok ()), b2, Suc (Suc (Suc r1)))" "channel P a3 b2 ?fs []" "window_of b2 = ?w {1}"
    by (rule channel_hear [OF b1(2) sent(1) f(3) b1(3) win(2)])
  obtain b3 where b3: "RatchetState_decrypt P g b2 (Suc (Suc (Suc r1))) =
      (delivers (ascii ''two'') (Ok ()), b3, Suc (Suc (Suc r1)))" "channel P a3 b3 ?fs []" "window_of b3 = ?w {}"
    by (rule channel_hear [OF b2(2) sent(2) g(3) b2(3) win(3)])
  obtain b4 where b4: "RatchetState_decrypt P f b3 (Suc (Suc (Suc r1))) =
      (delivers (ascii ''one'') (Err MessageKeyConsumed), b4, Suc (Suc (Suc r1)))"
    by (rule channel_hear [OF b3(2) sent(1) f(3) b3(3) win(4)])
  have "skipped_key_count b1 = 2" "skipped_key_count b3 = 0"
    using channel_kept [OF b1(2)] channel_kept [OF b3(2)] by (simp_all add: b1(3) b3(3))
  with e(1) f(1) g(1) h(1) b1(1) b2(1) b3(1) b4 show ?thesis by (simp add: out_of_order_messages_def)
qed

lemma snapshot_runs:
  assumes P: "lawful P"
  shows "fst (snapshot_restores_out_of_order_state P r) = Ok ()"
proof -
  have now: "(1000 :: u64) \<le> 2000" by simp
  obtain a b r1 where e: "establish P 1 2000 2 1000 DEFAULT_SUITE r = (Ok (a, b), r1)" "channel P a b [] []"
    "in_step a b 0" "in_step b a 0"
    by (rule establish_in_step [OF P now])
  have short: "length (ascii ''first'') \<le> 1000" "length (ascii ''second'') \<le> 1000"
    "length (ascii ''account/device/session'') \<le> 1000" "(0 :: nat) < 1000" "Suc 0 < 1000" by simp_all
  have start: "unat (rs_sending_count a) = 0" "window_of b = \<lparr>win_next = 0, win_missing = {}, win_others = 0\<rparr>"
    using e(3) by (simp_all add: in_step_def)
  obtain f a1 where f: "RatchetState_encrypt P Message (ascii ''first'') a r1 = (Ok f, a1, Suc r1)"
    "channel P a1 b [(f, ascii ''first'')] []" "0 = unat (fh_message_number (if_header f))" "unat (rs_sending_count a1) = Suc 0"
    by (rule channel_say [OF e(2) start(1) short(4,1)])
  obtain g a2 where g: "RatchetState_encrypt P Message (ascii ''second'') a1 (Suc r1) = (Ok g, a2, Suc (Suc r1))"
    "channel P a2 b [(g, ascii ''second''), (f, ascii ''first'')] []" "Suc 0 = unat (fh_message_number (if_header g))"
    by (rule channel_say [OF f(2,4) short(5,2)])
  let ?fs = "[(g, ascii ''second''), (f, ascii ''first'')]"
  let ?w = "\<lambda>missing. \<lparr>win_next = 2, win_missing = missing, win_others = 0\<rparr>"
  have win: "window_receive (Suc 0) \<lparr>win_next = 0, win_missing = {}, win_others = 0\<rparr> = (Ok (), ?w {0})"
    "window_receive 0 (?w {0}) = (Ok (), ?w {})"
    by (auto simp: window_receive_def MAX_SKIPPED_KEYS_def)
  have sent: "(g, ascii ''second'') \<in> set ?fs" "(f, ascii ''first'') \<in> set ?fs" by simp_all
  obtain b1 where b1: "RatchetState_decrypt P g b (Suc (Suc r1)) = (delivers (ascii ''second'') (Ok ()), b1, Suc (Suc r1))"
    "channel P a2 b1 ?fs []" "window_of b1 = ?w {0}"
    by (rule channel_hear [OF g(2) sent(1) g(3) start(2) win(1)])
  have own: "win_others (window_of b1) = 0" by (simp add: b1(3))
  obtain blob where blob: "seal_state P (StateSealKey (AeadKey (replicate 32 9))) (ascii ''account/device/session'') b1 (Suc (Suc r1)) =
      (Ok blob, Suc (Suc (Suc r1)))"
    "restore_state P (StateSealKey (AeadKey (replicate 32 9))) (ascii ''account/device/session'') (rs_generation b1) blob = Ok b1"
    by (rule channel_snapshot [OF b1(2) own short(3)])
  obtain b2 where b2: "RatchetState_decrypt P f b1 (Suc (Suc (Suc r1))) =
      (delivers (ascii ''first'') (Ok ()), b2, Suc (Suc (Suc r1)))"
    by (rule channel_hear [OF b1(2) sent(2) f(3) b1(3) win(2)])
  from e(1) f(1) g(1) b1(1) blob b2 show ?thesis
    by (simp add: snapshot_restores_out_of_order_state_def Let_def del: replicate.simps)
qed

lemma siv_runs:
  assumes P: "lawful P"
  shows "fst (aes_gcm_siv_round_trip_and_restore P r) = Ok ()"
proof -
  obtain a b r1 where e: "pair_with_suite P Aes256GcmSiv r = (Ok (a, b), r1)" "channel P a b [] []"
    "in_step a b 0" "in_step b a 0" "rs_suite a = Aes256GcmSiv" "rs_suite b = Aes256GcmSiv"
    by (rule suite_start [OF P])
  have short: "length (ascii ''siv payload'') \<le> 1000" "length (ascii ''v011/aes-siv'') \<le> 1000" "(0 :: nat) < 1000" by simp_all
  obtain f a1 b1 where f: "RatchetState_encrypt P Message (ascii ''siv payload'') a r1 = (Ok f, a1, Suc r1)"
    "RatchetState_decrypt P f b (Suc r1) = (Ok (ascii ''siv payload''), b1, Suc r1)"
    "channel P a1 b1 [(f, ascii ''siv payload'')] []" "in_step a1 b1 (Suc 0)" "rs_suite b1 = rs_suite b"
    by (rule channel_exchange [OF e(2-4) short(3,1)])
  have own: "win_others (window_of b1) = 0" using f(4) by (simp add: in_step_def)
  obtain blob where blob: "seal_state P (StateSealKey (AeadKey (replicate 32 17))) (ascii ''v011/aes-siv'') b1 (Suc r1) =
      (Ok blob, Suc (Suc r1))"
    "restore_state P (StateSealKey (AeadKey (replicate 32 17))) (ascii ''v011/aes-siv'') (rs_generation b1) blob = Ok b1"
    by (rule channel_snapshot [OF f(3) own short(2)])
  from e(1,5,6) f(1,2,5) blob show ?thesis
    by (simp add: aes_gcm_siv_round_trip_and_restore_def Let_def del: replicate.simps)
qed

end
