(* ===== verification/Mef_Module_Tests.thy ===== *)
theory Mef_Module_Tests
  imports Mef_Scenarios
begin

text \<open>
  Unit tests of the modules below the ratchet, the property tests and the fuzz targets: handshake,
  hybrid handshake, frames, suites, envelopes with their replay cache, X25519 and the parsers, each as
  a function of the model that runs to its end in a lawful environment.
\<close>

section \<open>handshake.rs\<close>

definition one_time_prekey_handshake :: "primitives \<Rightarrow> rng \<Rightarrow> unit res \<times> rng" where
  "one_time_prekey_handshake P =
     io_bind (ResponderPrekeyMaterial_generate P 7 2000) (\<lambda>responder.
     calling (add_one_time_prekey P 19 responder) (\<lambda>_ responder.
     io_bind (io_lift (ResponderPrekeyBundle_decode P
         (ResponderPrekeyBundle_encode (ResponderPrekeyMaterial_bundle P responder)))) (\<lambda>bundle.
     io_bind (io_lift (assert_that (map_option otpk_id (rb_one_time_prekey bundle) = Some 19))) (\<lambda>_.
     io_bind (LocalIdentity_generate P) (\<lambda>initiator.
     io_bind (handshake_initiate P initiator bundle 1000) (\<lambda>(message, initiator_handshake).
     io_bind (io_lift (InitiatorHandshake_decode P (InitiatorHandshake_encode message))) (\<lambda>decoded.
     calling (no_draw (handshake_accept P responder decoded)) (\<lambda>responder_handshake responder.
     io_bind (io_lift (assert_that (ah_session_id initiator_handshake = ah_session_id responder_handshake))) (\<lambda>_.
     io_bind (io_lift (assert_that (available_one_time_prekeys responder = 0))) (\<lambda>_.
     io_bind (io_lift (from_authenticated_handshake P initiator_handshake)) (\<lambda>_.
     io_bind (io_lift (from_authenticated_handshake P responder_handshake)) (\<lambda>_.
     io_lift (Ok ())))))))))))))"

definition retained_signed_prekey_accepts :: "primitives \<Rightarrow> rng \<Rightarrow> unit res \<times> rng" where
  "retained_signed_prekey_accepts P =
     io_bind (LocalIdentity_generate P) (\<lambda>initiator.
     io_bind (ResponderPrekeyMaterial_generate P 7 2000) (\<lambda>responder.
     io_bind (handshake_initiate P initiator (ResponderPrekeyMaterial_bundle P responder) 1000) (\<lambda>(delayed, _).
     calling (rotate_signed_prekey P 8 3000 responder) (\<lambda>_ responder.
     calling (no_draw (handshake_accept P responder delayed)) (\<lambda>_ responder.
     calling (no_draw (retire_signed_prekey 7 responder)) (\<lambda>_ responder.
     io_lift (Ok ())))))))"

section \<open>hybrid.rs\<close>

definition hybrid_handshake_round_trip :: "primitives \<Rightarrow> rng \<Rightarrow> unit res \<times> rng" where
  "hybrid_handshake_round_trip P =
     io_bind (HybridResponderPrekeyMaterial_generate P 7 2000) (\<lambda>responder.
     calling (hybrid_add_one_time_prekey P 19 responder) (\<lambda>_ responder.
     io_bind (io_lift (HybridResponderPrekeyMaterial_bundle P responder)) (\<lambda>published.
     io_bind (io_lift (HybridResponderPrekeyBundle_decode P (HybridResponderPrekeyBundle_encode published))) (\<lambda>bundle.
     io_bind (LocalIdentity_generate P) (\<lambda>initiator.
     io_bind (hybrid_initiate P initiator bundle 1000) (\<lambda>(message, initiator_handshake).
     io_bind (io_lift (HybridInitiatorHandshake_decode P (HybridInitiatorHandshake_encode message))) (\<lambda>decoded.
     calling (no_draw (hybrid_accept P responder decoded)) (\<lambda>responder_handshake responder.
     io_bind (io_lift (assert_that (ah_session_id initiator_handshake = ah_session_id responder_handshake))) (\<lambda>_.
     io_bind (io_lift (assert_that (hybrid_available_one_time_prekeys responder = 0))) (\<lambda>_.
     io_bind (io_lift (from_authenticated_handshake P initiator_handshake)) (\<lambda>_.
     io_bind (io_lift (from_authenticated_handshake P responder_handshake)) (\<lambda>_.
     io_lift (Ok ())))))))))))))"

section \<open>crypto and keys\<close>

definition suite_round_trip :: "primitives \<Rightarrow> aead_suite \<Rightarrow> rng \<Rightarrow> unit res \<times> rng" where
  "suite_round_trip P suite =
     io_bind (aead_seal P (AeadKey (replicate 32 7)) suite (ascii ''mef aad'') (ascii ''confidential payload''))
       (\<lambda>ciphertext.
     io_bind (io_lift (aead_open P (AeadKey (replicate 32 7)) ciphertext (ascii ''mef aad''))) (\<lambda>plaintext.
     io_lift (assert_that (plaintext = ascii ''confidential payload''))))"

text \<open>A loop over a list that stops at the first error.\<close>

fun for_each :: "('a \<Rightarrow> rng \<Rightarrow> unit res \<times> rng) \<Rightarrow> 'a list \<Rightarrow> rng \<Rightarrow> unit res \<times> rng" where
  "for_each body [] = io_lift (Ok ())"
| "for_each body (x # xs) = io_bind (body x) (\<lambda>_. for_each body xs)"

definition every_aead_suite_round_trips :: "primitives \<Rightarrow> rng \<Rightarrow> unit res \<times> rng" where
  "every_aead_suite_round_trips P =
     for_each (suite_round_trip P) [Aes256Gcm, Aes256GcmSiv, ChaCha20Poly1305, XChaCha20Poly1305]"

definition explicit_nonce_must_match_suite :: "primitives \<Rightarrow> unit res" where
  "explicit_nonce_must_match_suite P =
     assert_that (seal_with_nonce P (AeadKey (replicate 32 7)) Aes256GcmSiv (replicate 24 0) [] (ascii ''payload'')
       = Err InvalidLength)"

definition x25519_agreement_is_symmetric :: "primitives \<Rightarrow> rng \<Rightarrow> unit res \<times> rng" where
  "x25519_agreement_is_symmetric P =
     io_bind (DhKeyPair_generate P) (\<lambda>alice.
     io_bind (DhKeyPair_generate P) (\<lambda>bob.
     io_bind (io_lift (DhKeyPair_diffie_hellman P alice (kp_public bob))) (\<lambda>left.
     io_bind (io_lift (DhKeyPair_diffie_hellman P bob (kp_public alice))) (\<lambda>right.
     io_lift (assert_that (left = right))))))"

definition non_contributory_input_is_rejected :: "primitives \<Rightarrow> rng \<Rightarrow> unit res \<times> rng" where
  "non_contributory_input_is_rejected P =
     io_bind (DhKeyPair_generate P) (\<lambda>pair.
     io_lift (assert_that
       (DhKeyPair_diffie_hellman P pair (DhPublicKey (replicate 32 0)) = Err NonContributoryKeyAgreement)))"

section \<open>Frames\<close>

definition make_frame :: "primitives \<Rightarrow> rng \<Rightarrow> inner_frame res \<times> rng" where
  "make_frame P =
     InnerFrame_seal P (AeadKey (replicate 32 3)) XChaCha20Poly1305
       (FrameHeader_new Message (replicate 32 1) (replicate 32 2) 4 9) (ascii ''frame payload'')"

definition frame_round_trips_and_decrypts :: "primitives \<Rightarrow> rng \<Rightarrow> unit res \<times> rng" where
  "frame_round_trips_and_decrypts P =
     io_bind (make_frame P) (\<lambda>frame.
     io_bind (io_lift (InnerFrame_encode frame)) (\<lambda>bytes.
     io_bind (io_lift (InnerFrame_decode bytes)) (\<lambda>decoded.
     io_bind (io_lift (InnerFrame_open P decoded (AeadKey (replicate 32 3)))) (\<lambda>plaintext.
     io_bind (io_lift (assert_that (plaintext = ascii ''frame payload''))) (\<lambda>_.
     io_bind (io_lift (assert_that (fh_session_id (if_header decoded) = replicate 32 1))) (\<lambda>_.
     io_lift (assert_that (fh_message_number (if_header decoded) = 9))))))))"

text \<open>\<open>bytes[i] = value\<close>.\<close>

definition store_at :: "'a list \<Rightarrow> nat \<Rightarrow> 'a \<Rightarrow> 'a list res" where
  "store_at xs i x = (if i < length xs then Ok (xs[i := x]) else Panics)"

definition parser_rejects_trailing_and_unknown_version :: "primitives \<Rightarrow> rng \<Rightarrow> unit res \<times> rng" where
  "parser_rejects_trailing_and_unknown_version P =
     io_bind (make_frame P) (\<lambda>frame.
     io_bind (io_lift (InnerFrame_encode frame)) (\<lambda>bytes.
     let pushed = bytes @ [0] in
     io_bind (io_lift (assert_that (InnerFrame_decode pushed = Err InvalidFrame))) (\<lambda>_.
     let popped = butlast pushed in
     io_bind (io_lift (store_at popped 3 2)) (\<lambda>changed.
     io_lift (assert_that (InnerFrame_decode changed = Err InvalidFrame))))))"

definition inner_frame_round_trip :: "primitives \<Rightarrow> bytes \<Rightarrow> rng \<Rightarrow> unit res \<times> rng" where
  "inner_frame_round_trip P payload r =
     (let key = AeadKey (replicate 32 17) in
      case InnerFrame_seal P key XChaCha20Poly1305
          (FrameHeader_new Message (replicate 32 1) (replicate 32 2) 0 7) payload r of
        (Inl e, r') \<Rightarrow> (Panics, r')
      | (Inr frame, r') \<Rightarrow>
          (case InnerFrame_encode frame of
             Inl e \<Rightarrow> (Panics, r')
           | Inr encoded \<Rightarrow>
               (case InnerFrame_decode encoded of
                  Inl e \<Rightarrow> (Panics, r')
                | Inr decoded \<Rightarrow> (assert_that (InnerFrame_open P decoded key = Ok payload), r'))))"

text \<open>\<open>let _ = result\<close>: an error is dropped, a panic is not.\<close>

definition ignored :: "'a res \<Rightarrow> unit res" where
  "ignored x = (case x of Inl Panic \<Rightarrow> Panics | _ \<Rightarrow> Ok ())"

definition arbitrary_wire_bytes :: "primitives \<Rightarrow> bytes \<Rightarrow> unit res" where
  "arbitrary_wire_bytes P bs =
     bind_res (ignored (InnerFrame_decode bs)) (\<lambda>_.
     bind_res (ignored (InnerFrame_decode_prefix bs)) (\<lambda>_.
     bind_res (ignored (OuterEnvelope_decode bs)) (\<lambda>_.
     ignored (InitiatorHandshake_decode P bs))))"

definition fuzz_wire_parsers :: "bytes \<Rightarrow> unit res" where
  "fuzz_wire_parsers bs =
     bind_res (ignored (InnerFrame_decode bs)) (\<lambda>_.
     bind_res (ignored (InnerFrame_decode_prefix bs)) (\<lambda>_.
     ignored (OuterEnvelope_decode bs)))"

definition fuzz_handshake_wire :: "primitives \<Rightarrow> bytes \<Rightarrow> unit res" where
  "fuzz_handshake_wire P bs = ignored (InitiatorHandshake_decode P bs)"

section \<open>Envelopes\<close>

definition envelope_inner_frame :: "primitives \<Rightarrow> rng \<Rightarrow> inner_frame res \<times> rng" where
  "envelope_inner_frame P =
     InnerFrame_seal P (AeadKey (replicate 32 4)) XChaCha20Poly1305
       (FrameHeader_new Message (replicate 32 8) (replicate 32 7) 0 1) (ascii ''inner'')"

definition envelope_round_trips_with_padding :: "primitives \<Rightarrow> rng \<Rightarrow> unit res \<times> rng" where
  "envelope_round_trips_with_padding P =
     io_bind (DhKeyPair_generate P) (\<lambda>recipient.
     io_bind (MailboxCapability_generate P) (\<lambda>mailbox.
     io_bind (envelope_inner_frame P) (\<lambda>inner.
     io_bind (OuterEnvelope_seal P (kp_public recipient) mailbox 1800000000 inner 32) (\<lambda>envelope.
     io_bind (io_lift (OuterEnvelope_encode envelope)) (\<lambda>wire.
     io_bind (io_lift (OuterEnvelope_decode wire)) (\<lambda>decoded.
     io_bind (io_lift (OuterEnvelope_open P decoded (kp_secret recipient) 1700000000)) (\<lambda>plaintext.
     io_bind (io_lift (InnerFrame_encode inner)) (\<lambda>expected.
     io_bind (io_lift (slice 0 (length expected) plaintext)) (\<lambda>start.
     io_bind (io_lift (assert_that (start = expected))) (\<lambda>_.
     io_bind (io_lift (slice (length expected) (length plaintext) plaintext)) (\<lambda>padding.
     io_lift (assert_that (padding = replicate 32 0)))))))))))))"

definition open_inner_removes_padding :: "primitives \<Rightarrow> rng \<Rightarrow> unit res \<times> rng" where
  "open_inner_removes_padding P =
     io_bind (DhKeyPair_generate P) (\<lambda>recipient.
     io_bind (envelope_inner_frame P) (\<lambda>inner.
     io_bind (MailboxCapability_generate P) (\<lambda>mailbox.
     io_bind (OuterEnvelope_seal P (kp_public recipient) mailbox 1800000000 inner 64) (\<lambda>envelope.
     io_bind (io_lift (OuterEnvelope_encode envelope)) (\<lambda>wire.
     io_bind (io_lift (OuterEnvelope_decode wire)) (\<lambda>decoded.
     io_bind (io_lift (OuterEnvelope_open_inner P decoded (kp_secret recipient) 1700000000)) (\<lambda>opened.
     io_bind (io_lift (assert_that (opened = inner))) (\<lambda>_.
     io_bind (io_lift (ReplayCache_new 8)) (\<lambda>replay_cache.
     calling (no_draw (OuterEnvelope_open_inner_once P decoded (kp_secret recipient) 1700000000 replay_cache))
       (\<lambda>opened replay_cache.
     io_bind (io_lift (assert_that (opened = inner))) (\<lambda>_.
     attempt (no_draw (OuterEnvelope_open_inner_once P decoded (kp_secret recipient) 1700000000 replay_cache))
       (\<lambda>again replay_cache.
     io_lift (assert_that (again = Err ReplayDetected))))))))))))))"

section \<open>They run to the end\<close>

lemma one_time_prekey_handshake_runs:
  assumes P: "lawful P"
  shows "fst (one_time_prekey_handshake P r) = Ok ()"
proof -
  note law = lawfulD [OF P]
  obtain m r1 where m: "ResponderPrekeyMaterial_generate P 7 2000 r = (Ok m, r1)" "material_ok P m"
    "rm_one_time_prekeys m = []" "sp_expires_at_unix (rm_signed_record m) = 2000"
    by (rule material_generate_total [OF law(1,8)])
  have "one_time_absent 19 m" using m(3) by (simp add: one_time_absent_def)
  then obtain key m' where m': "add_one_time_prekey P 19 m r1 = (Ok (), m', Suc r1)" "material_ok P m'"
    "rm_signed_record m' = rm_signed_record m"
    "rm_one_time_prekeys m' = rm_one_time_prekeys m @
       [\<lparr>otp_public = \<lparr>otpk_id = 19, otpk_public = kp_public key\<rparr>, otp_key = key\<rparr>]"
    by (rule add_one_time_total [OF law(1,8) m(2)])
  let ?b = "ResponderPrekeyMaterial_bundle P m'"
  have otp: "map_option otpk_id (rb_one_time_prekey ?b) = Some 19"
    by (simp add: ResponderPrekeyMaterial_bundle_def m'(4) m(3))
  have dec: "ResponderPrekeyBundle_decode P (ResponderPrekeyBundle_encode ?b) = Ok ?b"
    by (rule bundle_decode_encode [OF published_bundle_ok [OF law(1,5) m'(2)]])
  obtain li r2 where li: "LocalIdentity_generate P (Suc r1) = (Ok li, r2)" "local_identity_ok P li"
    by (rule LocalIdentity_generate_total [OF law(1,8)])
  have "ResponderPrekeyBundle_verify P ?b 1000 = Ok ()"
    using published_bundle_verifies [OF law(1,5) m'(2)] m'(3) m(4) by simp
  then obtain msg ha r3 where init: "handshake_initiate P li ?b 1000 r2 = (Ok (msg, ha), r3)"
    using initiate_total [OF law(1,5,4,7,8) li(2) m'(2) bundle_held] by blast
  have mdec: "InitiatorHandshake_decode P (InitiatorHandshake_encode msg) = Ok msg"
    by (rule message_decode_encode [OF initiate_message_ok [OF law(1,5) li(2) init]])
  obtain hb m'' where acc: "handshake_accept P m' msg = (Ok hb, m'')" and match: "matching P ha hb"
    using accept_agrees [OF law(1,3,5) li(2) m'(2) bundle_held init] by blast
  have "ih_one_time_prekey_id msg = Some 19" using initiate_Ok [OF init] otp by (metis initiator_handshake.select_convs(5))
  then have none: "available_one_time_prekeys m'' = 0"
    using accept_consumes(2) [OF m'(2) acc] by (simp add: available_one_time_prekeys_def m'(4) m(3))
  obtain x y where "from_authenticated_handshake_with_suite P ha DEFAULT_SUITE = Ok x"
    "from_authenticated_handshake_with_suite P hb DEFAULT_SUITE = Ok y"
    using matching_synced [OF law(1,7) match matching_lengths [OF law(1) init]] by blast
  with m(1) m'(1) dec otp li(1) init mdec acc none match show ?thesis
    by (simp add: one_time_prekey_handshake_def from_authenticated_handshake_def matching_def)
qed

lemma rotate_total:
  assumes P: "sizes_ok P" "rng_total P" and m: "material_ok P m" and new: "i \<notin> (sp_key_id \<circ> fst) ` set (signed_entries m)"
  obtains m' where "rotate_signed_prekey P i t m r = (Ok (), m', Suc r)"
    "map fst (rm_retired_signed_prekeys m') = map fst (rm_retired_signed_prekeys m) @ [rm_signed_record m]"
proof -
  obtain key where "DhKeyPair_generate P r = (Ok key, Suc r)" by (rule DhKeyPair_generate_total [OF P])
  moreover have "sp_key_id (rm_signed_record m) \<noteq> i \<and> \<not> (\<exists>(record, _) \<in> set (rm_retired_signed_prekeys m). sp_key_id record = i)"
    using new by (force simp: signed_entries_def)
  ultimately show thesis using that by (simp add: rotate_signed_prekey_def Let_def)
qed

lemma retained_signed_prekey_runs:
  assumes P: "lawful P"
  shows "fst (retained_signed_prekey_accepts P r) = Ok ()"
proof -
  note law = lawfulD [OF P]
  obtain li r1 where li: "LocalIdentity_generate P r = (Ok li, r1)" "local_identity_ok P li"
    by (rule LocalIdentity_generate_total [OF law(1,8)])
  obtain m r2 where m: "ResponderPrekeyMaterial_generate P 7 2000 r1 = (Ok m, r2)" "material_ok P m"
    "rm_one_time_prekeys m = []" "sp_expires_at_unix (rm_signed_record m) = 2000" "sp_key_id (rm_signed_record m) = 7"
    by (rule material_generate_total [OF law(1,8)])
  have retired: "rm_retired_signed_prekeys m = []"
    using m(1) by (auto simp: ResponderPrekeyMaterial_generate_def io_bind_Ok io_lift_def)
  let ?b = "ResponderPrekeyMaterial_bundle P m"
  have "ResponderPrekeyBundle_verify P ?b 1000 = Ok ()"
    using published_bundle_verifies [OF law(1,5) m(2)] m(4) by simp
  then obtain msg ha r3 where init: "handshake_initiate P li ?b 1000 r2 = (Ok (msg, ha), r3)"
    using initiate_total [OF law(1,5,4,7,8) li(2) m(2) bundle_held] by blast
  have "8 \<notin> (sp_key_id \<circ> fst) ` set (signed_entries m)" by (simp add: signed_entries_def retired m(5))
  then obtain m' where rot: "rotate_signed_prekey P 8 3000 m r3 = (Ok (), m', Suc r3)"
    "map fst (rm_retired_signed_prekeys m') = map fst (rm_retired_signed_prekeys m) @ [rm_signed_record m]"
    by (rule rotate_total [OF law(1,8) m(2)])
  have m': "material_ok P m'" by (rule rotate_signed_prekey_ok [OF law(1) m(2) rot(1)])
  have "holds_prekeys P m' ?b"
    using keeps_prekeys_step [of P "(m, r3)" ?b "RotateSigned 8 3000"] m(2) bundle_held rot(1)
    by (simp add: keeps_prekeys_def)
  from accept_agrees [OF law(1,3,5) li(2) m' this init] obtain hb m'' where acc: "handshake_accept P m' msg = (Ok hb, m'')"
    by blast
  have "rm_retired_signed_prekeys m'' = rm_retired_signed_prekeys m'" using accept_Ok_material [OF acc] by auto
  moreover obtain k where "rm_retired_signed_prekeys m' = [(rm_signed_record m, k)]"
    using rot(2) by (auto simp: retired)
  ultimately have "fst (retire_signed_prekey 7 m'') = Ok ()" by (simp add: retire_signed_prekey_def m(5))
  with li(1) m(1) init rot(1) acc show ?thesis
    by (cases "retire_signed_prekey 7 m''") (simp add: retained_signed_prekey_accepts_def)
qed

lemma hybrid_round_trip_runs:
  assumes P: "lawful P"
  shows "fst (hybrid_handshake_round_trip P r) = Ok ()"
proof -
  note law = lawfulD [OF P]
  obtain cm r1 where cm: "ResponderPrekeyMaterial_generate P 7 2000 r = (Ok cm, r1)" "material_ok P cm"
    "rm_one_time_prekeys cm = []" "sp_expires_at_unix (rm_signed_record cm) = 2000"
    by (rule material_generate_total [OF law(1,8)])
  obtain d where d: "mlkem_keygen P r1 = Some d" using law(9) by blast
  define m where "m = \<lparr>hm_classical = cm, hm_pq = \<lparr>mk_secret = d, mk_public = MlKem768PublicKey (mlkem_public P d)\<rparr>\<rparr>"
  have gen: "HybridResponderPrekeyMaterial_generate P 7 2000 r = (Ok m, Suc r1)"
    using cm(1) d by (simp add: HybridResponderPrekeyMaterial_generate_def MlKem768KeyPair_generate_def m_def io_bind_def)
  have "one_time_absent 19 cm" using cm(3) by (simp add: one_time_absent_def)
  then obtain key cm' where cm': "add_one_time_prekey P 19 cm (Suc r1) = (Ok (), cm', Suc (Suc r1))" "material_ok P cm'"
    "rm_signed_record cm' = rm_signed_record cm"
    "rm_one_time_prekeys cm' = rm_one_time_prekeys cm @
       [\<lparr>otp_public = \<lparr>otpk_id = 19, otpk_public = kp_public key\<rparr>, otp_key = key\<rparr>]"
    by (rule add_one_time_total [OF law(1,8) cm(2)])
  define m' where "m' = m\<lparr>hm_classical := cm'\<rparr>"
  have add: "hybrid_add_one_time_prekey P 19 m (Suc r1) = (Ok (), m', Suc (Suc r1))"
    using cm'(1) by (simp add: hybrid_add_one_time_prekey_def m_def m'_def)
  have m': "hybrid_material_ok P m'" using cm'(2) d by (auto simp: hybrid_material_ok_def m_def m'_def)
  obtain b where b: "HybridResponderPrekeyMaterial_bundle P m' = Ok b" "hb_classical b = ResponderPrekeyMaterial_bundle P cm'"
    using hybrid_bundle_total [OF law(1,5,6) m'] by (auto simp: m'_def)
  note pub = hybrid_bundle_published [OF law(1,5,6) m' b(1)]
  have dec: "HybridResponderPrekeyBundle_decode P (HybridResponderPrekeyBundle_encode b) = Ok b"
    by (rule hybrid_bundle_decode_encode [OF pub(1)])
  obtain li r2 where li: "LocalIdentity_generate P (Suc (Suc r1)) = (Ok li, r2)" "local_identity_ok P li"
    by (rule LocalIdentity_generate_total [OF law(1,8)])
  have fresh: "1000 \<le> sp_expires_at_unix (rm_signed_record (hm_classical m'))" using cm'(3) cm(4) by (simp add: m'_def)
  obtain msg ha r3 where init: "hybrid_initiate P li b 1000 r2 = (Ok (msg, ha), r3)"
    using hybrid_initiate_total [OF law(1,5,4,6,7,8) li(2) m' b(1) fresh] by blast
  note agree = hybrid_agrees [OF law(1,3,5,6) li(2) m' pub(2,3) init]
  have mdec: "HybridInitiatorHandshake_decode P (HybridInitiatorHandshake_encode msg) = Ok msg"
    by (rule hybrid_message_decode_encode [OF agree(2)])
  obtain hb m'' where acc: "hybrid_accept P m' msg = (Ok hb, m'')" and match: "matching P ha hb" using agree(1) by blast
  from init obtain cmsg ca r4 where ci: "handshake_initiate P li (hb_classical b) 1000 r2 = (Ok (cmsg, ca), r4)" "hi_classical msg = cmsg"
    by (auto simp: hybrid_initiate_def io_bind_Ok io_lift_def)
  have "rb_one_time_prekey (hb_classical b) = Some \<lparr>otpk_id = 19, otpk_public = kp_public key\<rparr>"
    by (simp add: b(2) ResponderPrekeyMaterial_bundle_def cm'(4) cm(3))
  then have "ih_one_time_prekey_id cmsg = Some 19"
    using initiate_Ok [OF ci(1)] by (metis initiator_handshake.select_convs(5) one_time_prekey_public.select_convs(1) option.simps(9))
  moreover obtain h where "handshake_accept P cm' cmsg = (Ok h, hm_classical m'')"
    using acc ci(2) by (auto simp: hybrid_accept_def m'_def split: prod.splits sum.splits)
  ultimately have none: "hybrid_available_one_time_prekeys m'' = 0"
    using accept_consumes(2) [OF cm'(2)]
    by (simp add: hybrid_available_one_time_prekeys_def available_one_time_prekeys_def cm'(4) cm(3))
  obtain x y where "from_authenticated_handshake_with_suite P ha DEFAULT_SUITE = Ok x"
    "from_authenticated_handshake_with_suite P hb DEFAULT_SUITE = Ok y"
    using matching_synced [OF law(1,7) match agree(3,4)] by blast
  with gen add b(1) dec li(1) init mdec acc none match show ?thesis
    by (simp add: hybrid_handshake_round_trip_def from_authenticated_handshake_def matching_def)
qed

lemma suite_round_trip_runs:
  assumes P: "lawful P"
  shows "suite_round_trip P s r = (Ok (), Suc r)"
proof -
  note law = lawfulD [OF P]
  obtain nonce where nonce: "sys_rng P r (AeadSuite_nonce_len s) = Some nonce" using law(8) by (auto simp: rng_total_def)
  have len: "length (aead_key_bytes (AeadKey (replicate 32 7))) = 32" "length (ascii ''mef aad'') \<le> MAX_AAD_LEN"
    "length (ascii ''confidential payload'') \<le> MAX_CIPHERTEXT_LEN - AEAD_TAG_LEN"
    by (simp_all add: limits)
  obtain c where c: "aead_seal P (AeadKey (replicate 32 7)) s (ascii ''mef aad'') (ascii ''confidential payload'') r = (Ok c, Suc r)"
    using aead_seal_total [OF law(2,1) len nonce] by blast
  with open_seal [OF law(2) c] show ?thesis by (simp add: suite_round_trip_def del: replicate.simps)
qed

lemma every_suite_runs:
  assumes "lawful P"
  shows "fst (every_aead_suite_round_trips P r) = Ok ()"
  using suite_round_trip_runs [OF assms] by (simp add: every_aead_suite_round_trips_def)

lemma explicit_nonce_runs: "explicit_nonce_must_match_suite P = Ok ()"
  by (simp add: explicit_nonce_must_match_suite_def seal_with_nonce_def validate_inputs_def limits AES_CHACHA_NONCE_LEN_def)

lemma x25519_symmetric_runs:
  assumes P: "lawful P"
  shows "fst (x25519_agreement_is_symmetric P r) = Ok ()"
proof -
  note law = lawfulD [OF P]
  obtain a where a: "DhKeyPair_generate P r = (Ok a, Suc r)" "key_pair_ok P a" by (rule DhKeyPair_generate_total [OF law(1,8)])
  obtain b where b: "DhKeyPair_generate P (Suc r) = (Ok b, Suc (Suc r))" "key_pair_ok P b" by (rule DhKeyPair_generate_total [OF law(1,8)])
  obtain z where z: "DhKeyPair_diffie_hellman P a (kp_public b) = Ok z" by (rule honest_exchange [OF law(4) a(2) b(2)])
  then have "DhKeyPair_diffie_hellman P b (kp_public a) = Ok z"
    using diffie_hellman_agrees [OF law(3) a(2) b(2)] by simp
  with a(1) b(1) z show ?thesis by (simp add: x25519_agreement_is_symmetric_def)
qed

lemma non_contributory_runs:
  assumes P: "lawful P"
  shows "fst (non_contributory_input_is_rejected P r) = Ok ()"
proof -
  note law = lawfulD [OF P]
  obtain a where a: "DhKeyPair_generate P r = (Ok a, Suc r)" by (rule DhKeyPair_generate_total [OF law(1,8)])
  have "DhKeyPair_diffie_hellman P a (DhPublicKey (replicate 32 0)) = Err NonContributoryKeyAgreement"
    using law(4) by (simp add: diffie_hellman_Inl x25519_live_def del: replicate.simps)
  with a show ?thesis by (simp add: non_contributory_input_is_rejected_def del: replicate.simps)
qed

text \<open>What sealing a frame under a fixed key gives.\<close>

lemma sealed_frame:
  assumes P: "lawful P" and h: "header_ok h" and k: "length k = 32" and small: "length pt \<le> MAX_CIPHERTEXT_LEN - AEAD_TAG_LEN"
  obtains f where "InnerFrame_seal P (AeadKey k) s h pt r = (Ok f, Suc r)" "frame_ok f" "if_header f = h"
    "length (frame_bytes f) = 83 + AeadSuite_nonce_len s + length pt + AEAD_TAG_LEN"
    "InnerFrame_open P f (AeadKey k) = Ok pt" "InnerFrame_encode f = Ok (frame_bytes f)"
    "InnerFrame_decode (frame_bytes f) = Ok f"
proof -
  note law = lawfulD [OF P]
  obtain nonce where nonce: "sys_rng P r (AeadSuite_nonce_len s) = Some nonce" using law(8) by (auto simp: rng_total_def)
  have "length (aead_key_bytes (AeadKey k)) = 32" by (simp add: k)
  then obtain f where f: "InnerFrame_seal P (AeadKey k) s h pt r = (Ok f, Suc r)"
    using InnerFrame_seal_total [OF law(2,1) h _ small nonce] by blast
  note frame = InnerFrame_seal_frame [OF law(2) h f]
  show thesis
    by (rule that [OF f frame(1,2) _ open_sealed_frame [OF law(2) h f] InnerFrame_encode_Ok [OF frame(1)]])
      (simp_all add: length_frame_bytes frame InnerFrame_decode_Ok)
qed

lemma fixed_header_ok: "header_ok (FrameHeader_new kind (replicate 32 a) (replicate 32 b) c n)"
  by (simp add: header_ok_def del: replicate.simps)

lemma inner_frame_round_trip_runs:
  assumes P: "lawful P" and small: "length payload \<le> MAX_CIPHERTEXT_LEN - AEAD_TAG_LEN"
  shows "fst (inner_frame_round_trip P payload r) = Ok ()"
proof -
  have k: "length (replicate 32 (17 :: u8)) = 32" by simp
  show ?thesis
    by (rule sealed_frame [OF P fixed_header_ok [of Message 1 2 0 7] k small, of XChaCha20Poly1305 r])
      (simp add: inner_frame_round_trip_def Let_def del: replicate.simps)
qed

lemma made_frame:
  assumes P: "lawful P"
  obtains f where "make_frame P r = (Ok f, Suc r)" "frame_ok f"
    "if_header f = FrameHeader_new Message (replicate 32 1) (replicate 32 2) 4 9"
    "InnerFrame_open P f (AeadKey (replicate 32 3)) = Ok (ascii ''frame payload'')"
    "InnerFrame_encode f = Ok (frame_bytes f)" "InnerFrame_decode (frame_bytes f) = Ok f"
proof -
  have k: "length (replicate 32 (3 :: u8)) = 32" and small: "length (ascii ''frame payload'') \<le> MAX_CIPHERTEXT_LEN - AEAD_TAG_LEN"
    by (simp_all add: limits)
  show thesis
    by (rule sealed_frame [OF P fixed_header_ok [of Message 1 2 4 9] k small, of XChaCha20Poly1305 r])
      (rule that, simp_all add: make_frame_def del: replicate.simps)
qed

lemma frame_round_trips_runs:
  assumes P: "lawful P"
  shows "fst (frame_round_trips_and_decrypts P r) = Ok ()"
  by (rule made_frame [OF P, of r]) (simp add: frame_round_trips_and_decrypts_def del: replicate.simps)

lemma unknown_version_refused:
  assumes "3 < length bs" "v \<noteq> FRAME_VERSION"
  shows "InnerFrame_decode (bs[3 := v]) = Err InvalidFrame"
  using assms by (simp add: InnerFrame_decode_def InnerFrame_decode_prefix_def)

lemma parser_rejects_runs:
  assumes P: "lawful P"
  shows "fst (parser_rejects_trailing_and_unknown_version P r) = Ok ()"
proof -
  obtain f where f: "make_frame P r = (Ok f, Suc r)" "frame_ok f" "InnerFrame_encode f = Ok (frame_bytes f)"
    by (rule made_frame [OF P])
  have "3 < length (frame_bytes f)" "(2 :: u8) \<noteq> FRAME_VERSION" by (simp_all add: length_frame_bytes f(2) FRAME_VERSION_def)
  then show ?thesis
    using f frame_extended [OF f(2), of "[0]"] unknown_version_refused [of "frame_bytes f" 2]
    by (simp add: parser_rejects_trailing_and_unknown_version_def store_at_def Let_def)
qed

lemma ignored_Ok [simp]: "x \<noteq> Panics \<Longrightarrow> ignored x = Ok ()"
  by (auto simp: ignored_def split: sum.split failure.split)

lemma parsers_run:
  "arbitrary_wire_bytes P bs = Ok ()" "fuzz_wire_parsers bs = Ok ()" "fuzz_handshake_wire P bs = Ok ()"
  by (simp_all add: arbitrary_wire_bytes_def fuzz_wire_parsers_def fuzz_handshake_wire_def
      inner.dec_no_panic decode_prefix_no_panic outer.dec_no_panic message.dec_no_panic)

lemma inner_frame_made:
  assumes P: "lawful P"
  obtains f where "envelope_inner_frame P r = (Ok f, Suc r)" "frame_ok f" "length (frame_bytes f) \<le> 1200"
    "InnerFrame_encode f = Ok (frame_bytes f)"
proof -
  have k: "length (replicate 32 (4 :: u8)) = 32" and small: "length (ascii ''inner'') \<le> MAX_CIPHERTEXT_LEN - AEAD_TAG_LEN"
    by (simp_all add: limits)
  show thesis
    by (rule sealed_frame [OF P fixed_header_ok [of Message 8 7 0 1] k small, of XChaCha20Poly1305 r])
      (rule that, simp_all add: envelope_inner_frame_def AEAD_TAG_LEN_def XCHACHA_NONCE_LEN_def del: replicate.simps)
qed

lemma envelope_round_trips_runs:
  assumes P: "lawful P"
  shows "fst (envelope_round_trips_with_padding P r) = Ok ()"
proof -
  note law = lawfulD [OF P]
  obtain kp where kp: "DhKeyPair_generate P r = (Ok kp, Suc r)" "key_pair_ok P kp" by (rule DhKeyPair_generate_total [OF law(1,8)])
  obtain m where m: "MailboxCapability_generate P (Suc r) = (Ok m, Suc (Suc r))" "length (mailbox_bytes m) = 32"
    by (rule MailboxCapability_generate_total [OF law(1,8)])
  obtain f where f: "envelope_inner_frame P (Suc (Suc r)) = (Ok f, Suc (Suc (Suc r)))" "frame_ok f"
    "length (frame_bytes f) \<le> 1200" "InnerFrame_encode f = Ok (frame_bytes f)"
    by (rule inner_frame_made [OF P])
  have pad: "(32 :: nat) \<le> 1000" by simp
  obtain e r' where e: "OuterEnvelope_seal P (kp_public kp) m 1800000000 f 32 (Suc (Suc (Suc r))) = (Ok e, r')"
    "OuterEnvelope_encode e = Ok (envelope_bytes e)" "OuterEnvelope_decode (envelope_bytes e) = Ok e"
    "\<forall>now. OuterEnvelope_open P e (kp_secret kp) now =
       (if 1800000000 < now then Err EnvelopeExpired else Ok (frame_bytes f @ replicate 32 0))"
    by (rule mailing [OF P f(2,3) pad kp(2) m(2), where r = "Suc (Suc (Suc r))" and t = 1800000000])
  show ?thesis
    by (simp add: envelope_round_trips_with_padding_def kp(1) m(1) f(1,4) e sub_list_def del: replicate.simps)
qed

lemma open_inner_runs:
  assumes P: "lawful P"
  shows "fst (open_inner_removes_padding P r) = Ok ()"
proof -
  note law = lawfulD [OF P]
  obtain kp where kp: "DhKeyPair_generate P r = (Ok kp, Suc r)" "key_pair_ok P kp" by (rule DhKeyPair_generate_total [OF law(1,8)])
  obtain f where f: "envelope_inner_frame P (Suc r) = (Ok f, Suc (Suc r))" "frame_ok f" "length (frame_bytes f) \<le> 1200"
    by (rule inner_frame_made [OF P])
  have pad: "(64 :: nat) \<le> 1000" by simp
  obtain m e where e: "MailboxCapability_generate P (Suc (Suc r)) = (Ok m, Suc (Suc (Suc r)))"
    "OuterEnvelope_seal P (kp_public kp) m 1800000000 f 64 (Suc (Suc (Suc r))) = (Ok e, Suc (Suc (Suc (Suc (Suc (Suc r))))))"
    "OuterEnvelope_encode e = Ok (envelope_bytes e)" "OuterEnvelope_decode (envelope_bytes e) = Ok e"
    "\<forall>now. OuterEnvelope_open_inner P e (kp_secret kp) now = (if now \<le> 1800000000 then Ok f else Err EnvelopeExpired)"
    "oe_expires_at_unix e = 1800000000"
    by (rule posting_to [OF P f(2,3) pad kp(2), where r = "Suc (Suc r)" and t = 1800000000])
  have opened: "OuterEnvelope_open_inner P e (kp_secret kp) 1700000000 = Ok f" using e(5) by simp
  let ?c = "\<lparr>rc_capacity = 8, rc_entries = []\<rparr>" and ?c1 = "\<lparr>rc_capacity = 8, rc_entries = [(oe_message_id e, 1800000000)]\<rparr>"
  have "OuterEnvelope_open_inner_once P e (kp_secret kp) 1700000000 ?c = (Ok f, ?c1)"
    "OuterEnvelope_open_inner_once P e (kp_secret kp) 1700000000 ?c1 = (Err ReplayDetected, ?c1)"
    using opened by (simp_all add: OuterEnvelope_open_inner_once_def check_and_insert_def e(6) Let_def)
  moreover have "ReplayCache_new 8 = Ok ?c" by (simp add: ReplayCache_new_def)
  ultimately show ?thesis
    using kp(1) f(1) e(1-4) opened by (simp add: open_inner_removes_padding_def)
qed

end
