(* ===== verification/Mef_Tamper_Tests.thy ===== *)
theory Mef_Tamper_Tests
  imports Mef_Module_Tests
begin

text \<open>
  The unit tests that alter bytes on the wire or present them in a wrong place: AEAD ciphertexts, inner
  frames, envelopes, ratchet messages, snapshots and identity bindings. Whether such a test passes
  rests on the primitives: a tag or a signature over changed bytes could happen to be right. Each test is a
  function of the model, and is shown to pass exactly when the altered bytes are not authentic in the
  run at hand. Then, in the same way, the tests that compare identifiers, derived keys, encapsulated
  secrets and rotated ratchet keys, which pass exactly when these differ.
\<close>

section \<open>Altering bytes\<close>

text \<open>\<open>bytes[i] ^= value\<close>.\<close>

definition xor_at :: "bytes \<Rightarrow> nat \<Rightarrow> u8 \<Rightarrow> bytes res" where
  "xor_at bs i v = bind_res (index_at bs i) (\<lambda>b. store_at bs i (xor b v))"

definition tamper_first_byte :: "ciphertext \<Rightarrow> ciphertext res" where
  "tamper_first_byte c = bind_res (xor_at (ct_body c) 0 1) (\<lambda>body. Ok (c\<lparr>ct_body := body\<rparr>))"

section \<open>The tests\<close>

text \<open>crypto/mod.rs: two tests with one body.\<close>

definition tampering_rejected :: "primitives \<Rightarrow> aead_suite \<Rightarrow> bytes \<Rightarrow> unit res" where
  "tampering_rejected P suite nonce =
     (let key = AeadKey (replicate 32 7) in
      bind_res (seal_with_nonce P key suite nonce (ascii ''correct aad'') (ascii ''payload'')) (\<lambda>ciphertext.
      bind_res (assert_that (aead_open P key ciphertext (ascii ''wrong aad'') = Err AuthenticationFailed)) (\<lambda>_.
      bind_res (tamper_first_byte ciphertext) (\<lambda>tampered.
      assert_that (aead_open P key tampered (ascii ''correct aad'') = Err AuthenticationFailed)))))"

definition aes_gcm_siv_rejects_tampering :: "primitives \<Rightarrow> unit res" where
  "aes_gcm_siv_rejects_tampering P = tampering_rejected P Aes256GcmSiv (replicate 12 9)"

definition authentication_failure_is_uniform :: "primitives \<Rightarrow> unit res" where
  "authentication_failure_is_uniform P = tampering_rejected P XChaCha20Poly1305 (replicate 24 9)"

text \<open>frame/mod.rs\<close>

definition header_tampering_breaks_authentication :: "primitives \<Rightarrow> rng \<Rightarrow> unit res \<times> rng" where
  "header_tampering_breaks_authentication P =
     io_bind (make_frame P) (\<lambda>frame.
     io_bind (io_lift (InnerFrame_encode frame)) (\<lambda>bytes.
     io_bind (io_lift (xor_at bytes 77 1)) (\<lambda>changed.
     io_bind (io_lift (InnerFrame_decode changed)) (\<lambda>decoded.
     io_lift (assert_that (InnerFrame_open P decoded (AeadKey (replicate 32 3)) = Err AuthenticationFailed))))))"

text \<open>envelope/mod.rs\<close>

definition envelope_rejects_expiration_and_tampering :: "primitives \<Rightarrow> rng \<Rightarrow> unit res \<times> rng" where
  "envelope_rejects_expiration_and_tampering P =
     io_bind (DhKeyPair_generate P) (\<lambda>recipient.
     io_bind (MailboxCapability_generate P) (\<lambda>mailbox.
     io_bind (envelope_inner_frame P) (\<lambda>inner.
     io_bind (OuterEnvelope_seal P (kp_public recipient) mailbox 1700000000 inner 0) (\<lambda>envelope.
     io_bind (io_lift (assert_that
       (OuterEnvelope_open P envelope (kp_secret recipient) 1700000001 = Err EnvelopeExpired))) (\<lambda>_.
     io_bind (io_lift (OuterEnvelope_encode envelope)) (\<lambda>bytes.
     io_bind (io_lift (xor_at bytes 60 1)) (\<lambda>changed.
     io_bind (io_lift (OuterEnvelope_decode changed)) (\<lambda>decoded.
     io_lift (assert_that
       (OuterEnvelope_open P decoded (kp_secret recipient) 1600000000 = Err AuthenticationFailed))))))))))"

text \<open>ratchet/mod.rs\<close>

definition failed_authentication_does_not_advance_state :: "primitives \<Rightarrow> rng \<Rightarrow> unit res \<times> rng" where
  "failed_authentication_does_not_advance_state P =
     io_bind (ratchet_pair P) (\<lambda>(alice, bob).
     calling (RatchetState_encrypt P Message (ascii ''valid'') alice) (\<lambda>frame alice.
     io_bind (io_lift (InnerFrame_encode frame)) (\<lambda>bytes.
     io_bind (io_lift (ok_or (if 1 \<le> length bytes then Some (length bytes - 1) else None) InvalidFrame)) (\<lambda>last.
     io_bind (io_lift (xor_at bytes last 1)) (\<lambda>changed.
     io_bind (io_lift (InnerFrame_decode changed)) (\<lambda>tampered.
     attempt (RatchetState_decrypt P tampered bob) (\<lambda>refused bob.
     io_bind (io_lift (assert_that (refused = Err AuthenticationFailed))) (\<lambda>_.
     calling (RatchetState_decrypt P frame bob) (\<lambda>plaintext bob.
     io_lift (assert_that (plaintext = ascii ''valid'')))))))))))"

text \<open>ratchet/persistence.rs\<close>

definition snapshot_is_context_bound_and_rollback_checked :: "primitives \<Rightarrow> rng \<Rightarrow> unit res \<times> rng" where
  "snapshot_is_context_bound_and_rollback_checked P =
     (let key = StateSealKey (AeadKey (replicate 32 3)) in
      io_bind (establish P 1 2000 2 1000 DEFAULT_SUITE) (\<lambda>(state, _).
      io_bind (seal_state P key (ascii ''context-a'') state) (\<lambda>blob.
      io_bind (io_lift (assert_that (restore_state P key (ascii ''context-b'') 0 blob = Err AuthenticationFailed))) (\<lambda>_.
      io_lift (assert_that (restore_state P key (ascii ''context-a'') 1 blob = Err StateRollbackDetected))))))"

text \<open>handshake.rs\<close>

definition tampered_identity_binding_is_rejected :: "primitives \<Rightarrow> rng \<Rightarrow> unit res \<times> rng" where
  "tampered_identity_binding_is_rejected P =
     io_bind (ResponderPrekeyMaterial_generate P 7 2000) (\<lambda>responder.
     calling (add_one_time_prekey P 19 responder) (\<lambda>_ responder.
     io_bind (LocalIdentity_generate P) (\<lambda>initiator.
     io_bind (handshake_initiate P initiator (ResponderPrekeyMaterial_bundle P responder) 1000) (\<lambda>(message, _).
     io_bind (io_lift (xor_at (InitiatorHandshake_encode message) 68 1)) (\<lambda>wire.
     io_bind (io_lift (assert_that (InitiatorHandshake_decode P wire = Err AuthenticationFailed))) (\<lambda>_.
     io_lift (assert_that (available_one_time_prekeys responder = 1))))))))"

text \<open>keys/mod.rs\<close>

definition signed_prekey_requires_identity_and_freshness :: "primitives \<Rightarrow> rng \<Rightarrow> unit res \<times> rng" where
  "signed_prekey_requires_identity_and_freshness P =
     io_bind (IdentityKeyPair_generate P) (\<lambda>identity.
     io_bind (IdentityKeyPair_generate P) (\<lambda>other_identity.
     io_bind (DhKeyPair_generate P) (\<lambda>prekey.
     let record = SignedPrekey_issue P identity 17 (kp_public prekey) 1800000000 in
     io_bind (io_lift (assert_that (SignedPrekey_verify P record (ik_public identity) 1700000000 = Ok ()))) (\<lambda>_.
     io_bind (io_lift (assert_that
       (SignedPrekey_verify P record (ik_public other_identity) 1700000000 = Err AuthenticationFailed))) (\<lambda>_.
     io_lift (assert_that
       (SignedPrekey_verify P record (ik_public identity) 1900000000 = Err AuthenticationFailed)))))))"

definition identity_fingerprint_changes_with_key :: "primitives \<Rightarrow> rng \<Rightarrow> unit res \<times> rng" where
  "identity_fingerprint_changes_with_key P =
     io_bind (IdentityKeyPair_generate P) (\<lambda>first.
     io_bind (IdentityKeyPair_generate P) (\<lambda>second.
     io_bind (io_lift (identity_fingerprint P (ik_public first))) (\<lambda>left.
     io_bind (io_lift (identity_fingerprint P (ik_public second))) (\<lambda>right.
     io_lift (assert_that (left \<noteq> right))))))"

text \<open>envelope/mod.rs\<close>

definition storage_identifier_is_stable :: "primitives \<Rightarrow> rng \<Rightarrow> unit res \<times> rng" where
  "storage_identifier_is_stable P =
     io_bind (MailboxCapability_generate P) (\<lambda>first.
     io_bind (MailboxCapability_generate P) (\<lambda>second.
     io_bind (io_lift (assert_that (first \<noteq> second))) (\<lambda>_.
     io_bind (io_lift (MailboxCapability_storage_id P first)) (\<lambda>left.
     io_bind (io_lift (MailboxCapability_storage_id P first)) (\<lambda>again.
     io_bind (io_lift (assert_that (left = again))) (\<lambda>_.
     io_bind (io_lift (MailboxCapability_storage_id P first)) (\<lambda>left.
     io_bind (io_lift (MailboxCapability_storage_id P second)) (\<lambda>right.
     io_lift (assert_that (left \<noteq> right))))))))))"

text \<open>crypto/mod.rs\<close>

definition blake3_identifier_is_delimited :: "primitives \<Rightarrow> unit res" where
  "blake3_identifier_is_delimited P =
     bind_res (blake3_id P (ascii ''sid'') [ascii ''ab'', ascii ''c'']) (\<lambda>one.
     bind_res (blake3_id P (ascii ''sid'') [ascii ''a'', ascii ''bc'']) (\<lambda>two.
     bind_res (blake3_id P (ascii ''other'') [ascii ''ab'', ascii ''c'']) (\<lambda>three.
     bind_res (assert_that (one \<noteq> two)) (\<lambda>_.
     assert_that (one \<noteq> three)))))"

text \<open>ratchet/mod.rs\<close>

definition proactive_dh_rotation_is_processed :: "primitives \<Rightarrow> rng \<Rightarrow> unit res \<times> rng" where
  "proactive_dh_rotation_is_processed P =
     io_bind (ratchet_pair P) (\<lambda>(alice, bob).
     let old_public = current_public_key alice in
     calling (rotate_sending_ratchet P alice) (\<lambda>_ alice.
     io_bind (io_lift (assert_that (current_public_key alice \<noteq> old_public))) (\<lambda>_.
     calling (RatchetState_encrypt P Control (ascii ''new ratchet'') alice) (\<lambda>frame alice.
     calling (RatchetState_decrypt P frame bob) (\<lambda>plaintext bob.
     io_lift (assert_that (plaintext = ascii ''new ratchet'')))))))"

text \<open>crypto/mod.rs\<close>

definition hkdf_labels_are_domain_separated :: "primitives \<Rightarrow> (bytes \<Rightarrow> bytes \<Rightarrow> bool) \<Rightarrow> unit res" where
  "hkdf_labels_are_domain_separated P subtle =
     bind_res (derive_aead_key P (ascii ''salt'') (ascii ''chain-a'') (ascii ''input'')) (\<lambda>first.
     bind_res (derive_aead_key P (ascii ''salt'') (ascii ''chain-b'') (ascii ''input'')) (\<lambda>second.
     assert_that (\<not> ct_eq subtle (aead_key_bytes first) (aead_key_bytes second))))"

text \<open>pq.rs; the test returns nothing, its assertions panic.\<close>

definition ml_kem_768_round_trips :: "primitives \<Rightarrow> (bytes \<Rightarrow> bytes \<Rightarrow> bool) \<Rightarrow> rng \<Rightarrow> unit res \<times> rng" where
  "ml_kem_768_round_trips P subtle r =
     (case MlKem768KeyPair_generate P r of
        (Inl e, r1) \<Rightarrow> (Panics, r1)
      | (Inr keypair, r1) \<Rightarrow>
          (case MlKem768PublicKey_encapsulate P (MlKem768KeyPair_public keypair) r1 of (first, r2) \<Rightarrow>
          (case MlKem768PublicKey_encapsulate P (MlKem768KeyPair_public keypair) r2 of (second, r3) \<Rightarrow>
          (case (first, second) of
             (Inr (first_ciphertext, first_secret), Inr (second_ciphertext, second_secret)) \<Rightarrow>
               (bind_res (MlKem768KeyPair_decapsulate P keypair first_ciphertext) (\<lambda>first_received.
                bind_res (MlKem768KeyPair_decapsulate P keypair second_ciphertext) (\<lambda>second_received.
                bind_res (assert_that (ct_eq subtle (MlKem768SharedSecret_copy_bytes first_secret)
                    (MlKem768SharedSecret_copy_bytes first_received))) (\<lambda>_.
                bind_res (assert_that (ct_eq subtle (MlKem768SharedSecret_copy_bytes second_secret)
                    (MlKem768SharedSecret_copy_bytes second_received))) (\<lambda>_.
                assert_that (\<not> ct_eq subtle (MlKem768SharedSecret_copy_bytes first_secret)
                    (MlKem768SharedSecret_copy_bytes second_secret)))))), r3)
           | _ \<Rightarrow> (Panics, r3)))))"

section \<open>Authentic or refused\<close>

definition authentic :: "primitives \<Rightarrow> aead_key \<Rightarrow> bytes \<Rightarrow> ciphertext \<Rightarrow> bool" where
  "authentic P key aad c \<longleftrightarrow> (\<exists>pt. seal_with_nonce P key (ct_suite c) (ct_nonce c) aad pt = Ok c)"

lemma open_unless_authentic:
  assumes P: "aeads_ok P" and c: "ciphertext_ok c" and aad: "length aad \<le> MAX_AAD_LEN" and key: "length (aead_key_bytes key) = 32"
  shows "aead_open P key c aad = Err AuthenticationFailed \<longleftrightarrow> \<not> authentic P key aad c"
proof -
  note law = cipher_okD [OF suite_cipher_ok [OF P, of "ct_suite c"]]
  have "aead_open P key c aad = ok_or (decrypt_in_place (suite_cipher P (ct_suite c)) (aead_key_bytes key) (ct_nonce c) aad (ct_body c)) AuthenticationFailed"
    using aad key c law(1,2) by (simp add: aead_open_suite_cipher cipher_open_def ciphertext_ok_def)
  then have "aead_open P key c aad = Err AuthenticationFailed \<longleftrightarrow> (\<nexists>pt. aead_open P key c aad = Ok pt)"
    by (auto simp: ok_or_def split: option.splits)
  then show ?thesis by (simp add: authentic_def open_iff_seal [OF P c aad])
qed

text \<open>A ciphertext with one bit of its body flipped.\<close>

definition flipped :: "nat \<Rightarrow> ciphertext \<Rightarrow> ciphertext" where
  "flipped i c = c\<lparr>ct_body := (ct_body c)[i := xor (ct_body c ! i) 1]\<rparr>"

lemma flipped_fields [simp]:
  "ct_suite (flipped i c) = ct_suite c" "ct_nonce (flipped i c) = ct_nonce c"
  "length (ct_body (flipped i c)) = length (ct_body c)" "ciphertext_ok (flipped i c) \<longleftrightarrow> ciphertext_ok c"
  by (simp_all add: flipped_def ciphertext_ok_def)

lemma xor_at_ok: "i < length bs \<Longrightarrow> xor_at bs i v = Ok (bs[i := xor (bs ! i) v])"
  by (simp add: xor_at_def store_at_def)

lemma assert_that_Ok [simp]: "assert_that c = Ok () \<longleftrightarrow> c"
  by (simp add: assert_that_def)

lemma bind_assert_Ok [simp]: "bind_res (assert_that c) k = Ok y \<longleftrightarrow> c \<and> k () = Ok y"
  by (simp add: assert_that_def)

lemma io_assert_Ok [simp]: "fst (io_bind (io_lift (assert_that c)) k r) = Ok y \<longleftrightarrow> c \<and> fst (k () r) = Ok y"
  by (simp add: assert_that_def)

lemma io_last_assert [simp]: "fst (io_lift (assert_that c) r) = Ok y \<longleftrightarrow> c"
  by (simp add: assert_that_def io_lift_def)

section \<open>AEAD, frames, snapshots\<close>

lemma aead_tampering:
  assumes P: "lawful P" and nonce: "length nonce = AeadSuite_nonce_len s"
  obtains c where "seal_with_nonce P (AeadKey (replicate 32 7)) s nonce (ascii ''correct aad'') (ascii ''payload'') = Ok c"
    "tampering_rejected P s nonce = Ok () \<longleftrightarrow>
       \<not> authentic P (AeadKey (replicate 32 7)) (ascii ''wrong aad'') c \<and>
       \<not> authentic P (AeadKey (replicate 32 7)) (ascii ''correct aad'') (flipped 0 c)"
proof -
  note law = lawfulD [OF P]
  have len: "length (aead_key_bytes (AeadKey (replicate 32 (7 :: u8)))) = 32" "length (ascii ''correct aad'') \<le> MAX_AAD_LEN"
    "length (ascii ''payload'') \<le> MAX_CIPHERTEXT_LEN - AEAD_TAG_LEN" "length (ascii ''wrong aad'') \<le> MAX_AAD_LEN"
    by (simp_all add: limits)
  obtain c where c: "seal_with_nonce P (AeadKey (replicate 32 7)) s nonce (ascii ''correct aad'') (ascii ''payload'') = Ok c"
    using seal_with_nonce_total [OF law(2) len(1) nonce len(2,3)] by blast
  then have ok: "ciphertext_ok c" by (simp add: seal_with_nonce_Ok)
  then have "0 < length (ct_body c)" by (auto simp: ciphertext_ok_def AEAD_TAG_LEN_def)
  then have "tamper_first_byte c = Ok (flipped 0 c)" by (simp add: tamper_first_byte_def flipped_def xor_at_ok)
  with that [OF c] open_unless_authentic [OF law(2) ok len(4,1)]
    open_unless_authentic [OF law(2), of "flipped 0 c", OF _ len(2,1)] ok
  show thesis by (simp add: tampering_rejected_def c Let_def del: replicate.simps)
qed

lemma frame_open_aead:
  "frame_ok f \<Longrightarrow> InnerFrame_open P f key =
     aead_open P key (if_ciphertext f) (frame_aad_bytes (ct_suite (if_ciphertext f)) (if_header f) (length (ct_body (if_ciphertext f))))"
  by (simp add: InnerFrame_open_def InnerFrame_aad_Ok)

lemma frame_open_unless_authentic:
  assumes "aeads_ok P" "frame_ok f" "length (aead_key_bytes key) = 32"
  shows "InnerFrame_open P f key = Err AuthenticationFailed \<longleftrightarrow>
    \<not> authentic P key (frame_aad_bytes (ct_suite (if_ciphertext f)) (if_header f) (length (ct_body (if_ciphertext f))))
        (if_ciphertext f)"
proof -
  have "ciphertext_ok (if_ciphertext f)" "header_ok (if_header f)" using assms(2) by (simp_all add: frame_ok_def)
  then show ?thesis
    using open_unless_authentic [OF assms(1) _ _ assms(3)] frame_open_aead [OF assms(2)] by (simp add: MAX_AAD_LEN_def)
qed

lemma xor_between: "length pre = n \<Longrightarrow> xor_at (pre @ b # post) n v = Ok (pre @ xor b v # post)"
  by (auto simp: xor_at_ok)

text \<open>The last byte of a frame's message number is byte 77.\<close>

lemma frame_number_byte:
  assumes f: "frame_ok f" and h: "if_header f = FrameHeader_new kind s p l 9"
  shows "xor_at (frame_bytes f) 77 1 = Ok (frame_bytes (f\<lparr>if_header := FrameHeader_new kind s p l 8\<rparr>))"
proof -
  let ?c = "if_ciphertext f"
  let ?pre = "FRAME_MAGIC @ [FRAME_VERSION, AeadSuite_id (ct_suite ?c), FrameKind_id kind] @ s @ p @ to_be_bytes l @ [0, 0, 0]"
  let ?post = "[word_of_nat (AeadSuite_nonce_len (ct_suite ?c))] @ to_be_bytes (word_of_nat (length (ct_body ?c)) :: u32)
    @ ct_nonce ?c @ ct_body ?c"
  have "length s = 32" "length p = 32" using f h by (simp_all add: frame_ok_def header_ok_def)
  then have "length ?pre = 77" by (simp add: FRAME_MAGIC_bytes)
  moreover have n: "to_be_bytes (9 :: u32) = [0, 0, 0, 9]" "to_be_bytes (8 :: u32) = [0, 0, 0, 8]"
    by code_simp+
  moreover have "frame_bytes f = ?pre @ 9 # ?post" by (simp add: frame_bytes_def frame_aad_bytes_def h n)
  moreover have "frame_bytes (f\<lparr>if_header := FrameHeader_new kind s p l 8\<rparr>) = ?pre @ 8 # ?post"
    by (simp add: frame_bytes_def frame_aad_bytes_def n)
  moreover have "xor (9 :: u8) 1 = 8" by simp
  ultimately show ?thesis using xor_between by metis
qed

lemma header_tampering_exact:
  assumes P: "lawful P"
  obtains f where "make_frame P r = (Ok f, Suc r)"
    "fst (header_tampering_breaks_authentication P r) = Ok () \<longleftrightarrow>
       \<not> authentic P (AeadKey (replicate 32 3))
           (frame_aad_bytes XChaCha20Poly1305 (FrameHeader_new Message (replicate 32 1) (replicate 32 2) 4 8) 29) (if_ciphertext f)"
proof -
  note law = lawfulD [OF P]
  obtain f where f: "make_frame P r = (Ok f, Suc r)" "frame_ok f"
    "if_header f = FrameHeader_new Message (replicate 32 1) (replicate 32 2) 4 9"
    "InnerFrame_encode f = Ok (frame_bytes f)"
    by (rule made_frame [OF P])
  let ?h = "FrameHeader_new Message (replicate 32 1) (replicate 32 2) 4 8"
  have suite: "ct_suite (if_ciphertext f) = XChaCha20Poly1305" "length (ct_body (if_ciphertext f)) = 29"
    using InnerFrame_seal_frame(3,4) [OF law(2) fixed_header_ok f(1) [unfolded make_frame_def]] by (simp_all add: AEAD_TAG_LEN_def)
  have ok: "frame_ok (f\<lparr>if_header := ?h\<rparr>)" using f(2) fixed_header_ok by (simp add: frame_ok_def del: replicate.simps)
  then have dec: "InnerFrame_decode (frame_bytes (f\<lparr>if_header := ?h\<rparr>)) = Ok (f\<lparr>if_header := ?h\<rparr>)"
    by (simp add: InnerFrame_decode_Ok)
  from that [OF f(1)] frame_open_unless_authentic [OF law(2) ok, of "AeadKey (replicate 32 3)"]
  show thesis
    by (simp add: header_tampering_breaks_authentication_def f(1,4) frame_number_byte [OF f(2,3)] dec suite del: replicate.simps)
qed

text \<open>A state of generation 0 sealed for one context and restored for another.\<close>

lemma field_errors: "field n x y bs \<noteq> Err AuthenticationFailed" "add_usize p q \<noteq> Err AuthenticationFailed"
  by (auto simp: field_def slice_def copy_array_def add_usize_def bind_res_Inl split: if_splits option.splits)

lemma decode_entries_errors: "decode_entries bs off acc is \<noteq> Err AuthenticationFailed"
  by (induction bs off acc "is" rule: decode_entries.induct)
    (auto simp: bind_res_Inl Let_def ok_or_def field_errors split: if_splits option.splits)

lemma decode_state_errors: "decode_state P bs g v \<noteq> Err AuthenticationFailed"
  by (auto simp: decode_state_def bind_res_Inl Let_def ok_or_def decode_entries_errors field_errors AeadSuite_from_id_def
      index_at_def split: if_splits option.splits)

lemma snapshot_context_exact:
  assumes P: "lawful P"
  obtains a b r' blob c where "establish P 1 2000 2 1000 DEFAULT_SUITE r = (Ok (a, b), r')"
    "seal_state P (StateSealKey (AeadKey (replicate 32 3))) (ascii ''context-a'') a r' = (Ok blob, Suc r')"
    "blob = snapshot_bytes STATE_VERSION 0 c"
    "fst (snapshot_is_context_bound_and_rollback_checked P r) = Ok () \<longleftrightarrow>
       \<not> authentic P (AeadKey (replicate 32 3)) (AAD_LABEL_V2 @ ascii ''context-b'') c"
proof -
  note law = lawfulD [OF P]
  have now: "(1000 :: u64) \<le> 2000" by simp
  obtain a b r' where e: "establish P 1 2000 2 1000 DEFAULT_SUITE r = (Ok (a, b), r')" "channel P a b [] []"
    "rs_generation a = 0"
    by (rule establish_channel [OF P now])
  obtain nonce where nonce: "sys_rng P r' 24 = Some nonce" using law(8) by (auto simp: rng_total_def)
  let ?key = "StateSealKey (AeadKey (replicate 32 3))"
  have a: "ratchet_ok P a" using e(2) by (simp add: channel_def duplex_ok_def)
  have ctx: "context_ok (ascii ''context-a'')" "context_ok (ascii ''context-b'')" by (simp_all add: context_ok_def MAX_AAD_LEN_def)
  have klen: "length (aead_key_bytes (seal_key ?key)) = 32" by simp
  obtain blob where blob: "seal_state P ?key (ascii ''context-a'') a r' = (Ok blob, Suc r')"
    using seal_state_total [OF law(2,1) a ctx(1) klen nonce] by blast
  then obtain c where c: "snapshot_ciphertext c" "blob = snapshot_bytes STATE_VERSION 0 c"
    by (rule sealed_snapshot) (simp add: e(3))
  have roll: "restore_state P ?key (ascii ''context-a'') 1 blob = Err StateRollbackDetected"
    using restore_sealed [OF law(2) a blob] e(3) by simp
  have "length (AAD_LABEL_V2 @ ascii ''context-b'') \<le> MAX_AAD_LEN" by (simp add: AAD_LABEL_V2_def MAX_AAD_LEN_def)
  moreover have "ciphertext_ok c" using c(1) by (simp add: snapshot_ciphertext_def)
  ultimately have "aead_open P (AeadKey (replicate 32 3)) c (AAD_LABEL_V2 @ ascii ''context-b'') = Err AuthenticationFailed \<longleftrightarrow>
      \<not> authentic P (AeadKey (replicate 32 3)) (AAD_LABEL_V2 @ ascii ''context-b'') c"
    using open_unless_authentic [OF law(2) _ _ klen] by simp
  moreover have "restore_state P ?key (ascii ''context-b'') 0 blob =
      bind_res (aead_open P (AeadKey (replicate 32 3)) c (AAD_LABEL_V2 @ ascii ''context-b''))
        (\<lambda>pt. decode_state P pt 0 STATE_VERSION)"
    using restore_snapshot_bytes [OF c(1), of STATE_VERSION P ?key "ascii ''context-b''" 0 0] ctx(2)
    by (simp add: c(2) state_aad_eq state_label_def STATE_VERSION_def LEGACY_VERSION_def)
  ultimately have "restore_state P ?key (ascii ''context-b'') 0 blob = Err AuthenticationFailed \<longleftrightarrow>
      \<not> authentic P (AeadKey (replicate 32 3)) (AAD_LABEL_V2 @ ascii ''context-b'') c"
    by (auto simp: bind_res_Inl decode_state_errors)
  with that [OF e(1) blob c(2)] show thesis
    by (simp add: snapshot_is_context_bound_and_rollback_checked_def Let_def e(1) blob roll del: replicate.simps)
qed

section \<open>Ratchet messages\<close>

lemma decrypt_next:
  assumes P: "hkdf_total P" and st: "follows P c st"
    and f: "fh_session_id (if_header f) = rs_session_id st" "ct_suite (if_ciphertext f) = rs_suite st"
      "DhPublicKey (fh_ratchet_public (if_header f)) = rs_remote_dh st" "fh_message_number (if_header f) = rs_receiving_count st"
    and err: "InnerFrame_open P f (key_at P c (unat (rs_receiving_count st))) = Inl e"
  shows "RatchetState_decrypt P f st r = (Inl e, st, r)"
proof -
  have "rs_receiving_chain st = chain_at P c (unat (rs_receiving_count st))" "length (rs_skipped st) \<le> MAX_SKIPPED_KEYS"
    using st by (simp_all add: follows_def)
  then show ?thesis
    using derive_for_message_total [OF P, of "length (rs_skipped st)" c "rs_receiving_count st" "rs_receiving_count st"] err
    by (simp add: RatchetState_decrypt_def decrypt_same_ratchet_def Let_def f)
qed

lemma decrypt_next_opened:
  assumes P: "hkdf_total P" and st: "follows P c st"
    and f: "fh_session_id (if_header f) = rs_session_id st" "ct_suite (if_ciphertext f) = rs_suite st"
      "DhPublicKey (fh_ratchet_public (if_header f)) = rs_remote_dh st" "fh_message_number (if_header f) = rs_receiving_count st"
    and ok: "InnerFrame_open P f (key_at P c (unat (rs_receiving_count st))) = Ok pt"
  shows "fst (RatchetState_decrypt P f st r) \<noteq> Err AuthenticationFailed"
proof -
  have "rs_receiving_chain st = chain_at P c (unat (rs_receiving_count st))" "length (rs_skipped st) \<le> MAX_SKIPPED_KEYS"
    using st by (simp_all add: follows_def)
  then show ?thesis
    using derive_for_message_total [OF P, of "length (rs_skipped st)" c "rs_receiving_count st" "rs_receiving_count st"] ok
    by (simp add: RatchetState_decrypt_def decrypt_same_ratchet_def Let_def f split: option.split)
qed

text \<open>The last byte of a frame is the last byte of its body.\<close>

lemma frame_last_byte:
  assumes f: "frame_ok f"
  defines "n \<equiv> length (ct_body (if_ciphertext f)) - 1"
  shows "xor_at (frame_bytes f) (length (frame_bytes f) - 1) 1 = Ok (frame_bytes (f\<lparr>if_ciphertext := flipped n (if_ciphertext f)\<rparr>))"
proof -
  let ?c = "if_ciphertext f"
  let ?pre = "frame_aad_bytes (ct_suite ?c) (if_header f) (length (ct_body ?c)) @ ct_nonce ?c"
  have "ct_body ?c \<noteq> []" using f by (auto simp: frame_ok_def ciphertext_ok_def AEAD_TAG_LEN_def)
  then have suc: "Suc (length (ct_body ?c) - Suc 0) = length (ct_body ?c)"
    and split: "ct_body ?c = butlast (ct_body ?c) @ [last (ct_body ?c)]" and body: "n < length (ct_body ?c)"
    "length (butlast (ct_body ?c)) = n" "ct_body ?c ! n = last (ct_body ?c)"
    by (simp, simp, simp_all add: n_def last_conv_nth)
  have "frame_bytes f = (?pre @ butlast (ct_body ?c)) @ last (ct_body ?c) # []"
    using split by (simp add: frame_bytes_def)
  moreover have "(ct_body ?c)[n := xor (ct_body ?c ! n) 1] = butlast (ct_body ?c) @ [xor (last (ct_body ?c)) 1]"
    using split body(2,3) by (metis list_update_length)
  then have "frame_bytes (f\<lparr>if_ciphertext := flipped n ?c\<rparr>) = (?pre @ butlast (ct_body ?c)) @ xor (last (ct_body ?c)) 1 # []"
    using suc by (simp add: frame_bytes_def flipped_def)
  moreover have "length (?pre @ butlast (ct_body ?c)) = length (frame_bytes f) - 1"
    using \<open>frame_bytes f = _\<close> by simp
  ultimately show ?thesis using xor_between by metis
qed

lemma ratchet_tampering_exact:
  assumes P: "lawful P"
  obtains a b r1 f a1 chain key where "pair_with_suite P XChaCha20Poly1305 r = (Ok (a, b), r1)"
    "RatchetState_encrypt P Message (ascii ''valid'') a r1 = (Ok f, a1, Suc r1)"
    "chain_step P (rs_receiving_chain b) = Ok (chain, key)"
    "fst (failed_authentication_does_not_advance_state P r) = Ok () \<longleftrightarrow>
       \<not> authentic P key (frame_aad_bytes XChaCha20Poly1305 (if_header f) 21) (flipped 20 (if_ciphertext f))"
proof -
  note law = lawfulD [OF P]
  obtain a b r1 where e: "pair_with_suite P XChaCha20Poly1305 r = (Ok (a, b), r1)" "channel P a b [] []"
    "in_step a b 0" "in_step b a 0" "rs_suite a = XChaCha20Poly1305"
    by (rule suite_start [OF P])
  have small: "length (ascii ''valid'') \<le> MAX_CIPHERTEXT_LEN - AEAD_TAG_LEN" and count: "unat (rs_sending_count a) < 2 ^ 32 - 1"
    using e(3) by (simp_all add: limits in_step_def)
  obtain f a1 where f: "RatchetState_encrypt P Message (ascii ''valid'') a r1 = (Ok f, a1, Suc r1)"
    "channel P a1 b [(f, ascii ''valid'')] []" "fh_message_number (if_header f) = rs_sending_count a" "frame_ok f"
    "ct_suite (if_ciphertext f) = rs_suite a" "length (ct_body (if_ciphertext f)) = length (ascii ''valid'') + AEAD_TAG_LEN"
    by (rule channel_send [OF e(2) small count])
  have len: "length (ct_body (if_ciphertext f)) = 21" using f(6) by (simp add: AEAD_TAG_LEN_def)
  obtain b1 where "RatchetState_decrypt P f b (Suc r1) = (delivers (ascii ''valid'') (fst (window_receive 0 (window_of b))), b1, Suc r1)"
    using channel_receive [OF f(2) list.set_intros(1), of 0 "Suc r1"] e(3) f(3) by (auto simp: in_step_def)
  then have valid: "RatchetState_decrypt P f b (Suc r1) = (Ok (ascii ''valid''), b1, Suc r1)"
    using e(3) by (simp add: in_step_def window_receive_def)
  obtain c where dir: "direction P c a1 b [(f, ascii ''valid'')]" by (rule channel_parts [OF f(2)])
  have zero: "rs_receiving_count b = 0" using e(3) by (simp add: in_step_def window_of_def unat_eq_0)
  have st: "follows P c b" and of: "of_chain P c b f (ascii ''valid'')"
    using dir by (auto simp: direction_def chain_link_def)
  have chain: "rs_receiving_chain b = c" using st zero by (simp add: follows_def)
  let ?t = "f\<lparr>if_ciphertext := flipped 20 (if_ciphertext f)\<rparr>" and ?k = "key_at P c 0"
  have key: "chain_step P (rs_receiving_chain b) = Ok (chain_next P c, ?k)" "length (aead_key_bytes ?k) = 32"
    using chain_step_total [OF law(7)] chain_message_length [OF law(1,7)] by (simp_all add: chain key_at_def)
  have ok: "frame_ok ?t" using f(4) by (simp add: frame_ok_def)
  then have dec: "InnerFrame_decode (frame_bytes ?t) = Ok ?t" by (simp add: InnerFrame_decode_Ok)
  have flip: "xor_at (frame_bytes f) (length (frame_bytes f) - Suc 0) 1 = Ok (frame_bytes ?t)"
    using frame_last_byte [OF f(4)] by (simp add: len)
  have head: "fh_session_id (if_header ?t) = rs_session_id b" "ct_suite (if_ciphertext ?t) = rs_suite b"
    "DhPublicKey (fh_ratchet_public (if_header ?t)) = rs_remote_dh b" "fh_message_number (if_header ?t) = rs_receiving_count b"
    using of f(3) e(3) zero by (auto simp: of_chain_def in_step_def unat_eq_0)
  have open_iff: "InnerFrame_open P ?t ?k = Err AuthenticationFailed \<longleftrightarrow>
      \<not> authentic P ?k (frame_aad_bytes XChaCha20Poly1305 (if_header f) 21) (flipped 20 (if_ciphertext f))"
    using frame_open_unless_authentic [OF law(2) ok key(2)] by (simp add: len f(5) e(5))
  have enc: "InnerFrame_encode f = Ok (frame_bytes f)" "Suc 0 \<le> length (frame_bytes f)"
    using InnerFrame_encode_Ok [OF f(4)] length_frame_bytes [OF f(4)] by simp_all
  have "fst (failed_authentication_does_not_advance_state P r) = Ok () \<longleftrightarrow> InnerFrame_open P ?t ?k = Err AuthenticationFailed"
  proof (cases "InnerFrame_open P ?t ?k")
    case (Inl x)
    have "RatchetState_decrypt P ?t b (Suc r1) = (Inl x, b, Suc r1)"
      by (rule decrypt_next [OF law(7) st head]) (simp add: zero Inl)
    then show ?thesis
      using Inl by (simp add: failed_authentication_does_not_advance_state_def e(1) f(1) enc flip dec valid)
  next
    case (Inr pt)
    obtain res b2 r2 where run: "RatchetState_decrypt P ?t b (Suc r1) = (res, b2, r2)" by (metis prod.exhaust)
    have "fst (RatchetState_decrypt P ?t b (Suc r1)) \<noteq> Err AuthenticationFailed"
      by (rule decrypt_next_opened [OF law(7) st head]) (simp add: zero Inr)
    then show ?thesis
      using Inr run by (simp add: failed_authentication_does_not_advance_state_def e(1) f(1) enc flip dec)
  qed
  with that [OF e(1) f(1) key(1)] open_iff show thesis by simp
qed

section \<open>Envelopes\<close>

lemma u64_last_byte: "to_be_bytes (t :: u64) = be_of_nat 7 (unat t div 256) @ [word_of_nat (unat t)]"
proof -
  have "to_be_bytes t = be_of_nat (Suc 7) (unat t)" by (simp add: to_be_bytes_def)
  then show ?thesis by (simp only: be_of_nat.simps)
qed

text \<open>The last byte of an envelope's expiry is byte 60.\<close>

lemma envelope_expiry_byte:
  assumes e: "envelope_ok e" "oe_expires_at_unix e = 1700000000"
  shows "xor_at (envelope_bytes e) 60 1 = Ok (envelope_bytes (e\<lparr>oe_expires_at_unix := 1700000001\<rparr>))"
proof -
  let ?c = "oe_ciphertext e"
  let ?pre = "OUTER_MAGIC @ [OUTER_VERSION, AeadSuite_id OUTER_SUITE] @ mailbox_bytes (oe_mailbox e)
    @ transport_bytes (oe_message_id e) @ be_of_nat 7 6640625"
  let ?post = "dh_public_bytes (oe_sender_ephemeral e) @ [24] @ to_be_bytes (word_of_nat (length (ct_body ?c)) :: u32)
    @ ct_nonce ?c @ ct_body ?c"
  have "length ?pre = 60" using e(1) by (simp add: envelope_ok_def outer_consts)
  moreover have t: "to_be_bytes (1700000000 :: u64) = be_of_nat 7 6640625 @ [0]"
    "to_be_bytes (1700000001 :: u64) = be_of_nat 7 6640625 @ [1]"
    by (simp_all only: u64_last_byte) simp_all
  moreover have "envelope_bytes e = ?pre @ 0 # ?post"
    by (simp add: envelope_bytes_def outer_aad_bytes_def e(2) t)
  moreover have "envelope_bytes (e\<lparr>oe_expires_at_unix := 1700000001\<rparr>) = ?pre @ 1 # ?post"
    by (simp add: envelope_bytes_def outer_aad_bytes_def t)
  moreover have "xor (0 :: u8) 1 = 1" by simp
  ultimately show ?thesis using xor_between by metis
qed

lemma envelope_tampering_exact:
  assumes P: "lawful P"
  obtains kp m f e shared key where "DhKeyPair_generate P r = (Ok kp, Suc r)"
    "MailboxCapability_generate P (Suc r) = (Ok m, Suc (Suc r))"
    "envelope_inner_frame P (Suc (Suc r)) = (Ok f, Suc (Suc (Suc r)))"
    "fst (OuterEnvelope_seal P (kp_public kp) m 1700000000 f 0 (Suc (Suc (Suc r)))) = Ok e"
    "DhKeyPair_diffie_hellman P kp (oe_sender_ephemeral e) = Ok shared"
    "derive_aead_key P (mailbox_bytes m) (ascii ''outer-envelope-v1'') shared = Ok key"
    "fst (envelope_rejects_expiration_and_tampering P r) = Ok () \<longleftrightarrow>
       \<not> authentic P key (outer_aad_bytes m (oe_message_id e) 1700000001 (oe_sender_ephemeral e)
           (length (ct_body (oe_ciphertext e)))) (oe_ciphertext e)"
proof -
  note law = lawfulD [OF P]
  obtain kp where kp: "DhKeyPair_generate P r = (Ok kp, Suc r)" "key_pair_ok P kp" by (rule DhKeyPair_generate_total [OF law(1,8)])
  obtain m where m: "MailboxCapability_generate P (Suc r) = (Ok m, Suc (Suc r))" "length (mailbox_bytes m) = 32"
    by (rule MailboxCapability_generate_total [OF law(1,8)])
  obtain f where f: "envelope_inner_frame P (Suc (Suc r)) = (Ok f, Suc (Suc (Suc r)))" "frame_ok f"
    "length (frame_bytes f) \<le> 1200"
    by (rule inner_frame_made [OF P])
  have pad: "(0 :: nat) \<le> 1000" by simp
  let ?r = "Suc (Suc (Suc r))"
  obtain e where e: "OuterEnvelope_seal P (kp_public kp) m 1700000000 f 0 ?r = (Ok e, Suc (Suc (Suc ?r)))"
    "OuterEnvelope_encode e = Ok (envelope_bytes e)"
    "\<forall>now. OuterEnvelope_open P e (kp_secret kp) now =
       (if 1700000000 < now then Err EnvelopeExpired else Ok (frame_bytes f @ replicate 0 0))"
    by (rule mailing [OF P f(2,3) pad kp(2) m(2), where r = "?r" and t = 1700000000])
  obtain eph shared key where eph: "DhKeyPair_generate P ?r = (Ok eph, Suc ?r)"
    and dh: "DhKeyPair_diffie_hellman P eph (kp_public kp) = Ok shared" and key: "envelope_key P m shared = Ok key"
    and fields: "oe_mailbox e = m" "oe_expires_at_unix e = 1700000000" "oe_sender_ephemeral e = kp_public eph" and ok: "envelope_ok e"
    by (rule seal_envelope [OF f(2) m(2) law(1) e(1)])
  have dh_back: "DhKeyPair_diffie_hellman P kp (kp_public eph) = Ok shared"
    using diffie_hellman_agrees [OF law(3) kp(2) DhKeyPair_generate_pair_ok [OF law(1) eph]] dh by simp
  have klen: "length (aead_key_bytes key) = 32" using derive_aead_key_length [OF law(1)] key by (simp add: envelope_key_def)
  let ?e = "e\<lparr>oe_expires_at_unix := 1700000001\<rparr>"
  let ?aad = "outer_aad_bytes m (oe_message_id e) 1700000001 (oe_sender_ephemeral e) (length (ct_body (oe_ciphertext e)))"
  have ok': "envelope_ok ?e" using ok by (simp add: envelope_ok_def)
  then have dec: "OuterEnvelope_decode (envelope_bytes ?e) = Ok ?e" by (simp add: outer_decode_Ok)
  have "OuterEnvelope_open P ?e (kp_secret kp) 1600000000 = aead_open P key (oe_ciphertext e) ?aad"
    using dh_back key OuterEnvelope_aad_Ok [OF ok']
    by (simp add: OuterEnvelope_open_def DhKeyPair_diffie_hellman_def fields envelope_key_def)
  moreover have "length ?aad \<le> MAX_AAD_LEN" using ok by (simp add: outer_aad_bytes_def envelope_ok_def fields(1) outer_consts MAX_AAD_LEN_def)
  moreover have "ciphertext_ok (oe_ciphertext e)" using ok by (simp add: envelope_ok_def)
  ultimately have "OuterEnvelope_open P ?e (kp_secret kp) 1600000000 = Err AuthenticationFailed \<longleftrightarrow>
      \<not> authentic P key ?aad (oe_ciphertext e)"
    using open_unless_authentic [OF law(2) _ _ klen] by simp
  then have "fst (envelope_rejects_expiration_and_tampering P r) = Ok () \<longleftrightarrow> \<not> authentic P key ?aad (oe_ciphertext e)"
    by (simp add: envelope_rejects_expiration_and_tampering_def kp(1) m(1) f(1) e envelope_expiry_byte [OF ok fields(2)] dec)
  moreover have "fst (OuterEnvelope_seal P (kp_public kp) m 1700000000 f 0 ?r) = Ok e" using e(1) by simp
  ultimately show thesis using that [OF kp(1) m(1) f(1)] dh_back key fields(3) by (simp add: envelope_key_def)
qed

section \<open>Signatures\<close>

lemma signed_prekey_exact:
  assumes P: "lawful P"
  obtains i j kp where "IdentityKeyPair_generate P r = (Ok i, Suc r)" "IdentityKeyPair_generate P (Suc r) = (Ok j, Suc (Suc r))"
    "DhKeyPair_generate P (Suc (Suc r)) = (Ok kp, Suc (Suc (Suc r)))"
    "fst (signed_prekey_requires_identity_and_freshness P r) = Ok () \<longleftrightarrow>
       \<not> ed25519_verify_strict P (identity_public_bytes (ik_public j)) (prekey_transcript 17 (kp_public kp) 1800000000)
           (sp_signature (SignedPrekey_issue P i 17 (kp_public kp) 1800000000))"
proof -
  note law = lawfulD [OF P]
  obtain i where i: "IdentityKeyPair_generate P r = (Ok i, Suc r)" by (rule IdentityKeyPair_generate_total [OF law(8)])
  obtain j where j: "IdentityKeyPair_generate P (Suc r) = (Ok j, Suc (Suc r))" by (rule IdentityKeyPair_generate_total [OF law(8)])
  obtain kp where kp: "DhKeyPair_generate P (Suc (Suc r)) = (Ok kp, Suc (Suc (Suc r)))"
    by (rule DhKeyPair_generate_total [OF law(1,8)])
  have ok: "identity_pair_ok P i" "identity_pair_ok P j"
    using i j sizes_okD(1) [OF law(1)] by (auto simp: IdentityKeyPair_generate_Ok)
  note fresh = issued_prekey_verifies [OF law(5) ok(1)]
  have "ed25519_key_ok P (identity_public_bytes (ik_public j))"
    using ok(2) ed25519_okD(1) [OF law(5)] by (simp add: identity_pair_ok_def)
  then have "SignedPrekey_verify P (SignedPrekey_issue P i 17 (kp_public kp) 1800000000) (ik_public j) 1700000000 =
      Err AuthenticationFailed \<longleftrightarrow>
      \<not> ed25519_verify_strict P (identity_public_bytes (ik_public j)) (prekey_transcript 17 (kp_public kp) 1800000000)
           (sp_signature (SignedPrekey_issue P i 17 (kp_public kp) 1800000000))"
    by (simp add: SignedPrekey_verify_def IdentityPublicKey_verify_def)
  with that [OF i j kp] fresh show thesis
    by (simp add: signed_prekey_requires_identity_and_freshness_def i j kp Let_def)
qed

definition signature_flipped :: "initiator_handshake \<Rightarrow> initiator_handshake" where
  "signature_flipped msg =
     (let i = ih_initiator_identity msg in
      msg\<lparr>ih_initiator_identity := i\<lparr>id_signature := (id_signature i)[0 := xor (id_signature i ! 0) 1]\<rparr>\<rparr>)"

text \<open>Byte 68 of an initiator message is the first of its identity signature.\<close>

lemma message_signature_byte:
  assumes "message_shape msg"
  shows "xor_at (InitiatorHandshake_encode msg) 68 1 = Ok (InitiatorHandshake_encode (signature_flipped msg))"
proof -
  let ?i = "ih_initiator_identity msg"
  obtain b sig where sig: "id_signature ?i = b # sig" using assms by (cases "id_signature ?i") (simp_all add: message_shape_def)
  let ?pre = "HANDSHAKE_MAGIC @ [HANDSHAKE_VERSION] @ identity_public_bytes (id_signing ?i) @ dh_public_bytes (id_dh ?i)"
  let ?post = "sig @ dh_public_bytes (ih_initiator_ephemeral msg) @ dh_public_bytes (ih_initiator_ratchet msg)
    @ to_be_bytes (ih_signed_prekey_id msg)
    @ (case ih_one_time_prekey_id msg of Some i \<Rightarrow> [1] @ to_be_bytes i | None \<Rightarrow> [0] @ to_be_bytes (0 :: u32))"
  have "length ?pre = 68" using assms by (simp add: message_shape_def magic_bytes)
  moreover have "InitiatorHandshake_encode msg = ?pre @ b # ?post" by (simp add: InitiatorHandshake_encode_def sig)
  moreover have "InitiatorHandshake_encode (signature_flipped msg) = ?pre @ xor b 1 # ?post"
    by (simp add: InitiatorHandshake_encode_def signature_flipped_def Let_def sig)
  ultimately show ?thesis using xor_between by metis
qed

lemma identity_binding_exact:
  assumes P: "lawful P"
  obtains m0 r0 m r1 li r2 msg ha r3 where "ResponderPrekeyMaterial_generate P 7 2000 r = (Ok m0, r0)"
    "add_one_time_prekey P 19 m0 r0 = (Ok (), m, r1)" "LocalIdentity_generate P r1 = (Ok li, r2)"
    "handshake_initiate P li (ResponderPrekeyMaterial_bundle P m) 1000 r2 = (Ok (msg, ha), r3)"
    "fst (tampered_identity_binding_is_rejected P r) = Ok () \<longleftrightarrow>
       \<not> ed25519_verify_strict P (identity_public_bytes (id_signing (LocalIdentity_public P li)))
           (identity_binding_transcript (id_dh (LocalIdentity_public P li)))
           (id_signature (ih_initiator_identity (signature_flipped msg)))"
proof -
  note law = lawfulD [OF P]
  obtain m0 where m0: "ResponderPrekeyMaterial_generate P 7 2000 r = (Ok m0, Suc (Suc (Suc r)))" "material_ok P m0"
    "rm_one_time_prekeys m0 = []" "sp_expires_at_unix (rm_signed_record m0) = 2000"
    by (rule material_generate_total [OF law(1,8)])
  have "one_time_absent 19 m0" using m0(3) by (simp add: one_time_absent_def)
  then obtain key m where m: "add_one_time_prekey P 19 m0 (Suc (Suc (Suc r))) = (Ok (), m, Suc (Suc (Suc (Suc r))))"
    "material_ok P m" "rm_signed_record m = rm_signed_record m0"
    "rm_one_time_prekeys m = rm_one_time_prekeys m0 @
       [\<lparr>otp_public = \<lparr>otpk_id = 19, otpk_public = kp_public key\<rparr>, otp_key = key\<rparr>]"
    by (rule add_one_time_total [OF law(1,8) m0(2)])
  obtain li r1 where li: "LocalIdentity_generate P (Suc (Suc (Suc (Suc r)))) = (Ok li, r1)" "local_identity_ok P li"
    by (rule LocalIdentity_generate_total [OF law(1,8)])
  let ?b = "ResponderPrekeyMaterial_bundle P m"
  have "ResponderPrekeyBundle_verify P ?b 1000 = Ok ()"
    using published_bundle_verifies [OF law(1,5) m(2)] m(3) m0(4) by simp
  then obtain msg ha r2 where init: "handshake_initiate P li ?b 1000 r1 = (Ok (msg, ha), r2)"
    using initiate_total [OF law(1,5,4,7,8) li(2) m(2) bundle_held] by blast
  have ok: "message_ok P msg" by (rule initiate_message_ok [OF law(1,5) li(2) init])
  have who: "ih_initiator_identity msg = LocalIdentity_public P li"
    using initiate_Ok [OF init] by (metis initiator_handshake.select_convs(1))
  let ?msg = "signature_flipped msg"
  have shape: "message_shape ?msg" using message_ok_shape [OF ok] by (simp add: message_shape_def signature_flipped_def Let_def)
  have signer: "id_signing (ih_initiator_identity ?msg) = id_signing (LocalIdentity_public P li)"
    "id_dh (ih_initiator_identity ?msg) = id_dh (LocalIdentity_public P li)"
    by (simp_all add: signature_flipped_def Let_def who)
  have key: "ed25519_key_ok P (identity_public_bytes (id_signing (ih_initiator_identity ?msg)))"
    using identity_ok_key [of P "ih_initiator_identity msg"] ok by (simp add: message_ok_def signer who)
  have "InitiatorHandshake_decode P (InitiatorHandshake_encode ?msg) = Err AuthenticationFailed \<longleftrightarrow>
      \<not> ed25519_verify_strict P (identity_public_bytes (id_signing (LocalIdentity_public P li)))
           (identity_binding_transcript (id_dh (LocalIdentity_public P li))) (id_signature (ih_initiator_identity ?msg))"
    using key by (simp add: message_decode_verifies [OF shape key] IdentityDhPublic_verify_def IdentityPublicKey_verify_def signer)
  moreover have "available_one_time_prekeys m = 1" by (simp add: available_one_time_prekeys_def m(4) m0(3))
  ultimately show thesis
    using that [OF m0(1) m(1) li(1) init]
    by (simp add: tampered_identity_binding_is_rejected_def m0(1) m(1) li(1) init message_signature_byte [OF message_ok_shape [OF ok]])
qed

section \<open>Identifiers\<close>

lemma fingerprint_exact:
  assumes P: "lawful P"
  obtains i j where "IdentityKeyPair_generate P r = (Ok i, Suc r)" "IdentityKeyPair_generate P (Suc r) = (Ok j, Suc (Suc r))"
    "fst (identity_fingerprint_changes_with_key P r) = Ok () \<longleftrightarrow>
       blake3 P (blake3_transcript (ascii ''identity-fingerprint-v1'') [identity_public_bytes (ik_public i)]) \<noteq>
       blake3 P (blake3_transcript (ascii ''identity-fingerprint-v1'') [identity_public_bytes (ik_public j)])"
proof -
  note law = lawfulD [OF P]
  obtain i where i: "IdentityKeyPair_generate P r = (Ok i, Suc r)" by (rule IdentityKeyPair_generate_total [OF law(8)])
  obtain j where j: "IdentityKeyPair_generate P (Suc r) = (Ok j, Suc (Suc r))" by (rule IdentityKeyPair_generate_total [OF law(8)])
  have "length (identity_public_bytes (ik_public i)) = 32" "length (identity_public_bytes (ik_public j)) = 32"
    using i j sizes_okD(6) [OF law(1)] by (auto simp: IdentityKeyPair_generate_Ok IdentityKeyPair_from_seed_def)
  then have fp: "identity_fingerprint P (ik_public k) =
      Ok (blake3 P (blake3_transcript (ascii ''identity-fingerprint-v1'') [identity_public_bytes (ik_public k)]))"
    if "k = i \<or> k = j" for k
    using that by (auto simp: identity_fingerprint_def blake3_id_Ok MAX_CIPHERTEXT_LEN_def ascii_def)
  show thesis by (rule that [OF i j]) (simp add: identity_fingerprint_changes_with_key_def i j fp)
qed

lemma storage_exact:
  assumes P: "lawful P"
  obtains m n where "MailboxCapability_generate P r = (Ok m, Suc r)" "MailboxCapability_generate P (Suc r) = (Ok n, Suc (Suc r))"
    "fst (storage_identifier_is_stable P r) = Ok () \<longleftrightarrow>
       blake3 P (blake3_transcript (ascii ''mailbox-capability-v1'') [mailbox_bytes m]) \<noteq>
       blake3 P (blake3_transcript (ascii ''mailbox-capability-v1'') [mailbox_bytes n])"
proof -
  note law = lawfulD [OF P]
  obtain m where m: "MailboxCapability_generate P r = (Ok m, Suc r)" "length (mailbox_bytes m) = 32"
    by (rule MailboxCapability_generate_total [OF law(1,8)])
  obtain n where n: "MailboxCapability_generate P (Suc r) = (Ok n, Suc (Suc r))" "length (mailbox_bytes n) = 32"
    by (rule MailboxCapability_generate_total [OF law(1,8)])
  have "MailboxCapability_storage_id P k = Ok (blake3 P (blake3_transcript (ascii ''mailbox-capability-v1'') [mailbox_bytes k]))"
    if "length (mailbox_bytes k) = 32" for k
    using that by (simp add: MailboxCapability_storage_id_def blake3_id_Ok MAX_CIPHERTEXT_LEN_def ascii_def)
  with m n show thesis by (intro that [OF m(1) n(1)]) (auto simp: storage_identifier_is_stable_def)
qed

lemma blake3_test_exact:
  "blake3_identifier_is_delimited P = Ok () \<longleftrightarrow>
     blake3 P (blake3_transcript (ascii ''sid'') [ascii ''ab'', ascii ''c'']) \<noteq>
       blake3 P (blake3_transcript (ascii ''sid'') [ascii ''a'', ascii ''bc'']) \<and>
     blake3 P (blake3_transcript (ascii ''sid'') [ascii ''ab'', ascii ''c'']) \<noteq>
       blake3 P (blake3_transcript (ascii ''other'') [ascii ''ab'', ascii ''c''])"
proof -
  have "blake3_id P (ascii l) [ascii x, ascii y] = Ok (blake3 P (blake3_transcript (ascii l) [ascii x, ascii y]))"
    if "l \<noteq> []" "length l \<le> 255" "length x \<le> 255" "length y \<le> 255" for l x y
    using that by (simp add: blake3_id_Ok MAX_CIPHERTEXT_LEN_def ascii_def)
  then show ?thesis by (simp add: blake3_identifier_is_delimited_def)
qed

section \<open>Rotation\<close>

lemma rotation_exact:
  assumes P: "lawful P"
  obtains a b r1 a1 where "pair_with_suite P XChaCha20Poly1305 r = (Ok (a, b), r1)"
    "rotate_sending_ratchet P a r1 = (Ok (), a1, Suc r1)"
    "fst (proactive_dh_rotation_is_processed P r) = Ok () \<longleftrightarrow> current_public_key a1 \<noteq> current_public_key a"
proof -
  note law = lawfulD [OF P]
  have now: "(1000 :: u64) \<le> 2000" by simp
  obtain a b r1 where e: "pair_with_suite P XChaCha20Poly1305 r = (Ok (a, b), r1)" "synced P a b"
    "rs_sending_count a = 0" "rs_skipped b = []" "rs_receiving_count b = 0"
    unfolding pair_with_suite_def by (rule establish_channel [OF P now])
  obtain c c' where ok: "ratchet_ok P a" "ratchet_ok P b" and link: "live_link P c a b" "live_link P c' b a"
    using e(2) by (auto simp: synced_def)
  have remote: "rs_remote_dh a = kp_public (rs_dh_pair b)" "rs_remote_dh b = kp_public (rs_dh_pair a)"
    using link by (simp_all add: live_link_def chain_link_def)
  have kb: "key_pair_ok P (rs_dh_pair b)" using ok(2) by (simp add: ratchet_ok_def)
  obtain kp where kp: "DhKeyPair_generate P r1 = (Ok kp, Suc r1)" "key_pair_ok P kp" by (rule DhKeyPair_generate_total [OF law(1,8)])
  obtain z where z: "DhKeyPair_diffie_hellman P kp (rs_remote_dh a) = Ok z"
    unfolding remote by (rule honest_exchange [OF law(4) kp(2) kb])
  have "length z \<le> MAX_CIPHERTEXT_LEN" using diffie_hellman_length [OF law(1) z] by (simp add: MAX_CIPHERTEXT_LEN_def)
  then obtain root chain where root: "root_step P (rs_root_key a) z = Ok (root, chain)" using root_step_total [OF law(7)] by blast
  define a1 where "a1 = bump_generation (a\<lparr>rs_root_key := root, rs_sending_chain := chain, rs_dh_pair := kp,
      rs_previous_sending_chain_len := rs_sending_count a, rs_sending_count := 0\<rparr>)"
  have rot: "rotate_sending_ratchet P a r1 = (Ok (), a1, Suc r1)"
    using kp(1) z root by (simp add: rotate_sending_ratchet_def a1_def)
  have runs: "fst (proactive_dh_rotation_is_processed P r) = Ok ()" if new: "current_public_key a1 \<noteq> current_public_key a"
  proof -
    have "fresh_for (kp_public (rs_dh_pair a1)) b"
      using new by (simp add: fresh_for_def e(4) remote(2) current_public_key_def)
    then obtain ch where ahead: "ahead P ch a1 b" using rotate_ahead [OF law(1) e(2) rot] by blast
    have a1: "ratchet_ok P a1" using ahead by (simp add: ahead_def)
    have a1_fields: "rs_sending_count a1 = 0" "rs_previous_sending_chain_len a1 = 0" "rs_session_id a1 = rs_session_id a"
      "rs_suite a1 = rs_suite a"
      by (simp_all add: a1_def e(3))
    obtain nonce where nonce: "sys_rng P (Suc r1) (AeadSuite_nonce_len (rs_suite a1)) = Some nonce"
      using law(8) by (auto simp: rng_total_def)
    have small: "length (ascii ''new ratchet'') \<le> MAX_CIPHERTEXT_LEN - AEAD_TAG_LEN" by (simp add: limits)
    have count: "unat (rs_sending_count a1) < 2 ^ 32 - 1" by (simp add: a1_fields(1))
    obtain f a2 where enc: "RatchetState_encrypt P Control (ascii ''new ratchet'') a1 (Suc r1) = (Ok f, a2, Suc (Suc r1))"
      using encrypt_total [OF law(1,2,7) a1 small nonce count] by blast
    note sent = encrypt_ahead [OF law(1,2,7) ahead enc]
    obtain kp2 where kp2: "DhKeyPair_generate P (Suc (Suc r1)) = (Ok kp2, Suc (Suc (Suc r1)))" "key_pair_ok P kp2"
      by (rule DhKeyPair_generate_total [OF law(1,8)])
    have a2: "key_pair_ok P (rs_dh_pair a2)" using sent(1) by (simp add: ahead_def ratchet_ok_def)
    obtain z2 where z2: "DhKeyPair_diffie_hellman P kp2 (kp_public (rs_dh_pair a2)) = Ok z2"
      by (rule honest_exchange [OF law(4) kp2(2) a2])
    have room: "step_room b f" by (simp add: step_room_def e(4,5) sent(3) a1_fields MAX_SKIPPED_KEYS_def)
    have head: "fh_session_id (if_header f) = rs_session_id a2" "ct_suite (if_ciphertext f) = rs_suite a2"
      "fh_ratchet_public (if_header f) = dh_public_bytes (kp_public (rs_dh_pair a2))"
      "fh_previous_chain_len (if_header f) = rs_previous_sending_chain_len a2"
      "fh_message_number (if_header f) = rs_sending_count a1"
      using sent(1-4,7) ahead by (simp_all add: ahead_def)
    obtain b' where "RatchetState_decrypt P f b (Suc (Suc r1)) = (Ok (ascii ''new ratchet''), b', Suc (Suc (Suc r1)))"
      by (rule decrypt_ahead_run [OF law(1,3,7) sent(1) head sent(6,5) room kp2(1) z2])
    with new show ?thesis by (simp add: proactive_dh_rotation_is_processed_def e(1) rot enc Let_def)
  qed
  show thesis
  proof (rule that [OF e(1) rot], rule iffI)
    assume "fst (proactive_dh_rotation_is_processed P r) = Ok ()"
    then show "current_public_key a1 \<noteq> current_public_key a" by (auto simp: proactive_dh_rotation_is_processed_def e(1) rot Let_def)
  qed (rule runs)
qed

section \<open>Derived and encapsulated secrets\<close>

lemma hkdf_labels_exact:
  assumes P: "lawful P" and s: "subtle_ok subtle"
  obtains first second where "derive_aead_key P (ascii ''salt'') (ascii ''chain-a'') (ascii ''input'') = Ok first"
    "derive_aead_key P (ascii ''salt'') (ascii ''chain-b'') (ascii ''input'') = Ok second"
    "hkdf_labels_are_domain_separated P subtle = Ok () \<longleftrightarrow> first \<noteq> second"
proof -
  note law = lawfulD [OF P]
  have "\<exists>k. derive_aead_key P (ascii ''salt'') (ascii l) (ascii ''input'') = Ok k" if "l \<noteq> []" "length l \<le> 255" for l
    using derive_aead_key_total [OF law(7), of "ascii l" "ascii ''input''"] that by (simp add: ascii_def MAX_CIPHERTEXT_LEN_def)
  from this [of "''chain-a''"] this [of "''chain-b''"] obtain a b where
    ab: "derive_aead_key P (ascii ''salt'') (ascii ''chain-a'') (ascii ''input'') = Ok a"
    "derive_aead_key P (ascii ''salt'') (ascii ''chain-b'') (ascii ''input'') = Ok b" by auto
  show thesis
    by (rule that [OF ab]) (auto simp: hkdf_labels_are_domain_separated_def ab ct_eq_equal [OF s] aead_key.expand)
qed

lemma encapsulate_total:
  assumes P: "lawful P"
  obtains c z where "MlKem768PublicKey_encapsulate P pk r = (Ok (c, z), Suc r)"
proof -
  note law = lawfulD [OF P]
  obtain rnd where rnd: "sys_rng P r 32 = Some rnd" using law(8) by (auto simp: rng_total_def)
  obtain ct z where enc: "mlkem_encapsulate P (mlkem_public_bytes pk) rnd = (ct, z)" by fastforce
  then have "length z = 32" using law(6) by (auto simp: mlkem_ok_def mlkem_sizes_ok_def)
  with rnd enc show thesis
    using that [of "MlKem768Ciphertext ct" "MlKem768SharedSecret z"]
    by (simp add: MlKem768PublicKey_encapsulate_def io_bind_def fill_secure_def io_lift_def)
qed

lemma ml_kem_exact:
  assumes P: "lawful P" and s: "subtle_ok subtle"
  obtains kp c z c' z' where "MlKem768KeyPair_generate P r = (Ok kp, Suc r)"
    "MlKem768PublicKey_encapsulate P (mk_public kp) (Suc r) = (Ok (c, z), Suc (Suc r))"
    "MlKem768PublicKey_encapsulate P (mk_public kp) (Suc (Suc r)) = (Ok (c', z'), Suc (Suc (Suc r)))"
    "fst (ml_kem_768_round_trips P subtle r) = Ok () \<longleftrightarrow> z \<noteq> z'"
proof -
  note law = lawfulD [OF P]
  obtain d where d: "mlkem_keygen P r = Some d" using law(9) by blast
  define kp where "kp = \<lparr>mk_secret = d, mk_public = MlKem768PublicKey (mlkem_public P d)\<rparr>"
  have gen: "MlKem768KeyPair_generate P r = (Ok kp, Suc r)" by (simp add: MlKem768KeyPair_generate_def d kp_def)
  obtain c z where e: "MlKem768PublicKey_encapsulate P (mk_public kp) (Suc r) = (Ok (c, z), Suc (Suc r))"
    by (rule encapsulate_total [OF P])
  obtain c' z' where e': "MlKem768PublicKey_encapsulate P (mk_public kp) (Suc (Suc r)) = (Ok (c', z'), Suc (Suc (Suc r)))"
    by (rule encapsulate_total [OF P])
  have keys: "mlkem_keygen P r = Some (mk_secret kp)" "mk_public kp = MlKem768PublicKey (mlkem_public P (mk_secret kp))"
    by (simp_all add: kp_def d)
  note dec = encapsulate_decapsulate(1) [OF law(6,1) keys e] encapsulate_decapsulate(1) [OF law(6,1) keys e']
  show thesis
    by (rule that [OF gen e e'])
      (cases z; cases z'; simp add: ml_kem_768_round_trips_def gen e e' dec ct_eq_equal [OF s])
qed

end
