(* ===== verification/Mef_Bindings.thy ===== *)
theory Mef_Bindings
  imports Mef_Scenarios
begin

text \<open>
  The metadata the language bindings export: \<open>crates/mef-ffi\<close>, \<open>crates/mef-napi\<close> (with its build script)
  and \<open>crates/mef-jni\<close>. A C pointer is null (\<open>None\<close>) or points to memory, read up to its NUL; \<open>as u32\<close>
  and \<open>as jint\<close> truncate. The JVM and the build environment are parameters.
\<close>

definition PROTOCOL_ID_C :: bytes where
  "PROTOCOL_ID_C = ascii ''MEF-26'' @ [0]"

definition mef26_abi_version :: u32 where
  "mef26_abi_version = ABI_VERSION"

definition mef26_protocol_id :: "bytes option" where
  "mef26_protocol_id = Some PROTOCOL_ID_C"

definition mef26_max_ciphertext_len :: nat where
  "mef26_max_ciphertext_len = MAX_CIPHERTEXT_LEN"

definition abi_metadata_is_nonzero_and_static :: "unit res" where
  "abi_metadata_is_nonzero_and_static =
     bind_res (assert_that (mef26_abi_version = 1)) (\<lambda>_.
     bind_res (assert_that (0 < mef26_max_ciphertext_len)) (\<lambda>_.
     assert_that (mef26_protocol_id \<noteq> None)))"

definition napi_abi_version :: u32 where
  "napi_abi_version = ABI_VERSION"

definition napi_protocol_id :: bytes where
  "napi_protocol_id = PROTOCOL_ID"

definition napi_max_ciphertext_len :: u32 where
  "napi_max_ciphertext_len = word_of_nat MAX_CIPHERTEXT_LEN"

text \<open>The build script reads one environment variable and prints linker arguments for cargo.\<close>

definition napi_build_main :: "(string \<Rightarrow> string option) \<Rightarrow> string list" where
  "napi_build_main env =
     (if env ''CARGO_CFG_TARGET_OS'' = Some ''macos''
      then [''cargo:rustc-cdylib-link-arg=-undefined'', ''cargo:rustc-cdylib-link-arg=dynamic_lookup'']
      else [])"

text \<open>
  A \<open>jint\<close> is a signed 32-bit integer, read with \<open>sint\<close>. Making a Java string is up to the JVM, which
  returns the object or an error; \<open>resolve\<close> throws an error as a Java exception and returns null.
\<close>

definition jni_abi_version :: "32 word" where
  "jni_abi_version = ucast ABI_VERSION"

datatype ('object, 'error) jni_outcome = Returns "'object option" | Throws 'error

definition jni_protocol_id :: "(bytes \<Rightarrow> 'error + 'object) \<Rightarrow> ('object, 'error) jni_outcome" where
  "jni_protocol_id new_string =
     (case new_string PROTOCOL_ID of
        Inl err \<Rightarrow> Throws err
      | Inr value \<Rightarrow> Returns (Some value))"

definition jni_max_ciphertext_len :: "32 word" where
  "jni_max_ciphertext_len = word_of_nat MAX_CIPHERTEXT_LEN"

text \<open>What a C caller reads from a pointer to a NUL-terminated string.\<close>

definition c_string :: "bytes \<Rightarrow> bytes" where
  "c_string memory = takeWhile (\<lambda>b. b \<noteq> 0) memory"

lemma c_protocol_id:
  "map_option c_string mef26_protocol_id = Some PROTOCOL_ID" "mef26_protocol_id = Some m \<Longrightarrow> 0 \<in> set m"
  by (auto simp: c_string_def mef26_protocol_id_def PROTOCOL_ID_C_def PROTOCOL_ID_def ascii_def of_char_def)

lemma exported_limits:
  "unat napi_max_ciphertext_len = MAX_CIPHERTEXT_LEN" "sint jni_max_ciphertext_len = int MAX_CIPHERTEXT_LEN"
  "sint jni_abi_version = uint ABI_VERSION"
  by (simp_all add: napi_max_ciphertext_len_def jni_max_ciphertext_len_def jni_abi_version_def MAX_CIPHERTEXT_LEN_def
      ABI_VERSION_def)

lemma abi_test_passes: "abi_metadata_is_nonzero_and_static = Ok ()"
  by (simp add: abi_metadata_is_nonzero_and_static_def mef26_abi_version_def ABI_VERSION_def
      mef26_max_ciphertext_len_def MAX_CIPHERTEXT_LEN_def mef26_protocol_id_def assert_that_def)

end
