(* ===== verification/Mef_Debug.thy ===== *)
theory Mef_Debug
  imports Mef_Persistence Mef_Envelope Mef_Hybrid
begin

text \<open>
  What the crate writes about its values: the \<open>Debug\<close> implementations, derived for most types and
  written by hand as a fixed \<open>[REDACTED]\<close> for the types that hold a secret, and the \<open>Display\<close>
  messages of \<open>MefError\<close>. The formatters of ML-KEM keys and ciphertexts are those of their crates,
  hence arguments. The lemmas show that no output depends on a secret.
\<close>

section \<open>Formatting as derive(Debug) writes it\<close>

fun show_decimal :: "nat \<Rightarrow> string" where
  "show_decimal n =
     (if n < 10 then [char_of (48 + n)] else show_decimal (n div 10) @ [char_of (48 + n mod 10)])"

declare show_decimal.simps [simp del]

fun comma_separated :: "string list \<Rightarrow> string" where
  "comma_separated [] = ''''"
| "comma_separated [x] = x"
| "comma_separated (x # y # xs) = x @ '', '' @ comma_separated (y # xs)"

definition debug_struct :: "string \<Rightarrow> (string \<times> string) list \<Rightarrow> string" where
  "debug_struct name items =
     name @ '' { '' @ comma_separated (map (\<lambda>(label, value). label @ '': '' @ value) items) @ '' }''"

definition debug_tuple :: "string \<Rightarrow> string list \<Rightarrow> string" where
  "debug_tuple name items = name @ ''('' @ comma_separated items @ '')''"

definition debug_list :: "('a \<Rightarrow> string) \<Rightarrow> 'a list \<Rightarrow> string" where
  "debug_list show_item items = ''['' @ comma_separated (map show_item items) @ '']''"

fun debug_option :: "('a \<Rightarrow> string) \<Rightarrow> 'a option \<Rightarrow> string" where
  "debug_option show_item None = ''None''"
| "debug_option show_item (Some x) = debug_tuple ''Some'' [show_item x]"

definition debug_word :: "'w::len word \<Rightarrow> string" where
  "debug_word w = show_decimal (unat w)"

definition debug_bytes :: "bytes \<Rightarrow> string" where
  "debug_bytes = debug_list debug_word"

section \<open>Types that redact themselves\<close>

definition debug_AeadKey :: "aead_key \<Rightarrow> string" where
  "debug_AeadKey x = ''AeadKey([REDACTED])''"

definition debug_Secret :: "secret \<Rightarrow> string" where
  "debug_Secret x = ''Secret([REDACTED])''"

definition debug_DhSecretKey :: "dh_secret \<Rightarrow> string" where
  "debug_DhSecretKey x = ''DhSecretKey([REDACTED])''"

definition debug_IdentityKeyPair :: "identity_key_pair \<Rightarrow> string" where
  "debug_IdentityKeyPair x = ''IdentityKeyPair([REDACTED])''"

definition debug_MlKem768SharedSecret :: "mlkem_shared_secret \<Rightarrow> string" where
  "debug_MlKem768SharedSecret x = ''MlKem768SharedSecret([REDACTED])''"

definition debug_MlKem768KeyPair :: "mlkem_key_pair \<Rightarrow> string" where
  "debug_MlKem768KeyPair x = ''MlKem768KeyPair([REDACTED])''"

section \<open>Derived: keys and identities\<close>

definition debug_DhPublicKey :: "dh_public \<Rightarrow> string" where
  "debug_DhPublicKey pk = debug_tuple ''DhPublicKey'' [debug_bytes (dh_public_bytes pk)]"

definition debug_IdentityPublicKey :: "identity_public \<Rightarrow> string" where
  "debug_IdentityPublicKey pk = debug_tuple ''IdentityPublicKey'' [debug_bytes (identity_public_bytes pk)]"

definition debug_DhKeyPair :: "dh_key_pair \<Rightarrow> string" where
  "debug_DhKeyPair kp =
     debug_struct ''DhKeyPair''
       [(''secret'', debug_DhSecretKey (kp_secret kp)),
        (''public'', debug_DhPublicKey (kp_public kp))]"

definition debug_SignedPrekey :: "signed_prekey \<Rightarrow> string" where
  "debug_SignedPrekey sp =
     debug_struct ''SignedPrekey''
       [(''key_id'', debug_word (sp_key_id sp)),
        (''public'', debug_DhPublicKey (sp_public sp)),
        (''expires_at_unix'', debug_word (sp_expires_at_unix sp)),
        (''signature'', debug_bytes (sp_signature sp))]"

definition debug_MlKem768PublicKey :: "(bytes \<Rightarrow> string) \<Rightarrow> mlkem_public_key \<Rightarrow> string" where
  "debug_MlKem768PublicKey debug_ek pk = debug_tuple ''MlKem768PublicKey'' [debug_ek (mlkem_public_bytes pk)]"

definition debug_MlKem768Ciphertext :: "(bytes \<Rightarrow> string) \<Rightarrow> mlkem_ciphertext \<Rightarrow> string" where
  "debug_MlKem768Ciphertext debug_ct c = debug_tuple ''MlKem768Ciphertext'' [debug_ct (mlkem_ciphertext_bytes c)]"

section \<open>Derived: frames and envelopes\<close>

fun debug_AeadSuite :: "aead_suite \<Rightarrow> string" where
  "debug_AeadSuite Aes256Gcm = ''Aes256Gcm''"
| "debug_AeadSuite Aes256GcmSiv = ''Aes256GcmSiv''"
| "debug_AeadSuite ChaCha20Poly1305 = ''ChaCha20Poly1305''"
| "debug_AeadSuite XChaCha20Poly1305 = ''XChaCha20Poly1305''"

fun debug_FrameKind :: "frame_kind \<Rightarrow> string" where
  "debug_FrameKind Init = ''Init''"
| "debug_FrameKind Message = ''Message''"
| "debug_FrameKind Ack = ''Ack''"
| "debug_FrameKind Control = ''Control''"
| "debug_FrameKind Reset = ''Reset''"

definition debug_Ciphertext :: "ciphertext \<Rightarrow> string" where
  "debug_Ciphertext c =
     debug_struct ''Ciphertext''
       [(''suite'', debug_AeadSuite (ct_suite c)),
        (''nonce'', debug_bytes (ct_nonce c)),
        (''body'', debug_bytes (ct_body c))]"

definition debug_FrameHeader :: "frame_header \<Rightarrow> string" where
  "debug_FrameHeader h =
     debug_struct ''FrameHeader''
       [(''kind'', debug_FrameKind (fh_kind h)),
        (''session_id'', debug_bytes (fh_session_id h)),
        (''ratchet_public'', debug_bytes (fh_ratchet_public h)),
        (''previous_chain_len'', debug_word (fh_previous_chain_len h)),
        (''message_number'', debug_word (fh_message_number h))]"

definition debug_InnerFrame :: "inner_frame \<Rightarrow> string" where
  "debug_InnerFrame f =
     debug_struct ''InnerFrame''
       [(''header'', debug_FrameHeader (if_header f)),
        (''ciphertext'', debug_Ciphertext (if_ciphertext f))]"

definition debug_MailboxCapability :: "mailbox_capability \<Rightarrow> string" where
  "debug_MailboxCapability m = debug_tuple ''MailboxCapability'' [debug_bytes (mailbox_bytes m)]"

definition debug_TransportMessageId :: "transport_id \<Rightarrow> string" where
  "debug_TransportMessageId i = debug_tuple ''TransportMessageId'' [debug_bytes (transport_bytes i)]"

definition debug_OuterEnvelope :: "outer_envelope \<Rightarrow> string" where
  "debug_OuterEnvelope e =
     debug_struct ''OuterEnvelope''
       [(''mailbox'', debug_MailboxCapability (oe_mailbox e)),
        (''message_id'', debug_TransportMessageId (oe_message_id e)),
        (''expires_at_unix'', debug_word (oe_expires_at_unix e)),
        (''sender_ephemeral'', debug_DhPublicKey (oe_sender_ephemeral e)),
        (''ciphertext'', debug_Ciphertext (oe_ciphertext e))]"

definition debug_ReplayCache :: "replay_cache \<Rightarrow> string" where
  "debug_ReplayCache cache =
     debug_struct ''ReplayCache''
       [(''capacity'', show_decimal (rc_capacity cache)),
        (''entries'', debug_list (\<lambda>(i, t). debug_tuple '''' [debug_TransportMessageId i, debug_word t])
           (rc_entries cache))]"

section \<open>Derived: handshakes\<close>

fun debug_RatchetRole :: "ratchet_role \<Rightarrow> string" where
  "debug_RatchetRole Initiator = ''Initiator''"
| "debug_RatchetRole Responder = ''Responder''"

definition debug_LocalIdentity :: "local_identity \<Rightarrow> string" where
  "debug_LocalIdentity li =
     debug_struct ''LocalIdentity''
       [(''signing'', debug_IdentityKeyPair (li_signing li)),
        (''dh'', debug_DhKeyPair (li_dh li))]"

definition debug_IdentityDhPublic :: "identity_dh_public \<Rightarrow> string" where
  "debug_IdentityDhPublic i =
     debug_struct ''IdentityDhPublic''
       [(''signing'', debug_IdentityPublicKey (id_signing i)),
        (''dh'', debug_DhPublicKey (id_dh i)),
        (''signature'', debug_bytes (id_signature i))]"

definition debug_OneTimePrekeyPublic :: "one_time_prekey_public \<Rightarrow> string" where
  "debug_OneTimePrekeyPublic k =
     debug_struct ''OneTimePrekeyPublic''
       [(''id'', debug_word (otpk_id k)),
        (''public'', debug_DhPublicKey (otpk_public k))]"

definition debug_OneTimePrekey :: "one_time_prekey \<Rightarrow> string" where
  "debug_OneTimePrekey k =
     debug_struct ''OneTimePrekey''
       [(''public'', debug_OneTimePrekeyPublic (otp_public k)),
        (''key'', debug_DhKeyPair (otp_key k))]"

definition debug_ResponderPrekeyBundle :: "responder_bundle \<Rightarrow> string" where
  "debug_ResponderPrekeyBundle b =
     debug_struct ''ResponderPrekeyBundle''
       [(''identity'', debug_IdentityDhPublic (rb_identity b)),
        (''signed_prekey'', debug_SignedPrekey (rb_signed_prekey b)),
        (''one_time_prekey'', debug_option debug_OneTimePrekeyPublic (rb_one_time_prekey b))]"

definition debug_ResponderPrekeyMaterial :: "responder_material \<Rightarrow> string" where
  "debug_ResponderPrekeyMaterial m =
     debug_struct ''ResponderPrekeyMaterial''
       [(''identity'', debug_LocalIdentity (rm_identity m)),
        (''signed_prekey'', debug_DhKeyPair (rm_signed_prekey m)),
        (''signed_record'', debug_SignedPrekey (rm_signed_record m)),
        (''retired_signed_prekeys'', debug_list (\<lambda>(sp, kp). debug_tuple '''' [debug_SignedPrekey sp, debug_DhKeyPair kp])
           (rm_retired_signed_prekeys m)),
        (''one_time_prekeys'', debug_list debug_OneTimePrekey (rm_one_time_prekeys m))]"

definition debug_InitiatorHandshake :: "initiator_handshake \<Rightarrow> string" where
  "debug_InitiatorHandshake msg =
     debug_struct ''InitiatorHandshake''
       [(''initiator_identity'', debug_IdentityDhPublic (ih_initiator_identity msg)),
        (''initiator_ephemeral'', debug_DhPublicKey (ih_initiator_ephemeral msg)),
        (''initiator_ratchet'', debug_DhPublicKey (ih_initiator_ratchet msg)),
        (''signed_prekey_id'', debug_word (ih_signed_prekey_id msg)),
        (''one_time_prekey_id'', debug_option debug_word (ih_one_time_prekey_id msg))]"

definition debug_AuthenticatedHandshake :: "authenticated_handshake \<Rightarrow> string" where
  "debug_AuthenticatedHandshake h =
     debug_struct ''AuthenticatedHandshake''
       [(''session_id'', debug_bytes (ah_session_id h)),
        (''root_secret'', debug_Secret (ah_root_secret h)),
        (''role'', debug_RatchetRole (ah_role h)),
        (''local_ratchet'', debug_DhKeyPair (ah_local_ratchet h)),
        (''remote_ratchet'', debug_DhPublicKey (ah_remote_ratchet h))]"

definition debug_HybridResponderPrekeyBundle :: "(bytes \<Rightarrow> string) \<Rightarrow> hybrid_bundle \<Rightarrow> string" where
  "debug_HybridResponderPrekeyBundle debug_ek b =
     debug_struct ''HybridResponderPrekeyBundle''
       [(''classical'', debug_ResponderPrekeyBundle (hb_classical b)),
        (''pq_public'', debug_MlKem768PublicKey debug_ek (hb_pq_public b)),
        (''pq_signature'', debug_bytes (hb_pq_signature b))]"

definition debug_HybridResponderPrekeyMaterial :: "hybrid_material \<Rightarrow> string" where
  "debug_HybridResponderPrekeyMaterial m =
     debug_struct ''HybridResponderPrekeyMaterial''
       [(''classical'', debug_ResponderPrekeyMaterial (hm_classical m)),
        (''pq'', debug_MlKem768KeyPair (hm_pq m))]"

definition debug_HybridInitiatorHandshake :: "(bytes \<Rightarrow> string) \<Rightarrow> hybrid_message \<Rightarrow> string" where
  "debug_HybridInitiatorHandshake debug_ct m =
     debug_struct ''HybridInitiatorHandshake''
       [(''classical'', debug_InitiatorHandshake (hi_classical m)),
        (''pq_ciphertext'', debug_MlKem768Ciphertext debug_ct (hi_pq_ciphertext m))]"

section \<open>Derived: the ratchet and its snapshots\<close>

definition debug_SkippedMessageKey :: "skipped_message_key \<Rightarrow> string" where
  "debug_SkippedMessageKey k =
     debug_struct ''SkippedMessageKey''
       [(''remote_dh'', debug_DhPublicKey (sk_remote_dh k)),
        (''message_number'', debug_word (sk_message_number k)),
        (''key'', debug_AeadKey (sk_key k))]"

definition debug_RatchetState :: "ratchet_state \<Rightarrow> string" where
  "debug_RatchetState st =
     debug_struct ''RatchetState''
       [(''session_id'', debug_bytes (rs_session_id st)),
        (''root_key'', debug_Secret (rs_root_key st)),
        (''sending_chain'', debug_Secret (rs_sending_chain st)),
        (''receiving_chain'', debug_Secret (rs_receiving_chain st)),
        (''dh_pair'', debug_DhKeyPair (rs_dh_pair st)),
        (''remote_dh'', debug_DhPublicKey (rs_remote_dh st)),
        (''previous_sending_chain_len'', debug_word (rs_previous_sending_chain_len st)),
        (''sending_count'', debug_word (rs_sending_count st)),
        (''receiving_count'', debug_word (rs_receiving_count st)),
        (''generation'', debug_word (rs_generation st)),
        (''suite'', debug_AeadSuite (rs_suite st)),
        (''skipped'', debug_list debug_SkippedMessageKey (rs_skipped st))]"

definition debug_StateSealKey :: "state_seal_key \<Rightarrow> string" where
  "debug_StateSealKey key = debug_tuple ''StateSealKey'' [debug_AeadKey (seal_key key)]"

section \<open>Error messages\<close>

fun MefError_display :: "mef_error \<Rightarrow> string" where
  "MefError_display AuthenticationFailed = ''authentication failed''"
| "MefError_display InvalidFrame = ''invalid frame''"
| "MefError_display UnsupportedSuite = ''unsupported cipher suite''"
| "MefError_display InvalidLength = ''invalid length''"
| "MefError_display NonContributoryKeyAgreement = ''non-contributory key agreement''"
| "MefError_display KeyDerivationFailed = ''key derivation failed''"
| "MefError_display RandomnessUnavailable = ''secure randomness unavailable''"
| "MefError_display CounterExhausted = ''message counter exhausted''"
| "MefError_display SkippedKeyLimitExceeded = ''skipped-message limit exceeded''"
| "MefError_display EnvelopeExpired = ''envelope expired''"
| "MefError_display ReplayDetected = ''replay detected''"
| "MefError_display MessageKeyConsumed = ''message key already consumed''"
| "MefError_display RatchetStateMismatch = ''ratchet state mismatch''"
| "MefError_display StateRollbackDetected = ''persisted state rollback detected''"
| "MefError_display InvalidState = ''invalid state transition''"

lemma error_messages_distinct: "MefError_display e = MefError_display e' \<longleftrightarrow> e = e'"
  by (cases e; cases e') simp_all

section \<open>The part of a value that is not secret\<close>

text \<open>Each function blanks every secret of its type, and nothing else.\<close>

definition redact_DhKeyPair :: "dh_key_pair \<Rightarrow> dh_key_pair" where
  "redact_DhKeyPair kp = kp\<lparr>kp_secret := DhSecretKey []\<rparr>"

definition redact_LocalIdentity :: "local_identity \<Rightarrow> local_identity" where
  "redact_LocalIdentity li =
     li\<lparr>li_signing := (li_signing li)\<lparr>ik_signing := []\<rparr>, li_dh := redact_DhKeyPair (li_dh li)\<rparr>"

definition redact_OneTimePrekey :: "one_time_prekey \<Rightarrow> one_time_prekey" where
  "redact_OneTimePrekey k = k\<lparr>otp_key := redact_DhKeyPair (otp_key k)\<rparr>"

definition redact_ResponderPrekeyMaterial :: "responder_material \<Rightarrow> responder_material" where
  "redact_ResponderPrekeyMaterial m =
     m\<lparr>rm_identity := redact_LocalIdentity (rm_identity m),
       rm_signed_prekey := redact_DhKeyPair (rm_signed_prekey m),
       rm_retired_signed_prekeys := map (map_prod id redact_DhKeyPair) (rm_retired_signed_prekeys m),
       rm_one_time_prekeys := map redact_OneTimePrekey (rm_one_time_prekeys m)\<rparr>"

definition redact_HybridResponderPrekeyMaterial :: "hybrid_material \<Rightarrow> hybrid_material" where
  "redact_HybridResponderPrekeyMaterial m =
     m\<lparr>hm_classical := redact_ResponderPrekeyMaterial (hm_classical m), hm_pq := (hm_pq m)\<lparr>mk_secret := []\<rparr>\<rparr>"

definition redact_AuthenticatedHandshake :: "authenticated_handshake \<Rightarrow> authenticated_handshake" where
  "redact_AuthenticatedHandshake h =
     h\<lparr>ah_root_secret := Secret [], ah_local_ratchet := redact_DhKeyPair (ah_local_ratchet h)\<rparr>"

definition redact_SkippedMessageKey :: "skipped_message_key \<Rightarrow> skipped_message_key" where
  "redact_SkippedMessageKey k = k\<lparr>sk_key := AeadKey []\<rparr>"

definition redact_RatchetState :: "ratchet_state \<Rightarrow> ratchet_state" where
  "redact_RatchetState st =
     st\<lparr>rs_root_key := Secret [], rs_sending_chain := Secret [], rs_receiving_chain := Secret [],
       rs_dh_pair := redact_DhKeyPair (rs_dh_pair st), rs_skipped := map redact_SkippedMessageKey (rs_skipped st)\<rparr>"

lemma debug_redacted_keys [simp]:
  "debug_DhKeyPair (redact_DhKeyPair kp) = debug_DhKeyPair kp"
  "debug_SkippedMessageKey (redact_SkippedMessageKey k) = debug_SkippedMessageKey k"
  "debug_OneTimePrekey (redact_OneTimePrekey entry) = debug_OneTimePrekey entry"
  "debug_LocalIdentity (redact_LocalIdentity li) = debug_LocalIdentity li"
  by (simp_all add: debug_DhKeyPair_def redact_DhKeyPair_def debug_DhSecretKey_def debug_SkippedMessageKey_def
      redact_SkippedMessageKey_def debug_AeadKey_def debug_OneTimePrekey_def redact_OneTimePrekey_def
      debug_LocalIdentity_def redact_LocalIdentity_def debug_IdentityKeyPair_def)

lemma debug_list_map [simp]: "debug_list f (map g xs) = debug_list (\<lambda>x. f (g x)) xs"
  by (simp add: debug_list_def comp_def)

lemma debug_redacted_states:
  "debug_ResponderPrekeyMaterial (redact_ResponderPrekeyMaterial m) = debug_ResponderPrekeyMaterial m"
  "debug_AuthenticatedHandshake (redact_AuthenticatedHandshake h) = debug_AuthenticatedHandshake h"
  "debug_RatchetState (redact_RatchetState st) = debug_RatchetState st"
  by (simp_all add: debug_ResponderPrekeyMaterial_def redact_ResponderPrekeyMaterial_def split_def
      debug_AuthenticatedHandshake_def redact_AuthenticatedHandshake_def debug_Secret_def
      debug_RatchetState_def redact_RatchetState_def)

lemma debug_redacted_hybrid:
  "debug_HybridResponderPrekeyMaterial (redact_HybridResponderPrekeyMaterial m) = debug_HybridResponderPrekeyMaterial m"
  by (simp add: debug_HybridResponderPrekeyMaterial_def redact_HybridResponderPrekeyMaterial_def
      debug_redacted_states debug_MlKem768KeyPair_def)

end
