(* ===== verification/Mef_Api.thy ===== *)
theory Mef_Api
  imports Mef_Persistence Mef_Envelope Mef_Hybrid
begin

text \<open>
  The public interface of the crate as a whole. A client can only make values of the crate's types
  with the \<open>pub\<close> functions, as the fields are private: \<open>obtainable\<close> has one rule for each of them that
  returns such a value or leaves one behind a \<open>&mut\<close> reference (there also when the call fails), with
  arbitrary bytes, numbers, times and random answers as its other arguments. A byte array of the
  source has its length as a premise. \<open>well_typed\<close> is what the types and the checks of the code
  promise of a value.
\<close>

section \<open>Values and their types\<close>

datatype api_value =
    AeadKeyV aead_key
  | SecretV secret
  | CiphertextV ciphertext
  | DhPublicV dh_public
  | DhSecretV dh_secret
  | DhPairV dh_key_pair
  | IdentityPublicV identity_public
  | IdentityPairV identity_key_pair
  | SignedPrekeyV signed_prekey
  | HeaderV frame_header
  | FrameV inner_frame
  | MailboxV mailbox_capability
  | TransportV transport_id
  | EnvelopeV outer_envelope
  | CacheV replay_cache
  | LocalIdentityV local_identity
  | IdentityV identity_dh_public
  | OneTimePrekeyV one_time_prekey_public
  | BundleV responder_bundle
  | MaterialV responder_material
  | MessageV initiator_handshake
  | HandshakeV authenticated_handshake
  | RatchetV ratchet_state
  | SealKeyV state_seal_key
  | MlKemPublicV mlkem_public_key
  | MlKemCiphertextV mlkem_ciphertext
  | MlKemPairV mlkem_key_pair
  | MlKemSharedV mlkem_shared_secret
  | HybridBundleV hybrid_bundle
  | HybridMaterialV hybrid_material
  | HybridMessageV hybrid_message

definition handshake_ok :: "primitives \<Rightarrow> authenticated_handshake \<Rightarrow> bool" where
  "handshake_ok P h \<longleftrightarrow>
     length (ah_session_id h) = 32 \<and> length (secret_bytes (ah_root_secret h)) = 32 \<and>
     key_pair_ok P (ah_local_ratchet h) \<and> length (dh_public_bytes (ah_remote_ratchet h)) = 32"

definition mlkem_pair_ok :: "primitives \<Rightarrow> mlkem_key_pair \<Rightarrow> bool" where
  "mlkem_pair_ok P kp \<longleftrightarrow>
     (\<exists>i. mlkem_keygen P i = Some (mk_secret kp)) \<and>
     mk_public kp = MlKem768PublicKey (mlkem_public P (mk_secret kp))"

fun well_typed :: "primitives \<Rightarrow> api_value \<Rightarrow> bool" where
  "well_typed P (AeadKeyV k) \<longleftrightarrow> length (aead_key_bytes k) = KEY_LEN"
| "well_typed P (SecretV s) \<longleftrightarrow> length (secret_bytes s) = KEY_LEN"
| "well_typed P (CiphertextV c) \<longleftrightarrow> ciphertext_ok c"
| "well_typed P (DhPublicV pk) \<longleftrightarrow> length (dh_public_bytes pk) = DH_KEY_LEN"
| "well_typed P (DhSecretV s) \<longleftrightarrow> length (dh_secret_bytes s) = DH_KEY_LEN"
| "well_typed P (DhPairV kp) \<longleftrightarrow> key_pair_ok P kp"
| "well_typed P (IdentityPublicV k) \<longleftrightarrow> length (identity_public_bytes k) = IDENTITY_KEY_LEN \<and> ed25519_key_ok P (identity_public_bytes k)"
| "well_typed P (IdentityPairV ik) \<longleftrightarrow> identity_pair_ok P ik"
| "well_typed P (SignedPrekeyV sp) \<longleftrightarrow> signed_prekey_ok sp"
| "well_typed P (HeaderV h) \<longleftrightarrow> header_ok h"
| "well_typed P (FrameV f) \<longleftrightarrow> frame_ok f"
| "well_typed P (MailboxV m) \<longleftrightarrow> length (mailbox_bytes m) = CAPABILITY_LEN"
| "well_typed P (TransportV i) \<longleftrightarrow> length (transport_bytes i) = TRANSPORT_ID_LEN"
| "well_typed P (EnvelopeV e) \<longleftrightarrow> envelope_ok e"
| "well_typed P (CacheV c) \<longleftrightarrow> cache_ok c"
| "well_typed P (LocalIdentityV li) \<longleftrightarrow> local_identity_ok P li"
| "well_typed P (IdentityV i) \<longleftrightarrow> identity_ok P i"
| "well_typed P (OneTimePrekeyV k) \<longleftrightarrow> length (dh_public_bytes (otpk_public k)) = DH_KEY_LEN"
| "well_typed P (BundleV b) \<longleftrightarrow> bundle_ok P b"
| "well_typed P (MaterialV m) \<longleftrightarrow> material_ok P m"
| "well_typed P (MessageV msg) \<longleftrightarrow> message_ok P msg"
| "well_typed P (HandshakeV h) \<longleftrightarrow> handshake_ok P h"
| "well_typed P (RatchetV st) \<longleftrightarrow> ratchet_ok P st"
| "well_typed P (SealKeyV k) \<longleftrightarrow> length (aead_key_bytes (seal_key k)) = KEY_LEN"
| "well_typed P (MlKemPublicV pk) \<longleftrightarrow> length (mlkem_public_bytes pk) = 1184 \<and> mlkem_key_ok P (mlkem_public_bytes pk)"
| "well_typed P (MlKemCiphertextV c) \<longleftrightarrow> length (mlkem_ciphertext_bytes c) = 1088"
| "well_typed P (MlKemPairV kp) \<longleftrightarrow> mlkem_pair_ok P kp"
| "well_typed P (MlKemSharedV z) \<longleftrightarrow> length (mlkem_shared_bytes z) = SHARED_KEY_LEN"
| "well_typed P (HybridBundleV b) \<longleftrightarrow> hybrid_bundle_ok P b"
| "well_typed P (HybridMaterialV m) \<longleftrightarrow> hybrid_material_ok P m"
| "well_typed P (HybridMessageV m) \<longleftrightarrow> hybrid_message_ok P m"

section \<open>What a client can obtain\<close>

inductive obtainable :: "primitives \<Rightarrow> api_value \<Rightarrow> bool" for P where
  key_from_bytes: "length bs = KEY_LEN \<Longrightarrow> obtainable P (AeadKeyV (AeadKey_from_bytes bs))"
| key_generate: "AeadKey_generate P r = (Ok k, r') \<Longrightarrow> obtainable P (AeadKeyV k)"
| key_derive: "derive_aead_key P salt label input = Ok k \<Longrightarrow> obtainable P (AeadKeyV k)"
| secret_from_bytes: "length bs = KEY_LEN \<Longrightarrow> obtainable P (SecretV (Secret_from_bytes bs))"
| secret_derive: "derive_secret P salt label input = Ok s \<Longrightarrow> obtainable P (SecretV s)"
| ciphertext_from_parts: "Ciphertext_from_parts suite nonce body = Ok c \<Longrightarrow> obtainable P (CiphertextV c)"
| ciphertext_seal: "obtainable P (AeadKeyV k) \<Longrightarrow>
    aead_seal P k suite aad pt r = (Ok c, r') \<Longrightarrow>
    obtainable P (CiphertextV c)"
| ciphertext_seal_with_nonce: "obtainable P (AeadKeyV k) \<Longrightarrow>
    seal_with_nonce P k suite nonce aad pt = Ok c \<Longrightarrow>
    obtainable P (CiphertextV c)"
| dh_public_from_bytes: "length bs = DH_KEY_LEN \<Longrightarrow> obtainable P (DhPublicV (DhPublicKey_from_bytes bs))"
| dh_public_of_secret: "obtainable P (DhSecretV s) \<Longrightarrow> obtainable P (DhPublicV (DhSecretKey_public_key P s))"
| dh_public_of_pair: "obtainable P (DhPairV kp) \<Longrightarrow> obtainable P (DhPublicV (DhKeyPair_public kp))"
| dh_secret_from_bytes: "length bs = DH_KEY_LEN \<Longrightarrow> obtainable P (DhSecretV (DhSecretKey_from_bytes bs))"
| dh_secret_generate: "DhSecretKey_generate P r = (Ok s, r') \<Longrightarrow> obtainable P (DhSecretV s)"
| dh_secret_of_pair: "obtainable P (DhPairV kp) \<Longrightarrow> obtainable P (DhSecretV (DhKeyPair_into_secret kp))"
| dh_pair_from_secret: "obtainable P (DhSecretV s) \<Longrightarrow> obtainable P (DhPairV (DhKeyPair_from_secret P s))"
| dh_pair_generate: "DhKeyPair_generate P r = (Ok kp, r') \<Longrightarrow> obtainable P (DhPairV kp)"
| identity_public_from_bytes: "length bs = IDENTITY_KEY_LEN \<Longrightarrow>
    IdentityPublicKey_from_bytes P bs = Ok k \<Longrightarrow>
    obtainable P (IdentityPublicV k)"
| identity_public_of_pair: "obtainable P (IdentityPairV ik) \<Longrightarrow>
    obtainable P (IdentityPublicV (IdentityKeyPair_public ik))"
| identity_pair_generate: "IdentityKeyPair_generate P r = (Ok ik, r') \<Longrightarrow> obtainable P (IdentityPairV ik)"
| identity_pair_from_seed: "length seed = IDENTITY_KEY_LEN \<Longrightarrow>
    obtainable P (IdentityPairV (IdentityKeyPair_from_seed P seed))"
| signed_prekey_from_parts: "obtainable P (DhPublicV pk) \<Longrightarrow>
    length signature = SIGNATURE_LEN \<Longrightarrow>
    obtainable P (SignedPrekeyV (SignedPrekey_from_parts i pk expires signature))"
| signed_prekey_issue: "obtainable P (IdentityPairV ik) \<Longrightarrow>
    obtainable P (DhPublicV pk) \<Longrightarrow>
    obtainable P (SignedPrekeyV (SignedPrekey_issue P ik i pk expires))"
| signed_prekey_public: "obtainable P (SignedPrekeyV sp) \<Longrightarrow> obtainable P (DhPublicV (SignedPrekey_public sp))"
| header_new: "length session = SESSION_ID_LEN \<Longrightarrow>
    length ratchet = RATCHET_PUBLIC_LEN \<Longrightarrow>
    obtainable P (HeaderV (FrameHeader_new kind session ratchet previous number))"
| header_of_frame: "obtainable P (FrameV f) \<Longrightarrow> obtainable P (HeaderV (InnerFrame_header f))"
| frame_seal: "obtainable P (AeadKeyV k) \<Longrightarrow>
    obtainable P (HeaderV h) \<Longrightarrow>
    InnerFrame_seal P k suite h pt r = (Ok f, r') \<Longrightarrow>
    obtainable P (FrameV f)"
| frame_from_ciphertext: "obtainable P (HeaderV h) \<Longrightarrow>
    obtainable P (CiphertextV c) \<Longrightarrow>
    InnerFrame_from_ciphertext h c = Ok f \<Longrightarrow>
    obtainable P (FrameV f)"
| frame_decode: "InnerFrame_decode bs = Ok f \<Longrightarrow> obtainable P (FrameV f)"
| frame_decode_prefix: "InnerFrame_decode_prefix bs = Ok (f, n) \<Longrightarrow> obtainable P (FrameV f)"
| mailbox_generate: "MailboxCapability_generate P r = (Ok m, r') \<Longrightarrow> obtainable P (MailboxV m)"
| mailbox_from_bytes: "length bs = CAPABILITY_LEN \<Longrightarrow> obtainable P (MailboxV (MailboxCapability_from_bytes bs))"
| mailbox_of_envelope: "obtainable P (EnvelopeV e) \<Longrightarrow> obtainable P (MailboxV (OuterEnvelope_mailbox e))"
| transport_generate: "TransportMessageId_generate P r = (Ok i, r') \<Longrightarrow> obtainable P (TransportV i)"
| transport_from_bytes: "length bs = TRANSPORT_ID_LEN \<Longrightarrow>
    obtainable P (TransportV (TransportMessageId_from_bytes bs))"
| transport_of_envelope: "obtainable P (EnvelopeV e) \<Longrightarrow> obtainable P (TransportV (OuterEnvelope_message_id e))"
| envelope_seal: "obtainable P (DhPublicV pk) \<Longrightarrow>
    obtainable P (MailboxV m) \<Longrightarrow>
    obtainable P (FrameV f) \<Longrightarrow>
    OuterEnvelope_seal P pk m expires f pad r = (Ok e, r') \<Longrightarrow>
    obtainable P (EnvelopeV e)"
| envelope_from_ciphertext: "obtainable P (MailboxV m) \<Longrightarrow>
    obtainable P (TransportV i) \<Longrightarrow>
    obtainable P (DhPublicV pk) \<Longrightarrow>
    obtainable P (CiphertextV c) \<Longrightarrow>
    OuterEnvelope_from_ciphertext m i expires pk c = Ok e \<Longrightarrow>
    obtainable P (EnvelopeV e)"
| envelope_decode: "OuterEnvelope_decode bs = Ok e \<Longrightarrow> obtainable P (EnvelopeV e)"
| frame_open_inner: "obtainable P (EnvelopeV e) \<Longrightarrow>
    obtainable P (DhSecretV s) \<Longrightarrow>
    OuterEnvelope_open_inner P e s now = Ok f \<Longrightarrow>
    obtainable P (FrameV f)"
| frame_open_inner_once: "obtainable P (EnvelopeV e) \<Longrightarrow>
    obtainable P (DhSecretV s) \<Longrightarrow>
    obtainable P (CacheV c) \<Longrightarrow>
    OuterEnvelope_open_inner_once P e s now c = (Ok f, c') \<Longrightarrow>
    obtainable P (FrameV f)"
| cache_open_inner_once: "obtainable P (EnvelopeV e) \<Longrightarrow>
    obtainable P (DhSecretV s) \<Longrightarrow>
    obtainable P (CacheV c) \<Longrightarrow>
    OuterEnvelope_open_inner_once P e s now c = (res, c') \<Longrightarrow>
    obtainable P (CacheV c')"
| cache_new: "ReplayCache_new capacity = Ok c \<Longrightarrow> obtainable P (CacheV c)"
| cache_insert: "obtainable P (CacheV c) \<Longrightarrow>
    obtainable P (TransportV i) \<Longrightarrow>
    check_and_insert i expires now c = (res, c') \<Longrightarrow>
    obtainable P (CacheV c')"
| local_generate: "LocalIdentity_generate P r = (Ok li, r') \<Longrightarrow> obtainable P (LocalIdentityV li)"
| identity_of_local: "obtainable P (LocalIdentityV li) \<Longrightarrow> obtainable P (IdentityV (LocalIdentity_public P li))"
| signing_identity: "obtainable P (IdentityV i) \<Longrightarrow>
    obtainable P (IdentityPublicV (IdentityDhPublic_signing_identity i))"
| dh_identity: "obtainable P (IdentityV i) \<Longrightarrow> obtainable P (DhPublicV (IdentityDhPublic_dh_identity i))"
| one_time_public: "obtainable P (OneTimePrekeyV k) \<Longrightarrow> obtainable P (DhPublicV (OneTimePrekeyPublic_public k))"
| bundle_decode: "ResponderPrekeyBundle_decode P bs = Ok b \<Longrightarrow> obtainable P (BundleV b)"
| bundle_of_material: "obtainable P (MaterialV m) \<Longrightarrow>
    obtainable P (BundleV (ResponderPrekeyMaterial_bundle P m))"
| bundle_identity: "obtainable P (BundleV b) \<Longrightarrow> obtainable P (IdentityV (ResponderPrekeyBundle_identity b))"
| bundle_signed_prekey: "obtainable P (BundleV b) \<Longrightarrow>
    obtainable P (SignedPrekeyV (ResponderPrekeyBundle_signed_prekey b))"
| bundle_one_time_prekey: "obtainable P (BundleV b) \<Longrightarrow>
    ResponderPrekeyBundle_one_time_prekey b = Some k \<Longrightarrow>
    obtainable P (OneTimePrekeyV k)"
| material_generate: "ResponderPrekeyMaterial_generate P i expires r = (Ok m, r') \<Longrightarrow>
    obtainable P (MaterialV m)"
| material_add: "obtainable P (MaterialV m) \<Longrightarrow>
    add_one_time_prekey P i m r = (res, m', r') \<Longrightarrow>
    obtainable P (MaterialV m')"
| material_rotate: "obtainable P (MaterialV m) \<Longrightarrow>
    rotate_signed_prekey P i expires m r = (res, m', r') \<Longrightarrow>
    obtainable P (MaterialV m')"
| material_retire: "obtainable P (MaterialV m) \<Longrightarrow>
    retire_signed_prekey i m = (res, m') \<Longrightarrow>
    obtainable P (MaterialV m')"
| material_accept: "obtainable P (MaterialV m) \<Longrightarrow>
    obtainable P (MessageV msg) \<Longrightarrow>
    handshake_accept P m msg = (res, m') \<Longrightarrow>
    obtainable P (MaterialV m')"
| message_decode: "InitiatorHandshake_decode P bs = Ok msg \<Longrightarrow> obtainable P (MessageV msg)"
| message_initiate: "obtainable P (LocalIdentityV li) \<Longrightarrow>
    obtainable P (BundleV b) \<Longrightarrow>
    handshake_initiate P li b now r = (Ok (msg, h), r') \<Longrightarrow>
    obtainable P (MessageV msg)"
| message_identity: "obtainable P (MessageV msg) \<Longrightarrow>
    obtainable P (IdentityV (InitiatorHandshake_initiator_identity msg))"
| message_ephemeral: "obtainable P (MessageV msg) \<Longrightarrow>
    obtainable P (DhPublicV (InitiatorHandshake_initiator_ephemeral msg))"
| handshake_of_initiate: "obtainable P (LocalIdentityV li) \<Longrightarrow>
    obtainable P (BundleV b) \<Longrightarrow>
    handshake_initiate P li b now r = (Ok (msg, h), r') \<Longrightarrow>
    obtainable P (HandshakeV h)"
| handshake_of_accept: "obtainable P (MaterialV m) \<Longrightarrow>
    obtainable P (MessageV msg) \<Longrightarrow>
    handshake_accept P m msg = (Ok h, m') \<Longrightarrow>
    obtainable P (HandshakeV h)"
| ratchet_new: "obtainable P (HandshakeV h) \<Longrightarrow>
    from_authenticated_handshake P h = Ok st \<Longrightarrow>
    obtainable P (RatchetV st)"
| ratchet_new_with_suite: "obtainable P (HandshakeV h) \<Longrightarrow>
    from_authenticated_handshake_with_suite P h suite = Ok st \<Longrightarrow>
    obtainable P (RatchetV st)"
| ratchet_encrypt: "obtainable P (RatchetV st) \<Longrightarrow>
    RatchetState_encrypt P kind pt st r = (res, st', r') \<Longrightarrow>
    obtainable P (RatchetV st')"
| frame_encrypt: "obtainable P (RatchetV st) \<Longrightarrow>
    RatchetState_encrypt P kind pt st r = (Ok f, st', r') \<Longrightarrow>
    obtainable P (FrameV f)"
| ratchet_decrypt: "obtainable P (RatchetV st) \<Longrightarrow>
    obtainable P (FrameV f) \<Longrightarrow>
    RatchetState_decrypt P f st r = (res, st', r') \<Longrightarrow>
    obtainable P (RatchetV st')"
| ratchet_rotate: "obtainable P (RatchetV st) \<Longrightarrow>
    rotate_sending_ratchet P st r = (res, st', r') \<Longrightarrow>
    obtainable P (RatchetV st')"
| ratchet_public_key: "obtainable P (RatchetV st) \<Longrightarrow> obtainable P (DhPublicV (current_public_key st))"
| seal_key_from_bytes: "length bs = KEY_LEN \<Longrightarrow> obtainable P (SealKeyV (StateSealKey_from_bytes bs))"
| ratchet_restore: "obtainable P (SealKeyV key) \<Longrightarrow>
    restore_state P key ctx minimum blob = Ok st \<Longrightarrow>
    obtainable P (RatchetV st)"
| mlkem_generate: "MlKem768KeyPair_generate P r = (Ok kp, r') \<Longrightarrow> obtainable P (MlKemPairV kp)"
| mlkem_public: "obtainable P (MlKemPairV kp) \<Longrightarrow> obtainable P (MlKemPublicV (MlKem768KeyPair_public kp))"
| mlkem_public_key: "obtainable P (MlKemPairV kp) \<Longrightarrow>
    obtainable P (MlKemPublicV (MlKem768KeyPair_public_key kp))"
| mlkem_public_from_bytes: "MlKem768PublicKey_from_bytes P bs = Ok pk \<Longrightarrow> obtainable P (MlKemPublicV pk)"
| mlkem_ciphertext_from_bytes: "MlKem768Ciphertext_from_bytes bs = Ok c \<Longrightarrow> obtainable P (MlKemCiphertextV c)"
| mlkem_ciphertext_encapsulate: "obtainable P (MlKemPublicV pk) \<Longrightarrow>
    MlKem768PublicKey_encapsulate P pk r = (Ok (c, z), r') \<Longrightarrow>
    obtainable P (MlKemCiphertextV c)"
| mlkem_shared_encapsulate: "obtainable P (MlKemPublicV pk) \<Longrightarrow>
    MlKem768PublicKey_encapsulate P pk r = (Ok (c, z), r') \<Longrightarrow>
    obtainable P (MlKemSharedV z)"
| mlkem_shared_decapsulate: "obtainable P (MlKemPairV kp) \<Longrightarrow>
    obtainable P (MlKemCiphertextV c) \<Longrightarrow>
    MlKem768KeyPair_decapsulate P kp c = Ok z \<Longrightarrow>
    obtainable P (MlKemSharedV z)"
| hybrid_bundle_decode: "HybridResponderPrekeyBundle_decode P bs = Ok b \<Longrightarrow> obtainable P (HybridBundleV b)"
| hybrid_bundle_of_material: "obtainable P (HybridMaterialV m) \<Longrightarrow>
    HybridResponderPrekeyMaterial_bundle P m = Ok b \<Longrightarrow>
    obtainable P (HybridBundleV b)"
| hybrid_bundle_classical: "obtainable P (HybridBundleV b) \<Longrightarrow>
    obtainable P (BundleV (HybridResponderPrekeyBundle_classical b))"
| hybrid_bundle_pq_public: "obtainable P (HybridBundleV b) \<Longrightarrow>
    obtainable P (MlKemPublicV (HybridResponderPrekeyBundle_pq_public b))"
| hybrid_material_generate: "HybridResponderPrekeyMaterial_generate P i expires r = (Ok m, r') \<Longrightarrow>
    obtainable P (HybridMaterialV m)"
| hybrid_material_add: "obtainable P (HybridMaterialV m) \<Longrightarrow>
    hybrid_add_one_time_prekey P i m r = (res, m', r') \<Longrightarrow>
    obtainable P (HybridMaterialV m')"
| hybrid_material_accept: "obtainable P (HybridMaterialV m) \<Longrightarrow>
    obtainable P (HybridMessageV msg) \<Longrightarrow>
    hybrid_accept P m msg = (res, m') \<Longrightarrow>
    obtainable P (HybridMaterialV m')"
| hybrid_handshake_of_accept: "obtainable P (HybridMaterialV m) \<Longrightarrow>
    obtainable P (HybridMessageV msg) \<Longrightarrow>
    hybrid_accept P m msg = (Ok h, m') \<Longrightarrow>
    obtainable P (HandshakeV h)"
| hybrid_message_decode: "HybridInitiatorHandshake_decode P bs = Ok hm \<Longrightarrow> obtainable P (HybridMessageV hm)"
| hybrid_message_initiate: "obtainable P (LocalIdentityV li) \<Longrightarrow>
    obtainable P (HybridBundleV b) \<Longrightarrow>
    hybrid_initiate P li b now r = (Ok (hm, h), r') \<Longrightarrow>
    obtainable P (HybridMessageV hm)"
| hybrid_message_classical: "obtainable P (HybridMessageV hm) \<Longrightarrow>
    obtainable P (MessageV (HybridInitiatorHandshake_classical hm))"
| hybrid_handshake_of_initiate: "obtainable P (LocalIdentityV li) \<Longrightarrow>
    obtainable P (HybridBundleV b) \<Longrightarrow>
    hybrid_initiate P li b now r = (Ok (hm, h), r') \<Longrightarrow>
    obtainable P (HandshakeV h)"

section \<open>Calls keep the types\<close>

lemma initiate_handshake_ok:
  assumes P: "sizes_ok P" and b: "bundle_ok P b" and init: "handshake_initiate P li b now r = (Inr (msg, h), r')"
  shows "handshake_ok P h"
proof -
  obtain rat where "DhKeyPair_generate P (Suc r) = (Ok rat, r')" "ah_local_ratchet h = rat"
    "ah_remote_ratchet h = sp_public (rb_signed_prekey b)"
    using initiate_Ok [OF init] by (metis authenticated_handshake.select_convs(4,5))
  with matching_lengths [OF P init] DhKeyPair_generate_pair_ok [OF P] b show ?thesis
    by (auto simp: handshake_ok_def bundle_ok_def signed_prekey_ok_def)
qed

lemma accept_signed_prekey_held:
  assumes "accept_signed_prekey P m i = Ok kp"
  obtains sp key where "(sp, key) \<in> set (signed_entries m)"
    "kp = DhKeyPair_from_secret P (DhSecretKey (DhKeyPair_secret_bytes key))"
proof (cases "i = sp_key_id (rm_signed_record m)")
  case True
  then show thesis
    using assms that [of "rm_signed_record m" "rm_signed_prekey m"]
    by (simp add: accept_signed_prekey_def signed_entries_def)
next
  case False
  with assms obtain sp key where f: "find (\<lambda>(record, _). sp_key_id record = i) (rm_retired_signed_prekeys m) = Some (sp, key)"
    and kp: "kp = DhKeyPair_from_secret P (DhSecretKey (DhKeyPair_secret_bytes key))"
    by (auto simp: accept_signed_prekey_def bind_res_Ok ok_or_Ok)
  from f have "(sp, key) \<in> set (rm_retired_signed_prekeys m)" by (metis find_Some_iff nth_mem)
  then have "(sp, key) \<in> set (signed_entries m)" by (simp add: signed_entries_def)
  then show thesis using kp by (rule that)
qed

lemma accept_signed_prekey_pair_ok:
  assumes "material_ok P m" "accept_signed_prekey P m i = Ok kp"
  shows "key_pair_ok P kp"
proof -
  obtain sp key where key: "(sp, key) \<in> set (signed_entries m)"
    and kp: "kp = DhKeyPair_from_secret P (DhSecretKey (DhKeyPair_secret_bytes key))"
    by (rule accept_signed_prekey_held [OF assms(2)])
  from key assms(1) have "prekey_entry_ok P (rm_identity m) (sp, key)" by (simp add: material_ok_def)
  then have "key_pair_ok P key" by (simp add: prekey_entry_ok_def)
  then show ?thesis by (simp add: kp)
qed

lemma accept_ratchets:
  assumes "handshake_accept P m msg = (Inr h, m')"
  shows "accept_signed_prekey P m (ih_signed_prekey_id msg) = Ok (ah_local_ratchet h)"
    "ah_remote_ratchet h = ih_initiator_ratchet msg"
proof -
  show "accept_signed_prekey P m (ih_signed_prekey_id msg) = Ok (ah_local_ratchet h)"
    using assms by (fastforce simp: handshake_accept_def Let_def bind_res_Ok split: sum.splits prod.splits)
  show "ah_remote_ratchet h = ih_initiator_ratchet msg"
    using assms by (fastforce simp: handshake_accept_def Let_def bind_res_Ok split: sum.splits prod.splits)
qed

lemma accept_handshake_ok:
  assumes P: "sizes_ok P" and m: "material_ok P m" and msg: "message_ok P msg"
    and run: "handshake_accept P m msg = (Inr h, m')"
  shows "handshake_ok P h"
  using accept_signed_prekey_pair_ok [OF m] accept_ratchets [OF run] accept_lengths(1,2) [OF P run] msg
  by (auto simp: handshake_ok_def message_ok_def)

lemma mix_handshake_ok:
  assumes "sizes_ok P" "handshake_ok P h" "mix_ml_kem768 P h z = Ok h'"
  shows "handshake_ok P h'"
  using assms by (auto simp: mix_ml_kem768_def Let_def bind_res_Ok handshake_ok_def
      dest: blake3_id_length derive_secret_length)

lemma encapsulate_typed:
  assumes "mlkem_sizes_ok P" "MlKem768PublicKey_encapsulate P pk r = (Ok (c, z), r')"
  shows "length (mlkem_ciphertext_bytes c) = 1088" "length (mlkem_shared_bytes z) = 32"
proof -
  from assms(2) obtain rnd where run: "(let (ct, z') = mlkem_encapsulate P (mlkem_public_bytes pk) rnd in
      io_lift (bind_res (shared_secret_from_slice z') (\<lambda>secret. Ok (MlKem768Ciphertext ct, secret)))) (Suc r) =
      (Inr (c, z), r')"
    by (auto simp: MlKem768PublicKey_encapsulate_def io_bind_Ok fill_secure_def ok_or_Ok)
  obtain ct z' where "mlkem_encapsulate P (mlkem_public_bytes pk) rnd = (ct, z')" by fastforce
  moreover from this run have "c = MlKem768Ciphertext ct" "z = MlKem768SharedSecret z'"
    by (auto simp: bind_res_Ok res_iff)
  ultimately show "length (mlkem_ciphertext_bytes c) = 1088" "length (mlkem_shared_bytes z) = 32"
    using assms(1) by (auto simp: mlkem_sizes_ok_def)
qed

lemma hybrid_initiate_typed:
  assumes P: "sizes_ok P" "ed25519_ok P" "mlkem_ok P" and li: "local_identity_ok P li" and b: "hybrid_bundle_ok P b"
    and run: "hybrid_initiate P li b now r = (Ok (hm, h), r')"
  shows "hybrid_message_ok P hm" "handshake_ok P h"
proof -
  from run obtain cmsg ch r1 c z where
    cl: "handshake_initiate P li (hb_classical b) now r = (Inr (cmsg, ch), r1)"
    and enc: "MlKem768PublicKey_encapsulate P (hb_pq_public b) r1 = (Inr (c, z), r')"
    and mixed: "mix_ml_kem768 P ch (mlkem_shared_bytes z) = Inr h"
    and hm: "hm = \<lparr>hi_classical = cmsg, hi_pq_ciphertext = c\<rparr>"
    by (auto simp: hybrid_initiate_def io_bind_Ok io_lift_def)
  have "mlkem_sizes_ok P" using P(3) by (simp add: mlkem_ok_def)
  from encapsulate_typed [OF this enc] initiate_message_ok [OF P(1,2) li cl]
  show "hybrid_message_ok P hm" by (simp add: hybrid_message_ok_def hm)
  have "bundle_ok P (hb_classical b)" using b by (simp add: hybrid_bundle_ok_def)
  from mix_handshake_ok [OF P(1) initiate_handshake_ok [OF P(1) this cl] mixed] show "handshake_ok P h" .
qed

lemma hybrid_accept_handshake_ok:
  assumes "sizes_ok P" "hybrid_material_ok P m" "hybrid_message_ok P msg" "hybrid_accept P m msg = (Ok h, m')"
  shows "handshake_ok P h"
  using assms accept_handshake_ok [OF assms(1), of "hm_classical m" "hi_classical msg"] mix_handshake_ok [OF assms(1)]
  by (auto simp: hybrid_accept_def hybrid_material_ok_def hybrid_message_ok_def bind_res_Ok
      split: prod.splits sum.splits)

lemma hybrid_add_ok:
  assumes "sizes_ok P" "hybrid_material_ok P m" "hybrid_add_one_time_prekey P i m r = (res, m', r')"
  shows "hybrid_material_ok P m'"
  using assms add_one_time_prekey_ok [OF assms(1), of "hm_classical m" i r]
  by (auto simp: hybrid_add_one_time_prekey_def hybrid_material_ok_def split: prod.splits)

lemma legacy_state_ok:
  assumes "decode_state P bs g 1 = Ok st"
  shows "ratchet_ok P st"
proof -
  have len: "206 \<le> length bs" using assms decode_state_short(2) [of bs P g] by (auto simp: not_less [symmetric])
  define n where "n = unat (from_be_bytes (sub_list 204 206 bs) :: u16)"
  from assms len obtain es where n: "n \<le> MAX_SKIPPED_KEYS" "length bs = 206 + 68 * n"
    and es: "decode_entries bs 206 [] [0 ..< n] = Ok es" and st: "st = state_record P bs g XChaCha20Poly1305 es"
    by (auto simp: decode_state_v1 bind_res_Ok Let_def n_def not_less split: if_splits)
  from decode_entries_sound [of bs 206 "[]" 0 n es] n es
  have "length es = n" "\<forall>e \<in> set es. skipped_ok e" by auto
  with n len show ?thesis by (simp add: ratchet_ok_def st state_record_def)
qed

lemma restore_ratchet_ok:
  assumes "aeads_ok P" "restore_state P key ctx minimum blob = Ok st"
  shows "ratchet_ok P st"
proof -
  obtain v g pt where "v = 1 \<or> v = 2" "decode_state P pt g v = Ok st"
    by (rule restore_state_sound [OF assms])
  with legacy_state_ok decode_state_sound(1) [of P pt g st] show ?thesis
    by (auto simp: fixed_lens snapshot_ok_def)
qed

lemma open_inner_frame_ok:
  "OuterEnvelope_open_inner P e s now = Ok f \<Longrightarrow> frame_ok f"
  by (auto simp: OuterEnvelope_open_inner_def bind_res_Ok decode_prefix_Ok split: if_splits prod.splits)

lemma open_once_typed:
  assumes "OuterEnvelope_open_inner_once P e s now c = (res, c')"
  shows "cache_ok c \<Longrightarrow> cache_ok c'" "res = Ok f \<Longrightarrow> frame_ok f"
proof -
  show "cache_ok c'" if "cache_ok c"
    using open_once_cache [of P e s now c] assms check_and_insert_ok [OF that]
    by (auto simp: that split: sum.splits)
  show "res = Ok f \<Longrightarrow> frame_ok f"
    using assms open_inner_frame_ok by (auto simp: open_once_Ok)
qed

lemma published_hybrid_ok:
  assumes "sizes_ok P" "ed25519_ok P" "mlkem_ok P" "hybrid_material_ok P m" "HybridResponderPrekeyMaterial_bundle P m = Ok b"
  shows "hybrid_bundle_ok P b"
  by (rule hybrid_bundle_published(1) [OF assms])

text \<open>One call at a time, for the calls whose result is not typed by a lemma of its component.\<close>

lemma key_calls_typed:
  assumes "sizes_ok P"
  shows "AeadKey_generate P r = (Ok k, r') \<Longrightarrow> length (aead_key_bytes k) = 32"
    "DhSecretKey_generate P r = (Ok s, r') \<Longrightarrow> length (dh_secret_bytes s) = 32"
    "length (dh_public_bytes (DhSecretKey_public_key P s)) = 32"
    "IdentityKeyPair_generate P r = (Ok ik, r') \<Longrightarrow> identity_pair_ok P ik"
    "MailboxCapability_generate P r = (Ok m, r') \<Longrightarrow> length (mailbox_bytes m) = 32"
    "TransportMessageId_generate P r = (Ok i, r') \<Longrightarrow> length (transport_bytes i) = 16"
  using assms
  by (auto simp: AeadKey_generate_def fill_secure_def ok_or_Ok DhSecretKey_generate_def DhSecretKey_public_key_def
      IdentityKeyPair_generate_Ok MailboxCapability_generate_def TransportMessageId_generate_def CAPABILITY_LEN_def
      TRANSPORT_ID_LEN_def io_bind_Ok random_bytes_Ok dest: sizes_okD)

lemma identity_calls_typed:
  assumes "ed25519_ok P" "sizes_ok P"
  shows "identity_pair_ok P ik \<Longrightarrow> length (identity_public_bytes (ik_public ik)) = 32"
    "identity_pair_ok P ik \<Longrightarrow> ed25519_key_ok P (identity_public_bytes (ik_public ik))"
    "length (dh_public_bytes pk) = 32 \<Longrightarrow> signed_prekey_ok (SignedPrekey_issue P ik i pk t)"
  using ed25519_okD(1) [OF assms(1)] assms(2)
  by (auto simp: identity_pair_ok_def sizes_okD signed_prekey_ok_def SignedPrekey_issue_def
      IdentityKeyPair_sign_prekey_def)

lemma mlkem_calls_typed:
  assumes "mlkem_ok P"
  shows "MlKem768KeyPair_generate P r = (Ok kp, r') \<Longrightarrow> mlkem_pair_ok P kp"
    "mlkem_pair_ok P kp \<Longrightarrow> length (mlkem_public_bytes (mk_public kp)) = 1184"
    "mlkem_pair_ok P kp \<Longrightarrow> mlkem_key_ok P (mlkem_public_bytes (mk_public kp))"
    "MlKem768KeyPair_decapsulate P kp c = Ok z \<Longrightarrow> length (mlkem_shared_bytes z) = 32"
    "MlKem768PublicKey_encapsulate P pk r = (Ok (c, z), r') \<Longrightarrow> length (mlkem_ciphertext_bytes c) = 1088"
    "MlKem768PublicKey_encapsulate P pk r = (Ok (c, z), r') \<Longrightarrow> length (mlkem_shared_bytes z) = 32"
  using assms encapsulate_typed [of P pk r c z r'] by (auto simp: MlKem768KeyPair_generate_def mlkem_pair_ok_def mlkem_ok_def mlkem_sizes_ok_def
      MlKem768KeyPair_decapsulate_def res_iff split: option.splits)

lemma constructed_typed:
  "header_ok h \<Longrightarrow> ciphertext_ok c \<Longrightarrow> InnerFrame_from_ciphertext h c = Ok f \<Longrightarrow> frame_ok f"
  "length (mailbox_bytes m) = 32 \<Longrightarrow> length (transport_bytes i) = 16 \<Longrightarrow> length (dh_public_bytes pk) = 32 \<Longrightarrow>
     ciphertext_ok c \<Longrightarrow> OuterEnvelope_from_ciphertext m i t pk c = Ok e \<Longrightarrow> envelope_ok e"
  by (auto simp: InnerFrame_from_ciphertext_Ok frame_ok_def OuterEnvelope_from_ciphertext_def bind_res_Ok
      envelope_ok_def split: if_splits)

lemma ratchet_calls_typed:
  assumes "sizes_ok P" "aeads_ok P" "ratchet_ok P st"
  shows "length (dh_public_bytes (current_public_key st)) = 32"
    "RatchetState_encrypt P kind pt st r = (Ok f, st', r') \<Longrightarrow> frame_ok f"
proof -
  show pk: "length (dh_public_bytes (current_public_key st)) = 32"
    using assms by (simp add: current_public_key_def ratchet_ok_def)
  assume "RatchetState_encrypt P kind pt st r = (Ok f, st', r')"
  then show "frame_ok f"
  proof (cases rule: encrypt_cases)
    case (sent f' c k n)
    have "header_ok (FrameHeader_new kind (rs_session_id st) (dh_public_bytes (kp_public (rs_dh_pair st)))
        (rs_previous_sending_chain_len st) (rs_sending_count st))"
      using assms(3) pk by (simp add: header_ok_def ratchet_ok_def current_public_key_def)
    from InnerFrame_seal_frame(1) [OF assms(2) this sent(3)] sent(1) show ?thesis by simp
  qed simp_all
qed

lemma handshake_ratchet_ok:
  assumes "sizes_ok P"
  shows "from_authenticated_handshake_with_suite P h suite = Ok st \<Longrightarrow> handshake_ok P h \<Longrightarrow> ratchet_ok P st"
    "from_authenticated_handshake P h = Ok st \<Longrightarrow> handshake_ok P h \<Longrightarrow> ratchet_ok P st"
  using from_handshake_ok [OF assms] by (auto simp: handshake_ok_def from_authenticated_handshake_def)

text \<open>What an accessor returns, and the results of the checked constructors.\<close>

lemma accessor_types:
  "frame_ok f \<Longrightarrow> header_ok (if_header f)"
  "key_pair_ok P kp \<Longrightarrow> length (dh_secret_bytes (kp_secret kp)) = 32"
  "signed_prekey_ok sp \<Longrightarrow> length (dh_public_bytes (sp_public sp)) = 32"
  "envelope_ok e \<Longrightarrow> length (mailbox_bytes (oe_mailbox e)) = 32"
  "envelope_ok e \<Longrightarrow> length (transport_bytes (oe_message_id e)) = 16"
  "identity_ok P i \<Longrightarrow> length (identity_public_bytes (id_signing i)) = 32"
  "identity_ok P i \<Longrightarrow> ed25519_key_ok P (identity_public_bytes (id_signing i))"
  "identity_ok P i \<Longrightarrow> length (dh_public_bytes (id_dh i)) = 32"
  "bundle_ok P b \<Longrightarrow> identity_ok P (rb_identity b)"
  "bundle_ok P b \<Longrightarrow> signed_prekey_ok (rb_signed_prekey b)"
  "bundle_ok P b \<Longrightarrow> rb_one_time_prekey b = Some k \<Longrightarrow> length (dh_public_bytes (otpk_public k)) = 32"
  "message_ok P msg \<Longrightarrow> identity_ok P (ih_initiator_identity msg)"
  "message_ok P msg \<Longrightarrow> length (dh_public_bytes (ih_initiator_ephemeral msg)) = 32"
  "hybrid_message_ok P hm \<Longrightarrow> message_ok P (hi_classical hm)"
  "hybrid_bundle_ok P hb \<Longrightarrow> bundle_ok P (hb_classical hb)"
  "hybrid_bundle_ok P hb \<Longrightarrow> length (mlkem_public_bytes (hb_pq_public hb)) = 1184"
  "hybrid_bundle_ok P hb \<Longrightarrow> mlkem_key_ok P (mlkem_public_bytes (hb_pq_public hb))"
  using identity_ok_key [of P i]
  by (auto simp: frame_ok_def key_pair_ok_def signed_prekey_ok_def envelope_ok_def identity_ok_def bundle_ok_def
      message_ok_def hybrid_message_ok_def hybrid_bundle_ok_def)

lemma constructor_types:
  "length pk = 32 \<Longrightarrow> length g = 64 \<Longrightarrow>
     signed_prekey_ok \<lparr>sp_key_id = i, sp_public = DhPublicKey pk, sp_expires_at_unix = t, sp_signature = g\<rparr>"
  "length a = 32 \<Longrightarrow> length b = 32 \<Longrightarrow> header_ok (FrameHeader_new kind a b previous number)"
  "MlKem768Ciphertext_from_bytes bs = Ok c \<Longrightarrow> length (mlkem_ciphertext_bytes c) = 1088"
  "InnerFrame_decode bs = Ok f \<Longrightarrow> frame_ok f"
  "InnerFrame_decode_prefix bs = Ok (f, n) \<Longrightarrow> frame_ok f"
  by (auto simp: signed_prekey_ok_def header_ok_def MlKem768Ciphertext_from_bytes_def InnerFrame_decode_Ok
      decode_prefix_Ok split: if_splits)

text \<open>Type soundness of the interface: every value a client can obtain is well typed.\<close>

theorem obtainable_typed:
  assumes P: "sizes_ok P" "aeads_ok P" "ed25519_ok P" "mlkem_ok P"
  shows "obtainable P v \<Longrightarrow> well_typed P v"
proof (induction rule: obtainable.induct)
  case (envelope_seal pk m f expires pad r e r')
  from envelope_seal.IH have "frame_ok f" "length (mailbox_bytes m) = 32" by (simp_all add: CAPABILITY_LEN_def)
  from seal_envelope [OF this P(1) envelope_seal.hyps(4)] show ?case by (metis well_typed.simps(14))
next
  case (signed_prekey_from_parts pk signature i expires)
  then show ?case by (simp add: signed_prekey_ok_def)
next
  case (cache_insert c i expires now c' res)
  then show ?case using check_and_insert_ok [of c i expires now] by simp
next
  case (identity_of_local li)
  then show ?case using local_identity_public_ok [OF P(1,3)] by simp
next
  case (bundle_of_material m)
  then show ?case using published_bundle_ok [OF P(1,3)] by simp
next
  case (ratchet_decrypt st f r res st' r')
  then have "ratchet_ok P st" "header_ok (if_header f)" by (simp_all add: accessor_types)
  from decrypt_ratchet_ok [OF P(1) this ratchet_decrypt.hyps(3)] show ?case by simp
next
  case (dh_public_of_pair kp)
  then show ?case using key_pair_public_length [OF P(1)] by simp
qed (auto simp: P accessor_types constructor_types CAPABILITY_LEN_def TRANSPORT_ID_LEN_def SHARED_KEY_LEN_def
    from_parts_Ok seal_with_nonce_Ok key_from_bytes_Ok key_calls_typed [OF P(1)] identity_calls_typed [OF P(3,1)]
    mlkem_calls_typed [OF P(4)] derive_secret_length [OF P(1)] derive_aead_key_length [OF P(1)]
    outer.dec_iff pq_from_bytes_Ok ratchet_calls_typed [OF P(1,2)] StateSealKey_from_bytes_def
    message_decode_sound bundle_decode_sound hybrid_bundle_decode_sound hybrid_message_decode_sound
  dest: aead_seal_ciphertext DhKeyPair_generate_pair_ok [OF P(1)] InnerFrame_seal_frame(1) [OF P(2)]
    constructed_typed open_inner_frame_ok open_once_typed ReplayCache_new_ok LocalIdentity_generate_Ok [OF P(1)]
    material_generate_ok [OF P(1)] add_one_time_prekey_ok [OF P(1)] rotate_signed_prekey_ok [OF P(1)]
    retire_signed_prekey_ok accept_material_ok initiate_message_ok [OF P(1,3)] initiate_handshake_ok [OF P(1)]
    accept_handshake_ok [OF P(1)] handshake_ratchet_ok [OF P(1)] encrypt_ratchet_ok [OF P(1)]
    rotate_ratchet_ok [OF P(1)] restore_ratchet_ok [OF P(2)]
    hybrid_generate_ok [OF P(1)] hybrid_accept_ok hybrid_add_ok [OF P(1)] hybrid_accept_handshake_ok [OF P(1)]
    hybrid_initiate_typed [OF P(1,3,4)] published_hybrid_ok [OF P(1,3,4)]
    mlkem_calls_typed(5,6) [OF P(4)])

text \<open>Hence what a client can obtain has an encoding, from which it decodes.\<close>

lemma obtainable_encodes:
  assumes P: "sizes_ok P" "aeads_ok P" "ed25519_ok P" "mlkem_ok P"
  shows "obtainable P (FrameV f) \<Longrightarrow> \<exists>bs. InnerFrame_encode f = Ok bs \<and> InnerFrame_decode bs = Ok f"
    "obtainable P (EnvelopeV e) \<Longrightarrow> \<exists>bs. OuterEnvelope_encode e = Ok bs \<and> OuterEnvelope_decode bs = Ok e"
    "obtainable P (MessageV msg) \<Longrightarrow> InitiatorHandshake_decode P (InitiatorHandshake_encode msg) = Ok msg"
    "obtainable P (BundleV b) \<Longrightarrow> ResponderPrekeyBundle_decode P (ResponderPrekeyBundle_encode b) = Ok b"
    "obtainable P (HybridMessageV hm) \<Longrightarrow> HybridInitiatorHandshake_decode P (HybridInitiatorHandshake_encode hm) = Ok hm"
    "obtainable P (HybridBundleV hb) \<Longrightarrow> HybridResponderPrekeyBundle_decode P (HybridResponderPrekeyBundle_encode hb) = Ok hb"
proof -
  note typed = obtainable_typed [OF P]
  show "obtainable P (FrameV f) \<Longrightarrow> \<exists>bs. InnerFrame_encode f = Ok bs \<and> InnerFrame_decode bs = Ok f"
    using typed [of "FrameV f"] by (auto simp: InnerFrame_decode_Ok InnerFrame_encode_Ok)
  show "obtainable P (EnvelopeV e) \<Longrightarrow> \<exists>bs. OuterEnvelope_encode e = Ok bs \<and> OuterEnvelope_decode bs = Ok e"
    using typed [of "EnvelopeV e"] by (auto simp: outer.dec_iff OuterEnvelope_encode_Ok)
qed (use obtainable_typed [OF P, of "MessageV msg"] obtainable_typed [OF P, of "BundleV b"]
    obtainable_typed [OF P, of "HybridMessageV hm"] obtainable_typed [OF P, of "HybridBundleV hb"] in
    \<open>simp_all add: message_decode_encode bundle_decode_encode hybrid_message_decode_encode hybrid_bundle_decode_encode\<close>)

section \<open>How a call can fail\<close>

text \<open>One rule for each public function that returns a result, whatever its arguments.\<close>

inductive call_fails :: "primitives \<Rightarrow> failure \<Rightarrow> bool" for P where
  AeadSuite_from_id_fails: "AeadSuite_from_id value = Inl failure \<Longrightarrow> call_fails P failure"
| Ciphertext_from_parts_fails: "Ciphertext_from_parts suite nonce body = Inl failure \<Longrightarrow> call_fails P failure"
| aead_seal_fails: "aead_seal P k suite aad pt r = (Inl failure, rest) \<Longrightarrow> call_fails P failure"
| seal_with_nonce_fails: "seal_with_nonce P k suite nonce aad pt = Inl failure \<Longrightarrow> call_fails P failure"
| aead_open_fails: "aead_open P k c aad = Inl failure \<Longrightarrow> call_fails P failure"
| AeadKey_generate_fails: "AeadKey_generate P r = (Inl failure, rest) \<Longrightarrow> call_fails P failure"
| derive_secret_fails: "derive_secret P salt label input = Inl failure \<Longrightarrow> call_fails P failure"
| derive_aead_key_fails: "derive_aead_key P salt label input = Inl failure \<Longrightarrow> call_fails P failure"
| blake3_id_fails: "blake3_id P label parts = Inl failure \<Longrightarrow> call_fails P failure"
| random_bytes_fails: "random_bytes P n r = (Inl failure, rest) \<Longrightarrow> call_fails P failure"
| DhSecretKey_generate_fails: "DhSecretKey_generate P r = (Inl failure, rest) \<Longrightarrow> call_fails P failure"
| DhSecretKey_diffie_hellman_fails: "DhSecretKey_diffie_hellman P s pk = Inl failure \<Longrightarrow> call_fails P failure"
| DhKeyPair_generate_fails: "DhKeyPair_generate P r = (Inl failure, rest) \<Longrightarrow> call_fails P failure"
| DhKeyPair_diffie_hellman_fails: "DhKeyPair_diffie_hellman P kp pk = Inl failure \<Longrightarrow> call_fails P failure"
| IdentityPublicKey_from_bytes_fails: "IdentityPublicKey_from_bytes P bs = Inl failure \<Longrightarrow> call_fails P failure"
| IdentityPublicKey_verify_fails: "IdentityPublicKey_verify P key message signature = Inl failure \<Longrightarrow> call_fails P failure"
| IdentityKeyPair_generate_fails: "IdentityKeyPair_generate P r = (Inl failure, rest) \<Longrightarrow> call_fails P failure"
| SignedPrekey_verify_fails: "SignedPrekey_verify P sp key now = Inl failure \<Longrightarrow> call_fails P failure"
| identity_fingerprint_fails: "identity_fingerprint P key = Inl failure \<Longrightarrow> call_fails P failure"
| FrameKind_from_id_fails: "FrameKind_from_id value = Inl failure \<Longrightarrow> call_fails P failure"
| InnerFrame_seal_fails: "InnerFrame_seal P k suite h pt r = (Inl failure, rest) \<Longrightarrow> call_fails P failure"
| InnerFrame_from_ciphertext_fails: "InnerFrame_from_ciphertext h c = Inl failure \<Longrightarrow> call_fails P failure"
| InnerFrame_open_fails: "InnerFrame_open P f k = Inl failure \<Longrightarrow> call_fails P failure"
| InnerFrame_encode_fails: "InnerFrame_encode f = Inl failure \<Longrightarrow> call_fails P failure"
| InnerFrame_decode_fails: "InnerFrame_decode bs = Inl failure \<Longrightarrow> call_fails P failure"
| InnerFrame_decode_prefix_fails: "InnerFrame_decode_prefix bs = Inl failure \<Longrightarrow> call_fails P failure"
| MailboxCapability_generate_fails: "MailboxCapability_generate P r = (Inl failure, rest) \<Longrightarrow> call_fails P failure"
| MailboxCapability_storage_id_fails: "MailboxCapability_storage_id P m = Inl failure \<Longrightarrow> call_fails P failure"
| TransportMessageId_generate_fails: "TransportMessageId_generate P r = (Inl failure, rest) \<Longrightarrow> call_fails P failure"
| OuterEnvelope_seal_fails: "OuterEnvelope_seal P pk m expires f pad r = (Inl failure, rest) \<Longrightarrow> call_fails P failure"
| OuterEnvelope_open_fails: "OuterEnvelope_open P e s now = Inl failure \<Longrightarrow> call_fails P failure"
| OuterEnvelope_open_inner_fails: "OuterEnvelope_open_inner P e s now = Inl failure \<Longrightarrow> call_fails P failure"
| OuterEnvelope_open_inner_once_fails: "OuterEnvelope_open_inner_once P e s now cache = (Inl failure, rest) \<Longrightarrow> call_fails P failure"
| OuterEnvelope_from_ciphertext_fails: "OuterEnvelope_from_ciphertext m i expires pk c = Inl failure \<Longrightarrow> call_fails P failure"
| OuterEnvelope_encode_fails: "OuterEnvelope_encode e = Inl failure \<Longrightarrow> call_fails P failure"
| OuterEnvelope_decode_fails: "OuterEnvelope_decode bs = Inl failure \<Longrightarrow> call_fails P failure"
| ReplayCache_new_fails: "ReplayCache_new capacity = Inl failure \<Longrightarrow> call_fails P failure"
| check_and_insert_fails: "check_and_insert i expires now cache = (Inl failure, rest) \<Longrightarrow> call_fails P failure"
| LocalIdentity_generate_fails: "LocalIdentity_generate P r = (Inl failure, rest) \<Longrightarrow> call_fails P failure"
| IdentityDhPublic_verify_fails: "IdentityDhPublic_verify P i = Inl failure \<Longrightarrow> call_fails P failure"
| ResponderPrekeyBundle_decode_fails: "ResponderPrekeyBundle_decode P bs = Inl failure \<Longrightarrow> call_fails P failure"
| ResponderPrekeyBundle_verify_fails: "ResponderPrekeyBundle_verify P b now = Inl failure \<Longrightarrow> call_fails P failure"
| ResponderPrekeyMaterial_generate_fails: "ResponderPrekeyMaterial_generate P i expires r = (Inl failure, rest) \<Longrightarrow> call_fails P failure"
| add_one_time_prekey_fails: "add_one_time_prekey P i m r = (Inl failure, m', r') \<Longrightarrow> call_fails P failure"
| rotate_signed_prekey_fails: "rotate_signed_prekey P i expires m r = (Inl failure, m', r') \<Longrightarrow> call_fails P failure"
| retire_signed_prekey_fails: "retire_signed_prekey i m = (Inl failure, rest) \<Longrightarrow> call_fails P failure"
| InitiatorHandshake_decode_fails: "InitiatorHandshake_decode P bs = Inl failure \<Longrightarrow> call_fails P failure"
| handshake_initiate_fails: "handshake_initiate P li b now r = (Inl failure, rest) \<Longrightarrow> call_fails P failure"
| handshake_accept_fails: "handshake_accept P m msg = (Inl failure, rest) \<Longrightarrow> call_fails P failure"
| from_authenticated_handshake_fails: "from_authenticated_handshake P h = Inl failure \<Longrightarrow> call_fails P failure"
| from_authenticated_handshake_with_suite_fails: "from_authenticated_handshake_with_suite P h suite = Inl failure \<Longrightarrow> call_fails P failure"
| RatchetState_encrypt_fails: "RatchetState_encrypt P kind pt st r = (Inl failure, st', r') \<Longrightarrow> call_fails P failure"
| RatchetState_decrypt_fails: "RatchetState_decrypt P f st r = (Inl failure, st', r') \<Longrightarrow> call_fails P failure"
| rotate_sending_ratchet_fails: "rotate_sending_ratchet P st r = (Inl failure, st', r') \<Longrightarrow> call_fails P failure"
| seal_state_fails: "seal_state P key ctx st r = (Inl failure, rest) \<Longrightarrow> call_fails P failure"
| restore_state_fails: "restore_state P key ctx minimum blob = Inl failure \<Longrightarrow> call_fails P failure"
| MlKem768KeyPair_generate_fails: "MlKem768KeyPair_generate P r = (Inl failure, rest) \<Longrightarrow> call_fails P failure"
| MlKem768KeyPair_decapsulate_fails: "MlKem768KeyPair_decapsulate P kp c = Inl failure \<Longrightarrow> call_fails P failure"
| MlKem768Ciphertext_from_bytes_fails: "MlKem768Ciphertext_from_bytes bs = Inl failure \<Longrightarrow> call_fails P failure"
| MlKem768PublicKey_from_bytes_fails: "MlKem768PublicKey_from_bytes P bs = Inl failure \<Longrightarrow> call_fails P failure"
| MlKem768PublicKey_encapsulate_fails: "MlKem768PublicKey_encapsulate P pk r = (Inl failure, rest) \<Longrightarrow> call_fails P failure"
| HybridResponderPrekeyBundle_decode_fails: "HybridResponderPrekeyBundle_decode P bs = Inl failure \<Longrightarrow> call_fails P failure"
| HybridResponderPrekeyBundle_verify_fails: "HybridResponderPrekeyBundle_verify P b now = Inl failure \<Longrightarrow> call_fails P failure"
| HybridResponderPrekeyMaterial_generate_fails: "HybridResponderPrekeyMaterial_generate P i expires r = (Inl failure, rest) \<Longrightarrow> call_fails P failure"
| HybridResponderPrekeyMaterial_bundle_fails: "HybridResponderPrekeyMaterial_bundle P m = Inl failure \<Longrightarrow> call_fails P failure"
| hybrid_add_one_time_prekey_fails: "hybrid_add_one_time_prekey P i m r = (Inl failure, m', r') \<Longrightarrow> call_fails P failure"
| hybrid_accept_fails: "hybrid_accept P m msg = (Inl failure, rest) \<Longrightarrow> call_fails P failure"
| HybridInitiatorHandshake_decode_fails: "HybridInitiatorHandshake_decode P bs = Inl failure \<Longrightarrow> call_fails P failure"
| hybrid_initiate_fails: "hybrid_initiate P li b now r = (Inl failure, rest) \<Longrightarrow> call_fails P failure"

text \<open>
  The functions without a slice, an index or a copy of their own cannot panic by the shape of their
  results; the others are covered by lemmas of their components.
\<close>

lemma checks_no_panic [simp]:
  "AeadSuite_from_id value \<noteq> Panics" "Ciphertext_from_parts suite nonce body \<noteq> Panics"
  "FrameKind_from_id k \<noteq> Panics" "ReplayCache_new n \<noteq> Panics" "check_and_insert i t now c \<noteq> (Panics, c')"
  "DhSecretKey_diffie_hellman P s pk \<noteq> Panics" "IdentityPublicKey_from_bytes P bs \<noteq> Panics"
  "IdentityPublicKey_verify P key message signature \<noteq> Panics" "SignedPrekey_verify P sp key now \<noteq> Panics"
  "retire_signed_prekey j m \<noteq> (Panics, m')" "MlKem768Ciphertext_from_bytes bs \<noteq> Panics"
  "MlKem768PublicKey_from_bytes P bs \<noteq> Panics" "derive_aead_key P salt label input \<noteq> Panics"
  "identity_fingerprint P key \<noteq> Panics" "MailboxCapability_storage_id P m'' \<noteq> Panics"
  by (auto simp: AeadSuite_from_id_def Ciphertext_from_parts_def FrameKind_from_id_def ReplayCache_new_def
      check_and_insert_def DhSecretKey_diffie_hellman_def IdentityPublicKey_from_bytes_def IdentityPublicKey_verify_def
      SignedPrekey_verify_def retire_signed_prekey_def MlKem768Ciphertext_from_bytes_def MlKem768PublicKey_from_bytes_def
      derive_aead_key_def identity_fingerprint_def MailboxCapability_storage_id_def bind_res_Inl Let_def
      split: if_splits option.splits)

lemma generators_no_panic [simp]:
  "random_bytes P n r \<noteq> (Panics, r')" "AeadKey_generate P r \<noteq> (Panics, r')" "DhSecretKey_generate P r \<noteq> (Panics, r')"
  "IdentityKeyPair_generate P r \<noteq> (Panics, r')" "MailboxCapability_generate P r \<noteq> (Panics, r')"
  "LocalIdentity_generate P r \<noteq> (Panics, r')" "ResponderPrekeyMaterial_generate P i t r \<noteq> (Panics, r')"
  "MlKem768KeyPair_generate P r \<noteq> (Panics, r')"
  "add_one_time_prekey P i m r \<noteq> (Panics, m', r')" "rotate_signed_prekey P i t m r \<noteq> (Panics, m', r')"
  by (auto simp: random_bytes_Inl AeadKey_generate_def fill_secure_def ok_or_def DhSecretKey_generate_def
      IdentityKeyPair_generate_def MailboxCapability_generate_def LocalIdentity_generate_def
      ResponderPrekeyMaterial_generate_def MlKem768KeyPair_generate_def add_one_time_prekey_def rotate_signed_prekey_def
      io_bind_Inl Let_def split: if_splits option.splits prod.splits sum.splits)

lemma frame_calls_no_panic [simp]:
  "InnerFrame_from_ciphertext h c \<noteq> Panics" "InnerFrame_encode f \<noteq> Panics"
  "OuterEnvelope_from_ciphertext m i t pk c \<noteq> Panics" "OuterEnvelope_encode e \<noteq> Panics"
  "OuterEnvelope_open P e s now \<noteq> Panics" "OuterEnvelope_seal P pk m t f pad r \<noteq> (Panics, r')"
  by (auto simp: InnerFrame_from_ciphertext_def InnerFrame_encode_def InnerFrame_aad_def
      OuterEnvelope_from_ciphertext_def OuterEnvelope_encode_def OuterEnvelope_aad_def OuterEnvelope_open_def
      OuterEnvelope_seal_def io_bind_Inl bind_res_Inl Let_def split: if_splits)

lemma handshake_calls_no_panic [simp]:
  "ResponderPrekeyBundle_verify P b now \<noteq> Panics"
  "handshake_initiate P li b now r \<noteq> (Panics, r')"
  "from_authenticated_handshake_with_suite P h suite \<noteq> Panics" "from_authenticated_handshake P h \<noteq> Panics"
  "seal_state P key ctx st r \<noteq> (Panics, r')"
  by (auto simp: ResponderPrekeyBundle_verify_def handshake_initiate_def from_authenticated_handshake_def
      from_authenticated_handshake_with_suite_def seal_state_def state_aad_def encode_state_def io_bind_Inl bind_res_Inl
      Let_def split: if_splits option.splits prod.splits ratchet_role.splits)

lemma hybrid_calls_no_panic [simp]:
  "HybridResponderPrekeyBundle_verify P hb now \<noteq> Panics" "HybridResponderPrekeyMaterial_bundle P hm \<noteq> Panics"
  "HybridResponderPrekeyMaterial_generate P i t r \<noteq> (Panics, r')"
  "hybrid_add_one_time_prekey P i hm r \<noteq> (Panics, hm', r')"
  by (auto simp: HybridResponderPrekeyBundle_verify_def HybridResponderPrekeyMaterial_bundle_def binding_transcript_def
      HybridResponderPrekeyMaterial_generate_def hybrid_add_one_time_prekey_def io_bind_Inl bind_res_Inl Let_def
      split: prod.splits)

lemma mlkem_calls_no_panic:
  assumes "mlkem_sizes_ok P"
  shows "MlKem768KeyPair_decapsulate P kp c \<noteq> Panics" "MlKem768PublicKey_encapsulate P pk r \<noteq> (Panics, r')"
    "hybrid_initiate P li hb now r \<noteq> (Panics, r')"
proof -
  show "MlKem768KeyPair_decapsulate P kp c \<noteq> Panics"
    using assms by (simp add: MlKem768KeyPair_decapsulate_def mlkem_sizes_ok_def)
  have enc: "MlKem768PublicKey_encapsulate P pk r \<noteq> (Panics, r')" for pk r r'
    using assms by (auto simp: MlKem768PublicKey_encapsulate_def io_bind_Inl fill_secure_def ok_or_def mlkem_sizes_ok_def
        split: option.splits prod.splits)
  then show "MlKem768PublicKey_encapsulate P pk r \<noteq> (Panics, r')" .
  show "hybrid_initiate P li hb now r \<noteq> (Panics, r')"
    using enc by (auto simp: hybrid_initiate_def io_bind_Inl)
qed

theorem calls_never_panic:
  assumes "mlkem_sizes_ok P"
  shows "call_fails P failure \<Longrightarrow> failure \<noteq> Panic"
proof (induction rule: call_fails.induct)
  case (OuterEnvelope_open_inner_once_fails e s now cache failure rest)
  then show ?case using open_once_no_panic [of P e s now cache] by auto
next
  case (hybrid_accept_fails m msg failure rest)
  then show ?case using hybrid_accept_no_panic [OF assms, of m msg] by auto
qed (auto simp: mlkem_calls_no_panic [OF assms] inner.dec_no_panic decode_prefix_no_panic outer.dec_no_panic
    message.dec_no_panic prekey_bundle.dec_no_panic hybrid_message.dec_no_panic hybrid_bundle.dec_no_panic
    restore_no_panic open_inner_no_panic accept_no_panic encrypt_no_panic rotate_no_panic decrypt_no_panic)

end
