(* ===== verification/Mef_Loops.thy ===== *)
theory Mef_Loops
  imports Mef_Persistence "HOL-Library.While_Combinator"
begin

text \<open>
  The decoder of snapshots (\<open>decode_state\<close> in \<open>ratchet/persistence.rs\<close>) as it runs: \<open>for index in 0..n\<close>
  is a while loop on a machine counter that ends at the bound or at the first \<open>?\<close> that fails, and the
  bound comes from the bytes. It is shown to end on all bytes, after at most 1024 iterations and no more
  than the bytes have room for, with exactly the states that encode to them.
\<close>

section \<open>A range loop\<close>

definition range_loop ::
    "('w::len word \<Rightarrow> 'a \<Rightarrow> 'a res) \<Rightarrow> 'w word \<Rightarrow> 'w word \<times> 'a res \<Rightarrow> ('w word \<times> 'a res) option" where
  "range_loop body end_exclusive =
     while_option (\<lambda>(n, acc). n < end_exclusive \<and> \<not> (\<exists>e. acc = Inl e))
       (\<lambda>(n, acc). (n + 1, bind_res acc (body n)))"

fun fold_res :: "('n \<Rightarrow> 'a \<Rightarrow> 'a res) \<Rightarrow> 'n list \<Rightarrow> 'a res \<Rightarrow> 'a res" where
  "fold_res body [] acc = acc"
| "fold_res body (n # ns) acc = fold_res body ns (bind_res acc (body n))"

lemma fold_res_Inl [simp]: "fold_res body ns (Inl e) = Inl e"
  by (induction ns) simp_all

lemma range_loop_ends:
  fixes n b :: "'w::len word"
  shows "\<exists>n'. range_loop body b (n, acc) = Some (n', fold_res body (map word_of_nat [unat n ..< unat b]) acc) \<and>
     unat n \<le> unat n' \<and> unat n' \<le> max (unat n) (unat b) \<and>
     ((\<exists>x. fold_res body (map word_of_nat [unat n ..< unat b]) acc = Inr x) \<longrightarrow> unat b \<le> unat n')"
proof (induction "unat b - unat n" arbitrary: n acc rule: less_induct)
  case less
  show ?case
  proof (cases "n < b \<and> \<not> (\<exists>e. acc = Inl e)")
    case True
    then have lt: "unat n < unat b" by (simp add: word_less_nat_alt)
    have up: "[unat n ..< unat b] = unat n # [Suc (unat n) ..< unat b]" using lt by (simp add: upt_rec)
    have "unat b < 2 ^ LENGTH('w)" by (rule unsigned_less)
    with lt have "unat n + 1 < 2 ^ LENGTH('w)" by linarith
    then have suc: "unat (n + 1) = Suc (unat n)" by (simp add: unat_word_ariths(1))
    have step: "range_loop body b (n, acc) = range_loop body b (n + 1, bind_res acc (body n))"
      using True unfolding range_loop_def by (subst while_option_unfold) simp
    from less [of "n + 1" "bind_res acc (body n)"] lt show ?thesis
      by (fastforce simp: step suc up)
  next
    case False
    then have "range_loop body b (n, acc) = Some (n, acc)"
      unfolding range_loop_def by (subst while_option_unfold) auto
    moreover have "fold_res body (map word_of_nat [unat n ..< unat b]) acc = acc"
      using False by (auto simp: not_less word_le_nat_alt)
    ultimately show ?thesis using False by (auto simp: not_less word_le_nat_alt)
  qed
qed

section \<open>The loop of decode_state\<close>

text \<open>The index is a \<open>usize\<close>, a word of 64 bits; the body reads the entry at its offset.\<close>

definition decode_entries_body ::
    "bytes \<Rightarrow> nat \<Rightarrow> u64 \<Rightarrow> skipped_message_key list \<Rightarrow> skipped_message_key list res" where
  "decode_entries_body bs fixed_len index skipped =
     bind_res (ok_or (checked_mul_usize (unat index) 68) InvalidLength) (\<lambda>entries_len.
     bind_res (add_usize fixed_len entries_len) (\<lambda>offset.
     bind_res (field 32 offset (offset + 32) bs) (\<lambda>remote_dh.
     bind_res (field 4 (offset + 32) (offset + 36) bs) (\<lambda>number.
     let message_number = from_be_bytes number in
     if \<exists>entry \<in> set skipped. sk_remote_dh entry = DhPublicKey remote_dh
          \<and> sk_message_number entry = message_number
     then Err InvalidState else
     bind_res (field 32 (offset + 36) (offset + 68) bs) (\<lambda>key.
     Ok (skipped @ [\<lparr>sk_remote_dh = DhPublicKey remote_dh, sk_message_number = message_number,
       sk_key = AeadKey key\<rparr>]))))))"

definition decode_entries_run :: "bytes \<Rightarrow> nat \<Rightarrow> u64 \<Rightarrow> (skipped_message_key list res \<times> nat) option" where
  "decode_entries_run bs fixed_len skipped_count =
     map_option (\<lambda>(index, res). (res, unat index))
       (range_loop (decode_entries_body bs fixed_len) skipped_count (0, Ok []))"

lemma decode_entries_Cons:
  "decode_entries bs k acc (unat n # ns) =
     bind_res (decode_entries_body bs k n acc) (\<lambda>acc. decode_entries bs k acc ns)"
  unfolding decode_entries.simps decode_entries_body_def bind_res_assoc Let_def
  by (intro bind_res_cong refl) (auto simp: bind_res_assoc)

lemma decode_entries_fold:
  "fold_res (decode_entries_body bs k) ns (Ok acc) = decode_entries bs k acc (map unat ns)"
proof (induction ns arbitrary: acc)
  case (Cons n ns)
  then show ?case
    by (cases "decode_entries_body bs k n acc") (simp_all add: decode_entries_Cons del: decode_entries.simps(2))
qed simp

lemma decode_entries_count:
  "decode_entries bs fixed_len acc ns = Ok es \<Longrightarrow> length es = length acc + length ns"
  by (induction bs fixed_len acc ns rule: decode_entries.induct) (auto simp: bind_res_Ok Let_def split: if_splits)

lemma decode_entries_ends:
  "\<exists>k. decode_entries_run bs fixed_len n = Some (decode_entries bs fixed_len [] [0 ..< unat n], k) \<and> k \<le> unat n \<and>
     ((\<exists>es. decode_entries bs fixed_len [] [0 ..< unat n] = Ok es) \<longrightarrow> k = unat n)"
proof -
  have "map (unat \<circ> (word_of_nat :: nat \<Rightarrow> u64)) [0 ..< unat n] = [0 ..< unat n]"
    using unsigned_less [of n, where ?'a = nat] by (intro map_idI) (auto simp: unat_of_nat take_bit_nat_eq_self)
  with range_loop_ends [of "decode_entries_body bs fixed_len" n 0 "Ok []"] show ?thesis
    by (auto simp: decode_entries_run_def decode_entries_fold)
qed

section \<open>The whole decoder\<close>

text \<open>Everything before the loop: the bound of the loop and what to do with the entries it reads.\<close>

definition decode_fixed ::
    "primitives \<Rightarrow> bytes \<Rightarrow> u64 \<Rightarrow> u8 \<Rightarrow> (nat \<times> nat \<times> (skipped_message_key list \<Rightarrow> ratchet_state)) res" where
  "decode_fixed P bs generation version =
     bind_res
       (if version = LEGACY_VERSION then Ok PLAINTEXT_FIXED_LEN_V1
        else if version = STATE_VERSION then Ok PLAINTEXT_FIXED_LEN_V2
        else Err InvalidFrame) (\<lambda>fixed_len.
     if length bs < fixed_len then Err InvalidFrame else
     bind_res
       (if version = LEGACY_VERSION then Ok (XChaCha20Poly1305, 204)
        else
          bind_res (index_at bs 204) (\<lambda>suite_id.
          bind_res (AeadSuite_from_id suite_id) (\<lambda>suite. Ok (suite, 205)))) (\<lambda>(suite, count_offset).
     bind_res (field 2 count_offset (count_offset + 2) bs) (\<lambda>count_bytes.
     let skipped_count = unat (from_be_bytes count_bytes :: u16) in
     if skipped_count > MAX_SKIPPED_KEYS then Err InvalidState else
     bind_res (ok_or (checked_mul_usize skipped_count 68) InvalidLength) (\<lambda>entries_len.
     bind_res (ok_or (checked_add_usize fixed_len entries_len) InvalidLength) (\<lambda>expected.
     if length bs \<noteq> expected then Err InvalidFrame else
     bind_res (field 32 0 32 bs) (\<lambda>session_id.
     bind_res (field 32 32 64 bs) (\<lambda>root_key.
     bind_res (field 32 64 96 bs) (\<lambda>sending_chain.
     bind_res (field 32 96 128 bs) (\<lambda>receiving_chain.
     bind_res (field 32 128 160 bs) (\<lambda>dh_secret.
     bind_res (field 32 160 192 bs) (\<lambda>remote_dh.
     bind_res (field 4 192 196 bs) (\<lambda>previous_sending_chain_len.
     bind_res (field 4 196 200 bs) (\<lambda>sending_count.
     bind_res (field 4 200 204 bs) (\<lambda>receiving_count.
     bind_res (field 2 count_offset (count_offset + 2) bs) (\<lambda>encoded_bytes.
     let encoded_count = unat (from_be_bytes encoded_bytes :: u16) in
     if encoded_count \<noteq> skipped_count then Err InvalidFrame else
     Ok (fixed_len, skipped_count, \<lambda>skipped.
       \<lparr>rs_session_id = session_id, rs_root_key = Secret root_key,
         rs_sending_chain = Secret sending_chain, rs_receiving_chain = Secret receiving_chain,
         rs_dh_pair = DhKeyPair_from_secret P (DhSecretKey dh_secret),
         rs_remote_dh = DhPublicKey remote_dh,
         rs_previous_sending_chain_len = from_be_bytes previous_sending_chain_len,
         rs_sending_count = from_be_bytes sending_count,
         rs_receiving_count = from_be_bytes receiving_count,
         rs_generation = generation, rs_suite = suite, rs_skipped = skipped\<rparr>))))))))))))))))"

text \<open>The result with the number of iterations made; \<open>None\<close> would be a loop that does not end.\<close>

definition decode_state_run :: "primitives \<Rightarrow> bytes \<Rightarrow> u64 \<Rightarrow> u8 \<Rightarrow> (ratchet_state res \<times> nat) option" where
  "decode_state_run P bs generation version =
     (case decode_fixed P bs generation version of
        Inl e \<Rightarrow> Some (Inl e, 0)
      | Inr (fixed_len, skipped_count, finish) \<Rightarrow>
          map_option (\<lambda>(skipped, iterations). (bind_res skipped (\<lambda>skipped. Ok (finish skipped)), iterations))
            (decode_entries_run bs fixed_len (word_of_nat skipped_count)))"

lemma bind_res_if: "bind_res (if c then a else b) f = (if c then bind_res a f else bind_res b f)"
  by simp

lemma decode_state_fixed:
  "decode_state P bs g v = bind_res (decode_fixed P bs g v) (\<lambda>(fixed_len, n, finish).
     bind_res (decode_entries bs fixed_len [] [0 ..< n]) (\<lambda>skipped. Ok (finish skipped)))"
  unfolding decode_state_def decode_fixed_def
  by (simp only: bind_res_assoc bind_res_if Let_def case_prod_unfold fst_conv snd_conv bind_res_simps)

lemma decode_fixed_bounds:
  assumes "decode_fixed P bs g v = Ok (fixed_len, n, finish)"
  shows "n \<le> MAX_SKIPPED_KEYS" "length bs = fixed_len + 68 * n" "rs_skipped (finish es) = es"
  using assms
  by (auto simp: decode_fixed_def bind_res_Ok ok_or_Ok Let_def checked_mul_usize_def checked_add_usize_def
      split: if_splits)

lemma decode_state_ends:
  "\<exists>res k. decode_state_run P bs g v = Some (res, k) \<and> res = decode_state P bs g v \<and>
     k \<le> MAX_SKIPPED_KEYS \<and> 68 * k \<le> length bs \<and> (\<forall>st. res = Ok st \<longrightarrow> k = length (rs_skipped st))"
proof (cases "decode_fixed P bs g v")
  case (Inl e)
  then show ?thesis by (simp add: decode_state_run_def decode_state_fixed)
next
  case (Inr fixed)
  obtain fixed_len n finish where fixed: "decode_fixed P bs g v = Ok (fixed_len, n, finish)"
    using Inr by (cases fixed) auto
  note bounds = decode_fixed_bounds [OF fixed]
  have n: "unat (word_of_nat n :: u64) = n" using bounds(1) by (simp add: unat_of_nat MAX_SKIPPED_KEYS_def)
  obtain k where run: "decode_entries_run bs fixed_len (word_of_nat n) = Some (decode_entries bs fixed_len [] [0 ..< n], k)"
    and k: "k \<le> n" "(\<exists>es. decode_entries bs fixed_len [] [0 ..< n] = Ok es) \<longrightarrow> k = n"
    using decode_entries_ends [of bs fixed_len "word_of_nat n"] by (auto simp: n)
  have "k = length (rs_skipped st)" if st: "decode_state P bs g v = Ok st" for st
  proof -
    obtain es where es: "decode_entries bs fixed_len [] [0 ..< n] = Ok es" "st = finish es"
      using st by (auto simp: decode_state_fixed fixed bind_res_Ok)
    with k(2) decode_entries_count [OF es(1)] show ?thesis by (simp add: bounds(3))
  qed
  with k(1) bounds(1,2) show ?thesis
    by (simp add: decode_state_run_def decode_state_fixed fixed run)
qed

text \<open>What the decoder accepts, whatever the version byte.\<close>

lemma decode_state_accepts:
  "decode_state P bs g v = Ok st \<longleftrightarrow> snapshot_ok P st \<and> rs_generation st = g \<and>
     (\<exists>full. encode_state st = Ok full \<and>
       (v = STATE_VERSION \<and> bs = full \<or>
        v = LEGACY_VERSION \<and> rs_suite st = XChaCha20Poly1305 \<and> bs = take 204 full @ drop 205 full))"
proof -
  have ne: "STATE_VERSION \<noteq> LEGACY_VERSION" by (simp add: STATE_VERSION_def LEGACY_VERSION_def)
  consider "v = STATE_VERSION" | "v = LEGACY_VERSION" | "v \<noteq> STATE_VERSION" "v \<noteq> LEGACY_VERSION" by blast
  then show ?thesis
  proof cases
    case 1
    with ne snapshot.dec_iff [of P bs g st] show ?thesis by auto
  next
    case 2
    with ne decode_legacy_exact [of P bs g st] show ?thesis by auto
  next
    case 3
    then show ?thesis by (simp add: decode_state_def)
  qed
qed

end
