(* ===== verification/Mef_Erasure.thy ===== *)
theory Mef_Erasure
  imports Mef_Ratchet
begin

text \<open>
  What a ratchet forgets. A step of \<open>RatchetState\<close> replaces the keys it used, so that the state it
  leaves is the same for every key that has the same successor: what was derived from the old key
  beside the successor (the message key, above all) has left no trace in the state. Reading the old
  key off a later state therefore takes inverting HKDF.
\<close>

section \<open>What a step keeps of a key\<close>

definition chain_successor :: "primitives \<Rightarrow> secret \<Rightarrow> secret option" where
  "chain_successor P c = (case chain_step P c of Inl e \<Rightarrow> None | Inr (next_chain, key) \<Rightarrow> Some next_chain)"

text \<open>Of a receiving chain: the chain behind the message received and the keys of the ones passed over.\<close>

definition receive_successor ::
    "primitives \<Rightarrow> secret \<Rightarrow> u32 \<Rightarrow> u32 \<Rightarrow> nat \<Rightarrow> (secret \<times> (u32 \<times> aead_key) list) option" where
  "receive_successor P c count target existing =
     (case derive_for_message P c count target existing of
        Inl e \<Rightarrow> None
      | Inr (next_chain, key, skipped) \<Rightarrow> Some (next_chain, skipped))"

text \<open>Of a receiving chain that a DH ratchet step leaves behind: the keys of its outstanding messages.\<close>

definition outstanding_keys :: "primitives \<Rightarrow> secret \<Rightarrow> u32 \<Rightarrow> u32 \<Rightarrow> nat \<Rightarrow> (u32 \<times> aead_key) list option" where
  "outstanding_keys P c count previous_len existing =
     (case derive_range P c count previous_len existing of Inl e \<Rightarrow> None | Inr (rest, skipped) \<Rightarrow> Some skipped)"

text \<open>Of a root key and the own key pair: the outcome of the exchange with the peer's new key.\<close>

definition root_successor :: "primitives \<Rightarrow> secret \<Rightarrow> dh_key_pair \<Rightarrow> dh_public \<Rightarrow> (secret \<times> secret) option" where
  "root_successor P root kp peer =
     (case bind_res (DhKeyPair_diffie_hellman P kp peer) (root_step P root) of Inl e \<Rightarrow> None | Inr keys \<Rightarrow> Some keys)"

section \<open>Steps\<close>

lemma send_forgets:
  assumes run: "RatchetState_encrypt P kind pt st r = (Ok f, st1, r1)"
    and other: "RatchetState_encrypt P kind' pt' (st\<lparr>rs_sending_chain := c\<rparr>) r' = (Ok f', st2, r2)"
    and successor: "chain_successor P (rs_sending_chain st) = chain_successor P c"
  shows "st1 = st2"
  using run
proof (cases rule: encrypt_cases)
  case sent: (sent _ n1 k1 m1)
  from other show ?thesis
  proof (cases rule: encrypt_cases)
    case (sent _ n2 k2 m2)
    with \<open>chain_step P (rs_sending_chain st) = Inr (n1, k1)\<close> successor have "n1 = n2"
      by (simp add: chain_successor_def)
    with sent(4,5) \<open>checked_add_word (rs_sending_count st) 1 = Some m1\<close>
      \<open>st1 = bump_generation (st\<lparr>rs_sending_chain := n1, rs_sending_count := m1\<rparr>)\<close>
    show ?thesis by (simp add: bump_generation_def)
  qed simp_all
qed simp_all

lemma receive_forgets:
  assumes run: "decrypt_same_ratchet P pk f st = (Ok pt, st1)"
    and other: "decrypt_same_ratchet P pk f' (st\<lparr>rs_receiving_chain := c\<rparr>) = (Ok pt', st2)"
    and number: "fh_message_number (if_header f') = fh_message_number (if_header f)"
      "rs_receiving_count st \<le> fh_message_number (if_header f)"
    and successor: "receive_successor P (rs_receiving_chain st) (rs_receiving_count st)
        (fh_message_number (if_header f)) (length (rs_skipped st)) =
      receive_successor P c (rs_receiving_count st) (fh_message_number (if_header f)) (length (rs_skipped st))"
  shows "st1 = st2"
  using run
proof (cases rule: decrypt_same_cases)
  case one: (advanced c1 k1 new1 _ n1)
  from other show ?thesis
  proof (cases rule: decrypt_same_cases)
    case two: (advanced c2 k2 new2 _ n2)
    from successor one(3) two(3) number(1) have "c1 = c2 \<and> new1 = new2" by (simp add: receive_successor_def)
    with one(5,6) two(5,6) number(1) show ?thesis by (simp add: bump_generation_def add_skipped_def)
  qed (use number in simp_all)
qed (use number in simp_all)

lemma step_forgets:
  assumes run: "decrypt_new_ratchet P pk f st r = (Ok pt, st1, r1)"
    and other: "decrypt_new_ratchet P pk f
      (st\<lparr>rs_root_key := root, rs_dh_pair := kp, rs_sending_chain := sending, rs_receiving_chain := c\<rparr>) r = (Ok pt', st2, r2)"
    and outstanding: "outstanding_keys P (rs_receiving_chain st) (rs_receiving_count st)
        (fh_previous_chain_len (if_header f)) (length (rs_skipped st)) =
      outstanding_keys P c (rs_receiving_count st) (fh_previous_chain_len (if_header f)) (length (rs_skipped st))"
    and successor: "root_successor P (rs_root_key st) (rs_dh_pair st) pk = root_successor P root kp pk"
  shows "st1 = st2"
  using run
proof (cases rule: decrypt_new_cases)
  case one: (commit c1 old1 z1 ra1 ca1 kp1 y1 rb1 cb1 rc1 k1 new1 _)
  from other show ?thesis
  proof (cases rule: decrypt_new_cases)
    case two: (commit c2 old2 z2 ra2 ca2 kp2 y2 rb2 cb2 rc2 k2 new2 _)
    have old: "old1 = old2" using outstanding one(1) two(1) by (simp add: outstanding_keys_def)
    have root: "ra1 = ra2" "ca1 = ca2" using successor one(2,3) two(2,3) by (simp_all add: root_successor_def)
    have kp: "kp1 = kp2" using one(4) two(4) by simp
    with one(5) two(5) have "y1 = y2" by simp
    with one(6) two(6) root have "rb1 = rb2" "cb1 = cb2" by simp_all
    moreover have "rc1 = rc2" "new1 = new2" using one(7) two(7) root old by simp_all
    ultimately show ?thesis using one(10) two(10) old kp by (simp add: bump_generation_def add_skipped_def)
  qed simp
qed simp

text \<open>A key kept for a skipped message is gone once it was used.\<close>

lemma skipped_forgets:
  assumes "decrypt_skipped P pk n f st = (Ok pt, st1)"
    and "position (\<lambda>entry. sk_remote_dh entry = pk \<and> sk_message_number entry = n) (rs_skipped st) = Some i"
  shows "rs_skipped st1 = remove_at i (rs_skipped st)"
  using assms by (cases rule: decrypt_skipped_cases) simp_all

end
