(* ===== verification/Mef_Domains.thy ===== *)
theory Mef_Domains
  imports Mef_Persistence Mef_Envelope Mef_Hybrid
begin

text \<open>
  Domain separation: what keeps bytes made for one purpose from being taken for another. The wire
  formats differ in their first bytes; the messages an identity key signs differ in length
  and each determines what was signed; the labels under which HKDF and BLAKE3 are called give
  different inputs to them; the associated data of frames, envelopes and snapshots never
  coincide.
\<close>

section \<open>Wire formats\<close>

datatype wire_format =
  FrameWire | EnvelopeWire | MessageWire | BundleWire | HybridMessageWire | HybridBundleWire | SnapshotWire

fun is_ok :: "'a res \<Rightarrow> bool" where
  "is_ok (Inr value) = True"
| "is_ok (Inl failure) = False"

lemma is_ok_iff: "is_ok result \<longleftrightarrow> (\<exists>value. result = Ok value)"
  by (cases result) simp_all

fun decodes_as :: "primitives \<Rightarrow> wire_format \<Rightarrow> bytes \<Rightarrow> bool" where
  "decodes_as P FrameWire bs = is_ok (InnerFrame_decode bs)"
| "decodes_as P EnvelopeWire bs = is_ok (OuterEnvelope_decode bs)"
| "decodes_as P MessageWire bs = is_ok (InitiatorHandshake_decode P bs)"
| "decodes_as P BundleWire bs = is_ok (ResponderPrekeyBundle_decode P bs)"
| "decodes_as P HybridMessageWire bs = is_ok (HybridInitiatorHandshake_decode P bs)"
| "decodes_as P HybridBundleWire bs = is_ok (HybridResponderPrekeyBundle_decode P bs)"
| "decodes_as P SnapshotWire bs \<longleftrightarrow> (\<exists>key ctx floor. is_ok (restore_state P key ctx floor bs))"

fun format_magic :: "wire_format \<Rightarrow> bytes" where
  "format_magic FrameWire = FRAME_MAGIC"
| "format_magic EnvelopeWire = OUTER_MAGIC"
| "format_magic MessageWire = HANDSHAKE_MAGIC"
| "format_magic BundleWire = BUNDLE_MAGIC"
| "format_magic HybridMessageWire = HYBRID_MAGIC"
| "format_magic HybridBundleWire = HYBRID_MAGIC"
| "format_magic SnapshotWire = STATE_MAGIC"

lemma format_magic_bytes:
  "FRAME_MAGIC = [77, 69, 70]" "OUTER_MAGIC = [77, 69, 79]" "HANDSHAKE_MAGIC = [77, 69, 72]"
  "BUNDLE_MAGIC = [77, 69, 66]" "HYBRID_MAGIC = [77, 69, 81]" "STATE_MAGIC = [77, 82, 83]"
  by (simp_all add: FRAME_MAGIC_def OUTER_MAGIC_def HANDSHAKE_MAGIC_def BUNDLE_MAGIC_def HYBRID_MAGIC_def
      STATE_MAGIC_def ascii_def of_char_def)

lemma restore_magic: "restore_state P key ctx floor bs = Ok st \<Longrightarrow> take 3 bs = STATE_MAGIC"
  by (auto simp: restore_state_def sub_list_def split: if_splits)

lemma decodes_magic:
  assumes "decodes_as P k bs"
  shows "take 3 bs = format_magic k"
proof (cases k)
  case FrameWire
  with assms show ?thesis by (auto simp: is_ok_iff InnerFrame_decode_Ok frame_bytes_def frame_aad_bytes_def format_magic_bytes)
next
  case EnvelopeWire
  with assms show ?thesis by (auto simp: is_ok_iff outer.dec_iff OuterEnvelope_encode_Ok envelope_bytes_def outer_aad_bytes_def format_magic_bytes)
next
  case MessageWire
  with assms show ?thesis
    by (auto simp: is_ok_iff InitiatorHandshake_encode_def format_magic_bytes dest!: message_decode_sound(2))
next
  case BundleWire
  with assms show ?thesis
    by (auto simp: is_ok_iff ResponderPrekeyBundle_encode_def format_magic_bytes dest!: bundle_decode_sound(2))
next
  case HybridMessageWire
  with assms show ?thesis
    by (auto simp: is_ok_iff HybridInitiatorHandshake_encode_def Let_def format_magic_bytes dest!: hybrid_message_decode_sound(2))
next
  case HybridBundleWire
  with assms show ?thesis
    by (auto simp: is_ok_iff HybridResponderPrekeyBundle_encode_def Let_def format_magic_bytes dest!: hybrid_bundle_decode_sound(2))
next
  case SnapshotWire
  with assms show ?thesis by (auto simp: is_ok_iff dest: restore_magic)
qed

text \<open>Hybrid messages and hybrid bundles share their magic, but not that of their classical part.\<close>

lemma hybrid_part_magic:
  "decodes_as P HybridMessageWire bs \<Longrightarrow> take 3 (drop 6 bs) = HANDSHAKE_MAGIC"
  "decodes_as P HybridBundleWire bs \<Longrightarrow> take 3 (drop 6 bs) = BUNDLE_MAGIC"
  by (auto simp: is_ok_iff HybridInitiatorHandshake_encode_def HybridResponderPrekeyBundle_encode_def Let_def
      InitiatorHandshake_encode_def ResponderPrekeyBundle_encode_def format_magic_bytes
      dest!: hybrid_message_decode_sound(2) hybrid_bundle_decode_sound(2))

lemma formats_disjoint:
  assumes "decodes_as P k bs" "decodes_as P k' bs"
  shows "k = k'"
  using decodes_magic [OF assms(1)] decodes_magic [OF assms(2)] assms hybrid_part_magic [of P bs]
  by (cases k; cases k') (auto simp: format_magic_bytes simp del: decodes_as.simps)

section \<open>Signatures\<close>

text \<open>What \<open>sign_prekey\<close>, \<open>LocalIdentity::public\<close> and the hybrid \<open>bundle\<close> give an identity key to sign.\<close>

datatype signed_content =
  SignsPrekey u32 dh_public u64
| SignsIdentityDh dh_public
| SignsHybridBundle responder_bundle mlkem_public_key

fun signed_bytes :: "primitives \<Rightarrow> signed_content \<Rightarrow> bytes res" where
  "signed_bytes P (SignsPrekey key_id prekey expires) = Ok (prekey_transcript key_id prekey expires)"
| "signed_bytes P (SignsIdentityDh dh) = Ok (identity_binding_transcript dh)"
| "signed_bytes P (SignsHybridBundle classical pq_public) = binding_transcript P classical pq_public"

fun content_ok :: "primitives \<Rightarrow> signed_content \<Rightarrow> bool" where
  "content_ok P (SignsPrekey key_id prekey expires) \<longleftrightarrow> length (dh_public_bytes prekey) = 32"
| "content_ok P (SignsIdentityDh dh) \<longleftrightarrow> length (dh_public_bytes dh) = 32"
| "content_ok P (SignsHybridBundle classical pq_public) \<longleftrightarrow> bundle_ok P classical"

definition hybrid_transcript :: "responder_bundle \<Rightarrow> mlkem_public_key \<Rightarrow> bytes" where
  "hybrid_transcript classical pq_public =
     blake3_transcript TRANSCRIPT_LABEL [ResponderPrekeyBundle_encode classical, mlkem_public_bytes pq_public]"

lemma binding_transcript_hash:
  "binding_transcript P classical pq_public = Ok h \<Longrightarrow> h = blake3 P (hybrid_transcript classical pq_public)"
  by (auto simp: binding_transcript_def hybrid_transcript_def Let_def blake3_id_Ok)

lemma hybrid_transcript_inj:
  assumes "bundle_ok P b" "bundle_ok P b'"
    and "binding_transcript P b k = Ok h" "binding_transcript P b' k' = Ok h'"
    and "hybrid_transcript b k = hybrid_transcript b' k'"
  shows "b = b' \<and> k = k'"
proof -
  from assms(3,4) have "\<forall>p \<in> set [ResponderPrekeyBundle_encode b, mlkem_public_bytes k] \<union>
      set [ResponderPrekeyBundle_encode b', mlkem_public_bytes k']. length p \<le> MAX_CIPHERTEXT_LEN"
    by (auto simp: binding_transcript_def Let_def blake3_id_Ok)
  from delimited_inj [OF this] have bytes: "ResponderPrekeyBundle_encode b = ResponderPrekeyBundle_encode b'"
    "mlkem_public_bytes k = mlkem_public_bytes k'"
    using assms(5) by (simp_all add: hybrid_transcript_def blake3_transcript_def del: delimited.simps)
  from bytes(1) have "b = b'"
    using bundle_decode_encode [OF assms(1)] bundle_decode_encode [OF assms(2)] by (metis sum.inject(2))
  moreover have "k = k'" using bytes(2) by (rule mlkem_public_key.expand)
  ultimately show ?thesis by simp
qed

lemma signed_lengths:
  assumes "sizes_ok P" "content_ok P c" "signed_bytes P c = Ok bs"
  shows "length bs = (case c of SignsPrekey i k e \<Rightarrow> 67 | SignsIdentityDh dh \<Rightarrow> 57 | SignsHybridBundle b k \<Rightarrow> 32)"
  using assms
  by (cases c) (auto simp: prekey_transcript_def identity_binding_transcript_def IDENTITY_BINDING_LABEL_def
      PROTOCOL_ID_def ascii_def binding_transcript_def Let_def dest: blake3_id_length)

lemma signed_bytes_separated:
  assumes P: "sizes_ok P" and ok: "content_ok P c" "content_ok P c'"
    and bytes: "signed_bytes P c = Ok bs" "signed_bytes P c' = Ok bs"
  shows "c = c' \<or> (\<exists>b k b' k'. c = SignsHybridBundle b k \<and> c' = SignsHybridBundle b' k' \<and>
    hybrid_transcript b k \<noteq> hybrid_transcript b' k' \<and>
    blake3 P (hybrid_transcript b k) = blake3 P (hybrid_transcript b' k'))"
proof -
  note len = signed_lengths [OF P ok(1) bytes(1)] signed_lengths [OF P ok(2) bytes(2)]
  show ?thesis
  proof (cases c)
    case (SignsPrekey i k e)
    with len obtain i' k' e' where "c' = SignsPrekey i' k' e'" by (cases c') auto
    with SignsPrekey ok bytes prekey_transcript_inj [of k k' i e i' e'] show ?thesis by simp
  next
    case (SignsIdentityDh dh)
    with len obtain dh' where "c' = SignsIdentityDh dh'" by (cases c') auto
    with SignsIdentityDh bytes show ?thesis
      by (auto simp: identity_binding_transcript_def intro: dh_public.expand)
  next
    case (SignsHybridBundle b k)
    with len obtain b' k' where "c' = SignsHybridBundle b' k'" by (cases c') auto
    with SignsHybridBundle ok bytes hybrid_transcript_inj [of P b b' k bs k' bs]
      binding_transcript_hash [of P b k bs] binding_transcript_hash [of P b' k' bs] show ?thesis
      by auto
  qed
qed

section \<open>Labels\<close>

definition kdf_labels :: "bytes list" where
  "kdf_labels = [HANDSHAKE_ROOT_LABEL, HYBRID_ROOT_LABEL, INIT_A_TO_B_LABEL, INIT_B_TO_A_LABEL, ROOT_LABEL,
     ROOT_CHAIN_LABEL, CHAIN_KEY_LABEL, MESSAGE_KEY_LABEL, ascii ''outer-envelope-v1'']"

definition identifier_labels :: "bytes list" where
  "identifier_labels = [SESSION_LABEL, HYBRID_SESSION_LABEL, TRANSCRIPT_LABEL,
     ascii ''identity-fingerprint-v1'', ascii ''mailbox-capability-v1'']"

lemma kdf_labels_distinct: "distinct kdf_labels"
  by (simp add: kdf_labels_def HANDSHAKE_ROOT_LABEL_def HYBRID_ROOT_LABEL_def INIT_A_TO_B_LABEL_def
      INIT_B_TO_A_LABEL_def ROOT_LABEL_def ROOT_CHAIN_LABEL_def CHAIN_KEY_LABEL_def MESSAGE_KEY_LABEL_def
      ascii_def of_char_def)

lemma kdf_domains_distinct: "distinct (map (domain_label (ascii ''kdf'')) kdf_labels)"
  using kdf_labels_distinct by (simp add: distinct_map domain_label_def inj_on_def)

lemma identifier_labels_prefix_free:
  "l \<in> set identifier_labels \<Longrightarrow> l' \<in> set identifier_labels \<Longrightarrow> l @ x = l' @ y \<Longrightarrow> l = l'"
  by (auto simp: identifier_labels_def SESSION_LABEL_def HYBRID_SESSION_LABEL_def TRANSCRIPT_LABEL_def
      ascii_def of_char_def)

text \<open>Two identifiers of the crate are hashes of one transcript only if label and parts agree.\<close>

lemma identifiers_separated:
  assumes l: "l \<in> set identifier_labels" "l' \<in> set identifier_labels"
    and ids: "blake3_id P l ps = Ok h" "blake3_id P l' qs = Ok h'"
  shows "blake3_transcript l ps = blake3_transcript l' qs \<longleftrightarrow> l = l' \<and> ps = qs"
proof
  assume t: "blake3_transcript l ps = blake3_transcript l' qs"
  then have "l = l'" using identifier_labels_prefix_free [OF l] by (simp add: blake3_transcript_def)
  moreover have "\<forall>p \<in> set ps \<union> set qs. length p \<le> MAX_CIPHERTEXT_LEN" using ids by (auto simp: blake3_id_Ok)
  ultimately show "l = l' \<and> ps = qs" using t by (simp add: blake3_transcript_def delimited_inj)
qed simp

section \<open>Associated data\<close>

lemma aads_separated:
  assumes "frame_ok f" "envelope_ok e" "InnerFrame_aad f = Ok x" "OuterEnvelope_aad e = Ok y"
    and "state_aad ctx v = Ok z" "v = LEGACY_VERSION \<or> v = STATE_VERSION"
  shows "x \<noteq> y \<and> x \<noteq> z \<and> y \<noteq> z"
proof -
  have "take 4 x = [77, 69, 70, 1]" "take 4 y = [77, 69, 79, 1]" "take 4 z = [77, 69, 70, 45]"
    using assms by (auto simp: InnerFrame_aad_Ok OuterEnvelope_aad_Ok state_aad_eq frame_aad_bytes_def
        outer_aad_bytes_def format_magic_bytes outer_consts FRAME_VERSION_def state_label_def AAD_LABEL_V1_def
        AAD_LABEL_V2_def ascii_def of_char_def split: if_splits)
  then show ?thesis by auto
qed

end
