(* ===== verification/Mef_Post.thy ===== *)
theory Mef_Post
  imports Mef_Channel
begin

text \<open>
  A session over the mailbox: the frames of one direction sealed in envelopes, and a receiver that
  decodes what the relay hands out, opens it once through its replay cache and decrypts the frame.
  The whole stack implements a mailbox specification: a message is delivered at its first arrival before
  it expires, and refused as a replay or as expired otherwise.
\<close>

section \<open>Sending and collecting\<close>

text \<open>One envelope for each frame, with its expiry and its padding.\<close>

fun post_all ::
    "primitives \<Rightarrow> dh_public \<Rightarrow> mailbox_capability \<Rightarrow> (inner_frame \<times> u64 \<times> nat) list \<Rightarrow> rng
       \<Rightarrow> outer_envelope list res \<times> rng" where
  "post_all P pk m [] r = (Ok [], r)"
| "post_all P pk m ((f, expires, pad) # rest) r =
     (case OuterEnvelope_seal P pk m expires f pad r of
        (Inl e, r1) \<Rightarrow> (Inl e, r1)
      | (Inr envelope, r1) \<Rightarrow>
          (case post_all P pk m rest r1 of
             (Inl e, r2) \<Rightarrow> (Inl e, r2)
           | (Inr envelopes, r2) \<Rightarrow> (Ok (envelope # envelopes), r2)))"

definition collect_one ::
    "primitives \<Rightarrow> dh_secret \<Rightarrow> bytes \<Rightarrow> u64 \<Rightarrow> replay_cache \<Rightarrow> ratchet_state \<Rightarrow> rng
       \<Rightarrow> bytes res \<times> replay_cache \<times> ratchet_state \<times> rng" where
  "collect_one P secret bs now cache st r =
     (case OuterEnvelope_decode bs of
        Inl e \<Rightarrow> (Inl e, cache, st, r)
      | Inr envelope \<Rightarrow>
          (case OuterEnvelope_open_inner_once P envelope secret now cache of
             (Inl e, cache1) \<Rightarrow> (Inl e, cache1, st, r)
           | (Inr f, cache1) \<Rightarrow>
               (case RatchetState_decrypt P f st r of (res, st1, r1) \<Rightarrow> (res, cache1, st1, r1))))"

fun collect ::
    "primitives \<Rightarrow> dh_secret \<Rightarrow> (bytes \<times> u64) list \<Rightarrow> replay_cache \<Rightarrow> ratchet_state \<Rightarrow> rng \<Rightarrow> bytes res list" where
  "collect P secret [] cache st r = []"
| "collect P secret ((bs, now) # rest) cache st r =
     (case collect_one P secret bs now cache st r of (res, cache1, st1, r1) \<Rightarrow>
        res # collect P secret rest cache1 st1 r1)"

section \<open>The mailbox\<close>

text \<open>The answers to arrivals of the messages \<open>0, 1, \<dots>\<close>, after those in \<open>seen\<close> have been delivered.\<close>

fun mailbox_results :: "(nat \<Rightarrow> u64) \<Rightarrow> (nat \<Rightarrow> bytes) \<Rightarrow> nat set \<Rightarrow> (nat \<times> u64) list \<Rightarrow> bytes res list" where
  "mailbox_results expires texts seen [] = []"
| "mailbox_results expires texts seen ((i, now) # rest) =
     (if expires i < now then Err EnvelopeExpired # mailbox_results expires texts seen rest
      else if i \<in> seen then Err ReplayDetected # mailbox_results expires texts seen rest
      else Ok (texts i) # mailbox_results expires texts (insert i seen) rest)"

section \<open>The envelopes\<close>

text \<open>What the recipient needs to know of an envelope.\<close>

definition posted :: "primitives \<Rightarrow> dh_secret \<Rightarrow> inner_frame \<Rightarrow> u64 \<Rightarrow> outer_envelope \<Rightarrow> bool" where
  "posted P secret f expires e \<longleftrightarrow>
     envelope_ok e \<and> oe_expires_at_unix e = expires \<and>
     (\<forall>now. OuterEnvelope_open_inner P e secret now = (if now \<le> expires then Ok f else Err EnvelopeExpired))"

lemma postedD:
  assumes "posted P secret f expires e"
  shows "OuterEnvelope_decode (envelope_bytes e) = Ok e" "oe_expires_at_unix e = expires"
    "OuterEnvelope_open_inner P e secret now = (if now \<le> expires then Ok f else Err EnvelopeExpired)"
  using assms by (simp_all add: posted_def outer_decode_Ok)

lemma post_all_total:
  assumes P: "lawful P" and kp: "key_pair_ok P kp" and m: "length (mailbox_bytes m) = 32"
  shows "\<forall>(f, expires, pad) \<in> set jobs. frame_ok f \<and> length (frame_bytes f) + pad \<le> MAX_CIPHERTEXT_LEN - AEAD_TAG_LEN \<Longrightarrow>
    \<exists>es r'. post_all P (kp_public kp) m jobs r = (Ok es, r') \<and>
      list_all2 (\<lambda>(f, expires, pad). posted P (kp_secret kp) f expires) jobs es"
proof (induction jobs arbitrary: r)
  case (Cons job jobs)
  obtain f expires pad where job: "job = (f, expires, pad)" by (metis prod.exhaust)
  with Cons.prems have f: "frame_ok f" and small: "length (frame_bytes f) + pad \<le> MAX_CIPHERTEXT_LEN - AEAD_TAG_LEN"
    by auto
  obtain e where e: "OuterEnvelope_seal P (kp_public kp) m expires f pad r = (Ok e, Suc (Suc (Suc r)))"
    "\<forall>now. OuterEnvelope_open_inner P e (kp_secret kp) now = (if now \<le> expires then Ok f else Err EnvelopeExpired)"
    "envelope_ok e" "oe_expires_at_unix e = expires"
    by (rule mailing_fits [OF P f kp small m])
  have "\<forall>(f, expires, pad) \<in> set jobs. frame_ok f \<and> length (frame_bytes f) + pad \<le> MAX_CIPHERTEXT_LEN - AEAD_TAG_LEN"
    using Cons.prems by simp
  from Cons.IH [OF this, of "Suc (Suc (Suc r))"] obtain es r' where
    "post_all P (kp_public kp) m jobs (Suc (Suc (Suc r))) = (Ok es, r')"
    "list_all2 (\<lambda>(f, expires, pad). posted P (kp_secret kp) f expires) jobs es" by blast
  moreover have "posted P (kp_secret kp) f expires e" using e by (simp add: posted_def)
  ultimately show ?case using e(1) by (simp add: job)
qed simp

section \<open>The cache\<close>

text \<open>The cache holds entries of delivered envelopes only, and all of those that can still be opened.\<close>

definition cache_seen :: "outer_envelope list \<Rightarrow> nat set \<Rightarrow> u64 \<Rightarrow> replay_cache \<Rightarrow> bool" where
  "cache_seen es seen t cache \<longleftrightarrow>
     (let entry = (\<lambda>i. (oe_message_id (es ! i), oe_expires_at_unix (es ! i))) in
      distinct (map fst (rc_entries cache)) \<and> set (rc_entries cache) \<subseteq> entry ` seen \<and>
      (\<forall>i \<in> seen. t \<le> oe_expires_at_unix (es ! i) \<longrightarrow> entry i \<in> set (rc_entries cache)))"

lemma cache_seen_later: "cache_seen es seen t cache \<Longrightarrow> t \<le> t' \<Longrightarrow> cache_seen es seen t' cache"
  by (auto simp: cache_seen_def Let_def)

lemma cache_seen_insert:
  assumes ids: "distinct (map oe_message_id es)" and i: "i < length es" and seen: "seen \<subseteq> {..<length es}"
    and room: "length es \<le> rc_capacity cache" and cache: "cache_seen es seen now cache"
    and live: "now \<le> oe_expires_at_unix (es ! i)"
  obtains cache' where
    "check_and_insert (oe_message_id (es ! i)) (oe_expires_at_unix (es ! i)) now cache =
       (if i \<in> seen then Err ReplayDetected else Ok (), cache')"
    "cache_seen es (insert i seen) now cache'" "rc_capacity cache' = rc_capacity cache"
proof -
  let ?entry = "\<lambda>i. (oe_message_id (es ! i), oe_expires_at_unix (es ! i))"
  let ?kept = "filter (\<lambda>(_, e). now \<le> e) (rc_entries cache)"
  have dist: "distinct (map fst (rc_entries cache))" and sub: "set (rc_entries cache) \<subseteq> ?entry ` seen"
    and all: "\<And>j. j \<in> seen \<Longrightarrow> now \<le> oe_expires_at_unix (es ! j) \<Longrightarrow> ?entry j \<in> set (rc_entries cache)"
    using cache by (auto simp: cache_seen_def Let_def)
  have dist': "distinct (map fst ?kept)" using dist by (simp add: distinct_map_filter)
  show thesis
  proof (cases "i \<in> seen")
    case True
    then have "?entry i \<in> set ?kept" using all live by simp
    then have "check_and_insert (oe_message_id (es ! i)) (oe_expires_at_unix (es ! i)) now cache =
        (Err ReplayDetected, cache\<lparr>rc_entries := ?kept\<rparr>)"
      by (auto simp: check_and_insert_def Let_def)
    moreover have "cache_seen es seen now (cache\<lparr>rc_entries := ?kept\<rparr>)"
      using dist' sub all by (auto simp: cache_seen_def Let_def)
    ultimately show thesis using that True by (simp add: insert_absorb)
  next
    case False
    have new: "oe_message_id (es ! i) \<notin> fst ` set ?kept"
    proof
      assume "oe_message_id (es ! i) \<in> fst ` set ?kept"
      then obtain j where "j \<in> seen" "oe_message_id (es ! i) = oe_message_id (es ! j)" using sub by auto
      then have "i = j" using ids i seen nth_eq_iff_index_eq [OF ids, of i j] by auto
      with False \<open>j \<in> seen\<close> show False by simp
    qed
    have fin: "finite seen" using seen finite_subset by blast
    have "length ?kept \<le> length (rc_entries cache)" by simp
    also have "\<dots> = card (set (rc_entries cache))" using dist by (metis distinct_card distinct_map)
    also have "\<dots> \<le> card seen" using sub fin by (meson card_image_le card_mono finite_imageI order_trans)
    also have "\<dots> < card {..<length es}" using seen i False by (intro psubset_card_mono) auto
    finally have "length ?kept < rc_capacity cache" using room by simp
    with new have run: "check_and_insert (oe_message_id (es ! i)) (oe_expires_at_unix (es ! i)) now cache =
        (Ok (), cache\<lparr>rc_entries := ?kept @ [?entry i]\<rparr>)"
      by (force simp: check_and_insert_def Let_def)
    have "cache_seen es (insert i seen) now (cache\<lparr>rc_entries := ?kept @ [?entry i]\<rparr>)"
      using dist' new sub all by (auto simp: cache_seen_def Let_def)
    then show thesis using that run False by simp
  qed
qed

section \<open>The ratchet\<close>

lemma receive_unseen:
  assumes P: "hkdf_total P" and st: "follows P c st" and f: "of_chain P c st f pt"
    and m: "unat (fh_message_number (if_header f)) = n + i" "i < len" "n + len < 2 ^ 32"
    and w: "open_from n (n + len) ((+) n ` seen) (window_of st)" and i: "i \<notin> seen"
  obtains st' where "RatchetState_decrypt P f st r = (Ok pt, st', r)" "follows P c st'"
    "rs_session_id st' = rs_session_id st" "rs_suite st' = rs_suite st" "rs_remote_dh st' = rs_remote_dh st"
    "open_from n (n + len) ((+) n ` insert i seen) (window_of st')"
proof -
  have "unat (fh_message_number (if_header f)) < 2 ^ 32 - 1" using m by simp
  from decrypt_refines_window [OF P st f refl this, of r] obtain st' where
    run: "RatchetState_decrypt P f st r = (delivers pt (fst (window_receive (n + i) (window_of st))), st', r)"
    and st': "follows P c st'" "window_of st' = snd (window_receive (n + i) (window_of st))"
      "rs_session_id st' = rs_session_id st" "rs_suite st' = rs_suite st" "rs_remote_dh st' = rs_remote_dh st"
    by (auto simp: m(1))
  have "n \<le> n + i" "n + i < n + len" using m(2) by simp_all
  from window_receive_open [OF w this] have "fst (window_receive (n + i) (window_of st)) = Ok ()"
    "open_from n (n + len) ((+) n ` insert i seen) (window_of st')"
    using i by (auto simp: st'(2))
  with that run st' show thesis by simp
qed

section \<open>The stack implements the mailbox\<close>

lemma collect_expired:
  assumes "posted P secret f expires e" "expires < now"
  shows "collect_one P secret (envelope_bytes e) now cache st r = (Err EnvelopeExpired, cache, st, r)"
  using postedD [OF assms(1)] assms(2) by (simp add: collect_one_def OuterEnvelope_open_inner_once_def not_le [symmetric])

lemma collect_inserted:
  assumes "posted P secret f expires e" "\<not> expires < now"
    and "check_and_insert (oe_message_id e) (oe_expires_at_unix e) now cache = (res, cache')"
  shows "collect_one P secret (envelope_bytes e) now cache st r =
    (case res of Inl e \<Rightarrow> (Inl e, cache', st, r)
     | Inr u \<Rightarrow> (case RatchetState_decrypt P f st r of (res, st1, r1) \<Rightarrow> (res, cache', st1, r1)))"
  using postedD [OF assms(1)] assms(2,3)
  by (auto simp: collect_one_def OuterEnvelope_open_inner_once_def not_less split: sum.split prod.split)

lemma collect_implements_mailbox:
  assumes P: "hkdf_total P" and ids: "distinct (map oe_message_id es)" and bound: "n + length es < 2 ^ 32"
    and es: "\<forall>i < length es. posted P secret (fs i) (expires i) (es ! i) \<and>
      unat (fh_message_number (if_header (fs i))) = n + i"
  shows "seen \<subseteq> {..<length es} \<Longrightarrow> fst ` set order \<subseteq> {..<length es} \<Longrightarrow> sorted (t # map snd order) \<Longrightarrow>
    length es \<le> rc_capacity cache \<Longrightarrow> cache_seen es seen t cache \<Longrightarrow> follows P c st \<Longrightarrow>
    \<forall>i < length es. of_chain P c st (fs i) (texts i) \<Longrightarrow>
    open_from n (n + length es) ((+) n ` seen) (window_of st) \<Longrightarrow>
    collect P secret (map (\<lambda>(i, now). (envelope_bytes (es ! i), now)) order) cache st r =
      mailbox_results expires texts seen order"
proof (induction order arbitrary: seen t cache st r)
  case (Cons arrival order)
  obtain i now where arrival: "arrival = (i, now)" by (cases arrival)
  have i: "i < length es" and later: "t \<le> now" "sorted (now # map snd order)"
    and rest: "fst ` set order \<subseteq> {..<length es}"
    using Cons.prems(2,3) by (auto simp: arrival)
  have e: "posted P secret (fs i) (expires i) (es ! i)" and number: "unat (fh_message_number (if_header (fs i))) = n + i"
    using es i by auto
  then have exp: "oe_expires_at_unix (es ! i) = expires i" by (simp add: posted_def)
  note cache = cache_seen_later [OF Cons.prems(5) later(1)]
  show ?case
  proof (cases "expires i < now")
    case True
    from Cons.IH [OF Cons.prems(1) rest later(2) Cons.prems(4) cache Cons.prems(6-8), of r] True show ?thesis
      by (simp add: arrival collect_expired [OF e])
  next
    case False
    then have live: "now \<le> oe_expires_at_unix (es ! i)" by (simp add: exp)
    obtain cache' where ins: "check_and_insert (oe_message_id (es ! i)) (oe_expires_at_unix (es ! i)) now cache =
        (if i \<in> seen then Err ReplayDetected else Ok (), cache')"
      and cache': "cache_seen es (insert i seen) now cache'" "rc_capacity cache' = rc_capacity cache"
      by (rule cache_seen_insert [OF ids i Cons.prems(1,4) cache live])
    have room: "length es \<le> rc_capacity cache'" using Cons.prems(4) cache'(2) by simp
    note one = collect_inserted [OF e False ins, of st r]
    show ?thesis
    proof (cases "i \<in> seen")
      case True
      then have "cache_seen es seen now cache'" using cache'(1) by (simp add: insert_absorb)
      from Cons.IH [OF Cons.prems(1) rest later(2) room this Cons.prems(6-8), of r] True False one show ?thesis
        by (simp add: arrival)
    next
      case new: False
      have f: "of_chain P c st (fs i) (texts i)" using Cons.prems(7) i by blast
      obtain st' where run: "RatchetState_decrypt P (fs i) st r = (Ok (texts i), st', r)" and st': "follows P c st'"
        "rs_session_id st' = rs_session_id st" "rs_suite st' = rs_suite st" "rs_remote_dh st' = rs_remote_dh st"
        "open_from n (n + length es) ((+) n ` insert i seen) (window_of st')"
        by (rule receive_unseen [OF P Cons.prems(6) f number i bound Cons.prems(8) new])
      have "\<forall>j < length es. of_chain P c st' (fs j) (texts j)"
        using Cons.prems(7) by (simp add: of_chain_def st'(2-4))
      from Cons.IH [OF _ rest later(2) room cache'(1) st'(1) this st'(5), of r] Cons.prems(1) i new False one run
      show ?thesis by (simp add: arrival)
    qed
  qed
qed simp

text \<open>Messages with their expiry and padding, posted by one of two synchronised sides.\<close>

lemma session_posted:
  assumes P: "lawful P" and s: "synced P a b" and sync: "rs_sending_count a = rs_receiving_count b"
    and room: "length (rs_skipped b) + length jobs \<le> MAX_SKIPPED_KEYS" "unat (rs_sending_count a) + length jobs < 2 ^ 32"
    and small: "\<forall>(pt, expires, pad) \<in> set jobs. length pt + pad \<le> MAX_CIPHERTEXT_LEN - 139"
    and kp: "key_pair_ok P kp" and m: "length (mailbox_bytes m) = 32"
    and cache: "ReplayCache_new capacity = Ok cache" "length jobs \<le> capacity"
  shows "\<exists>fs a' r1 es r2. encrypt_all P kind (map fst jobs) a r = (Ok fs, a', r1) \<and>
    post_all P (kp_public kp) m (zip fs (map snd jobs)) r1 = (Ok es, r2) \<and>
    map OuterEnvelope_encode es = map Ok (map envelope_bytes es) \<and> length es = length jobs \<and>
    (distinct (map oe_message_id es) \<longrightarrow>
      (\<forall>order r3. fst ` set order \<subseteq> {..<length jobs} \<longrightarrow> sorted (map snd order) \<longrightarrow>
        collect P (kp_secret kp) (map (\<lambda>(i, now). (envelope_bytes (es ! i), now)) order) cache b r3 =
          mailbox_results (\<lambda>i. fst (snd (jobs ! i))) (\<lambda>i. fst (jobs ! i)) {} order))"
proof -
  note law = lawfulD [OF P]
  define n where "n = unat (rs_sending_count a)"
  obtain c where a: "ratchet_ok P a" and link: "chain_link P c a b" using s by (auto simp: synced_def live_link_def)
  have ch: "channel P a b [] []" using P synced_duplex_ok [OF s] by (simp add: channel_def)
  have texts: "\<forall>pt \<in> set (map fst jobs). length pt \<le> MAX_CIPHERTEXT_LEN - AEAD_TAG_LEN"
    using small by (fastforce simp: limits)
  have "n + length (map fst jobs) < 2 ^ 32" using room(2) by (simp add: n_def)
  from channel_send_many [OF ch texts n_def [symmetric] this, of kind r]
  obtain fs a' r1 where sent: "encrypt_all P kind (map fst jobs) a r = (Ok fs, a', r1)" and len: "length fs = length jobs"
    and number: "\<forall>i < length jobs. unat (fh_message_number (if_header (fs ! i))) = n + i"
    and frames: "\<forall>i < length jobs. frame_ok (fs ! i) \<and>
      length (ct_body (if_ciphertext (fs ! i))) = length (fst (jobs ! i)) + AEAD_TAG_LEN" by auto
  have "length (frame_bytes (fs ! i)) + snd (snd (jobs ! i)) \<le> MAX_CIPHERTEXT_LEN - AEAD_TAG_LEN" if "i < length jobs" for i
  proof -
    have "jobs ! i \<in> set jobs" using that by simp
    then have "length (fst (jobs ! i)) + snd (snd (jobs ! i)) \<le> MAX_CIPHERTEXT_LEN - 139" using small by (auto simp: split_def)
    then show ?thesis
      using length_frame_bytes [of "fs ! i"] frames that nonce_len_bound [of "ct_suite (if_ciphertext (fs ! i))"]
      by (simp add: limits)
  qed
  then have "\<forall>(f, expires, pad) \<in> set (zip fs (map snd jobs)).
      frame_ok f \<and> length (frame_bytes f) + pad \<le> MAX_CIPHERTEXT_LEN - AEAD_TAG_LEN"
    using frames len by (auto simp: in_set_zip) (metis snd_conv)
  from post_all_total [OF P kp m this, of r1] obtain es r2 where
    es: "post_all P (kp_public kp) m (zip fs (map snd jobs)) r1 = (Ok es, r2)"
    "list_all2 (\<lambda>(f, expires, pad). posted P (kp_secret kp) f expires) (zip fs (map snd jobs)) es" by blast
  have n_es: "length es = length jobs" using list_all2_lengthD [OF es(2)] len by simp
  have sealed: "posted P (kp_secret kp) (fs ! i) (fst (snd (jobs ! i))) (es ! i)" if "i < length jobs" for i
    using list_all2_nthD [OF es(2), of i] that len by (simp add: split_def)
  then have wires: "map OuterEnvelope_encode es = map Ok (map envelope_bytes es)"
    by (auto simp: list_eq_iff_nth_eq n_es posted_def OuterEnvelope_encode_Ok)
  have b: "follows P c b" using link by (simp add: chain_link_def)
  have start: "open_from n (n + length es) ((+) n ` {}) (window_of b)"
    using b room(1) kept_keys [OF b] n_es
    by (auto simp: open_from_def n_def sync follows_def word_less_nat_alt) (auto simp: window_of_def word_less_nat_alt)
  have texts': "\<forall>i < length es. of_chain P c b (fs ! i) (fst (jobs ! i))"
    using encrypt_all_link [OF law(1,2,7) a link sent] n_es by auto
  have fresh: "cache_seen es {} 0 cache" "length es \<le> rc_capacity cache"
    using cache n_es by (auto simp: ReplayCache_new_def cache_seen_def split: if_splits)
  have "collect P (kp_secret kp) (map (\<lambda>(i, now). (envelope_bytes (es ! i), now)) order) cache b r3 =
      mailbox_results (\<lambda>i. fst (snd (jobs ! i))) (\<lambda>i. fst (jobs ! i)) {} order"
    if "distinct (map oe_message_id es)" "fst ` set order \<subseteq> {..<length jobs}" "sorted (map snd order)" for order r3
  proof (rule collect_implements_mailbox [OF law(7) that(1), where n = n and fs = "(!) fs" and t = 0])
    show "n + length es < 2 ^ 32" using room(2) n_es by (simp add: n_def)
  qed (use that sealed number n_es fresh b texts' start in \<open>simp_all add: n_es\<close>)
  with sent es(1) wires n_es show ?thesis by blast
qed

text \<open>The identifiers are the second of the three draws each envelope makes.\<close>

lemma sealed_identifier:
  assumes "OuterEnvelope_seal P pk m t f pad r = (Inr e, r')"
  shows "sys_rng P (Suc r) 16 = Some (transport_bytes (oe_message_id e))" "r' = r + 3"
proof -
  from assms obtain kp r1 shared key i r2 aad c plain where
    "DhKeyPair_generate P r = (Ok kp, r1)" and i: "TransportMessageId_generate P r1 = (Ok i, r2)"
    and seal: "aead_seal P key OUTER_SUITE aad plain r2 = (Ok c, r')"
    and e: "OuterEnvelope_from_ciphertext m i t (kp_public kp) c = Ok e"
    unfolding OuterEnvelope_seal_def by (auto simp: io_bind_Ok io_lift_def Let_def split: if_splits)
  then have "r1 = Suc r" "r2 = Suc (Suc r)" "r' = Suc r2"
    by (auto simp: DhKeyPair_generate_Ok TransportMessageId_generate_Ok aead_seal_Ok)
  then show "sys_rng P (Suc r) 16 = Some (transport_bytes (oe_message_id e))" "r' = r + 3"
    using i from_ciphertext_outer_fields [OF e] by (auto simp: TransportMessageId_generate_Ok)
qed

lemma post_all_identifiers:
  assumes "post_all P pk m jobs r = (Inr es, r')"
  shows "map (\<lambda>e. Some (transport_bytes (oe_message_id e))) es = map (\<lambda>i. sys_rng P (r + 3 * i + 1) 16) [0 ..< length es]"
  using assms
proof (induction jobs arbitrary: r es)
  case (Cons job jobs)
  obtain f t pad where job: "job = (f, t, pad)" by (cases job)
  from Cons.prems obtain e r1 rest where e: "OuterEnvelope_seal P pk m t f pad r = (Inr e, r1)"
    and rest: "post_all P pk m jobs r1 = (Inr rest, r')" and es: "es = e # rest"
    by (auto simp: job split: prod.splits sum.splits)
  note id = sealed_identifier [OF e]
  have "[0 ..< length es] = 0 # map Suc [0 ..< length rest]" by (simp add: es map_Suc_upt upt_conv_Cons [of 0 "Suc (length rest)"] del: upt_Suc)
  with Cons.IH [OF rest] id show ?case by (simp add: es algebra_simps)
qed simp

end
