(* ===== verification/Mef_Restart.thy ===== *)
theory Mef_Restart
  imports Mef_Duplex Mef_Persistence
begin

text \<open>
  Devices that stop and start again. Between any two calls of a session each side may seal its ratchet
  state, forget it and restore it from the sealed bytes; the traffic of both directions goes on
  as if it had never stopped, and a side can always do so.
\<close>

section \<open>Traffic with restarts\<close>

inductive serviced :: "primitives \<Rightarrow> traffic \<Rightarrow> traffic \<Rightarrow> bool" for P where
  moved: "duplex P s s' \<Longrightarrow> serviced P s s'"
| restart_left: "seal_state P key ctx a r = (Inr blob, r') \<Longrightarrow> restore_state P key ctx minimum blob = Inr a' \<Longrightarrow>
    serviced P (a, b, fs, gs) (a', b, fs, gs)"
| restart_right: "seal_state P key ctx b r = (Inr blob, r') \<Longrightarrow> restore_state P key ctx minimum blob = Inr b' \<Longrightarrow>
    serviced P (a, b, fs, gs) (a, b', fs, gs)"

inductive_cases servicedE: "serviced P s s'"

lemma restart_same:
  assumes "aeads_ok P" "ratchet_ok P st" "seal_state P key ctx st r = (Inr blob, r')"
    and "restore_state P key ctx minimum blob = Inr st'"
  shows "st' = st"
  using restore_sealed [OF assms(1-3), of minimum] assms(4) by (simp split: if_splits)

lemma serviced_step:
  assumes P: "aeads_ok P" and s: "duplex_ok P s" and step: "serviced P s s'"
  shows "s' = s \<or> duplex P s s'"
  using step s restart_same [OF P] by (cases rule: servicedE) (auto simp: duplex_ok_def)

lemma serviced_run:
  assumes P: "sizes_ok P" "aeads_ok P" "hkdf_total P" and s: "duplex_ok P s"
  shows "(serviced P)\<^sup>*\<^sup>* s s' \<Longrightarrow> (duplex P)\<^sup>*\<^sup>* s s'"
proof (induction rule: rtranclp_induct)
  case (step s1 s2)
  from serviced_step [OF P(2) duplex_run_ok [OF P step.IH s] step.hyps(2)] step.IH show ?case by auto
qed simp

section \<open>What is sealed can be restored\<close>

text \<open>All keys kept are for the current chain, as long as no DH ratchet step is made.\<close>

definition one_chain :: "ratchet_state \<Rightarrow> bool" where
  "one_chain st \<longleftrightarrow> (\<forall>e \<in> set (rs_skipped st). sk_remote_dh e = rs_remote_dh st)"

lemma one_chain_distinct:
  assumes "follows P c st" "one_chain st"
  shows "distinct (map entry_id (rs_skipped st))"
proof -
  have "own_entries st = rs_skipped st" using assms(2) by (simp add: own_entries_def one_chain_def)
  then have "distinct (map snd (map entry_id (rs_skipped st)))"
    using assms(1) by (simp add: follows_def entry_id_def o_def)
  then show ?thesis by (simp only: distinct_map)
qed

lemma one_chain_send:
  assumes "one_chain st" "RatchetState_encrypt P kind pt st r = (Inr f, st', r')"
  shows "one_chain st'"
  using encrypt_success(2) [OF assms(2)] assms(1) by (auto simp: one_chain_def)

lemma one_chain_receive:
  assumes st: "one_chain st" and run: "decrypt_same_ratchet P (rs_remote_dh st) f st = (res, st')"
  shows "one_chain st'"
  using run
proof (cases rule: decrypt_same_cases)
  case (skipped pt)
  from skipped(3) st show ?thesis
    by (cases rule: decrypt_skipped_cases) (auto simp: one_chain_def bump_generation_def dest: in_set_remove_at)
qed (use st in \<open>auto simp: one_chain_def bump_generation_def add_skipped_def\<close>)

definition one_chains :: "traffic \<Rightarrow> bool" where
  "one_chains s \<longleftrightarrow> (case s of (a, b, fs, gs) \<Rightarrow> one_chain a \<and> one_chain b)"

lemma duplex_receive_same:
  assumes "hkdf_total P" "direction P c a b fs" "(f, pt) \<in> set fs" "RatchetState_decrypt P f b r = (res, b', r')"
  shows "decrypt_same_ratchet P (rs_remote_dh b) f b = (res, b')"
  by (rule direction_receive [OF assms(1-3), of r]) (use assms(4) in simp)

lemma one_chains_step:
  assumes P: "hkdf_total P" and s: "duplex_ok P s" "one_chains s" and step: "duplex P s s'"
  shows "one_chains s'"
  using step
proof cases
  case (receive_right f pt fs b r res b' r' a gs)
  then obtain c where "direction P c a b fs" using s(1) by (auto simp: duplex_ok_def)
  from one_chain_receive [OF _ duplex_receive_same [OF P this receive_right(3,4)]] s(2) receive_right(1,2)
  show ?thesis by (simp add: one_chains_def)
next
  case (receive_left g pt gs a r res a' r' b fs)
  then obtain c where "direction P c b a gs" using s(1) by (auto simp: duplex_ok_def)
  from one_chain_receive [OF _ duplex_receive_same [OF P this receive_left(3,4)]] s(2) receive_left(1,2)
  show ?thesis by (simp add: one_chains_def)
qed (use s(2) in \<open>auto simp: one_chains_def dest: one_chain_send\<close>)

lemma one_chains_run:
  assumes P: "sizes_ok P" "aeads_ok P" "hkdf_total P" and s: "duplex_ok P s" "one_chains s"
  shows "(duplex P)\<^sup>*\<^sup>* s s' \<Longrightarrow> one_chains s'"
proof (induction rule: rtranclp_induct)
  case (step s1 s2)
  from one_chains_step [OF P(3) duplex_run_ok [OF P step.hyps(1) s(1)] step.IH step.hyps(2)] show ?case .
qed (rule s(2))

lemma restart_possible:
  assumes P: "sizes_ok P" "aeads_ok P" "rng_total P" and st: "ratchet_ok P st" "follows P c st" "one_chain st"
    and key: "length (aead_key_bytes (seal_key key)) = 32" and ctx: "context_ok ctx"
  shows "\<exists>blob r'. seal_state P key ctx st r = (Ok blob, r') \<and> restore_state P key ctx (rs_generation st) blob = Ok st"
proof -
  obtain nonce where "sys_rng P r 24 = Some nonce" using P(3) by (auto simp: rng_total_def)
  from seal_state_total [OF P(2,1) st(1) ctx key this] obtain blob where
    blob: "seal_state P key ctx st r = (Inr blob, Suc r)" by blast
  with restore_sealed [OF P(2) st(1) blob, of "rs_generation st"] one_chain_distinct [OF st(2,3)] show ?thesis
    by auto
qed

lemma traffic_survives:
  assumes P: "sizes_ok P" "aeads_ok P" "hkdf_total P" "rng_total P" and s: "synced P a b" "one_chain a" "one_chain b"
    and run: "(serviced P)\<^sup>*\<^sup>* (a, b, [], []) (x, y, sent, replies)"
  shows "\<forall>(f, pt) \<in> set sent. \<exists>y'. RatchetState_decrypt P f y r =
      (delivers pt (fst (window_receive (unat (fh_message_number (if_header f))) (window_of y))), y', r)"
    "\<forall>(g, pt) \<in> set replies. \<exists>x'. RatchetState_decrypt P g x r =
      (delivers pt (fst (window_receive (unat (fh_message_number (if_header g))) (window_of x))), x', r)"
    "length (aead_key_bytes (seal_key key)) = 32 \<Longrightarrow> context_ok ctx \<Longrightarrow> st \<in> {x, y} \<Longrightarrow>
      \<exists>blob r'. seal_state P key ctx st r = (Ok blob, r') \<and> restore_state P key ctx (rs_generation st) blob = Ok st"
proof -
  note start = synced_duplex_ok [OF s(1)]
  note moves = serviced_run [OF P(1-3) start run]
  note ok = duplex_run_ok [OF P(1-3) moves start]
  obtain c d where dirs: "direction P c x y sent" "direction P d y x replies" and xy: "ratchet_ok P x" "ratchet_ok P y"
    using ok by (auto simp: duplex_ok_def)
  show "\<forall>(f, pt) \<in> set sent. \<exists>y'. RatchetState_decrypt P f y r =
      (delivers pt (fst (window_receive (unat (fh_message_number (if_header f))) (window_of y))), y', r)"
    using direction_receive [OF P(3) dirs(1), where r = r] by blast
  show "\<forall>(g, pt) \<in> set replies. \<exists>x'. RatchetState_decrypt P g x r =
      (delivers pt (fst (window_receive (unat (fh_message_number (if_header g))) (window_of x))), x', r)"
    using direction_receive [OF P(3) dirs(2), where r = r] by blast
  have chains: "one_chain x" "one_chain y"
    using one_chains_run [OF P(1-3) start _ moves] s(2,3) by (simp_all add: one_chains_def)
  have "follows P d x" "follows P c y" using dirs by (simp_all add: direction_def chain_link_def)
  then show "\<exists>blob r'. seal_state P key ctx st r = (Ok blob, r') \<and> restore_state P key ctx (rs_generation st) blob = Ok st"
    if "length (aead_key_bytes (seal_key key)) = 32" "context_ok ctx" "st \<in> {x, y}"
    using restart_possible [OF P(1,2,4) _ _ _ that(1,2)] that(3) xy chains by blast
qed

end
