(* ===== verification/Mef_Errors.thy ===== *)
theory Mef_Errors
  imports Mef_Channel Mef_Persistence
begin

text \<open>
  When a call fails, and with which error: for values the crate itself produces, the arguments
  and the answers of the random source decide the result of a call completely, and here it is spelled
  out for the calls of a session, of the prekey material and of the snapshots.
\<close>

section \<open>Results without their values\<close>

definition outcome :: "'a res \<Rightarrow> unit res" where
  "outcome result = (case result of Inl e \<Rightarrow> Inl e | Inr _ \<Rightarrow> Ok ())"

lemma outcome_simps [simp]: "outcome (Inl e) = Inl e" "outcome (Inr x) = Ok ()"
  by (simp_all add: outcome_def)

lemma outcome_iff:
  "outcome x = Inl e \<longleftrightarrow> x = Inl e" "outcome x = Ok () \<longleftrightarrow> (\<exists>y. x = Ok y)"
  by (cases x; simp)+

lemma fill_secure_eq:
  "fill_secure P n r = (case sys_rng P r n of None \<Rightarrow> Err RandomnessUnavailable | Some bs \<Rightarrow> Ok bs, Suc r)"
  by (simp add: fill_secure_def split: option.split)

lemma generate_cases:
  assumes "sizes_ok P"
  obtains "sys_rng P r 32 = None" "DhKeyPair_generate P r = (Err RandomnessUnavailable, Suc r)"
  | bs kp where "sys_rng P r 32 = Some bs" "DhKeyPair_generate P r = (Ok kp, Suc r)" "key_pair_ok P kp"
proof (cases "sys_rng P r 32")
  case None
  then show thesis using that(1) by (simp add: DhKeyPair_generate_Inl)
next
  case (Some bs)
  then have "DhKeyPair_generate P r = (Ok (DhKeyPair_from_secret P (DhSecretKey bs)), Suc r)"
    by (simp add: DhKeyPair_generate_Ok)
  with that(2) Some sizes_okD(1) [OF assms Some] show thesis by simp
qed

section \<open>Sealing\<close>

lemma aead_seal_unavailable:
  assumes "length aad \<le> MAX_AAD_LEN" "length pt \<le> MAX_CIPHERTEXT_LEN - AEAD_TAG_LEN"
    "sys_rng P r (AeadSuite_nonce_len s) = None"
  shows "aead_seal P key s aad pt r = (Err RandomnessUnavailable, Suc r)"
  using assms by (simp add: aead_seal_def validate_inputs_def fill_secure_eq io_bind_def)

lemma encrypt_exact:
  assumes P: "sizes_ok P" "aeads_ok P" "hkdf_total P" and st: "ratchet_ok P st"
  shows "outcome (fst (RatchetState_encrypt P kind pt st r)) =
    (if length pt > MAX_CIPHERTEXT_LEN - AEAD_TAG_LEN then Err InvalidLength
     else if sys_rng P r (AeadSuite_nonce_len (rs_suite st)) = None then Err RandomnessUnavailable
     else if rs_sending_count st = - 1 then Err CounterExhausted else Ok ())"
proof -
  note h = own_header_ok [OF P(1) st, of kind "rs_previous_sending_chain_len st" "rs_sending_count st"]
  let ?h = "FrameHeader_new kind (rs_session_id st) (dh_public_bytes (kp_public (rs_dh_pair st)))
      (rs_previous_sending_chain_len st) (rs_sending_count st)"
  let ?k = "chain_message P (rs_sending_chain st)"
  note step = chain_step_total [OF P(3), of "rs_sending_chain st"]
  note run = RatchetState_encrypt_def [of P kind pt st r, unfolded step]
  consider "length pt > MAX_CIPHERTEXT_LEN - AEAD_TAG_LEN"
    | "length pt \<le> MAX_CIPHERTEXT_LEN - AEAD_TAG_LEN" "sys_rng P r (AeadSuite_nonce_len (rs_suite st)) = None"
    | nonce where "length pt \<le> MAX_CIPHERTEXT_LEN - AEAD_TAG_LEN" "sys_rng P r (AeadSuite_nonce_len (rs_suite st)) = Some nonce"
    by fastforce
  then show ?thesis
  proof cases
    case 1
    from InnerFrame_seal_too_long [OF h this] 1 show ?thesis by (simp add: run)
  next
    case 2
    have "length (frame_aad_bytes (rs_suite st) ?h (length pt + AEAD_TAG_LEN)) \<le> MAX_AAD_LEN"
      using h by (simp add: limits)
    note none = aead_seal_unavailable [OF this 2]
    have "InnerFrame_seal P ?k (rs_suite st) ?h pt r = (Err RandomnessUnavailable, Suc r)"
      using 2(1) h none by (simp add: InnerFrame_seal_def frame_encode_aad_Ok checked_add_usize_def limits)
    with 2 show ?thesis by (simp add: run)
  next
    case 3
    obtain f where "InnerFrame_seal P ?k (rs_suite st) ?h pt r = (Ok f, Suc r)"
      using InnerFrame_seal_total [OF P(2,1) h chain_message_length [OF P(1,3)] 3] by blast
    moreover have "checked_add_word (rs_sending_count st) 1 = None \<longleftrightarrow> rs_sending_count st = - 1"
      using checked_count_None [of "rs_sending_count st"]
      by (auto simp: checked_add_word_def unsigned_minus_1_eq_mask mask_eq_exp_minus_1)
    ultimately show ?thesis using 3 by (auto simp: run split: option.split)
  qed
qed

lemma seal_state_exact:
  assumes P: "sizes_ok P" "aeads_ok P" and st: "ratchet_ok P st" and key: "length (aead_key_bytes (seal_key key)) = 32"
  shows "outcome (fst (seal_state P key context st r)) =
    (if \<not> context_ok context then Err InvalidLength
     else if sys_rng P r 24 = None then Err RandomnessUnavailable else Ok ())"
proof (cases "context_ok context")
  case ctx: True
  show ?thesis
  proof (cases "sys_rng P r 24")
    case None
    obtain pt where pt: "encode_state st = Ok pt" "length pt \<le> MAX_CIPHERTEXT_LEN - AEAD_TAG_LEN"
      by (rule encode_state_fits [OF st])
    have "length (state_label STATE_VERSION @ context) \<le> MAX_AAD_LEN"
      using ctx by (simp add: length_state_label context_ok_def)
    from aead_seal_unavailable [OF this pt(2), of P r XChaCha20Poly1305] None
    show ?thesis by (simp add: seal_state_def state_aad_eq ctx pt(1) XCHACHA_NONCE_LEN_def)
  next
    case (Some nonce)
    from seal_state_total [OF P(2,1) st ctx key this] Some ctx show ?thesis by auto
  qed
qed (simp add: seal_state_def state_aad_eq)

text \<open>Public keys as the crate makes them, and the point that is no key at all.\<close>

definition honest_key :: "primitives \<Rightarrow> dh_public \<Rightarrow> bool" where
  "honest_key P pk \<longleftrightarrow> (\<exists>kp. key_pair_ok P kp \<and> kp_public kp = pk)"

definition zero_key :: dh_public where
  "zero_key = DhPublicKey (replicate 32 0)"

lemma exchange_exact:
  assumes "x25519_live P" "key_pair_ok P kp" "honest_key P pk \<or> pk = zero_key"
  shows "DhKeyPair_diffie_hellman P kp pk =
    (if pk = zero_key then Err NonContributoryKeyAgreement
     else Ok (x25519_shared P (dh_secret_bytes (kp_secret kp)) (dh_public_bytes pk)))"
proof (cases "pk = zero_key")
  case True
  then show ?thesis using assms(1) by (simp add: zero_key_def x25519_live_def diffie_hellman_Inl)
next
  case False
  with assms(3) obtain other where "key_pair_ok P other" "pk = kp_public other" by (auto simp: honest_key_def)
  with honest_exchange [OF assms(1,2)] obtain z where "DhKeyPair_diffie_hellman P kp pk = Ok z" by blast
  with False show ?thesis by (auto simp: diffie_hellman_Ok)
qed

lemma honest_not_zero:
  assumes "x25519_live P" "honest_key P pk"
  shows "pk \<noteq> zero_key"
proof
  assume zero: "pk = zero_key"
  obtain kp where kp: "key_pair_ok P kp" "kp_public kp = pk" using assms(2) by (auto simp: honest_key_def)
  obtain z where "DhKeyPair_diffie_hellman P kp pk = Ok z"
    using honest_exchange [OF assms(1) kp(1) kp(1)] kp(2) by metis
  with exchange_exact [OF assms(1) kp(1), of pk] zero show False by simp
qed

lemma envelope_seal_exact:
  assumes P: "sizes_ok P" "aeads_ok P" "hkdf_total P" "x25519_live P"
    and f: "frame_ok f" and m: "length (mailbox_bytes m) = 32" and pk: "honest_key P pk"
  shows "outcome (fst (OuterEnvelope_seal P pk m t f pad r)) =
    (if sys_rng P r 32 = None \<or> sys_rng P (Suc r) 16 = None then Err RandomnessUnavailable
     else if length (frame_bytes f) + pad > MAX_CIPHERTEXT_LEN - AEAD_TAG_LEN then Err InvalidLength
     else if sys_rng P (Suc (Suc r)) (AeadSuite_nonce_len OUTER_SUITE) = None then Err RandomnessUnavailable
     else Ok ())"
  using P(1)
proof (cases rule: generate_cases [of _ r])
  case 1
  then show ?thesis by (simp add: OuterEnvelope_seal_def)
next
  case (2 bs kp)
  obtain z where z: "DhKeyPair_diffie_hellman P kp pk = Ok z"
    using exchange_exact [OF P(4) 2(3), of pk] honest_not_zero [OF P(4) pk] pk by simp
  have "length z \<le> MAX_CIPHERTEXT_LEN" "ascii ''outer-envelope-v1'' \<noteq> []" "length (ascii ''outer-envelope-v1'') \<le> 255"
    using diffie_hellman_length [OF P(1) z] by (simp_all add: MAX_CIPHERTEXT_LEN_def ascii_def)
  then obtain key where key: "derive_aead_key P (mailbox_bytes m) (ascii ''outer-envelope-v1'') z = Ok key"
    using derive_aead_key_total [OF P(3)] by blast
  note start = 2(1,2) z key
  show ?thesis
  proof (cases "sys_rng P (Suc r) 16")
    case None
    then have "TransportMessageId_generate P (Suc r) = (Err RandomnessUnavailable, Suc (Suc r))"
      by (simp add: TransportMessageId_generate_def random_bytes_def fill_secure_eq io_bind_def TRANSPORT_ID_LEN_def)
    with None start show ?thesis by (simp add: OuterEnvelope_seal_def)
  next
    case ib: (Some ib)
    then have id: "TransportMessageId_generate P (Suc r) = (Ok (TransportMessageId ib), Suc (Suc r))"
      by (simp add: TransportMessageId_generate_Ok)
    note front = start ib id InnerFrame_encode_Ok [OF f]
    let ?n = "length (frame_bytes f) + pad"
    consider "?n > MAX_CIPHERTEXT_LEN - AEAD_TAG_LEN"
      | "?n \<le> MAX_CIPHERTEXT_LEN - AEAD_TAG_LEN" "sys_rng P (Suc (Suc r)) (AeadSuite_nonce_len OUTER_SUITE) = None"
      | nonce where "?n \<le> MAX_CIPHERTEXT_LEN - AEAD_TAG_LEN"
          "sys_rng P (Suc (Suc r)) (AeadSuite_nonce_len OUTER_SUITE) = Some nonce"
      by fastforce
    then show ?thesis
    proof cases
      case 1
      then show ?thesis using front by (simp add: OuterEnvelope_seal_def checked_add_usize_def)
    next
      case 2
      have fields: "envelope_fields_ok m (TransportMessageId ib) (kp_public kp)"
        using m sizes_okD(1) [OF P(1) ib] \<open>key_pair_ok P kp\<close> P(1) by (simp add: envelope_fields_ok_def)
      let ?aad = "outer_aad_bytes m (TransportMessageId ib) t (kp_public kp) (?n + AEAD_TAG_LEN)"
      have "length ?aad \<le> MAX_AAD_LEN" using fields by (simp add: MAX_AAD_LEN_def)
      from aead_seal_unavailable [OF this _ 2(2), of "frame_bytes f @ replicate pad 0" key] 2(1)
      have "aead_seal P key OUTER_SUITE ?aad (frame_bytes f @ replicate pad 0) (Suc (Suc r)) =
          (Err RandomnessUnavailable, Suc (Suc (Suc r)))" by simp
      moreover have "outer_encode_aad m (TransportMessageId ib) t (kp_public kp) (?n + AEAD_TAG_LEN) = Ok ?aad"
        using fields 2(1) by (simp add: outer_encode_aad_Ok limits)
      ultimately show ?thesis using front 2
        by (simp add: OuterEnvelope_seal_def io_bind_def checked_add_usize_def limits)
    next
      case 3
      obtain e where "OuterEnvelope_seal P pk m t f pad r = (Ok e, Suc (Suc (Suc r)))"
        using seal_envelope_runs [OF P(1-3) ib 3(2) f m \<open>DhKeyPair_generate P r = _\<close> z 3(1)] by blast
      with 3 \<open>sys_rng P r 32 = Some bs\<close> ib show ?thesis by simp
    qed
  qed
qed

section \<open>Prekey material and handshake\<close>

lemma add_one_time_prekey_exact:
  assumes "sizes_ok P"
  shows "outcome (fst (add_one_time_prekey P i m r)) =
    (if \<not> one_time_absent i m then Err InvalidState
     else if sys_rng P r 32 = None then Err RandomnessUnavailable else Ok ())"
  by (rule generate_cases [OF assms, of r])
     (auto simp: add_one_time_prekey_def one_time_absent_def one_time_id_def)

lemma signed_ids:
  "i \<in> (sp_key_id \<circ> fst) ` set (signed_entries m) \<longleftrightarrow>
     sp_key_id (rm_signed_record m) = i \<or> (\<exists>(record, _) \<in> set (rm_retired_signed_prekeys m). sp_key_id record = i)"
  by (force simp: signed_entries_def)

lemma rotate_signed_prekey_exact:
  assumes "sizes_ok P"
  shows "outcome (fst (rotate_signed_prekey P i t m r)) =
    (if i \<in> (sp_key_id \<circ> fst) ` set (signed_entries m) then Err InvalidState
     else if sys_rng P r 32 = None then Err RandomnessUnavailable else Ok ())"
  unfolding signed_ids
  by (rule generate_cases [OF assms, of r]) (simp_all add: rotate_signed_prekey_def Let_def)

lemma retire_signed_prekey_exact:
  "outcome (fst (retire_signed_prekey i m)) =
    (if i \<in> (sp_key_id \<circ> fst) ` set (rm_retired_signed_prekeys m) then Ok () else Err InvalidState)"
proof (cases "position (\<lambda>(record, _). sp_key_id record = i) (rm_retired_signed_prekeys m)")
  case None
  then have "i \<notin> (sp_key_id \<circ> fst) ` set (rm_retired_signed_prekeys m)" by (force simp: position_None)
  with None show ?thesis by (simp add: retire_signed_prekey_def)
next
  case (Some k)
  then have "i \<in> (sp_key_id \<circ> fst) ` set (rm_retired_signed_prekeys m)"
    using position_None [of "\<lambda>(record, _). sp_key_id record = i" "rm_retired_signed_prekeys m"] by force
  with Some show ?thesis by (simp add: retire_signed_prekey_def)
qed

lemma rotate_sending_exact:
  assumes P: "sizes_ok P" "hkdf_total P" "x25519_live P"
    and remote: "honest_key P (rs_remote_dh st) \<or> rs_remote_dh st = zero_key"
  shows "outcome (fst (rotate_sending_ratchet P st r)) =
    (if sys_rng P r 32 = None then Err RandomnessUnavailable
     else if rs_remote_dh st = zero_key then Err NonContributoryKeyAgreement else Ok ())"
  using P(1)
proof (cases rule: generate_cases [of _ r])
  case 1
  then show ?thesis by (simp add: rotate_sending_ratchet_def)
next
  case (2 bs kp)
  note dh = exchange_exact [OF P(3) 2(3) remote]
  show ?thesis
  proof (cases "rs_remote_dh st = zero_key")
    case True
    with 2 dh show ?thesis by (simp add: rotate_sending_ratchet_def)
  next
    case False
    let ?z = "x25519_shared P (dh_secret_bytes (kp_secret kp)) (dh_public_bytes (rs_remote_dh st))"
    have "length ?z \<le> MAX_CIPHERTEXT_LEN" using P(1) by (simp add: sizes_okD MAX_CIPHERTEXT_LEN_def)
    then obtain n k where "root_step P (rs_root_key st) ?z = Ok (n, k)"
      using root_step_total [OF P(2)] by blast
    with 2 dh False show ?thesis by (simp add: rotate_sending_ratchet_def)
  qed
qed

lemma initiate_exact:
  assumes P: "sizes_ok P" "ed25519_ok P" "x25519_live P" "hkdf_total P"
    and rest: "local_identity_ok P li" "material_ok P m" "holds_prekeys P m b"
  shows "outcome (fst (handshake_initiate P li b now r)) =
    (case ResponderPrekeyBundle_verify P b now of
       Inl e \<Rightarrow> Inl e
     | Inr _ \<Rightarrow> if sys_rng P r 32 = None \<or> sys_rng P (Suc r) 32 = None then Err RandomnessUnavailable else Ok ())"
proof (cases "ResponderPrekeyBundle_verify P b now")
  case (Inl e)
  then show ?thesis by (simp add: handshake_initiate_def)
next
  case v: (Inr u)
  from P(1) show ?thesis
  proof (cases rule: generate_cases [of _ r])
    case 1
    with v show ?thesis by (simp add: handshake_initiate_def)
  next
    case e: (2 bs eph)
    from P(1) show ?thesis
    proof (cases rule: generate_cases [of _ "Suc r"])
      case 1
      with v e show ?thesis by (simp add: handshake_initiate_def)
    next
      case t: (2 bs' rat)
      have "ResponderPrekeyBundle_verify P b now = Ok ()" using v by simp
      with initiate_runs [OF P e(2,3) t(2,3) rest] obtain msg a where
        "handshake_initiate P li b now r = (Ok (msg, a), Suc (Suc r))" by blast
      with v e(1) t(1) show ?thesis by simp
    qed
  qed
qed

text \<open>Accepting looks the prekeys up, and fails at most on the zero point after that.\<close>

definition names_held_prekeys :: "responder_material \<Rightarrow> initiator_handshake \<Rightarrow> bool" where
  "names_held_prekeys m msg \<longleftrightarrow>
     ih_signed_prekey_id msg \<in> (sp_key_id \<circ> fst) ` set (signed_entries m) \<and>
     (case ih_one_time_prekey_id msg of Some i \<Rightarrow> \<not> one_time_absent i m | None \<Rightarrow> True)"

lemma accept_signed_prekey_absent:
  assumes "i \<notin> (sp_key_id \<circ> fst) ` set (signed_entries m)"
  shows "accept_signed_prekey P m i = Err RatchetStateMismatch"
proof -
  have "find (\<lambda>(record, _). sp_key_id record = i) (rm_retired_signed_prekeys m) = None"
    using assms unfolding signed_ids find_None_iff by auto
  moreover have "i \<noteq> sp_key_id (rm_signed_record m)" using assms unfolding signed_ids by auto
  ultimately show ?thesis by (simp add: accept_signed_prekey_def)
qed

lemma accept_exact:
  assumes P: "sizes_ok P" "ed25519_ok P" "x25519_live P" "hkdf_total P" and m: "material_ok P m"
    and msg: "message_shape msg"
    and keys: "\<forall>pk \<in> {id_dh (ih_initiator_identity msg), ih_initiator_ephemeral msg}. honest_key P pk \<or> pk = zero_key"
  shows "outcome (fst (handshake_accept P m msg)) =
    (case IdentityDhPublic_verify P (ih_initiator_identity msg) of
       Inl e \<Rightarrow> Inl e
     | Inr _ \<Rightarrow>
         if \<not> names_held_prekeys m msg then Err RatchetStateMismatch
         else if zero_key \<in> {id_dh (ih_initiator_identity msg), ih_initiator_ephemeral msg}
         then Err NonContributoryKeyAgreement else Ok ())"
proof (cases "IdentityDhPublic_verify P (ih_initiator_identity msg)")
  case (Inl e)
  then show ?thesis by (simp add: handshake_accept_def)
next
  case v: (Inr u)
  have msg_ok: "message_ok P msg" using msg v by (simp add: message_ok_def identity_ok_def message_shape_def)
  show ?thesis
  proof (cases "names_held_prekeys m msg")
    case False
    then consider "ih_signed_prekey_id msg \<notin> (sp_key_id \<circ> fst) ` set (signed_entries m)"
      | rec key i where "(rec, key) \<in> set (signed_entries m)" "ih_signed_prekey_id msg = sp_key_id rec"
        "ih_one_time_prekey_id msg = Some i" "one_time_absent i m"
      by (force simp: names_held_prekeys_def split: option.splits)
    then show ?thesis
    proof cases
      case 1
      from accept_signed_prekey_absent [OF this] v False show ?thesis by (simp add: handshake_accept_def)
    next
      case 2
      have "position (\<lambda>entry. otpk_id (otp_public entry) = i) (rm_one_time_prekeys m) = None"
        using 2(4) by (simp add: position_None one_time_absent_def one_time_id_def)
      with accept_signed_prekey_Ok [OF m 2(1)] 2(2,3) v False show ?thesis by (simp add: handshake_accept_def)
    qed
  next
    case held: True
    then obtain rec key where rec: "(rec, key) \<in> set (signed_entries m)" "ih_signed_prekey_id msg = sp_key_id rec"
      by (auto simp: names_held_prekeys_def)
    have key: "key_pair_ok P key" using m rec(1) by (fastforce simp: material_ok_def prekey_entry_ok_def)
    have li: "local_identity_ok P (rm_identity m)" using m by (simp add: material_ok_def)
    then have own: "key_pair_ok P (li_dh (rm_identity m))" by (simp add: local_identity_ok_def)
    let ?i = "id_dh (ih_initiator_identity msg)" and ?e = "ih_initiator_ephemeral msg"
    let ?dh = "\<lambda>kp pk. x25519_shared P (dh_secret_bytes (kp_secret kp)) (dh_public_bytes pk)"
    have ex: "DhKeyPair_diffie_hellman P kp pk = (if pk = zero_key then Err NonContributoryKeyAgreement else Ok (?dh kp pk))"
      if "key_pair_ok P kp" "pk \<in> {?i, ?e}" for kp pk
      using exchange_exact [OF P(3) that(1)] keys that(2) by blast
    note dhs = ex [OF key, of ?i] ex [OF own, of ?e] ex [OF key, of ?e]
    note front = v accept_signed_prekey_Ok [OF m rec(1)] rec(2)
    define index where "index = (case ih_one_time_prekey_id msg of None \<Rightarrow> None
      | Some i \<Rightarrow> position (\<lambda>entry. otpk_id (otp_public entry) = i) (rm_one_time_prekeys m))"
    have index: "(case ih_one_time_prekey_id msg of
             Some i \<Rightarrow>
               bind_res
                 (ok_or (position (\<lambda>entry. otpk_id (otp_public entry) = i) (rm_one_time_prekeys m))
                    RatchetStateMismatch) (\<lambda>index. Ok (Some index))
           | None \<Rightarrow> Ok None) = Ok index"
      using held unfolding index_def names_held_prekeys_def one_time_absent_def one_time_id_def
      by (auto simp: ok_or_def position_None split: option.splits)
    show ?thesis
    proof (cases "zero_key \<in> {?i, ?e}")
      case True
      with front dhs index held show ?thesis by (auto simp: handshake_accept_def)
    next
      case False
      have entry: "\<exists>v. bind_res (index_at (rm_one_time_prekeys m) k) (\<lambda>entry.
          bind_res (DhKeyPair_diffie_hellman P (otp_key entry) ?e) (\<lambda>v. Ok (Some v))) = Ok (Some v) \<and> length v = 32"
        if "index = Some k" for k
      proof -
        have k: "k < length (rm_one_time_prekeys m)"
          using that position_Some by (fastforce simp: index_def split: option.splits)
        then have "key_pair_ok P (otp_key (rm_one_time_prekeys m ! k))"
          using m by (simp add: material_ok_def one_time_entry_ok_def)
        from ex [OF this, of ?e] False k P(1) show ?thesis by (auto simp: index_at_def sizes_okD)
      qed
      let ?dh4 = "case index of Some k \<Rightarrow> bind_res (index_at (rm_one_time_prekeys m) k) (\<lambda>entry.
          bind_res (DhKeyPair_diffie_hellman P (otp_key entry) ?e) (\<lambda>v. Ok (Some v))) | None \<Rightarrow> Ok None"
      obtain z4 where z4: "?dh4 = Ok z4" "\<And>v. z4 = Some v \<Longrightarrow> length v = 32"
        using entry that by (cases index) auto
      have "identity_ok P (LocalIdentity_public P (rm_identity m))" by (rule local_identity_public_ok [OF P(1,2) li])
      from derive_handshake_values_total [OF P(1,4) msg_ok this, where ?d4.0 = z4] z4(2) P(1)
      obtain sid root where "derive_handshake_values P msg (LocalIdentity_public P (rm_identity m))
          (?dh key ?i) (?dh (li_dh (rm_identity m)) ?e) (?dh key ?e) z4 = Ok (sid, root)"
        by (metis sizes_okD(5))
      moreover have "?i \<noteq> zero_key" "?e \<noteq> zero_key" using False by auto
      ultimately show ?thesis using front dhs index held z4(1) by (simp add: handshake_accept_def)
    qed
  qed
qed

end
