(* ===== verification/Mef_Demo.thy ===== *)
theory Mef_Demo
  imports Mef_Hybrid Mef_Envelope Mef_Persistence Mef_Conversation
begin

text \<open>
  One run of the program on the concrete primitives of \<open>Mef_Primitives\<close>, evaluated step by step: two
  identities, a bundle with a one-time prekey, the handshake and the two ratchets. The witnesses of
  the properties start from these values.
\<close>

section \<open>The primitives evaluated\<close>

abbreviation D :: primitives where
  "D \<equiv> demo_primitives"

lemma demo_prims [simp]:
  "sys_rng D i n = Some (replicate n (word_of_nat (Suc i)))"
  "hkdf_expand D salt ikm info n = Some (replicate n 7)"
  "blake3 D m = replicate 32 8"
  "x25519_public D (replicate 32 b) = replicate 32 b"
  "x25519_shared D (replicate 32 a) (replicate 32 b) = replicate 32 (a + b)"
  "x25519_contributory D z \<longleftrightarrow> z \<noteq> replicate 32 0"
  "ed25519_public D (replicate 32 b) = replicate 32 b"
  "ed25519_sign D s m = replicate 64 9"
  "ed25519_key_ok D p \<longleftrightarrow> length p = 32"
  "ed25519_verify_strict D p m g \<longleftrightarrow> g = replicate 64 9"
  by (simp_all add: demo_primitives_def zip_replicate)

lemma demo_derive_secret:
  "label \<noteq> [] \<Longrightarrow> length label \<le> 255 \<Longrightarrow> length input \<le> MAX_CIPHERTEXT_LEN \<Longrightarrow>
     derive_secret D salt label input = Ok (Secret (replicate 32 7))"
  by (simp add: derive_secret_def)

lemma demo_blake3_id:
  assumes "label \<noteq> []" "length label \<le> 255" "\<forall>p \<in> set ps. length p \<le> MAX_CIPHERTEXT_LEN"
  shows "blake3_id D label ps = Ok (replicate 32 8)"
  using assms by (simp add: blake3_id_Ok)

definition demo_pair :: "u8 \<Rightarrow> dh_key_pair" where
  "demo_pair k = \<lparr>kp_secret = DhSecretKey (replicate 32 k), kp_public = DhPublicKey (replicate 32 k)\<rparr>"

lemma demo_pair_simps [simp]:
  "kp_secret (demo_pair k) = DhSecretKey (replicate 32 k)"
  "kp_public (demo_pair k) = DhPublicKey (replicate 32 k)"
  "DhKeyPair_from_secret D (DhSecretKey (replicate 32 k)) = demo_pair k"
  "key_pair_ok D (demo_pair k)"
  "DhKeyPair_generate D r = (Ok (demo_pair (word_of_nat (Suc r))), Suc r)"
  by (simp_all add: demo_pair_def DhKeyPair_from_secret_def DhSecretKey_public_key_def key_pair_ok_def
      DhKeyPair_generate_Ok)

lemma demo_diffie_hellman [simp]:
  "DhKeyPair_diffie_hellman D (demo_pair a) (DhPublicKey (replicate 32 b)) =
     (if a + b = 0 then Err NonContributoryKeyAgreement else Ok (replicate 32 (a + b)))"
  by (simp add: DhKeyPair_diffie_hellman_def DhSecretKey_diffie_hellman_def del: replicate.simps)

section \<open>A handshake\<close>

definition demo_li :: local_identity where
  "demo_li = \<lparr>li_signing = \<lparr>ik_signing = replicate 32 1, ik_public = IdentityPublicKey (replicate 32 1)\<rparr>,
    li_dh = demo_pair 2\<rparr>"

definition demo_rid :: local_identity where
  "demo_rid = \<lparr>li_signing = \<lparr>ik_signing = replicate 32 3, ik_public = IdentityPublicKey (replicate 32 3)\<rparr>,
    li_dh = demo_pair 4\<rparr>"

definition demo_material0 :: responder_material where
  "demo_material0 =
     \<lparr>rm_identity = demo_rid, rm_signed_prekey = demo_pair 5,
      rm_signed_record = \<lparr>sp_key_id = 1, sp_public = DhPublicKey (replicate 32 5), sp_expires_at_unix = 2000,
        sp_signature = replicate 64 9\<rparr>,
      rm_retired_signed_prekeys = [], rm_one_time_prekeys = []\<rparr>"

definition demo_material :: responder_material where
  "demo_material = demo_material0\<lparr>rm_one_time_prekeys :=
     [\<lparr>otp_public = \<lparr>otpk_id = 9, otpk_public = DhPublicKey (replicate 32 6)\<rparr>, otp_key = demo_pair 6\<rparr>]\<rparr>"

definition demo_bundle :: responder_bundle where
  "demo_bundle = ResponderPrekeyMaterial_bundle D demo_material"

lemma demo_generate:
  "LocalIdentity_generate D 0 = (Ok demo_li, 2)"
  "ResponderPrekeyMaterial_generate D 1 2000 2 = (Ok demo_material0, 5)"
  "add_one_time_prekey D 9 demo_material0 5 = (Ok (), demo_material, 6)"
  by (simp_all add: LocalIdentity_generate_def ResponderPrekeyMaterial_generate_def IdentityKeyPair_generate_def
      io_bind_def random_bytes_def fill_secure_def demo_li_def demo_rid_def demo_material0_def demo_material_def
      IdentityKeyPair_from_seed_def SignedPrekey_issue_def IdentityKeyPair_sign_prekey_def IdentityKeyPair_sign_def
      add_one_time_prekey_def)

lemma demo_ok:
  "local_identity_ok D demo_li" "material_ok D demo_material" "holds_prekeys D demo_material demo_bundle"
proof -
  show "local_identity_ok D demo_li"
    by (rule LocalIdentity_generate_Ok [OF demo_sizes_ok demo_generate(1)])
  have "material_ok D demo_material0" by (rule material_generate_ok [OF demo_sizes_ok demo_generate(2)])
  from add_one_time_prekey_ok [OF demo_sizes_ok this demo_generate(3)]
  show "material_ok D demo_material" .
  show "holds_prekeys D demo_material demo_bundle" unfolding demo_bundle_def by (rule bundle_held)
qed

definition demo_message :: initiator_handshake where
  "demo_message =
     \<lparr>ih_initiator_identity = LocalIdentity_public D demo_li,
      ih_initiator_ephemeral = DhPublicKey (replicate 32 7), ih_initiator_ratchet = DhPublicKey (replicate 32 8),
      ih_signed_prekey_id = 1, ih_one_time_prekey_id = Some 9\<rparr>"

definition demo_handshake :: "ratchet_role \<Rightarrow> u8 \<Rightarrow> u8 \<Rightarrow> authenticated_handshake" where
  "demo_handshake role own peer =
     \<lparr>ah_session_id = replicate 32 8, ah_root_secret = Secret (replicate 32 7), ah_role = role,
      ah_local_ratchet = demo_pair own, ah_remote_ratchet = DhPublicKey (replicate 32 peer)\<rparr>"

lemma demo_identity_verifies:
  assumes "length (identity_public_bytes (ik_public (li_signing li))) = 32"
  shows "IdentityDhPublic_verify D (LocalIdentity_public D li) = Ok ()"
  using assms by (simp add: IdentityDhPublic_verify_def LocalIdentity_public_def Let_def IdentityPublicKey_verify_def
      IdentityKeyPair_sign_def)

lemma demo_message_ok: "message_ok D demo_message"
  by (simp add: message_ok_def demo_message_def identity_ok_def demo_identity_verifies LocalIdentity_public_def
      demo_li_def Let_def IdentityKeyPair_sign_def IdentityDhPublic_verify_def IdentityPublicKey_verify_def)

lemma demo_session:
  assumes "message_ok D msg" "length (identity_public_wire i) = 128" "length d1 = 32" "length d2 = 32" "length d3 = 32"
    "length (case d4 of Some v \<Rightarrow> v | None \<Rightarrow> []) \<le> 32"
  shows "derive_handshake_values D msg i d1 d2 d3 d4 = Ok (replicate 32 8, Secret (replicate 32 7))"
proof -
  have "blake3_id D SESSION_LABEL [InitiatorHandshake_encode msg, identity_public_wire i] = Ok (replicate 32 8)"
    using length_message_encode [OF assms(1)] assms(2)
    by (intro demo_blake3_id) (auto simp: SESSION_LABEL_def ascii_def MAX_CIPHERTEXT_LEN_def)
  moreover have "derive_secret D salt HANDSHAKE_ROOT_LABEL (d1 @ d2 @ d3 @ (case d4 of Some v \<Rightarrow> v | None \<Rightarrow> [])) =
      Ok (Secret (replicate 32 7))" for salt
    using assms(3-6)
    by (intro demo_derive_secret) (auto simp: HANDSHAKE_ROOT_LABEL_def ascii_def MAX_CIPHERTEXT_LEN_def)
  ultimately show ?thesis by (simp add: derive_handshake_values_def)
qed

lemma demo_bundle_verifies: "ResponderPrekeyBundle_verify D demo_bundle 1000 = Ok ()"
  by (simp add: ResponderPrekeyBundle_verify_def demo_bundle_def ResponderPrekeyMaterial_bundle_def
      demo_material_def demo_material0_def demo_identity_verifies demo_rid_def SignedPrekey_verify_def
      IdentityPublicKey_verify_def LocalIdentity_public_def Let_def IdentityDhPublic_verify_def
      IdentityKeyPair_sign_def)

lemma demo_initiate:
  "handshake_initiate D demo_li demo_bundle 1000 6 = (Ok (demo_message, demo_handshake Initiator 8 5), 8)"
proof -
  have "length (identity_public_wire (rb_identity demo_bundle)) = 128"
    by (simp add: demo_bundle_def ResponderPrekeyMaterial_bundle_def identity_public_wire_def
        LocalIdentity_public_def demo_material_def demo_material0_def demo_rid_def Let_def IdentityKeyPair_sign_def)
  note vals = demo_session [OF demo_message_ok this]
  have dh: "li_dh demo_li = demo_pair 2" "sp_public (rb_signed_prekey demo_bundle) = DhPublicKey (replicate 32 5)"
    "id_dh (rb_identity demo_bundle) = DhPublicKey (replicate 32 4)"
    "rb_one_time_prekey demo_bundle = Some \<lparr>otpk_id = 9, otpk_public = DhPublicKey (replicate 32 6)\<rparr>"
    "sp_key_id (rb_signed_prekey demo_bundle) = 1"
    by (simp_all add: demo_li_def demo_bundle_def ResponderPrekeyMaterial_bundle_def LocalIdentity_public_def
        demo_material_def demo_material0_def demo_rid_def Let_def)
  show ?thesis
    by (simp add: handshake_initiate_def demo_bundle_verifies io_bind_def dh vals
        demo_message_def [symmetric] demo_handshake_def Let_def)
qed

lemma demo_accept:
  "handshake_accept D demo_material demo_message = (Ok (demo_handshake Responder 5 8), demo_material0)"
proof -
  have "length (identity_public_wire (LocalIdentity_public D demo_rid)) = 128"
    by (simp add: identity_public_wire_def LocalIdentity_public_def demo_rid_def Let_def IdentityKeyPair_sign_def)
  note vals = demo_session [OF demo_message_ok this]
  have id: "IdentityDhPublic_verify D (ih_initiator_identity demo_message) = Ok ()"
    using demo_message_ok by (simp add: message_ok_def identity_ok_def)
  have msg: "id_dh (ih_initiator_identity demo_message) = DhPublicKey (replicate 32 2)"
    "ih_initiator_ephemeral demo_message = DhPublicKey (replicate 32 7)"
    "ih_initiator_ratchet demo_message = DhPublicKey (replicate 32 8)"
    "ih_signed_prekey_id demo_message = 1" "ih_one_time_prekey_id demo_message = Some 9"
    by (simp_all add: demo_message_def LocalIdentity_public_def demo_li_def Let_def)
  have mat: "rm_identity demo_material = demo_rid" "rm_signed_prekey demo_material = demo_pair 5"
    "sp_key_id (rm_signed_record demo_material) = 1" "li_dh demo_rid = demo_pair 4"
    "rm_one_time_prekeys demo_material =
      [\<lparr>otp_public = \<lparr>otpk_id = 9, otpk_public = DhPublicKey (replicate 32 6)\<rparr>, otp_key = demo_pair 6\<rparr>]"
    "demo_material\<lparr>rm_one_time_prekeys := []\<rparr> = demo_material0"
    by (simp_all add: demo_material_def demo_material0_def demo_rid_def)
  show ?thesis
    by (simp add: handshake_accept_def id msg mat vals accept_signed_prekey_def DhKeyPair_secret_bytes_def
        index_at_def remove_at_def demo_handshake_def Let_def)
qed

section \<open>A hybrid handshake\<close>

definition demo_hybrid :: hybrid_material where
  "demo_hybrid = \<lparr>hm_classical = demo_material,
    hm_pq = \<lparr>mk_secret = [6], mk_public = MlKem768PublicKey (replicate 1184 0)\<rparr>\<rparr>"

definition demo_hybrid_bundle :: hybrid_bundle where
  "demo_hybrid_bundle = \<lparr>hb_classical = demo_bundle, hb_pq_public = MlKem768PublicKey (replicate 1184 0),
    hb_pq_signature = replicate 64 9\<rparr>"

lemma demo_mlkem [simp]:
  "mlkem_keygen D i = Some [word_of_nat i]" "mlkem_public D d = replicate 1184 0"
  "mlkem_key_ok D e \<longleftrightarrow> length e = 1184" "mlkem_encapsulate D e s = (replicate 1088 0, replicate 32 5)"
  "mlkem_decapsulate D d c = replicate 32 5"
  by (simp_all add: demo_primitives_def del: replicate.simps)

lemma demo_hybrid_ok: "hybrid_material_ok D demo_hybrid"
  using demo_ok(2) by (auto simp: hybrid_material_ok_def demo_hybrid_def simp del: replicate.simps intro!: exI [of _ 6])

lemma demo_transcript: "binding_transcript D demo_bundle (MlKem768PublicKey (replicate 1184 0)) = Ok (replicate 32 8)"
proof -
  have "length (ResponderPrekeyBundle_encode demo_bundle) = 277"
    unfolding demo_bundle_def
    by (rule length_bundle_encode [OF published_bundle_ok [OF demo_sizes_ok demo_ed25519_ok demo_ok(2)]])
  then have "blake3_id D TRANSCRIPT_LABEL [ResponderPrekeyBundle_encode demo_bundle, replicate 1184 0] = Ok (replicate 32 8)"
    by (intro demo_blake3_id) (auto simp: TRANSCRIPT_LABEL_def ascii_def MAX_CIPHERTEXT_LEN_def simp del: replicate.simps)
  then show ?thesis by (simp add: binding_transcript_def del: replicate.simps)
qed

lemma demo_hybrid_published: "HybridResponderPrekeyMaterial_bundle D demo_hybrid = Ok demo_hybrid_bundle"
  using demo_transcript
  by (simp add: HybridResponderPrekeyMaterial_bundle_def demo_hybrid_def demo_bundle_def [symmetric] Let_def
      demo_hybrid_bundle_def IdentityKeyPair_sign_def del: replicate.simps)

lemma demo_mix:
  assumes "length (ah_session_id h) = 32" "length (secret_bytes (ah_root_secret h)) = 32"
  shows "mix_ml_kem768 D h (replicate 32 5) =
    Ok (h\<lparr>ah_session_id := replicate 32 8, ah_root_secret := Secret (replicate 32 7)\<rparr>)"
proof -
  have "blake3_id D HYBRID_SESSION_LABEL [ah_session_id h, replicate 32 5] = Ok (replicate 32 8)"
    using assms(1) by (intro demo_blake3_id)
      (auto simp: HYBRID_SESSION_LABEL_def ascii_def MAX_CIPHERTEXT_LEN_def simp del: replicate.simps)
  moreover have "derive_secret D (replicate 32 8) HYBRID_ROOT_LABEL (secret_bytes (ah_root_secret h) @ replicate 32 5) =
      Ok (Secret (replicate 32 7))"
    using assms(2) by (intro demo_derive_secret)
      (auto simp: HYBRID_ROOT_LABEL_def ascii_def MAX_CIPHERTEXT_LEN_def simp del: replicate.simps)
  ultimately show ?thesis by (simp add: mix_ml_kem768_def Let_def del: replicate.simps)
qed

lemma demo_hybrid_initiate:
  "hybrid_initiate D demo_li demo_hybrid_bundle 1000 6 =
     (Ok (\<lparr>hi_classical = demo_message, hi_pq_ciphertext = MlKem768Ciphertext (replicate 1088 0)\<rparr>,
        demo_handshake Initiator 8 5), 9)"
proof -
  have key: "id_signing (rb_identity demo_bundle) = IdentityPublicKey (replicate 32 3)"
    by (simp add: demo_bundle_def ResponderPrekeyMaterial_bundle_def LocalIdentity_public_def demo_material_def
        demo_material0_def demo_rid_def Let_def)
  have "HybridResponderPrekeyBundle_verify D demo_hybrid_bundle 1000 = Ok ()"
    using demo_transcript demo_bundle_verifies key
    by (simp add: HybridResponderPrekeyBundle_verify_def demo_hybrid_bundle_def IdentityPublicKey_verify_def
        del: replicate.simps)
  moreover have "mix_ml_kem768 D (demo_handshake Initiator 8 5) (replicate 32 5) = Ok (demo_handshake Initiator 8 5)"
    by (subst demo_mix) (simp_all add: demo_handshake_def del: replicate.simps)
  ultimately show ?thesis
    using demo_initiate
    by (simp add: hybrid_initiate_def io_bind_def demo_hybrid_bundle_def MlKem768PublicKey_encapsulate_def
        fill_secure_def del: replicate.simps)
qed

section \<open>The ratchets\<close>

abbreviation demo_secret :: secret where
  "demo_secret \<equiv> Secret (replicate 32 7)"

definition demo_state :: "aead_suite \<Rightarrow> u8 \<Rightarrow> u8 \<Rightarrow> ratchet_state" where
  "demo_state suite own peer =
     \<lparr>rs_session_id = replicate 32 8, rs_root_key = demo_secret, rs_sending_chain = demo_secret,
      rs_receiving_chain = demo_secret, rs_dh_pair = demo_pair own,
      rs_remote_dh = DhPublicKey (replicate 32 peer), rs_previous_sending_chain_len = 0,
      rs_sending_count = 0, rs_receiving_count = 0, rs_generation = 0, rs_suite = suite, rs_skipped = []\<rparr>"

lemma demo_derive_key:
  "label \<noteq> [] \<Longrightarrow> length label \<le> 255 \<Longrightarrow> length input \<le> MAX_CIPHERTEXT_LEN \<Longrightarrow>
     derive_aead_key D salt label input = Ok (AeadKey (replicate 32 7))"
  by (simp add: derive_aead_key_def demo_derive_secret)

lemma demo_chain_step [simp]: "chain_step D c = Ok (demo_secret, AeadKey (replicate 32 7))"
  by (simp add: chain_step_def demo_derive_secret demo_derive_key labels_ok MAX_CIPHERTEXT_LEN_def)

lemma demo_root_step [simp]: "length z \<le> MAX_CIPHERTEXT_LEN \<Longrightarrow> root_step D c z = Ok (demo_secret, demo_secret)"
  by (simp add: root_step_def demo_derive_secret labels_ok)

lemma demo_ratchets:
  "from_authenticated_handshake_with_suite D (demo_handshake role own peer) suite = Ok (demo_state suite own peer)"
proof -
  have "derive_secret D salt label (replicate 32 8) = Ok demo_secret" if "label = INIT_A_TO_B_LABEL \<or> label = INIT_B_TO_A_LABEL" for salt label
    using that by (intro demo_derive_secret) (auto simp: INIT_A_TO_B_LABEL_def INIT_B_TO_A_LABEL_def ascii_def MAX_CIPHERTEXT_LEN_def)
  then show ?thesis
    by (simp add: from_authenticated_handshake_with_suite_def demo_handshake_def demo_state_def Let_def split: ratchet_role.split)
qed

lemma demo_state_ok [simp]: "ratchet_ok D (demo_state suite own peer)"
  by (simp add: ratchet_ok_def demo_state_def)

lemma demo_synced [simp]: "synced D (demo_state suite 8 5) (demo_state suite 5 8)"
proof -
  have m: "matching D (demo_handshake Initiator 8 5) (demo_handshake Responder 5 8)"
    by (simp add: matching_def demo_handshake_def)
  have len: "length (ah_session_id (demo_handshake Initiator 8 5)) = 32"
    "length (secret_bytes (ah_root_secret (demo_handshake Initiator 8 5))) = 32"
    by (simp_all add: demo_handshake_def)
  show ?thesis
    using matching_synced [OF demo_sizes_ok demo_hkdf_total m len, of suite] by (simp add: demo_ratchets)
qed

section \<open>Frames\<close>

definition demo_texts :: "bytes list" where
  "demo_texts = map (\<lambda>b. [b]) [1, 2, 3]"

definition demo_frame :: "frame_kind \<Rightarrow> bytes \<Rightarrow> ratchet_state \<Rightarrow> rng \<Rightarrow> inner_frame" where
  "demo_frame kind pt st r =
     \<lparr>if_header = FrameHeader_new kind (rs_session_id st) (dh_public_bytes (kp_public (rs_dh_pair st)))
        (rs_previous_sending_chain_len st) (rs_sending_count st),
      if_ciphertext = \<lparr>ct_suite = rs_suite st,
        ct_nonce = replicate (AeadSuite_nonce_len (rs_suite st)) (word_of_nat (Suc r)),
        ct_body = pt @ replicate 16 0\<rparr>\<rparr>"

definition demo_sent :: "ratchet_state \<Rightarrow> ratchet_state" where
  "demo_sent st = bump_generation (st\<lparr>rs_sending_chain := demo_secret, rs_sending_count := rs_sending_count st + 1\<rparr>)"

lemma demo_ciphers:
  "suite_cipher D s = demo_cipher (AeadSuite_nonce_len s)"
  by (cases s) (simp_all add: demo_primitives_def AES_CHACHA_NONCE_LEN_def XCHACHA_NONCE_LEN_def)

lemma demo_seal:
  assumes "length aad \<le> MAX_AAD_LEN" "length pt \<le> MAX_CIPHERTEXT_LEN - AEAD_TAG_LEN" "length (aead_key_bytes key) = 32"
  shows "aead_seal D key s aad pt r =
    (Ok \<lparr>ct_suite = s, ct_nonce = replicate (AeadSuite_nonce_len s) (word_of_nat (Suc r)), ct_body = pt @ replicate 16 0\<rparr>,
     Suc r)"
  using assms by (auto simp: aead_seal_Ok seal_with_nonce_Ok demo_ciphers demo_cipher_def res_iff ciphertext_ok_def
      AEAD_TAG_LEN_def MAX_CIPHERTEXT_LEN_def simp del: replicate.simps)

lemma checked_count:
  assumes "(n :: u32) \<noteq> - 1"
  shows "checked_add_word n 1 = Some (n + 1)"
proof -
  have "unat n \<noteq> unat (- 1 :: u32)" using assms by (metis unsigned_word_eqI)
  moreover have "unat (- 1 :: u32) = 2 ^ 32 - 1" by (simp add: unsigned_minus_1_eq_mask mask_eq_exp_minus_1)
  moreover have "unat n < 2 ^ 32" using unsigned_less [of n] by simp
  ultimately show ?thesis by (simp add: checked_add_word_def)
qed

lemma demo_encrypt:
  assumes "ratchet_ok D st" "length pt \<le> MAX_CIPHERTEXT_LEN - AEAD_TAG_LEN" "rs_sending_count st \<noteq> - 1"
  shows "RatchetState_encrypt D kind pt st r = (Ok (demo_frame kind pt st r), demo_sent st, Suc r)"
proof -
  let ?h = "FrameHeader_new kind (rs_session_id st) (dh_public_bytes (kp_public (rs_dh_pair st)))
    (rs_previous_sending_chain_len st) (rs_sending_count st)"
  have h: "header_ok ?h" by (rule own_header_ok [OF demo_sizes_ok assms(1)])
  have "InnerFrame_seal D (AeadKey (replicate 32 7)) (rs_suite st) ?h pt r = (Ok (demo_frame kind pt st r), Suc r)"
    using assms h by (subst InnerFrame_seal_Ok) (auto simp: demo_seal demo_frame_def MAX_AAD_LEN_def)
  then show ?thesis
    using assms(3) by (simp add: RatchetState_encrypt_def Let_def demo_sent_def checked_count)
qed

lemma demo_state_fields [simp]:
  "rs_sending_count (demo_state suite own peer) = 0" "rs_receiving_count (demo_state suite own peer) = 0"
  "rs_skipped (demo_state suite own peer) = []" "rs_generation (demo_state suite own peer) = 0"
  "rs_previous_sending_chain_len (demo_state suite own peer) = 0" "rs_suite (demo_state suite own peer) = suite"
  "rs_dh_pair (demo_state suite own peer) = demo_pair own"
  "rs_remote_dh (demo_state suite own peer) = DhPublicKey (replicate 32 peer)"
  "rs_session_id (demo_state suite own peer) = replicate 32 8"
  "rs_sending_chain (demo_state suite own peer) = demo_secret"
  "rs_receiving_chain (demo_state suite own peer) = demo_secret"
  "rs_root_key (demo_state suite own peer) = demo_secret"
  by (simp_all add: demo_state_def del: replicate.simps)

lemma demo_frame_ok:
  assumes "ratchet_ok D st" "length pt \<le> MAX_CIPHERTEXT_LEN - AEAD_TAG_LEN"
  shows "frame_ok (demo_frame kind pt st r)"
  using own_header_ok [OF demo_sizes_ok assms(1)] assms(2)
  by (simp add: frame_ok_def demo_frame_def ciphertext_ok_def AEAD_TAG_LEN_def MAX_CIPHERTEXT_LEN_def del: replicate.simps)

text \<open>A frame whose tag is wrong.\<close>

definition demo_forged :: "u8 \<Rightarrow> inner_frame" where
  "demo_forged peer =
     \<lparr>if_header = FrameHeader_new Message (replicate 32 8) (replicate 32 peer) 0 3,
      if_ciphertext = \<lparr>ct_suite = Aes256Gcm, ct_nonce = replicate 12 0, ct_body = replicate 17 1\<rparr>\<rparr>"

lemma demo_forged_closed: "InnerFrame_open D (demo_forged peer) key \<noteq> Ok pt"
  by (auto simp: InnerFrame_open_def aead_open_suite_cipher demo_primitives_def demo_forged_def demo_cipher_def
      cipher_open_Ok bind_res_Ok split: if_splits)

section \<open>A rotation\<close>

definition demo_rotated :: "aead_suite \<Rightarrow> ratchet_state" where
  "demo_rotated suite = bump_generation ((demo_state suite 8 5)\<lparr>rs_dh_pair := demo_pair 1\<rparr>)"

lemma demo_rotate: "rotate_sending_ratchet D (demo_state suite 8 5) 0 = (Ok (), demo_rotated suite, 1)"
proof -
  have "(demo_state suite 8 5)\<lparr>rs_root_key := demo_secret, rs_sending_chain := demo_secret, rs_dh_pair := demo_pair 1,
      rs_previous_sending_chain_len := 0, rs_sending_count := 0\<rparr> = (demo_state suite 8 5)\<lparr>rs_dh_pair := demo_pair 1\<rparr>"
    by (simp add: demo_state_def)
  then show ?thesis
    by (simp add: rotate_sending_ratchet_def demo_rotated_def MAX_CIPHERTEXT_LEN_def del: replicate.simps)
qed

section \<open>An envelope\<close>

lemma demo_envelope:
  assumes "frame_ok f" "length (frame_bytes f) + pad \<le> MAX_CIPHERTEXT_LEN - AEAD_TAG_LEN"
  obtains e where "OuterEnvelope_seal D (DhPublicKey (replicate 32 4)) (MailboxCapability (replicate 32 1)) t f pad 0 =
    (Ok e, 3)"
  using seal_envelope_total [OF demo_sizes_ok demo_aeads_ok demo_hkdf_total demo_rng_total assms(1) _ _ _ assms(2),
      of "MailboxCapability (replicate 32 1)" 0 "demo_pair 1" "DhPublicKey (replicate 32 4)" _ t]
  by (auto simp: numeral_3_eq_3 simp del: replicate.simps)

end
