(* ===== verification/Spec2Isabelle.thy ===== *)
theory Spec2Isabelle
  imports Mef_Tamper_Tests Mef_Bindings Mef_Debug Mef_Api Mef_Loops Mef_Erasure Mef_Domains Mef_Post Mef_Restart Mef_Errors Mef_Demo
begin

text \<open>
  A verification library for MEF-26, the core of an end-to-end encrypted 1:1 messenger (the crate
  \<open>mef-26\<close> under \<open>src/src\<close>, with its binding crates under \<open>src/crates\<close>).

  The program. A client publishes a prekey bundle (\<open>handshake.rs\<close>, or \<open>hybrid.rs\<close> with an ML-KEM-768
  key from \<open>pq.rs\<close>). A peer initiates against the bundle and sends an initiator message; the
  responder accepts it and consumes the one-time prekey. Both results give a ratchet
  (\<open>ratchet/state.rs\<close> over the key schedule of \<open>ratchet/schedule.rs\<close>), whose \<open>encrypt\<close> makes an inner
  frame (\<open>frame/\<close>) and whose \<open>decrypt\<close> accepts frames in any order within a bound of skipped keys. A
  frame travels in an outer envelope (\<open>envelope/outer.rs\<close>) addressed to a mailbox capability and
  guarded by a replay cache. A ratchet is stored as a sealed snapshot (\<open>ratchet/persistence.rs\<close>).

  The theories. \<open>Mef_Prelude\<close>: machine words, byte strings, errors and results, Rust's checked
  arithmetic and slices. \<open>Mef_Interfaces\<close>: the locales (one-byte enumerations, wire formats,
  self-delimiting and fixed-width formats, call machines). \<open>Mef_Primitives\<close>: the external
  cryptography as a record of functions, its documented laws, concrete functions that satisfy them.
  \<open>Mef_Crypto\<close>: \<open>crypto/\<close>. \<open>Mef_Keys\<close>: \<open>keys/\<close>. \<open>Mef_Frame\<close>: \<open>frame/\<close>. \<open>Mef_Handshake\<close>: the definitions and
  wire formats of \<open>handshake.rs\<close>; \<open>Mef_Agreement\<close>: its prekey material over runs of calls, and agreement.
  \<open>Mef_Schedule\<close> and \<open>Mef_Ratchet\<close>: the ratchet and its invariant; \<open>Mef_Window\<close>: its refinement of a
  receive window; \<open>Mef_Conversation\<close>: turns, rotations and lost messages between two ratchets;
  \<open>Mef_Duplex\<close>: both directions of a session interleaved, and a direction that has ended. \<open>Mef_Persistence\<close>: snapshots.
  \<open>Mef_Replay\<close> and \<open>Mef_Envelope\<close>: \<open>envelope/\<close>. \<open>Mef_Mlkem\<close>: \<open>pq.rs\<close>. \<open>Mef_Hybrid\<close>: \<open>hybrid.rs\<close>.
  \<open>Mef_Bindings\<close>: the metadata the binding crates export, with what the JVM answers to the JNI one.
  \<open>Mef_Session\<close>: the components composed. \<open>Mef_Api\<close>: the public functions of the crate as one inductive
  definition of what a client can obtain and one of how a call can fail. \<open>Mef_Debug\<close>: the \<open>Debug\<close> and
  \<open>Display\<close> output of every type. \<open>Mef_Loops\<close>: the decoder of snapshots with its loop as a while loop. \<open>Mef_Erasure\<close>:
  what a ratchet forgets. \<open>Mef_Domains\<close>: wire formats, signed messages, labels and associated data apart.
  \<open>Mef_Channel\<close>: a session set up from nothing in a lawful environment, and what each call on it returns;
  with it \<open>Mef_Scenarios\<close> (\<open>examples/\<close>, \<open>tests/\<close>, the tests of the ratchet) and \<open>Mef_Module_Tests\<close> (the
  other unit tests, the property tests, \<open>fuzz/\<close>) turn the programs that call the crate into functions of
  the model and show that they run to their end; \<open>Mef_Tamper_Tests\<close> does so for the tests with an
  adversary, and says exactly when they pass. \<open>Mef_Post\<close>: a session over the mailbox, envelopes and
  replay cache included, as an implementation of a mailbox; \<open>Mef_Restart\<close>: a session whose devices stop and
  start from snapshots; \<open>Mef_Errors\<close>: for each call when it fails and how. \<open>Mef_Demo\<close>: one concrete run the witnesses start
  from. This theory states the properties.

  Correspondence. A struct is a record (\<open>RatchetState\<close> is \<open>ratchet_state\<close>, field for field), an enum a
  datatype, a newtype of bytes a datatype with one constructor, \<open>u8\<close> to \<open>u64\<close> words, \<open>usize\<close> a natural
  number with the checks of the 64-bit target written out. A call returns \<open>Ok\<close>, an \<open>Err\<close> of \<open>MefError\<close>,
  or \<open>Panics\<close> where a slice, index, copy or unchecked addition would panic. A \<open>&mut self\<close> method
  returns its result and the state it leaves, also when it fails. A call that draws randomness
  threads the number of requests made, so that each request may have its own answer.
  The method \<open>Type::f\<close> is \<open>Type_f\<close>, unless its name alone is unique.

  Bounds. No definition uses fuel: the loops run over the finite ranges and lists of the source and
  are structural recursions, and \<open>Mef_Loops\<close> shows that the decoder of snapshots, run as a while loop over a
  machine counter whose bound comes from the bytes, ends on all bytes and how many entries it reads. Skipped keys are bounded by 1024,
  bodies by \<open>2 ^ 20\<close> bytes, associated data by \<open>2 ^ 16\<close>, so no \<open>usize\<close> computation of the crate comes near \<open>2 ^ 64\<close>.

  Not modelled. The cryptographic crates are parameters of every definition that uses them, under the
  hypotheses \<open>sizes_ok\<close>, \<open>aeads_ok\<close>, \<open>x25519_ok\<close>, \<open>x25519_live\<close>, \<open>ed25519_ok\<close>, \<open>mlkem_ok\<close>, \<open>hkdf_total\<close>,
  \<open>rng_total\<close> (together, \<open>lawful\<close>): output lengths, inverse laws and totality, never secrecy.
  Zeroization on drop and timing have no counterpart in a functional model: \<open>Mef_Erasure\<close> shows which
  keys the states no longer hold, not that memory is overwritten. The JVM behind the JNI binding and
  the formatters of the ML-KEM crate are arguments. The accessors and constructors that only wrap or read
  a field are definitions of their own, unfolded by the simplifier. A test whose verdict rests on unforgeability, on collision freedom or on two random draws being different is modelled, but
  no such assumption is made: it is shown to pass exactly when the forgery, collision or coincidence it
  would take does not happen in its run.
\<close>

section \<open>Handshakes\<close>

text \<open>
  C1. A client that initiates against a bundle published by a responder (decoded from the bundle's
  wire bytes), and a responder that decodes the initiator's message from its wire bytes and accepts
  it, always agree: acceptance succeeds, both hold the same session id and root secret, opposite
  roles, and each holds the other's ratchet public key.
\<close>

theorem handshake_agreement:
  assumes "sizes_ok P" "x25519_ok P" "ed25519_ok P" "local_identity_ok P li" "material_ok P m"
    and "ResponderPrekeyBundle_decode P (ResponderPrekeyBundle_encode (ResponderPrekeyMaterial_bundle P m)) = Ok b"
    and "handshake_initiate P li b now r = (Ok (msg, ha), r')"
  shows "InitiatorHandshake_decode P (InitiatorHandshake_encode msg) = Ok msg \<and>
    (\<exists>hb m'. handshake_accept P m msg = (Ok hb, m') \<and>
      ah_session_id ha = ah_session_id hb \<and> ah_root_secret ha = ah_root_secret hb \<and>
      ah_role ha = Initiator \<and> ah_role hb = Responder \<and>
      ah_remote_ratchet ha = kp_public (ah_local_ratchet hb) \<and>
      ah_remote_ratchet hb = kp_public (ah_local_ratchet ha))"
proof -
  have "ResponderPrekeyBundle_encode b = ResponderPrekeyBundle_encode (ResponderPrekeyMaterial_bundle P m)"
    by (rule bundle_decode_sound(2) [OF assms(6)])
  moreover have "bundle_ok P (ResponderPrekeyMaterial_bundle P m)" by (rule published_bundle_ok [OF assms(1,3,5)])
  ultimately have "b = ResponderPrekeyMaterial_bundle P m"
    using bundle_decode_encode assms(6) by fastforce
  then have "holds_prekeys P m b" by (simp add: bundle_held)
  from accept_agrees [OF assms(1-5) this assms(7)]
    message_decode_encode [OF initiate_message_ok [OF assms(1,3,4,7)]]
  show ?thesis by (auto simp: matching_def)
qed

lemma handshake_agreement_witness:
  "\<exists>hb m'. handshake_accept D demo_material demo_message = (Ok hb, m') \<and>
     ah_root_secret hb = Secret (replicate 32 7) \<and> ah_remote_ratchet hb = DhPublicKey (replicate 32 8)"
proof -
  have "ResponderPrekeyBundle_decode D (ResponderPrekeyBundle_encode (ResponderPrekeyMaterial_bundle D demo_material)) =
      Ok demo_bundle"
    using bundle_decode_encode [OF published_bundle_ok [OF demo_sizes_ok demo_ed25519_ok demo_ok(2)]]
    by (simp add: demo_bundle_def)
  from handshake_agreement [OF demo_sizes_ok demo_x25519_ok demo_ed25519_ok demo_ok(1,2) this demo_initiate]
  show ?thesis by (auto simp: demo_handshake_def simp del: replicate.simps)
qed

text \<open>
  C2. The hybrid X25519 and ML-KEM-768 handshake agrees in the same way: a message initiated against a
  bundle that decodes from what a hybrid responder published decodes from its wire bytes, is
  accepted, and the two results give two ratchets (under any suite) that are synchronised: equal
  session, suite and root key, and each side's sending chain is the other's receiving chain.
\<close>

theorem hybrid_handshake_agreement:
  assumes "sizes_ok P" "x25519_ok P" "ed25519_ok P" "mlkem_ok P" "hkdf_total P"
    and "local_identity_ok P li" "hybrid_material_ok P m"
    and "HybridResponderPrekeyMaterial_bundle P m = Ok published"
    and "HybridResponderPrekeyBundle_decode P (HybridResponderPrekeyBundle_encode published) = Ok b"
    and "hybrid_initiate P li b now r = (Ok (msg, ha), r')"
  shows "HybridInitiatorHandshake_decode P (HybridInitiatorHandshake_encode msg) = Ok msg \<and>
    (\<exists>hb m' x y. hybrid_accept P m msg = (Ok hb, m') \<and>
      from_authenticated_handshake_with_suite P ha suite = Ok x \<and>
      from_authenticated_handshake_with_suite P hb suite = Ok y \<and> synced P x y)"
proof -
  note pub = hybrid_bundle_published [OF assms(1,3,4,7,8)]
  have "b = published" using hybrid_bundle_decode_encode [OF pub(1)] assms(9) by simp
  with hybrid_accepted_synced [OF assms(1-7), of b] hybrid_agrees(2) [OF assms(1-4,6,7), of b] pub(2,3) assms(10)
  show ?thesis by (auto simp: hybrid_message.dec_iff)
qed

lemma hybrid_handshake_agreement_witness:
  "\<exists>h m'. hybrid_accept D demo_hybrid
     \<lparr>hi_classical = demo_message, hi_pq_ciphertext = MlKem768Ciphertext (replicate 1088 0)\<rparr> = (Ok h, m')"
proof -
  have "HybridResponderPrekeyBundle_decode D (HybridResponderPrekeyBundle_encode demo_hybrid_bundle) =
      Ok demo_hybrid_bundle"
    by (rule hybrid_bundle_decode_encode, rule hybrid_bundle_published
        [OF demo_sizes_ok demo_ed25519_ok demo_mlkem_ok demo_hybrid_ok demo_hybrid_published])
  from hybrid_handshake_agreement [OF demo_sizes_ok demo_x25519_ok demo_ed25519_ok demo_mlkem_ok demo_hkdf_total
      demo_ok(1) demo_hybrid_ok demo_hybrid_published this demo_hybrid_initiate]
  show ?thesis by blast
qed

text \<open>
  C3. Honest parties always get a session: in a lawful environment, whatever the random source answers,
  initiating against a bundle that a responder publishes succeeds up to and including the second its
  signed prekey expires, the responder accepts the message, and the two ratchets are synchronised,
  for the classical and for the hybrid handshake; after that second both are refused before anything
  random is drawn.
\<close>

theorem handshake_completes:
  assumes "lawful P" "local_identity_ok P li" "hybrid_material_ok P m"
    and "sp_expires_at_unix (rm_signed_record (hm_classical m)) = expires"
  shows "\<exists>b. HybridResponderPrekeyMaterial_bundle P m = Ok b \<and>
    hb_classical b = ResponderPrekeyMaterial_bundle P (hm_classical m) \<and>
    (if expires < now
     then handshake_initiate P li (hb_classical b) now r = (Err AuthenticationFailed, r) \<and>
       hybrid_initiate P li b now r = (Err AuthenticationFailed, r)
     else
       (\<exists>msg ha r' hb m' x y. handshake_initiate P li (hb_classical b) now r = (Ok (msg, ha), r') \<and>
          handshake_accept P (hm_classical m) msg = (Ok hb, m') \<and>
          from_authenticated_handshake_with_suite P ha suite = Ok x \<and>
          from_authenticated_handshake_with_suite P hb suite = Ok y \<and> synced P x y) \<and>
       (\<exists>msg ha r' hb m' x y. hybrid_initiate P li b now r = (Ok (msg, ha), r') \<and>
          hybrid_accept P m msg = (Ok hb, m') \<and>
          from_authenticated_handshake_with_suite P ha suite = Ok x \<and>
          from_authenticated_handshake_with_suite P hb suite = Ok y \<and> synced P x y))"
proof -
  note law = lawfulD [OF assms(1)]
  obtain b where b: "HybridResponderPrekeyMaterial_bundle P m = Ok b"
    "hb_classical b = ResponderPrekeyMaterial_bundle P (hm_classical m)"
    using hybrid_bundle_total [OF law(1,5,6) assms(3)] by blast
  note pub = hybrid_bundle_published [OF law(1,5,6) assms(3) b(1)]
  have cm: "material_ok P (hm_classical m)" using assms(3) by (simp add: hybrid_material_ok_def)
  have v: "ResponderPrekeyBundle_verify P (hb_classical b) now = (if now \<le> expires then Ok () else Err AuthenticationFailed)"
    using published_bundle_verifies [OF law(1,5) cm] assms(4) by (simp add: b(2))
  show ?thesis
  proof (cases "expires < now")
    case True
    then have "ResponderPrekeyBundle_verify P (hb_classical b) now = Err AuthenticationFailed"
      using v by (simp add: not_le [symmetric])
    then have "handshake_initiate P li (hb_classical b) now r = (Err AuthenticationFailed, r)"
      "hybrid_initiate P li b now r = (Err AuthenticationFailed, r)"
      by (simp_all add: handshake_initiate_def hybrid_initiate_def HybridResponderPrekeyBundle_verify_def io_bind_def)
    with True b show ?thesis by auto
  next
    case False
    then have "ResponderPrekeyBundle_verify P (hb_classical b) now = Ok ()" using v by simp
    from initiate_total [OF law(1,5,4,7,8) assms(2) cm pub(2) this]
    obtain msg ha where c: "handshake_initiate P li (hb_classical b) now r = (Ok (msg, ha), Suc (Suc r))" by blast
    have "now \<le> sp_expires_at_unix (rm_signed_record (hm_classical m))" using False assms(4) by simp
    from hybrid_initiate_total [OF law(1,5,4,6,7,8) assms(2,3) b(1) this]
    obtain msg' ha' where h: "hybrid_initiate P li b now r = (Ok (msg', ha'), Suc (Suc (Suc r)))" by blast
    from False b c h accepted_synced [OF law(1,3,5,7) assms(2) cm pub(2) c, of suite]
      hybrid_accepted_synced [OF law(1,3,5,6,7) assms(2,3) pub(2,3) h, of suite]
    show ?thesis by fastforce
  qed
qed

lemma handshake_completes_witness:
  "\<exists>m b li. HybridResponderPrekeyMaterial_bundle live_primitives m = Ok b \<and>
     (\<exists>msg ha r'. hybrid_initiate live_primitives li b 2000 9 = (Ok (msg, ha), r')) \<and>
     hybrid_initiate live_primitives li b 2001 9 = (Err AuthenticationFailed, 9)"
proof -
  note law = lawfulD [OF live_lawful]
  obtain cm r1 where cm: "ResponderPrekeyMaterial_generate live_primitives 7 2000 0 = (Ok cm, r1)"
    "sp_expires_at_unix (rm_signed_record cm) = 2000"
    by (rule material_generate_total [OF law(1,8)])
  obtain d where "mlkem_keygen live_primitives r1 = Some d" using law(9) by blast
  with cm(1) have gen: "HybridResponderPrekeyMaterial_generate live_primitives 7 2000 0 =
      (Ok \<lparr>hm_classical = cm, hm_pq = \<lparr>mk_secret = d, mk_public = MlKem768PublicKey (mlkem_public live_primitives d)\<rparr>\<rparr>, Suc r1)"
    by (simp add: HybridResponderPrekeyMaterial_generate_def MlKem768KeyPair_generate_def io_bind_def)
  note m = hybrid_generate_ok [OF law(1) gen]
  obtain li where li: "local_identity_ok live_primitives li"
    by (rule LocalIdentity_generate_total [OF law(1,8)])
  have expires: "sp_expires_at_unix (rm_signed_record (hm_classical
      \<lparr>hm_classical = cm, hm_pq = \<lparr>mk_secret = d, mk_public = MlKem768PublicKey (mlkem_public live_primitives d)\<rparr>\<rparr>)) = 2000"
    using cm(2) by simp
  note completes = handshake_completes [OF live_lawful li m expires, of _ 9 Aes256Gcm]
  from completes [of 2000] completes [of 2001] show ?thesis by fastforce
qed

section \<open>Sessions\<close>

text \<open>
  C4. End to end: after a handshake, either side can send up to 1024 messages of admissible length;
  all of them are encrypted and encoded, and however the network reorders or duplicates the byte
  strings, the receiver gets each message exactly once: a first copy decrypts to its plaintext, every
  further copy is refused with \<open>MessageKeyConsumed\<close>.
\<close>

theorem session_exactly_once:
  assumes "sizes_ok P" "aeads_ok P" "x25519_ok P" "ed25519_ok P" "hkdf_total P" "rng_total P"
    and "local_identity_ok P li" "material_ok P m" "holds_prekeys P m b"
    and "handshake_initiate P li b now r = (Ok (msg, ha), r')"
    and "(u, v) \<in> {(x, y), (y, x)}" "length pts \<le> MAX_SKIPPED_KEYS"
    and "\<forall>pt \<in> set pts. length pt \<le> MAX_CIPHERTEXT_LEN - AEAD_TAG_LEN"
    and "handshake_accept P m msg = (Ok hb, m')"
    and "from_authenticated_handshake_with_suite P ha suite = Ok x"
    and "from_authenticated_handshake_with_suite P hb suite = Ok y"
  shows "\<exists>fs u' r2 wires. encrypt_all P kind pts u r1 = (Ok fs, u', r2) \<and> map InnerFrame_encode fs = map Ok wires \<and>
    (\<forall>order r3. set order \<subseteq> {..<length pts} \<longrightarrow>
       fst (receive_all P (map ((!) wires) order) v r3) =
         map2 (\<lambda>i. delivers (pts ! i)) order (deliveries {} order))"
proof -
  have "synced P x y"
    using accepted_synced [OF assms(1,3,4,5,7-10), of suite] assms(14-16) by auto
  then have "synced P u v" using assms(11) synced_sym by auto
  moreover have "rs_sending_count u = 0" "rs_receiving_count v = 0" "rs_skipped v = []"
    using assms(11) from_handshake_Ok [OF assms(15)] from_handshake_Ok [OF assms(16)] by auto
  ultimately show ?thesis
    using synced_any_order [OF assms(1,2,5,6), of u v pts kind r1] assms(12,13)
    by (auto simp: MAX_SKIPPED_KEYS_def subset_iff)
qed

lemma session_exactly_once_witness:
  "\<exists>fs u' r2 wires. encrypt_all D Message demo_texts (demo_state XChaCha20Poly1305 8 5) 9 = (Ok fs, u', r2) \<and>
     map InnerFrame_encode fs = map Ok wires \<and>
     fst (receive_all D (map ((!) wires) [2, 0, 2, 1]) (demo_state XChaCha20Poly1305 5 8) 0) =
       [Ok [3], Ok [1], Err MessageKeyConsumed, Ok [2]]"
proof -
  have "\<exists>fs u' r2 wires. encrypt_all D Message demo_texts (demo_state XChaCha20Poly1305 8 5) 9 = (Ok fs, u', r2) \<and>
     map InnerFrame_encode fs = map Ok wires \<and> (\<forall>order r3. set order \<subseteq> {..<length demo_texts} \<longrightarrow>
       fst (receive_all D (map ((!) wires) order) (demo_state XChaCha20Poly1305 5 8) r3) =
         map2 (\<lambda>i. delivers (demo_texts ! i)) order (deliveries {} order))"
    by (rule session_exactly_once [OF demo_sizes_ok demo_aeads_ok demo_x25519_ok demo_ed25519_ok demo_hkdf_total
        demo_rng_total demo_ok(1-3) demo_initiate _ _ _ demo_accept
        demo_ratchets [where suite = XChaCha20Poly1305] demo_ratchets [where suite = XChaCha20Poly1305]])
      (simp_all add: demo_texts_def MAX_SKIPPED_KEYS_def MAX_CIPHERTEXT_LEN_def AEAD_TAG_LEN_def)
  then show ?thesis
    by (elim ex_forward conj_forward) (auto simp: demo_texts_def dest!: spec [of _ "[2, 0, 2, 1]"])
qed

text \<open>
  C5. \<open>decrypt\<close> on frames of the current receiving chain implements a receive window: the number
  expected next, the numbers skipped and not yet delivered, and the room left. Whatever its number below
  \<open>2 ^ 32 - 1\<close> (the one \<open>encrypt\<close> never gives, on which \<open>decrypt\<close> fails with \<open>CounterExhausted\<close>), the frame is
  delivered, refused as consumed, or refused for lack of room exactly as the window says, and the
  state afterwards represents the window afterwards.
\<close>

theorem decrypt_implements_window:
  assumes "hkdf_total P" "follows P c st" "of_chain P c st f pt" "fh_message_number (if_header f) \<noteq> - 1"
    and "window_receive (unat (fh_message_number (if_header f))) (window_of st) = (res, w)"
  shows "\<exists>st'. RatchetState_decrypt P f st r = (delivers pt res, st', r) \<and> follows P c st' \<and> window_of st' = w"
proof -
  have "unat (fh_message_number (if_header f)) < 2 ^ 32 - 1"
    using checked_count [OF assms(4)] by (auto simp: checked_add_word_def split: if_splits)
  from decrypt_refines_window [OF assms(1-3) refl this, of r] assms(5) show ?thesis by auto
qed

lemma decrypt_implements_window_witness:
  "\<exists>st'. RatchetState_decrypt D (demo_frame Message [1, 2] (demo_state ChaCha20Poly1305 8 5) 9)
     (demo_state ChaCha20Poly1305 5 8) 0 = (Ok [1, 2], st', 0) \<and> win_next (window_of st') = 1"
proof -
  let ?a = "demo_state ChaCha20Poly1305 8 5" and ?b = "demo_state ChaCha20Poly1305 5 8"
  obtain c where link: "chain_link D c ?a ?b"
    using demo_synced [of ChaCha20Poly1305] by (auto simp: synced_def live_link_def)
  have enc: "RatchetState_encrypt D Message [1, 2] ?a 9 = (Ok (demo_frame Message [1, 2] ?a 9), demo_sent ?a, Suc 9)"
    by (rule demo_encrypt) (simp_all add: demo_state_def MAX_CIPHERTEXT_LEN_def AEAD_TAG_LEN_def demo_state_ok [unfolded demo_state_def])
  have "of_chain D c ?b (demo_frame Message [1, 2] ?a 9) [1, 2]"
    by (rule encrypt_link [OF demo_sizes_ok demo_aeads_ok demo_hkdf_total demo_state_ok enc link])
  moreover have "follows D c ?b" using link by (simp add: chain_link_def)
  moreover have n: "fh_message_number (if_header (demo_frame Message [1, 2] ?a 9)) = 0"
    by (simp add: demo_frame_def demo_state_def)
  moreover have "window_receive 0 (window_of ?b) = (Ok (), \<lparr>win_next = 1, win_missing = {}, win_others = 0\<rparr>)"
    by (simp add: window_receive_def window_of_def own_entries_def demo_state_def)
  ultimately show ?thesis
    using decrypt_implements_window [OF demo_hkdf_total, of c ?b "demo_frame Message [1, 2] ?a 9" "[1, 2]"]
    by fastforce
qed

text \<open>Both directions of a session interleaved, without restarts.\<close>

lemma duplex_traffic_delivers:
  assumes "sizes_ok P" "aeads_ok P" "hkdf_total P" "synced P a b"
    and "(duplex P)\<^sup>*\<^sup>* (a, b, [], []) (x, y, sent, replies)"
  shows "\<forall>(f, pt) \<in> set sent. \<exists>y' res. RatchetState_decrypt P f y r = (delivers pt res, y', r) \<and>
    res = fst (window_receive (unat (fh_message_number (if_header f))) (window_of y)) \<and>
    res \<in> {Ok (), Err MessageKeyConsumed, Err SkippedKeyLimitExceeded}"
  using duplex_delivers [OF assms] window_receive_results by blast

lemma duplex_traffic_example:
  "\<exists>y' res. RatchetState_decrypt D (demo_frame Message [1] (demo_state Aes256Gcm 8 5) 0) (demo_state Aes256Gcm 5 8) 4 =
     (delivers [1] res, y', 4)"
proof -
  have "RatchetState_encrypt D Message [1] (demo_state Aes256Gcm 8 5) 0 =
      (Ok (demo_frame Message [1] (demo_state Aes256Gcm 8 5) 0), demo_sent (demo_state Aes256Gcm 8 5), Suc 0)"
    using demo_state_ok by (rule demo_encrypt) (simp_all add: MAX_CIPHERTEXT_LEN_def AEAD_TAG_LEN_def)
  then have "(duplex D)\<^sup>*\<^sup>* (demo_state Aes256Gcm 8 5, demo_state Aes256Gcm 5 8, [], [])
      (demo_sent (demo_state Aes256Gcm 8 5), demo_state Aes256Gcm 5 8,
       [(demo_frame Message [1] (demo_state Aes256Gcm 8 5) 0, [1])], [])"
    by (intro r_into_rtranclp duplex.send_left)
  from duplex_traffic_delivers [OF demo_sizes_ok demo_aeads_ok demo_hkdf_total demo_synced this, of 4]
  show ?thesis by fastforce
qed

text \<open>
  C6. Traffic in both directions with devices that restart: from two synchronised ratchets, after any
  interleaving of sends by either side, deliveries of frames sent so far (late, repeated, or lost) and
  restarts of either side from a snapshot it has sealed, every frame either side has sent is received
  exactly as the receiver's window says: its own plaintext, \<open>MessageKeyConsumed\<close> when it was
  delivered before, or \<open>SkippedKeyLimitExceeded\<close> when too many frames are missing. And either side can
  seal its state at any time and restore exactly that state.
\<close>

theorem restarts_lose_nothing:
  assumes "sizes_ok P" "aeads_ok P" "hkdf_total P" "rng_total P" "synced P a b" "one_chain a" "one_chain b"
    and "(serviced P)\<^sup>*\<^sup>* (a, b, [], []) (x, y, sent, replies)"
    and "length (aead_key_bytes (seal_key key)) = 32" "context_ok ctx"
  shows "(\<forall>(f, pt) \<in> set sent. \<exists>y' res. RatchetState_decrypt P f y r = (delivers pt res, y', r) \<and>
      res = fst (window_receive (unat (fh_message_number (if_header f))) (window_of y)) \<and>
      res \<in> {Ok (), Err MessageKeyConsumed, Err SkippedKeyLimitExceeded}) \<and>
    (\<forall>(g, pt) \<in> set replies. \<exists>x' res. RatchetState_decrypt P g x r = (delivers pt res, x', r) \<and>
      res = fst (window_receive (unat (fh_message_number (if_header g))) (window_of x)) \<and>
      res \<in> {Ok (), Err MessageKeyConsumed, Err SkippedKeyLimitExceeded}) \<and>
    (\<forall>st \<in> {x, y}. \<exists>blob r'. seal_state P key ctx st r = (Ok blob, r') \<and>
      restore_state P key ctx (rs_generation st) blob = Ok st)"
proof (intro conjI ballI)
  note survives = traffic_survives [OF assms(1-8), where r = r]
  show "case job of (f, pt) \<Rightarrow> \<exists>y' res. RatchetState_decrypt P f y r = (delivers pt res, y', r) \<and>
      res = fst (window_receive (unat (fh_message_number (if_header f))) (window_of y)) \<and>
      res \<in> {Ok (), Err MessageKeyConsumed, Err SkippedKeyLimitExceeded}" if "job \<in> set sent" for job
    using bspec [OF survives(1) that] window_receive_results by (cases job) auto
  show "case job of (g, pt) \<Rightarrow> \<exists>x' res. RatchetState_decrypt P g x r = (delivers pt res, x', r) \<and>
      res = fst (window_receive (unat (fh_message_number (if_header g))) (window_of x)) \<and>
      res \<in> {Ok (), Err MessageKeyConsumed, Err SkippedKeyLimitExceeded}" if "job \<in> set replies" for job
    using bspec [OF survives(2) that] window_receive_results by (cases job) auto
  show "\<exists>blob r'. seal_state P key ctx st r = (Ok blob, r') \<and>
      restore_state P key ctx (rs_generation st) blob = Ok st" if "st \<in> {x, y}" for st
    by (rule survives(3) [OF assms(9,10) that])
qed

lemma restarts_lose_nothing_witness:
  "\<exists>blob y' res. restore_state D (StateSealKey (AeadKey (replicate 32 1))) [] 0 blob = Ok (demo_state Aes256Gcm 5 8) \<and>
     RatchetState_decrypt D (demo_frame Message [1] (demo_state Aes256Gcm 8 5) 0) (demo_state Aes256Gcm 5 8) 4 =
       (delivers [1] res, y', 4)"
proof -
  let ?a = "demo_state Aes256Gcm 8 5" and ?b = "demo_state Aes256Gcm 5 8" and ?k = "StateSealKey (AeadKey (replicate 32 1))"
  have one: "one_chain (demo_state s i j)" for s i j by (simp add: one_chain_def)
  have k: "length (aead_key_bytes (seal_key ?k)) = 32" "context_ok []" by (simp_all add: context_ok_def MAX_AAD_LEN_def)
  note lossless = restarts_lose_nothing [OF demo_sizes_ok demo_aeads_ok demo_hkdf_total demo_rng_total demo_synced one one _ k]
  have gen: "rs_generation ?b = 0" by simp
  have empty: "(serviced D)\<^sup>*\<^sup>* (?a, ?b, [], []) (?a, ?b, [], [])" by simp
  obtain blob r' where blob: "seal_state D ?k [] ?b 9 = (Ok blob, r')" "restore_state D ?k [] 0 blob = Ok ?b"
    using lossless [OF empty, where r = 9] gen by auto
  have "RatchetState_encrypt D Message [1] ?a 0 = (Ok (demo_frame Message [1] ?a 0), demo_sent ?a, Suc 0)"
    using demo_state_ok by (rule demo_encrypt) (simp_all add: MAX_CIPHERTEXT_LEN_def AEAD_TAG_LEN_def)
  then have "serviced D (?a, ?b, [], []) (demo_sent ?a, ?b, [(demo_frame Message [1] ?a 0, [1])], [])"
    by (intro serviced.moved duplex.send_left)
  then have "(serviced D)\<^sup>*\<^sup>* (?a, ?b, [], []) (demo_sent ?a, ?b, [(demo_frame Message [1] ?a 0, [1])], [])"
    by (rule converse_rtranclp_into_rtranclp) (rule r_into_rtranclp, rule serviced.restart_right [OF blob])
  from lossless [OF this, where r = 4] blob(2) show ?thesis by fastforce
qed

text \<open>
  C7. A conversation goes on. Once one side has rotated its ratchet after the handshake, to a key the
  other side neither uses nor keeps keys for, then after any sequence of turns, replies and lost frames
  (\<open>talk\<close>) the next frame of the side that is ahead decrypts to its plaintext at the other side, if
  the numbers it skips fit the limit of 1024 kept keys there (\<open>step_room\<close>) and the key pair drawn for the
  step agrees with the sender's key and is new to the sender (\<open>fresh_draw\<close>). The receiver's ratchet steps
  with it: its key pair is the one just drawn, its remote key is the sender's, which it did not have before,
  its sending chain starts again at 0 with the length of the old one kept for the next header, and it is
  now the side that is ahead.
\<close>

theorem conversation_turn_delivers:
  assumes "sizes_ok P" "aeads_ok P" "x25519_ok P" "hkdf_total P" "synced P a b"
    and "rotate_sending_ratchet P a r = (Ok (), a1, r1)" "fresh_for (current_public_key a1) b"
    and "(talk P)\<^sup>*\<^sup>* (a1, b) (x, y)"
    and "RatchetState_encrypt P kind pt x r2 = (Ok f, x', r3)" "step_room y f" "fresh_draw P x' r4"
  shows "\<exists>y' r5. RatchetState_decrypt P f y r4 = (Ok pt, y', r5) \<and>
    DhKeyPair_generate P r4 = (Ok (rs_dh_pair y'), r5) \<and>
    rs_remote_dh y' = current_public_key x' \<and> rs_remote_dh y' \<noteq> rs_remote_dh y \<and>
    rs_sending_count y' = 0 \<and> rs_previous_sending_chain_len y' = rs_sending_count y \<and> one_ahead P (y', x')"
proof -
  have "one_ahead P (a1, b)"
    using rotate_ahead [OF assms(1,5,6)] assms(7) by (auto simp: one_ahead_def current_public_key_def)
  from conversation_one_ahead [OF assms(1-4) assms(8) this]
  obtain c where c: "ahead P c x y" by (auto simp: one_ahead_def)
  from turn_delivers [OF assms(1-4) c assms(9-11)] obtain y' r5 where
    dec: "RatchetState_decrypt P f y r4 = (Ok pt, y', r5)" and ahead: "one_ahead P (y', x')" by blast
  from dec turn_steps [OF assms(1,2,4) c assms(9) dec] ahead show ?thesis by blast
qed

lemma conversation_turn_delivers_witness:
  "\<exists>y' r5. RatchetState_decrypt D (demo_frame Message [5] (demo_sent (demo_rotated Aes256Gcm)) 2)
     (demo_state Aes256Gcm 5 8) 3 = (Ok [5], y', r5) \<and> DhKeyPair_generate D 3 = (Ok (rs_dh_pair y'), r5) \<and>
     rs_remote_dh y' \<noteq> DhPublicKey (replicate 32 8) \<and> one_ahead D (y', demo_sent (demo_sent (demo_rotated Aes256Gcm)))"
proof -
  let ?x = "demo_sent (demo_rotated Aes256Gcm)"
  have ok: "ratchet_ok D (demo_rotated Aes256Gcm)"
    using rotate_ratchet_ok [OF demo_sizes_ok demo_state_ok demo_rotate] .
  have enc: "RatchetState_encrypt D Message [4] (demo_rotated Aes256Gcm) 1 =
      (Ok (demo_frame Message [4] (demo_rotated Aes256Gcm) 1), ?x, Suc 1)"
    using ok by (rule demo_encrypt) (simp_all add: demo_rotated_def MAX_CIPHERTEXT_LEN_def AEAD_TAG_LEN_def)
  have enc2: "RatchetState_encrypt D Message [5] ?x 2 = (Ok (demo_frame Message [5] ?x 2), demo_sent ?x, Suc 2)"
    using encrypt_ratchet_ok [OF demo_sizes_ok ok enc] by (rule demo_encrypt)
      (simp_all add: demo_sent_def demo_rotated_def MAX_CIPHERTEXT_LEN_def AEAD_TAG_LEN_def)
  have lost: "(talk D)\<^sup>*\<^sup>* (demo_rotated Aes256Gcm, demo_state Aes256Gcm 5 8) (?x, demo_state Aes256Gcm 5 8)"
    by (rule r_into_rtranclp, rule talk.lost [OF enc])
  have "rs_remote_dh (demo_state Aes256Gcm 5 8) = DhPublicKey (replicate 32 8)" by (simp add: demo_state_def)
  moreover have "\<exists>y' r5. RatchetState_decrypt D (demo_frame Message [5] ?x 2) (demo_state Aes256Gcm 5 8) 3 = (Ok [5], y', r5) \<and>
    DhKeyPair_generate D 3 = (Ok (rs_dh_pair y'), r5) \<and>
    rs_remote_dh y' = current_public_key (demo_sent ?x) \<and> rs_remote_dh y' \<noteq> rs_remote_dh (demo_state Aes256Gcm 5 8) \<and>
    rs_sending_count y' = 0 \<and> rs_previous_sending_chain_len y' = rs_sending_count (demo_state Aes256Gcm 5 8) \<and>
    one_ahead D (y', demo_sent ?x)"
    by (rule conversation_turn_delivers [OF demo_sizes_ok demo_aeads_ok demo_x25519_ok demo_hkdf_total demo_synced
        demo_rotate _ lost enc2])
      (simp_all add: fresh_for_def current_public_key_def demo_rotated_def demo_sent_def step_room_def demo_frame_def
        fresh_draw_def MAX_SKIPPED_KEYS_def del: replicate.simps)
  ultimately show ?thesis by metis
qed



section \<open>The programs of the repository\<close>

text \<open>
  C9. The client programs the repository ships succeed for every lawful implementation of the primitives
  and every random source, not only in the runs a test makes: the in-memory chat, both end-to-end
  tests, the tests of the ratchet, of snapshots, of both handshakes, of frames, of the envelope with its
  replay cache, of the suites and of X25519, and the property test on frames for every payload that fits.
  No call fails that they expect to succeed and no assertion is violated.
\<close>

theorem client_programs_succeed:
  assumes "lawful P"
  shows "fst (in_memory_chat P r) = Ok () \<and> fst (two_party_flow_survives_transport_wrapping P r) = Ok () \<and>
    fst (replayed_inner_frame_is_rejected P r) = Ok () \<and> fst (aes_gcm_siv_round_trip_and_restore P r) = Ok () \<and>
    fst (bidirectional_messages_round_trip P r) = Ok () \<and> fst (out_of_order_messages P r) = Ok () \<and>
    fst (snapshot_restores_out_of_order_state P r) = Ok () \<and> fst (one_time_prekey_handshake P r) = Ok () \<and>
    fst (retained_signed_prekey_accepts P r) = Ok () \<and> fst (hybrid_handshake_round_trip P r) = Ok () \<and>
    fst (open_inner_removes_padding P r) = Ok () \<and> fst (every_aead_suite_round_trips P r) = Ok () \<and>
    fst (x25519_agreement_is_symmetric P r) = Ok () \<and> fst (non_contributory_input_is_rejected P r) = Ok () \<and>
    fst (frame_round_trips_and_decrypts P r) = Ok () \<and> fst (envelope_round_trips_with_padding P r) = Ok () \<and>
    (\<forall>payload. length payload \<le> MAX_CIPHERTEXT_LEN - AEAD_TAG_LEN \<longrightarrow> fst (inner_frame_round_trip P payload r) = Ok ())"
  by (intro conjI allI impI chat_runs two_party_flow_runs replay_runs siv_runs bidirectional_runs out_of_order_runs
      snapshot_runs one_time_prekey_handshake_runs retained_signed_prekey_runs hybrid_round_trip_runs open_inner_runs
      every_suite_runs x25519_symmetric_runs non_contributory_runs frame_round_trips_runs envelope_round_trips_runs
      inner_frame_round_trip_runs assms)

lemma client_programs_succeed_witness:
  "fst (in_memory_chat live_primitives 0) = Ok () \<and> fst (inner_frame_round_trip live_primitives [1, 2, 3] 5) = Ok ()"
  using client_programs_succeed [OF live_lawful, of 0] client_programs_succeed [OF live_lawful, of 5]
  by (simp add: limits)

text \<open>
  C10. The security regressions hold in the same generality: an oversized plaintext does not use up a
  message number; a frame 1025 numbers ahead is refused without keeping keys and without advancing the
  receiver; an expired envelope is refused and frames re-encode to their bytes; cut or extended wire
  strings and an unknown version give \<open>InvalidFrame\<close>; a nonce of the wrong length is refused. The test
  with a frame of another session (refused, and the receiver then reads its own) passes exactly when the
  two handshakes have different session identifiers. These are the hashes of the two transcripts, which
  name the ephemeral keys of the seventh draw of each handshake, and are equal only for equal messages.
\<close>

theorem security_regressions_hold:
  assumes "lawful P"
  shows "fst (failed_outbound_framing P r) = Ok () \<and> fst (skipped_key_limit_rejects_large_gap P r) = Ok () \<and>
    fst (envelope_expiry_is_checked P r) = Ok () \<and> fst (canonical_parsers_reject_altered_wire P r) = Ok () \<and>
    fst (parser_rejects_trailing_and_unknown_version P r) = Ok () \<and> explicit_nonce_must_match_suite P = Ok () \<and>
    (\<exists>a b c d m1 m2 w1 w2 e1 e2.
      regression_pair P r = (Ok (a, b), r + 8) \<and> regression_pair P (r + 8) = (Ok (c, d), r + 16) \<and>
      DhKeyPair_generate P (r + 6) = (Ok e1, r + 7) \<and> ih_initiator_ephemeral m1 = kp_public e1 \<and>
      DhKeyPair_generate P (r + 14) = (Ok e2, r + 15) \<and> ih_initiator_ephemeral m2 = kp_public e2 \<and>
      rs_session_id b = blake3 P (session_transcript m1 w1) \<and> rs_session_id c = blake3 P (session_transcript m2 w2) \<and>
      (session_transcript m1 w1 = session_transcript m2 w2 \<longleftrightarrow> m1 = m2 \<and> w1 = w2) \<and>
      message_ok P m1 \<and> message_ok P m2 \<and>
      (fst (wrong_session_frame_is_rejected P r) = Ok () \<longleftrightarrow> rs_session_id b \<noteq> rs_session_id c))"
  by (intro conjI failed_outbound_runs skipped_key_limit_runs envelope_expiry_runs parsers_reject_runs
      parser_rejects_runs explicit_nonce_runs wrong_session_runs assms)

text \<open>The live functions hash the window of the transcript with the ephemeral key: every session has its own identifier.\<close>

lemma security_regressions_hold_witness:
  "fst (skipped_key_limit_rejects_large_gap live_primitives 0) = Ok () \<and>
   fst (wrong_session_frame_is_rejected live_primitives 0) = Ok ()"
proof (rule conjI)
  show "fst (skipped_key_limit_rejects_large_gap live_primitives 0) = Ok ()"
    using security_regressions_hold [OF live_lawful] by blast
  from security_regressions_hold [OF live_lawful, of 0] obtain b c m1 m2 w1 w2 e1 e2 where
    keys: "DhKeyPair_generate live_primitives 6 = (Ok e1, 7)" "ih_initiator_ephemeral m1 = kp_public e1"
      "DhKeyPair_generate live_primitives 14 = (Ok e2, 15)" "ih_initiator_ephemeral m2 = kp_public e2"
    and ids: "rs_session_id b = blake3 live_primitives (session_transcript m1 w1)"
      "rs_session_id c = blake3 live_primitives (session_transcript m2 w2)"
    and ok: "message_ok live_primitives m1" "message_ok live_primitives m2"
    and test: "fst (wrong_session_frame_is_rejected live_primitives 0) = Ok () \<longleftrightarrow>
      rs_session_id (b :: ratchet_state) \<noteq> rs_session_id (c :: ratchet_state)"
    by (metis add_0)
  from live_keys_differ [OF keys(1,3)] show "fst (wrong_session_frame_is_rejected live_primitives 0) = Ok ()"
    by (simp add: test ids live_session_hash ok keys(2,4))
qed

text \<open>
  C11. The tests that alter bytes, or present them in a wrong place, pass exactly when the result is not
  itself authentic in the run at hand: an AEAD ciphertext under other associated data or with a bit
  flipped, a frame with another number, an envelope with another expiry, a ratchet message with its
  last byte flipped (the genuine one decrypts afterwards), a snapshot restored for another context, and
  an initiator message whose identity signature is altered. In each, the code asks exactly one
  question of the primitive, with the key, the header and the bytes of that run, and answers
  \<open>AuthenticationFailed\<close> when the primitive says no.
\<close>

theorem tampering_tests_exact:
  assumes "lawful P"
  shows "(\<exists>c. seal_with_nonce P (AeadKey (replicate 32 7)) Aes256GcmSiv (replicate 12 9) (ascii ''correct aad'') (ascii ''payload'') = Ok c \<and>
      (aes_gcm_siv_rejects_tampering P = Ok () \<longleftrightarrow>
        \<not> authentic P (AeadKey (replicate 32 7)) (ascii ''wrong aad'') c \<and>
        \<not> authentic P (AeadKey (replicate 32 7)) (ascii ''correct aad'') (flipped 0 c))) \<and>
    (\<exists>c. seal_with_nonce P (AeadKey (replicate 32 7)) XChaCha20Poly1305 (replicate 24 9) (ascii ''correct aad'') (ascii ''payload'') = Ok c \<and>
      (authentication_failure_is_uniform P = Ok () \<longleftrightarrow>
        \<not> authentic P (AeadKey (replicate 32 7)) (ascii ''wrong aad'') c \<and>
        \<not> authentic P (AeadKey (replicate 32 7)) (ascii ''correct aad'') (flipped 0 c))) \<and>
    (\<exists>f. make_frame P r = (Ok f, Suc r) \<and>
      (fst (header_tampering_breaks_authentication P r) = Ok () \<longleftrightarrow>
        \<not> authentic P (AeadKey (replicate 32 3)) (frame_aad_bytes XChaCha20Poly1305
          (FrameHeader_new Message (replicate 32 1) (replicate 32 2) 4 8) 29) (if_ciphertext f))) \<and>
    (\<exists>kp m f e shared key. DhKeyPair_generate P r = (Ok kp, Suc r) \<and>
      MailboxCapability_generate P (Suc r) = (Ok m, Suc (Suc r)) \<and>
      envelope_inner_frame P (Suc (Suc r)) = (Ok f, Suc (Suc (Suc r))) \<and>
      fst (OuterEnvelope_seal P (kp_public kp) m 1700000000 f 0 (Suc (Suc (Suc r)))) = Ok e \<and>
      DhKeyPair_diffie_hellman P kp (oe_sender_ephemeral e) = Ok shared \<and>
      derive_aead_key P (mailbox_bytes m) (ascii ''outer-envelope-v1'') shared = Ok key \<and>
      (fst (envelope_rejects_expiration_and_tampering P r) = Ok () \<longleftrightarrow>
        \<not> authentic P key (outer_aad_bytes m (oe_message_id e) 1700000001 (oe_sender_ephemeral e)
          (length (ct_body (oe_ciphertext e)))) (oe_ciphertext e))) \<and>
    (\<exists>a b r1 f a1 chain key. pair_with_suite P XChaCha20Poly1305 r = (Ok (a, b), r1) \<and>
      RatchetState_encrypt P Message (ascii ''valid'') a r1 = (Ok f, a1, Suc r1) \<and>
      chain_step P (rs_receiving_chain b) = Ok (chain, key) \<and>
      (fst (failed_authentication_does_not_advance_state P r) = Ok () \<longleftrightarrow>
        \<not> authentic P key (frame_aad_bytes XChaCha20Poly1305 (if_header f) 21) (flipped 20 (if_ciphertext f)))) \<and>
    (\<exists>a b r' blob c. establish P 1 2000 2 1000 DEFAULT_SUITE r = (Ok (a, b), r') \<and>
      seal_state P (StateSealKey (AeadKey (replicate 32 3))) (ascii ''context-a'') a r' = (Ok blob, Suc r') \<and>
      blob = snapshot_bytes STATE_VERSION 0 c \<and>
      (fst (snapshot_is_context_bound_and_rollback_checked P r) = Ok () \<longleftrightarrow>
        \<not> authentic P (AeadKey (replicate 32 3)) (AAD_LABEL_V2 @ ascii ''context-b'') c)) \<and>
    (\<exists>m0 r0 m r1 li r2 msg ha r3. ResponderPrekeyMaterial_generate P 7 2000 r = (Ok m0, r0) \<and>
      add_one_time_prekey P 19 m0 r0 = (Ok (), m, r1) \<and> LocalIdentity_generate P r1 = (Ok li, r2) \<and>
      handshake_initiate P li (ResponderPrekeyMaterial_bundle P m) 1000 r2 = (Ok (msg, ha), r3) \<and>
      (fst (tampered_identity_binding_is_rejected P r) = Ok () \<longleftrightarrow>
        \<not> ed25519_verify_strict P (identity_public_bytes (id_signing (LocalIdentity_public P li)))
          (identity_binding_transcript (id_dh (LocalIdentity_public P li)))
          (id_signature (ih_initiator_identity (signature_flipped msg)))))"
  (is "?siv \<and> ?xchacha \<and> ?frame \<and> ?envelope \<and> ?ratchet \<and> ?snapshot \<and> ?identity")
proof (intro conjI)
  show ?siv unfolding aes_gcm_siv_rejects_tampering_def
    by (rule aead_tampering [OF assms]) (auto simp: AES_CHACHA_NONCE_LEN_def)
  show ?xchacha unfolding authentication_failure_is_uniform_def
    by (rule aead_tampering [OF assms]) (auto simp: XCHACHA_NONCE_LEN_def)
  show ?frame by (rule header_tampering_exact [OF assms]) blast
  show ?envelope by (rule envelope_tampering_exact [OF assms]) blast
  show ?ratchet by (rule ratchet_tampering_exact [OF assms]) blast
  show ?snapshot by (rule snapshot_context_exact [OF assms]) blast
  show ?identity by (rule identity_binding_exact [OF assms]) blast
qed

lemma tampering_tests_exact_witness:
  "\<exists>f. make_frame live_primitives 0 = (Ok f, 1) \<and>
     (fst (header_tampering_breaks_authentication live_primitives 0) = Ok () \<longleftrightarrow>
       \<not> authentic live_primitives (AeadKey (replicate 32 3)) (frame_aad_bytes XChaCha20Poly1305
         (FrameHeader_new Message (replicate 32 1) (replicate 32 2) 4 8) 29) (if_ciphertext f))"
  using tampering_tests_exact [OF live_lawful, of 0] by (simp only: One_nat_def)

section \<open>The public interface\<close>

text \<open>
  C12. Everything a client can get from the public functions of the crate, by whatever sequence of calls with
  whatever bytes, numbers, times and random answers, is well typed: keys and identifiers have their
  lengths, ciphertexts their bounds, key pairs match, identities and bundles verify, replay caches,
  prekey material and ratchets keep their invariants. In particular every frame, envelope, message and
  bundle a client can hold encodes and decodes back.
\<close>

theorem api_values_well_typed:
  assumes "sizes_ok P" "aeads_ok P" "ed25519_ok P" "mlkem_ok P" "obtainable P v"
  shows "well_typed P v \<and>
    (case v of
      FrameV f \<Rightarrow> \<exists>bs. InnerFrame_encode f = Ok bs \<and> InnerFrame_decode bs = Ok f
    | EnvelopeV e \<Rightarrow> \<exists>bs. OuterEnvelope_encode e = Ok bs \<and> OuterEnvelope_decode bs = Ok e
    | MessageV msg \<Rightarrow> InitiatorHandshake_decode P (InitiatorHandshake_encode msg) = Ok msg
    | BundleV b \<Rightarrow> ResponderPrekeyBundle_decode P (ResponderPrekeyBundle_encode b) = Ok b
    | HybridMessageV m \<Rightarrow> HybridInitiatorHandshake_decode P (HybridInitiatorHandshake_encode m) = Ok m
    | HybridBundleV b \<Rightarrow> HybridResponderPrekeyBundle_decode P (HybridResponderPrekeyBundle_encode b) = Ok b
    | _ \<Rightarrow> True)"
  using obtainable_typed [OF assms] obtainable_encodes [OF assms(1-4)] assms(5) by (cases v) simp_all

lemma api_values_well_typed_witness:
  "\<exists>m. material_ok live_primitives m \<and>
     ResponderPrekeyBundle_decode live_primitives (ResponderPrekeyBundle_encode (ResponderPrekeyMaterial_bundle live_primitives m)) =
       Ok (ResponderPrekeyMaterial_bundle live_primitives m)"
proof -
  note law = lawfulD [OF live_lawful]
  note typed = api_values_well_typed [OF law(1,2,5,6)]
  obtain m r where "ResponderPrekeyMaterial_generate live_primitives 7 2000 0 = (Ok m, r)"
    by (rule material_generate_total [OF law(1,8)])
  then have m: "obtainable live_primitives (MaterialV m)" by (rule material_generate)
  from typed [OF m] typed [OF bundle_of_material [OF m]] show ?thesis by auto
qed

lemma decoders_never_panic:
  "InnerFrame_decode bs \<noteq> Panics \<and> InnerFrame_decode_prefix bs \<noteq> Panics \<and> OuterEnvelope_decode bs \<noteq> Panics \<and>
   InitiatorHandshake_decode P bs \<noteq> Panics \<and> ResponderPrekeyBundle_decode P bs \<noteq> Panics \<and>
   HybridInitiatorHandshake_decode P bs \<noteq> Panics \<and> HybridResponderPrekeyBundle_decode P bs \<noteq> Panics \<and>
   restore_state P key ctx minimum bs \<noteq> Panics \<and>
   arbitrary_wire_bytes P bs = Ok () \<and> fuzz_wire_parsers bs = Ok () \<and> fuzz_handshake_wire P bs = Ok ()"
  by (intro conjI parsers_run inner.dec_no_panic decode_prefix_no_panic outer.dec_no_panic message.dec_no_panic
      prekey_bundle.dec_no_panic hybrid_message.dec_no_panic hybrid_bundle.dec_no_panic restore_no_panic)

lemma handlers_never_panic:
  assumes "mlkem_sizes_ok P"
  shows "fst (handshake_accept P m msg) \<noteq> Panics \<and> fst (hybrid_accept P hm hmsg) \<noteq> Panics \<and>
    fst (OuterEnvelope_open_inner_once P e secret now cache) \<noteq> Panics \<and> fst (receive_bytes P bs st r) \<noteq> Panics"
  using accept_no_panic [of P m msg] hybrid_accept_no_panic [OF assms] open_once_no_panic receive_no_panic
  by (metis prod.collapse)

text \<open>
  C13. No call panics: every public function of the crate that returns a result fails with an \<open>Err\<close> only,
  whatever its arguments and the random source, as every out-of-range slice, index, copy and overflow of
  the source is unreachable (ML-KEM returning shared secrets of 32 bytes). So the parser drivers of the fuzz targets
  and of the property test return on every input, and a ratchet in any state survives any bytes.
\<close>

theorem calls_return:
  assumes "mlkem_sizes_ok P" "call_fails P failure"
  shows "failure \<noteq> Panic \<and> fst (receive_bytes P bs st r) \<noteq> Panics \<and> restore_state P key ctx minimum bs \<noteq> Panics \<and>
    arbitrary_wire_bytes P bs = Ok () \<and> fuzz_wire_parsers bs = Ok () \<and> fuzz_handshake_wire P bs = Ok ()"
  using calls_never_panic [OF assms] decoders_never_panic [of bs P key ctx minimum] handlers_never_panic [OF assms(1)]
  by blast

lemma calls_return_witness:
  "AeadSuite_from_id 9 = Err UnsupportedSuite \<and> fuzz_wire_parsers [77, 69, 70, 1] = Ok () \<and>
   fst (receive_bytes D [77, 69, 70, 1] (demo_state Aes256Gcm 8 5) 0) \<noteq> Panics"
proof -
  have id: "AeadSuite_from_id 9 = Err UnsupportedSuite" by (simp add: AeadSuite_from_id_def)
  have "mlkem_sizes_ok D" using demo_mlkem_ok by (simp add: mlkem_ok_def)
  from calls_return [OF this AeadSuite_from_id_fails [OF id]] id show ?thesis by simp
qed

text \<open>
  C14. Printing a value with \<open>Debug\<close> shows no secret: the output for key pairs, identities, prekey material,
  handshake results and ratchet states is the same when every secret in them (private keys, root and
  chain keys, kept message keys) is blanked out, and the types that are secrets print one
  fixed string.
\<close>

theorem debug_hides_secrets:
  "debug_DhKeyPair (redact_DhKeyPair kp) = debug_DhKeyPair kp \<and>
   debug_LocalIdentity (redact_LocalIdentity li) = debug_LocalIdentity li \<and>
   debug_OneTimePrekey (redact_OneTimePrekey k) = debug_OneTimePrekey k \<and>
   debug_ResponderPrekeyMaterial (redact_ResponderPrekeyMaterial m) = debug_ResponderPrekeyMaterial m \<and>
   debug_HybridResponderPrekeyMaterial (redact_HybridResponderPrekeyMaterial hm) = debug_HybridResponderPrekeyMaterial hm \<and>
   debug_AuthenticatedHandshake (redact_AuthenticatedHandshake h) = debug_AuthenticatedHandshake h \<and>
   debug_RatchetState (redact_RatchetState st) = debug_RatchetState st \<and>
   (debug_AeadKey key = debug_AeadKey key' \<and> debug_Secret s = debug_Secret s' \<and> debug_DhSecretKey d = debug_DhSecretKey d' \<and>
    debug_IdentityKeyPair ik = debug_IdentityKeyPair ik' \<and> debug_StateSealKey sk = debug_StateSealKey sk' \<and>
    debug_MlKem768SharedSecret z = debug_MlKem768SharedSecret z' \<and> debug_MlKem768KeyPair mk = debug_MlKem768KeyPair mk')"
  by (intro conjI debug_redacted_keys debug_redacted_states debug_redacted_hybrid)
    (simp_all add: debug_AeadKey_def debug_Secret_def debug_DhSecretKey_def debug_IdentityKeyPair_def
      debug_StateSealKey_def debug_MlKem768SharedSecret_def debug_MlKem768KeyPair_def)

section \<open>Envelopes\<close>

text \<open>One message through the whole stack, for any sender that fits the receiver's window.\<close>

lemma posted_message_arrives:
  assumes "sizes_ok P" "aeads_ok P" "hkdf_total P" "x25519_ok P" "rng_total P" "synced P a b"
    and "RatchetState_encrypt P kind pt a r = (Ok f, a', r1)" "same_room b f" "key_pair_ok P kp"
    and "length (mailbox_bytes m) = 32" "length (frame_bytes f) + pad \<le> MAX_CIPHERTEXT_LEN - AEAD_TAG_LEN"
    and "DhKeyPair_generate P r1 = (Ok eph, Suc r1)" "DhKeyPair_diffie_hellman P eph (kp_public kp) = Ok z"
    and "now \<le> t"
  shows "\<exists>e r2 bs. OuterEnvelope_seal P (kp_public kp) m t f pad r1 = (Ok e, r2) \<and>
    OuterEnvelope_encode e = Ok bs \<and> OuterEnvelope_decode bs = Ok e \<and>
    (\<forall>cache r3. oe_message_id e \<notin> live_ids now cache \<longrightarrow> live_count now cache < rc_capacity cache \<longrightarrow>
      fst (OuterEnvelope_open_inner_once P e (kp_secret kp) now cache) = Ok f \<and>
      fst (RatchetState_decrypt P f b r3) = Ok pt)"
proof -
  obtain c where a: "ratchet_ok P a" and "rs_sending_chain a = chain_at P c (unat (rs_sending_count a))"
    using assms(6) by (auto simp: synced_def live_link_def chain_link_def)
  then have f: "frame_ok f" by (rule encrypt_Ok(3) [OF assms(1-3) _ assms(7)])
  obtain e where e: "OuterEnvelope_seal P (kp_public kp) m t f pad r1 = (Ok e, Suc (Suc (Suc r1)))"
    using seal_envelope_total [OF assms(1-3,5) f assms(10,12,13,11)] by blast
  have ok: "envelope_ok e" by (rule seal_envelope [OF f assms(10,1) e])
  from posted_frame_delivered [OF assms(1-4,6-10) e assms(14)] e outer.dec_iff [of "envelope_bytes e" e]
    OuterEnvelope_encode_Ok [OF ok] ok
  show ?thesis by (metis (no_types, lifting) fst_conv)
qed

lemma posted_message_example:
  "\<exists>e. oe_expires_at_unix e = 100 \<and>
     fst (OuterEnvelope_open_inner_once D e (DhSecretKey (replicate 32 4)) 100 \<lparr>rc_capacity = 1, rc_entries = []\<rparr>) =
       Ok (demo_frame Message [1] (demo_state XChaCha20Poly1305 8 5) 0) \<and>
     fst (RatchetState_decrypt D (demo_frame Message [1] (demo_state XChaCha20Poly1305 8 5) 0)
       (demo_state XChaCha20Poly1305 5 8) 0) = Ok [1]"
proof -
  let ?a = "demo_state XChaCha20Poly1305 8 5" and ?b = "demo_state XChaCha20Poly1305 5 8"
  let ?f = "demo_frame Message [1] ?a 0"
  have enc: "RatchetState_encrypt D Message [1] ?a 0 = (Ok ?f, demo_sent ?a, Suc 0)"
    using demo_state_ok by (rule demo_encrypt) (simp_all add: MAX_CIPHERTEXT_LEN_def AEAD_TAG_LEN_def)
  have f: "frame_ok ?f" by (rule demo_frame_ok) (simp_all add: MAX_CIPHERTEXT_LEN_def AEAD_TAG_LEN_def)
  have room: "same_room ?b ?f" by (simp add: same_room_def demo_frame_def MAX_SKIPPED_KEYS_def)
  have m: "length (mailbox_bytes (MailboxCapability (replicate 32 1))) = 32" by simp
  have fits: "length (frame_bytes ?f) + 10 \<le> MAX_CIPHERTEXT_LEN - AEAD_TAG_LEN"
    by (simp add: length_frame_bytes [OF f]) (simp add: demo_frame_def limits XCHACHA_NONCE_LEN_def)
  have kp: "DhKeyPair_generate D (Suc 0) = (Ok (demo_pair 2), Suc (Suc 0))"
    "DhKeyPair_diffie_hellman D (demo_pair 2) (kp_public (demo_pair 4)) = Ok (replicate 32 6)"
    by (simp_all del: replicate.simps)
  from posted_message_arrives [OF demo_sizes_ok demo_aeads_ok demo_hkdf_total demo_x25519_ok demo_rng_total demo_synced
      enc room demo_pair_simps(4) m fits kp order_refl, of 100]
  obtain e r2 where e: "OuterEnvelope_seal D (kp_public (demo_pair 4)) (MailboxCapability (replicate 32 1)) 100 ?f 10 (Suc 0) =
      (Ok e, r2)" and open': "\<And>cache r3. oe_message_id e \<notin> live_ids 100 cache \<longrightarrow> live_count 100 cache < rc_capacity cache \<longrightarrow>
      fst (OuterEnvelope_open_inner_once D e (kp_secret (demo_pair 4)) 100 cache) = Ok ?f \<and>
      fst (RatchetState_decrypt D ?f ?b r3) = Ok [1]" by blast
  have "oe_expires_at_unix e = 100" by (rule seal_envelope [OF f m demo_sizes_ok e])
  with open' [of "\<lparr>rc_capacity = 1, rc_entries = []\<rparr>" 0] show ?thesis
    by (auto simp: live_ids_def live_count_def simp del: replicate.simps)
qed

text \<open>
  C15. The whole stack implements a mailbox. Let the number a side of a session sends next be the one its
  peer expects next, and let it encrypt at most 1024 messages, counting the keys the peer already keeps, and
  none numbered \<open>2 ^ 32 - 1\<close>, with any expiry and padding for each, none so long that text and padding exceed an envelope's body. Sealed for
  the recipient's delivery key, every message becomes an envelope and every envelope encodes. If the
  identifiers drawn for the envelopes differ, then in whatever order, multiplicity and at whatever
  (non-decreasing) times the byte strings arrive, decoding, opening through one replay cache that starts
  empty with a capacity of at least the number of messages, and decrypting gives exactly the answers of
  \<open>mailbox_results\<close>: the text at the first arrival up to and including its expiry second,
  \<open>ReplayDetected\<close> at a later one up to that second, \<open>EnvelopeExpired\<close> after it.
\<close>

theorem posted_session_exactly_once:
  assumes "lawful P" "synced P a b" "rs_sending_count a = rs_receiving_count b"
    and "length (rs_skipped b) + length jobs \<le> MAX_SKIPPED_KEYS" "unat (rs_sending_count a) + length jobs < 2 ^ 32"
    and "\<forall>(pt, expires, pad) \<in> set jobs. length pt + pad \<le> MAX_CIPHERTEXT_LEN - 139"
    and "key_pair_ok P kp" "length (mailbox_bytes m) = 32"
    and "ReplayCache_new capacity = Ok cache" "length jobs \<le> capacity"
  shows "\<exists>fs a' r1 es r2. encrypt_all P kind (map fst jobs) a r = (Ok fs, a', r1) \<and>
    post_all P (kp_public kp) m (zip fs (map snd jobs)) r1 = (Ok es, r2) \<and>
    map OuterEnvelope_encode es = map Ok (map envelope_bytes es) \<and> length es = length jobs \<and>
    (distinct (map oe_message_id es) \<longrightarrow>
      (\<forall>order r3. fst ` set order \<subseteq> {..<length jobs} \<longrightarrow> sorted (map snd order) \<longrightarrow>
        collect P (kp_secret kp) (map (\<lambda>(i, now). (envelope_bytes (es ! i), now)) order) cache b r3 =
          mailbox_results (\<lambda>i. fst (snd (jobs ! i))) (\<lambda>i. fst (jobs ! i)) {} order))"
  by (rule session_posted [OF assms])

lemma posted_session_exactly_once_witness:
  "\<exists>a b es (kp :: dh_key_pair) cache. synced live_primitives a b \<and> length es = 2 \<and>
     collect live_primitives (kp_secret kp)
       [(envelope_bytes (es ! 1), 5), (envelope_bytes (es ! 0), 5), (envelope_bytes (es ! 1), 6), (envelope_bytes (es ! 0), 101)]
       cache b 0 = [Ok [2], Ok [1], Err ReplayDetected, Err EnvelopeExpired]"
proof -
  note law = lawfulD [OF live_lawful]
  obtain a b r where s: "synced live_primitives a b" "rs_sending_count a = 0" "rs_receiving_count b = 0" "rs_skipped b = []"
    by (rule establish_channel [OF live_lawful, of 0 100 7 9 XChaCha20Poly1305 0]) simp_all
  obtain kp where kp: "key_pair_ok live_primitives kp" by (rule DhKeyPair_generate_total [OF law(1,8)])
  let ?jobs = "[([1], 100, 0), ([2], 100, 7)] :: (bytes \<times> u64 \<times> nat) list"
  let ?m = "MailboxCapability (replicate 32 1)" and ?cache = "\<lparr>rc_capacity = 4, rc_entries = []\<rparr>"
  have fits: "rs_sending_count a = rs_receiving_count b" "length (rs_skipped b) + length ?jobs \<le> MAX_SKIPPED_KEYS"
    "unat (rs_sending_count a) + length ?jobs < 2 ^ 32" "\<forall>(pt, expires, pad) \<in> set ?jobs. length pt + pad \<le> MAX_CIPHERTEXT_LEN - 139"
    "length (mailbox_bytes ?m) = 32" "ReplayCache_new 4 = Ok ?cache" "length ?jobs \<le> 4"
    using s by (simp_all add: MAX_SKIPPED_KEYS_def MAX_CIPHERTEXT_LEN_def ReplayCache_new_def)
  from posted_session_exactly_once [OF live_lawful s(1) fits(1-4) kp fits(5-7), of Message 0]
  obtain fs r1 es r2 where post: "post_all live_primitives (kp_public kp) ?m (zip fs (map snd ?jobs)) r1 = (Ok es, r2)"
    and len: "length es = length ?jobs" and all: "distinct (map oe_message_id es) \<longrightarrow>
      (\<forall>order r3. fst ` set order \<subseteq> {..<length ?jobs} \<longrightarrow> sorted (map snd order) \<longrightarrow>
        collect live_primitives (kp_secret kp) (map (\<lambda>(i, now). (envelope_bytes (es ! i), now)) order) ?cache b r3 =
          mailbox_results (\<lambda>i. fst (snd (?jobs ! i))) (\<lambda>i. fst (?jobs ! i)) {} order)"
    by blast
  have up: "[0 ..< length es] = [0, 1]" by (simp add: len upt_rec)
  obtain e1 e2 where es: "es = [e1, e2]" using len by (auto simp: length_Suc_conv)
  have "word_of_nat (Suc (r1 + 1)) \<noteq> (word_of_nat (Suc (r1 + 4)) :: u8)"
    by (simp add: word_of_nat_eq_iff)
  then have "transport_bytes (oe_message_id e1) \<noteq> transport_bytes (oe_message_id e2)"
    using post_all_identifiers [OF post] unfolding up es
    by (auto simp: live_primitives_def demo_primitives_def replicate_eq_replicate simp del: replicate.simps of_nat_Suc)
  then have "distinct (map oe_message_id es)" by (auto simp: es)
  from all [THEN mp, OF this, rule_format, of "[(1, 5), (0, 5), (1, 6), (0, 101)]" 0]
  have "collect live_primitives (kp_secret kp)
       [(envelope_bytes (es ! 1), 5), (envelope_bytes (es ! 0), 5), (envelope_bytes (es ! 1), 6), (envelope_bytes (es ! 0), 101)]
       ?cache b 0 = [Ok [2], Ok [1], Err ReplayDetected, Err EnvelopeExpired]" by simp
  moreover have "length es = 2" using len by simp
  ultimately show ?thesis using s(1) by blast
qed

text \<open>
  C16. However often an envelope is delivered, mixed with whatever other envelopes, through one replay
  cache and with a clock that does not run backwards, its frame is accepted at most once, whatever
  the capacity of the cache and whatever was in it before.
\<close>

theorem envelope_accepted_at_most_once:
  assumes "clock_ok t history"
  shows "accepted e history (fst (open_all P secret history cache)) \<le> 1"
  by (rule at_most_once [OF assms])

lemma envelope_accepted_at_most_once_witness:
  "\<exists>e. accepted e [(e, 10), (e, 20)]
     (fst (open_all D (DhSecretKey (replicate 32 4)) [(e, 10), (e, 20)] \<lparr>rc_capacity = 4, rc_entries = []\<rparr>)) = 1"
proof -
  let ?f = "demo_frame Message [1] (demo_state XChaCha20Poly1305 8 5) 0"
  have f: "frame_ok ?f" by (rule demo_frame_ok) (simp_all add: MAX_CIPHERTEXT_LEN_def AEAD_TAG_LEN_def)
  obtain e where e: "OuterEnvelope_seal D (kp_public (demo_pair 4)) (MailboxCapability (replicate 32 1)) 100 ?f 0 0 = (Ok e, 3)"
    by (rule demo_envelope [of ?f 0 100], rule f)
      (simp_all add: length_frame_bytes [OF f], simp add: demo_frame_def limits XCHACHA_NONCE_LEN_def)
  have m: "length (mailbox_bytes (MailboxCapability (replicate 32 1))) = 32" by simp
  have t: "oe_expires_at_unix e = 100" by (rule seal_envelope [OF f m demo_sizes_ok e])
  have "OuterEnvelope_open_inner D e (kp_secret (demo_pair 4)) 10 = Ok ?f"
    using open_sealed_envelope [OF demo_sizes_ok demo_aeads_ok demo_x25519_ok f m demo_pair_simps(4) e, of 10] by simp
  moreover have "check_and_insert (oe_message_id e) (oe_expires_at_unix e) 10 \<lparr>rc_capacity = 4, rc_entries = []\<rparr> =
      (Ok (), \<lparr>rc_capacity = 4, rc_entries = [(oe_message_id e, 100)]\<rparr>)"
    by (simp add: check_and_insert_def t)
  ultimately have "fst (OuterEnvelope_open_inner_once D e (kp_secret (demo_pair 4)) 10
      \<lparr>rc_capacity = 4, rc_entries = []\<rparr>) = Ok ?f"
    by (simp add: OuterEnvelope_open_inner_once_def)
  moreover have "clock_ok 0 [(e, 10), (e, 20)]" by simp
  from envelope_accepted_at_most_once [OF this, of e D "kp_secret (demo_pair 4)" "\<lparr>rc_capacity = 4, rc_entries = []\<rparr>"]
  have "accepted e [(e, 10), (e, 20)] (fst (open_all D (kp_secret (demo_pair 4)) [(e, 10), (e, 20)]
      \<lparr>rc_capacity = 4, rc_entries = []\<rparr>)) \<le> 1" .
  ultimately show ?thesis
    by (intro exI [of _ e]) (auto split: prod.splits simp del: replicate.simps)
qed

section \<open>Snapshots\<close>

text \<open>
  C17. A ratchet state can always be sealed under an admissible context, and the sealed bytes restore,
  under the same key and context, to exactly that state (skipped keys included) when the rollback
  floor allows its generation; below the floor \<open>StateRollbackDetected\<close> is reported. Only a state that
  holds two skipped keys for one ratchet key and message number is refused, with \<open>InvalidState\<close>.
\<close>

theorem snapshot_restores:
  assumes "aeads_ok P" "sizes_ok P" "ratchet_ok P st" "context_ok ctx"
    and "length (aead_key_bytes (seal_key key)) = 32" "sys_rng P r 24 = Some nonce"
  shows "\<exists>blob. seal_state P key ctx st r = (Ok blob, Suc r) \<and>
    (\<forall>minimum. restore_state P key ctx minimum blob =
      (if rs_generation st < minimum then Err StateRollbackDetected
       else if distinct (map (\<lambda>e. (sk_remote_dh e, sk_message_number e)) (rs_skipped st)) then Ok st
       else Err InvalidState))"
proof -
  obtain blob where "seal_state P key ctx st r = (Ok blob, Suc r)"
    using seal_state_total [OF assms] by blast
  moreover have "(\<lambda>e. (sk_remote_dh e, sk_message_number e)) = entry_id" by (simp add: fun_eq_iff entry_id_def)
  ultimately show ?thesis using restore_sealed [OF assms(1,3)] by auto
qed

lemma snapshot_restores_witness:
  "\<exists>blob. seal_state D (StateSealKey_from_bytes (replicate 32 1)) [1, 2, 3] (demo_rotated Aes256GcmSiv) 7 = (Ok blob, 8) \<and>
     restore_state D (StateSealKey_from_bytes (replicate 32 1)) [1, 2, 3] 1 blob = Ok (demo_rotated Aes256GcmSiv) \<and>
     restore_state D (StateSealKey_from_bytes (replicate 32 1)) [1, 2, 3] 2 blob = Err StateRollbackDetected"
proof -
  have ok: "ratchet_ok D (demo_rotated Aes256GcmSiv)"
    using rotate_ratchet_ok [OF demo_sizes_ok demo_state_ok demo_rotate] .
  have ctx: "context_ok [1, 2, 3]" "length (aead_key_bytes (seal_key (StateSealKey_from_bytes (replicate 32 1)))) = 32"
    by (simp_all add: context_ok_def MAX_AAD_LEN_def StateSealKey_from_bytes_def)
  have "rs_generation (demo_rotated Aes256GcmSiv) = 1" "rs_skipped (demo_rotated Aes256GcmSiv) = []"
    by (simp_all add: demo_rotated_def saturating_add_word_def)
  then show ?thesis
    using snapshot_restores [OF demo_aeads_ok demo_sizes_ok ok ctx demo_prims(1) [of 7 24]]
    by (auto simp del: replicate.simps)
qed

section \<open>Prekeys\<close>

text \<open>
  C18. A one-time prekey serves one handshake: accepting a message that names it removes it, and after any
  sequence of calls on the prekey material in which no one-time prekey is added under that id again
  (new ones under other ids, rotations, retirements, other messages) every message that names it is refused
  with an error that leaves the material as it is. The condition is needed: \<open>add_one_time_prekey\<close> refuses
  only ids it holds at the moment, so an id that has been used can be given out again.
\<close>

theorem one_time_prekey_single_use:
  assumes "material_ok P m" "handshake_accept P m msg = (Ok h, m1)" "ih_one_time_prekey_id msg = Some i"
    and "AddOneTime i \<notin> set calls" "fold (material_step P) calls (m1, r) = (m2, r')"
    and "ih_one_time_prekey_id msg2 = Some i"
  shows "available_one_time_prekeys m = Suc (available_one_time_prekeys m1) \<and>
    (\<exists>e. handshake_accept P m2 msg2 = (Err e, m2))"
proof -
  have "one_time_absent i m2"
    using one_time_absent_run [of i "(m1, r)" calls P] accept_consumes(1) [OF assms(1-3)] assms(4,5) by simp
  note absent = accept_absent [OF this assms(6), of P]
  obtain res m3 where run: "handshake_accept P m2 msg2 = (res, m3)" by (cases "handshake_accept P m2 msg2")
  obtain e where "res = Inl e" using absent run by (cases res) auto
  with accept_error_keeps_material [of P m2 msg2 e m3] accept_no_panic [of P m2 msg2 m3] run
  have "\<exists>e. handshake_accept P m2 msg2 = (Err e, m2)" by (cases e) auto
  with accept_consumes(2) [OF assms(1-3)] show ?thesis by simp
qed

lemma one_time_prekey_single_use_witness:
  "\<exists>e. handshake_accept D (fst (fold (material_step D) [AddOneTime 10, RotateSigned 2 9000, Accept demo_message]
     (demo_material0, 20))) demo_message =
     (Err e, fst (fold (material_step D) [AddOneTime 10, RotateSigned 2 9000, Accept demo_message] (demo_material0, 20)))"
proof -
  have "ih_one_time_prekey_id demo_message = Some 9" by (simp add: demo_message_def)
  moreover have "AddOneTime 9 \<notin> set [AddOneTime 10, RotateSigned 2 9000, Accept demo_message]" by simp
  ultimately show ?thesis
    using one_time_prekey_single_use [OF demo_ok(2) demo_accept _ _ prod.collapse [symmetric]] by blast
qed

text \<open>
  C19. A delayed first message is accepted: a message initiated against a published bundle still gives
  agreement after any sequence of calls on the responder's material, in particular rotations of the
  signed prekey, as long as its signed prekey is not retired and no other message has taken its
  one-time prekey.
\<close>

theorem delayed_message_accepted:
  assumes "sizes_ok P" "x25519_ok P" "ed25519_ok P" "local_identity_ok P li" "material_ok P m"
    and "handshake_initiate P li (ResponderPrekeyMaterial_bundle P m) now r = (Ok (msg, ha), r')"
    and "\<forall>c \<in> set calls. keeps_prekeys (ResponderPrekeyMaterial_bundle P m) c"
    and "fold (material_step P) calls (m, r1) = (m1, r2)"
  shows "\<exists>hb m2. handshake_accept P m1 msg = (Ok hb, m2) \<and>
    ah_session_id hb = ah_session_id ha \<and> ah_root_secret hb = ah_root_secret ha"
proof -
  have "holds_prekeys P m1 (ResponderPrekeyMaterial_bundle P m)"
    using keeps_prekeys_run [of P "(m, r1)" "ResponderPrekeyMaterial_bundle P m" calls] assms(1,5,7,8) bundle_held by simp
  moreover have "material_ok P m1"
    using material.inv_run [of P "(m, r1)" calls] assms(1,5,8) by simp
  ultimately show ?thesis
    using accept_agrees [OF assms(1-4) _ _ assms(6), of m1] by (auto simp: matching_def)
qed

lemma delayed_message_accepted_witness:
  "\<exists>hb m2. handshake_accept D (fst (fold (material_step D) [RotateSigned 2 9000, AddOneTime 10, RetireSigned 7]
     (demo_material, 20))) demo_message = (Ok hb, m2) \<and> ah_session_id hb = replicate 32 8"
proof -
  have "\<forall>c \<in> set [RotateSigned 2 9000, AddOneTime 10, RetireSigned 7].
      keeps_prekeys (ResponderPrekeyMaterial_bundle D demo_material) c"
    by (simp add: keeps_prekeys_def ResponderPrekeyMaterial_bundle_def demo_material_def demo_material0_def)
  from delayed_message_accepted [OF demo_sizes_ok demo_x25519_ok demo_ed25519_ok demo_ok(1,2)
      demo_initiate [unfolded demo_bundle_def] this prod.collapse [symmetric], of 20]
  show ?thesis by (auto simp: demo_handshake_def simp del: replicate.simps)
qed

text \<open>
  C20. The responder's material stays well formed through every sequence of calls: all key pairs match
  their public halves, the current and the retained signed records are issued by the identity for
  the pair held, and all signed and one-time prekey ids are distinct, starting from what \<open>generate\<close> makes.
\<close>

theorem prekey_material_invariant:
  assumes "sizes_ok P" "ResponderPrekeyMaterial_generate P i t r = (Ok m, r')"
    and "fold (material_step P) calls (m, r1) = (m1, r2)"
  shows "material_ok P m1"
  using material.inv_run [of P "(m, r1)" calls] material_generate_ok [OF assms(1,2)] assms(1,3) by simp

lemma prekey_material_invariant_witness:
  "material_ok D (fst (fold (material_step D) [AddOneTime 4, AddOneTime 4, RotateSigned 1 0, RotateSigned 8 0, RetireSigned 1]
     (demo_material0, 30)))"
  by (rule prekey_material_invariant [OF demo_sizes_ok demo_generate(2) prod.collapse [symmetric]])

section \<open>Ratchet state\<close>

text \<open>
  C21. Whatever is called on a ratchet (encryptions, rotations, arbitrary received bytes, in any
  order), its state stays well formed: all keys have 32 bytes, the key pair matches its public half,
  at most 1024 skipped keys are held; and its generation never decreases.
\<close>

theorem ratchet_run_invariant:
  assumes "sizes_ok P" "ratchet_ok P st" "fold (ratchet_step P) calls (st, r) = (st', r')"
  shows "ratchet_ok P st' \<and> length (rs_skipped st') \<le> MAX_SKIPPED_KEYS \<and> rs_generation st \<le> rs_generation st'"
  using ratchet.inv_run [of P "(st, r)" calls] ratchet.rank_run [of P "(st, r)" calls] assms ratchet_okD(7) by simp

lemma ratchet_run_invariant_witness:
  "ratchet_ok D (fst (fold (ratchet_step D) [Encrypt Control [1], Rotate, Receive [77, 69], Rotate, Encrypt Reset []]
     (demo_state Aes256Gcm 8 5, 0)))"
  using ratchet_run_invariant [OF demo_sizes_ok demo_state_ok prod.collapse [symmetric],
      where calls = "[Encrypt Control [1], Rotate, Receive [77, 69], Rotate, Encrypt Reset []]"] by blast

lemma decrypt_commits_or_keeps:
  assumes "RatchetState_decrypt P f st r = (res, st', r')"
  shows "case res of
      Inl e \<Rightarrow> e \<noteq> Panic \<and>
        (st' = st \<or> e = Error CounterExhausted \<and> fh_message_number (if_header f) = - 1 \<and>
          (\<exists>c. st' = st\<lparr>rs_receiving_chain := c\<rparr>))
    | Inr pt \<Rightarrow> rs_generation st' = saturating_add_word (rs_generation st) 1 \<and>
        rs_session_id st' = rs_session_id st \<and> rs_suite st' = rs_suite st"
proof (cases res)
  case (Inl e)
  then show ?thesis
    using decrypt_error [of P f st r e st' r'] decrypt_no_panic [of P f st r st' r'] assms by auto
next
  case (Inr pt)
  then show ?thesis
    using decrypt_generation [OF assms] decrypt_session [OF assms] by (simp add: next_generation_def)
qed

lemma encrypt_commits_or_keeps:
  assumes "RatchetState_encrypt P kind pt st r = (res, st1, r1)" "rotate_sending_ratchet P st r2 = (rotation, st2, r3)"
  shows "(case res of
      Inl e \<Rightarrow> e \<noteq> Panic \<and> (st1 = st \<or> e = Error CounterExhausted \<and> rs_sending_count st = - 1 \<and>
        (\<exists>c. st1 = st\<lparr>rs_sending_chain := c\<rparr>))
    | Inr f \<Rightarrow> unat (rs_sending_count st1) = Suc (unat (rs_sending_count st)) \<and>
        (\<exists>c n g. st1 = st\<lparr>rs_sending_chain := c, rs_sending_count := n, rs_generation := g\<rparr>)) \<and>
    (case rotation of
      Inl e \<Rightarrow> e \<noteq> Panic \<and> st2 = st
    | Inr u \<Rightarrow> rs_sending_count st2 = 0 \<and> rs_previous_sending_chain_len st2 = rs_sending_count st)"
proof
  show "case res of
      Inl e \<Rightarrow> e \<noteq> Panic \<and> (st1 = st \<or> e = Error CounterExhausted \<and> rs_sending_count st = - 1 \<and>
        (\<exists>c. st1 = st\<lparr>rs_sending_chain := c\<rparr>))
    | Inr f \<Rightarrow> unat (rs_sending_count st1) = Suc (unat (rs_sending_count st)) \<and>
        (\<exists>c n g. st1 = st\<lparr>rs_sending_chain := c, rs_sending_count := n, rs_generation := g\<rparr>)"
  proof (cases res)
    case (Inl e)
    with encrypt_error [of P kind pt st r e st1 r1] encrypt_no_panic [of P kind pt st r st1 r1] assms(1)
    show ?thesis by auto
  next
    case (Inr f)
    with encrypt_success [of P kind pt st r f st1 r1] assms(1) show ?thesis by simp
  qed
  show "case rotation of
      Inl e \<Rightarrow> e \<noteq> Panic \<and> st2 = st
    | Inr u \<Rightarrow> rs_sending_count st2 = 0 \<and> rs_previous_sending_chain_len st2 = rs_sending_count st"
    using rotate_no_panic [of P st r2 st2 r3] assms(2)
    by (cases rule: rotate_cases [OF assms(2)]) (auto split: sum.split)
qed

text \<open>
  C22. The methods of a ratchet commit after success or change nothing, and never panic. A failed \<open>decrypt\<close>
  keeps the state, except that a frame numbered \<open>2 ^ 32 - 1\<close> which authenticates moves the receiving chain
  key alone before \<open>CounterExhausted\<close> is reported; a successful one raises the generation by one
  (saturating) and keeps session and suite. A failed \<open>encrypt\<close> or \<open>rotate_sending_ratchet\<close> keeps the
  state, except that \<open>encrypt\<close> at message number \<open>2 ^ 32 - 1\<close> moves the sending chain key alone; a
  successful \<open>encrypt\<close> changes the chain key, the count and the generation only, and counts up by one.
\<close>

theorem ratchet_commits_or_keeps:
  assumes "RatchetState_decrypt P frame st r = (received, st', r')"
    and "RatchetState_encrypt P kind pt st r = (res, st1, r1)" "rotate_sending_ratchet P st r2 = (rotation, st2, r3)"
  shows "(case received of
      Inl e \<Rightarrow> e \<noteq> Panic \<and>
        (st' = st \<or> e = Error CounterExhausted \<and> fh_message_number (if_header frame) = - 1 \<and>
          (\<exists>c. st' = st\<lparr>rs_receiving_chain := c\<rparr>))
    | Inr text \<Rightarrow> rs_generation st' = saturating_add_word (rs_generation st) 1 \<and>
        rs_session_id st' = rs_session_id st \<and> rs_suite st' = rs_suite st) \<and>
    (case res of
      Inl e \<Rightarrow> e \<noteq> Panic \<and> (st1 = st \<or> e = Error CounterExhausted \<and> rs_sending_count st = - 1 \<and>
        (\<exists>c. st1 = st\<lparr>rs_sending_chain := c\<rparr>))
    | Inr f \<Rightarrow> unat (rs_sending_count st1) = Suc (unat (rs_sending_count st)) \<and>
        (\<exists>c n g. st1 = st\<lparr>rs_sending_chain := c, rs_sending_count := n, rs_generation := g\<rparr>)) \<and>
    (case rotation of
      Inl e \<Rightarrow> e \<noteq> Panic \<and> st2 = st
    | Inr u \<Rightarrow> rs_sending_count st2 = 0 \<and> rs_previous_sending_chain_len st2 = rs_sending_count st)"
  using decrypt_commits_or_keeps [OF assms(1)] encrypt_commits_or_keeps [OF assms(2,3)] by (rule conjI)

lemma ratchet_commits_or_keeps_witness:
  "(\<exists>e. RatchetState_decrypt D (demo_frame Message [1] (demo_state Aes256GcmSiv 8 5) 0) (demo_state Aes256Gcm 8 5) 0 =
      (Inl e, demo_state Aes256Gcm 8 5, 0)) \<and>
   (\<exists>c n g. demo_sent (demo_state Aes256Gcm 8 5) =
      (demo_state Aes256Gcm 8 5)\<lparr>rs_sending_chain := c, rs_sending_count := n, rs_generation := g\<rparr>)"
proof -
  let ?f = "demo_frame Message [1] (demo_state Aes256GcmSiv 8 5) 0" and ?st = "demo_state Aes256Gcm 8 5"
  have run: "RatchetState_decrypt D ?f ?st 0 = (Err RatchetStateMismatch, ?st, 0)"
    by (simp add: RatchetState_decrypt_def demo_frame_def)
  have "RatchetState_encrypt D Message [1] ?st 0 = (Ok (demo_frame Message [1] ?st 0), demo_sent ?st, Suc 0)"
    using demo_state_ok by (rule demo_encrypt) (simp_all add: MAX_CIPHERTEXT_LEN_def AEAD_TAG_LEN_def)
  from ratchet_commits_or_keeps [OF run this demo_rotate] run show ?thesis by simp
qed

text \<open>
  C23. When calls fail, exactly. For well-formed values, and whatever the random source answers or refuses,
  the result of each call is decided by its arguments: \<open>encrypt\<close> fails on an oversized plaintext, on a refused
  draw or at the last message number, in this order of precedence; sealing a snapshot on an oversized context or
  a refused draw; sealing an envelope on a refused draw or on contents that do not fit; a rotation, an
  initiation and the prekey operations on a refused draw, the zero point, a bundle that does not verify or an
  identifier already in use (or not in use); \<open>accept\<close> on a bad identity, on a prekey not held, or on the zero point.
  In every other case they succeed.
\<close>

theorem calls_fail_exactly:
  assumes "sizes_ok P" "aeads_ok P" "ed25519_ok P" "x25519_live P" "hkdf_total P"
    and "ratchet_ok P st" "honest_key P (rs_remote_dh st) \<or> rs_remote_dh st = zero_key"
    and "length (aead_key_bytes (seal_key key)) = 32"
    and "frame_ok f" "length (mailbox_bytes box) = 32" "honest_key P pk"
    and "local_identity_ok P li" "material_ok P m" "holds_prekeys P m b" "message_shape msg"
    and "\<forall>k \<in> {id_dh (ih_initiator_identity msg), ih_initiator_ephemeral msg}. honest_key P k \<or> k = zero_key"
  shows "outcome (fst (RatchetState_encrypt P kind pt st r)) =
      (if length pt > MAX_CIPHERTEXT_LEN - AEAD_TAG_LEN then Err InvalidLength
       else if sys_rng P r (AeadSuite_nonce_len (rs_suite st)) = None then Err RandomnessUnavailable
       else if rs_sending_count st = - 1 then Err CounterExhausted else Ok ()) \<and>
    outcome (fst (rotate_sending_ratchet P st r)) =
      (if sys_rng P r 32 = None then Err RandomnessUnavailable
       else if rs_remote_dh st = zero_key then Err NonContributoryKeyAgreement else Ok ()) \<and>
    outcome (fst (seal_state P key ctx st r)) =
      (if \<not> context_ok ctx then Err InvalidLength
       else if sys_rng P r 24 = None then Err RandomnessUnavailable else Ok ()) \<and>
    outcome (fst (OuterEnvelope_seal P pk box t f pad r)) =
      (if sys_rng P r 32 = None \<or> sys_rng P (Suc r) 16 = None then Err RandomnessUnavailable
       else if length (frame_bytes f) + pad > MAX_CIPHERTEXT_LEN - AEAD_TAG_LEN then Err InvalidLength
       else if sys_rng P (Suc (Suc r)) (AeadSuite_nonce_len OUTER_SUITE) = None then Err RandomnessUnavailable
       else Ok ()) \<and>
    outcome (fst (handshake_initiate P li b now r)) =
      (case ResponderPrekeyBundle_verify P b now of
         Inl e \<Rightarrow> Inl e
       | Inr _ \<Rightarrow> if sys_rng P r 32 = None \<or> sys_rng P (Suc r) 32 = None then Err RandomnessUnavailable else Ok ()) \<and>
    outcome (fst (handshake_accept P m msg)) =
      (case IdentityDhPublic_verify P (ih_initiator_identity msg) of
         Inl e \<Rightarrow> Inl e
       | Inr _ \<Rightarrow>
           if \<not> names_held_prekeys m msg then Err RatchetStateMismatch
           else if zero_key \<in> {id_dh (ih_initiator_identity msg), ih_initiator_ephemeral msg}
           then Err NonContributoryKeyAgreement else Ok ()) \<and>
    outcome (fst (add_one_time_prekey P i m r)) =
      (if \<not> one_time_absent i m then Err InvalidState
       else if sys_rng P r 32 = None then Err RandomnessUnavailable else Ok ()) \<and>
    outcome (fst (rotate_signed_prekey P i t m r)) =
      (if i \<in> (sp_key_id \<circ> fst) ` set (signed_entries m) then Err InvalidState
       else if sys_rng P r 32 = None then Err RandomnessUnavailable else Ok ()) \<and>
    outcome (fst (retire_signed_prekey i m)) =
      (if i \<in> (sp_key_id \<circ> fst) ` set (rm_retired_signed_prekeys m) then Ok () else Err InvalidState)"
  by (intro conjI encrypt_exact rotate_sending_exact seal_state_exact envelope_seal_exact initiate_exact accept_exact
      add_one_time_prekey_exact rotate_signed_prekey_exact retire_signed_prekey_exact; fact assms)

lemma calls_fail_exactly_witness:
  "\<exists>m msg st. fst (add_one_time_prekey live_primitives 9 m 0) = Err InvalidState \<and>
     fst (handshake_accept live_primitives m msg) = Err RatchetStateMismatch \<and>
     fst (seal_state live_primitives (StateSealKey (AeadKey (replicate 32 1))) (replicate 70000 0) st 0) = Err InvalidLength \<and>
     (\<exists>blob. fst (seal_state live_primitives (StateSealKey (AeadKey (replicate 32 1))) [] st 0) = Ok blob)"
proof -
  let ?P = live_primitives and ?k = "StateSealKey (AeadKey (replicate 32 1))"
  note law = lawfulD [OF live_lawful]
  have drawn: "sys_rng ?P r n \<noteq> None" for r n using law(8) by (auto simp: rng_total_def)
  obtain a b where s: "synced ?P a b"
    by (rule establish_channel [OF live_lawful, of 0 100 7 9 XChaCha20Poly1305 0]) simp_all
  then have a: "ratchet_ok ?P a" and b: "ratchet_ok ?P b" and remote: "kp_public (rs_dh_pair b) = rs_remote_dh a"
    by (auto simp: synced_def live_link_def chain_link_def)
  have pk: "honest_key ?P (kp_public (rs_dh_pair b))" using ratchet_okD(5) [OF b] by (auto simp: honest_key_def)
  have peer: "honest_key ?P (rs_remote_dh a) \<or> rs_remote_dh a = zero_key" using pk by (simp add: remote)
  obtain li where li: "local_identity_ok ?P li" by (rule LocalIdentity_generate_total [OF law(1,8)])
  obtain m0 where m0: "material_ok ?P m0" "rm_one_time_prekeys m0 = []" by (rule material_generate_total [OF law(1,8)])
  have "one_time_absent 9 m0" using m0(2) by (simp add: one_time_absent_def)
  then obtain m own where m: "material_ok ?P m"
    "rm_one_time_prekeys m = [\<lparr>otp_public = \<lparr>otpk_id = 9, otpk_public = kp_public own\<rparr>, otp_key = own\<rparr>]"
    using add_one_time_total [OF law(1,8) m0(1), where thesis = thesis] m0(2) by (metis append_Nil)
  let ?f = "\<lparr>if_header = FrameHeader_new Message (replicate 32 0) (replicate 32 0) 0 0,
      if_ciphertext = \<lparr>ct_suite = Aes256Gcm, ct_nonce = replicate 12 0, ct_body = replicate 16 0\<rparr>\<rparr>"
  let ?msg = "\<lparr>ih_initiator_identity = LocalIdentity_public ?P li, ih_initiator_ephemeral = kp_public (rs_dh_pair b),
      ih_initiator_ratchet = kp_public (rs_dh_pair b), ih_signed_prekey_id = 7, ih_one_time_prekey_id = Some 5\<rparr>"
  have f: "frame_ok ?f" by (simp add: frame_ok_def header_ok_def ciphertext_ok_def limits
      AES_CHACHA_NONCE_LEN_def del: replicate.simps)
  have lens: "length (aead_key_bytes (seal_key ?k)) = 32" "length (mailbox_bytes (MailboxCapability (replicate 32 1))) = 32"
    by simp_all
  note idok = identity_ok_lengths [OF local_identity_public_ok [OF law(1,5) li]]
  have msg: "message_shape ?msg" using idok key_pair_public_length [OF law(1) ratchet_okD(5) [OF b]]
    by (simp add: message_shape_def)
  have "id_dh (LocalIdentity_public ?P li) = kp_public (li_dh li)" by (simp add: LocalIdentity_public_def Let_def)
  then have keys: "\<forall>k \<in> {id_dh (ih_initiator_identity ?msg), ih_initiator_ephemeral ?msg}. honest_key ?P k \<or> k = zero_key"
    using li pk by (auto simp: local_identity_ok_def honest_key_def)
  note exact = calls_fail_exactly [OF law(1,2,5,4,7) a peer lens(1) f lens(2) pk li m(1) bundle_held msg keys]
  have "outcome (fst (add_one_time_prekey ?P 9 m 0)) = Err InvalidState"
    using exact [of Message "[]" 0 "[]" 0 0 0 9] m(2) by (simp add: one_time_absent_def one_time_id_def)
  moreover have "outcome (fst (handshake_accept ?P m ?msg)) = Err RatchetStateMismatch"
    using exact [of Message "[]" 0 "[]" 0 0 0 9] m(2) idok(4)
    by (simp add: names_held_prekeys_def one_time_absent_def one_time_id_def)
  moreover have "outcome (fst (seal_state ?P ?k (replicate 70000 0) a 0)) = Err InvalidLength"
    using exact [of Message "[]" 0 "replicate 70000 0" 0 0 0 9, THEN conjunct2, THEN conjunct2, THEN conjunct1]
    by (simp add: context_ok_def MAX_AAD_LEN_def del: replicate.simps)
  moreover have "outcome (fst (seal_state ?P ?k [] a 0)) = Ok ()"
    using exact [of Message "[]" 0 "[]" 0 0 0 9, THEN conjunct2, THEN conjunct2, THEN conjunct1] drawn
    by (simp add: context_ok_def MAX_AAD_LEN_def)
  ultimately show ?thesis unfolding outcome_iff by blast
qed

text \<open>
  C24. Used keys are erased. Whatever key a step of the ratchet used, the state after it is the same as for
  any other key with the same successors: after \<open>encrypt\<close> nothing is left of the sending chain key but
  the next one; after a frame of the current chain nothing of the receiving chain key but the next one
  and the keys of messages still outstanding; after a DH ratchet step nothing of the old root key, own key
  pair and chains but the outcome of the exchange and the outstanding keys; and a kept key goes when it
  is used. So no earlier message key can be read off a state, only recomputed from what precedes it.
\<close>

theorem past_keys_erased:
  shows "(RatchetState_encrypt P kind pt st r = (Ok f, st1, r1) \<and>
      RatchetState_encrypt P kind' pt' (st\<lparr>rs_sending_chain := c\<rparr>) r' = (Ok f', st2, r2) \<and>
      chain_successor P (rs_sending_chain st) = chain_successor P c \<longrightarrow> st1 = st2) \<and>
    (decrypt_same_ratchet P pk g st = (Ok pt, st1) \<and>
      decrypt_same_ratchet P pk g' (st\<lparr>rs_receiving_chain := c\<rparr>) = (Ok pt', st2) \<and>
      fh_message_number (if_header g') = fh_message_number (if_header g) \<and>
      rs_receiving_count st \<le> fh_message_number (if_header g) \<and>
      receive_successor P (rs_receiving_chain st) (rs_receiving_count st)
          (fh_message_number (if_header g)) (length (rs_skipped st)) =
        receive_successor P c (rs_receiving_count st) (fh_message_number (if_header g)) (length (rs_skipped st)) \<longrightarrow>
      st1 = st2) \<and>
    (decrypt_new_ratchet P pk g st r = (Ok pt, st1, r1) \<and>
      decrypt_new_ratchet P pk g (st\<lparr>rs_root_key := root, rs_dh_pair := kp, rs_sending_chain := sending,
        rs_receiving_chain := c\<rparr>) r = (Ok pt', st2, r2) \<and>
      outstanding_keys P (rs_receiving_chain st) (rs_receiving_count st)
          (fh_previous_chain_len (if_header g)) (length (rs_skipped st)) =
        outstanding_keys P c (rs_receiving_count st) (fh_previous_chain_len (if_header g)) (length (rs_skipped st)) \<and>
      root_successor P (rs_root_key st) (rs_dh_pair st) pk = root_successor P root kp pk \<longrightarrow> st1 = st2) \<and>
    (decrypt_skipped P pk n g st = (Ok pt, st1) \<and>
      position (\<lambda>entry. sk_remote_dh entry = pk \<and> sk_message_number entry = n) (rs_skipped st) = Some i \<longrightarrow>
      rs_skipped st1 = remove_at i (rs_skipped st))"
  by (intro conjI impI; elim conjE)
    ((rule send_forgets, assumption+), (rule receive_forgets, assumption+), (rule step_forgets, assumption+),
      (rule skipped_forgets, assumption+))

lemma past_keys_erased_witness:
  "demo_sent (demo_state Aes256Gcm 8 5) =
     demo_sent ((demo_state Aes256Gcm 8 5)\<lparr>rs_sending_chain := Secret (replicate 32 9)\<rparr>)"
proof -
  let ?st = "demo_state Aes256Gcm 8 5" and ?c = "Secret (replicate 32 9)"
  have "ratchet_ok D ?st" "ratchet_ok D (?st\<lparr>rs_sending_chain := ?c\<rparr>)" by (simp, simp add: ratchet_ok_def demo_state_def)
  then have "RatchetState_encrypt D Message [1] ?st 0 = (Ok (demo_frame Message [1] ?st 0), demo_sent ?st, Suc 0)"
    "RatchetState_encrypt D Message [1] (?st\<lparr>rs_sending_chain := ?c\<rparr>) 0 =
      (Ok (demo_frame Message [1] (?st\<lparr>rs_sending_chain := ?c\<rparr>) 0), demo_sent (?st\<lparr>rs_sending_chain := ?c\<rparr>), Suc 0)"
    by (auto intro!: demo_encrypt simp: MAX_CIPHERTEXT_LEN_def AEAD_TAG_LEN_def simp del: replicate.simps)
  moreover have "chain_successor D (rs_sending_chain ?st) = chain_successor D ?c" by (simp add: chain_successor_def)
  ultimately show ?thesis by (intro past_keys_erased [where P = D, THEN conjunct1, THEN mp] conjI)
qed

text \<open>
  C25. A frame that does not authenticate changes nothing. \<open>decrypt\<close> tries at most one key on a frame
  (\<open>opening_keys\<close>): for the current ratchet key the kept key of its number, or the key of its number on
  the receiving chain; for any other ratchet key the key of its number on the chain of the Diffie-Hellman
  step with that key. A frame that opens under none of these, whatever session, suite, ratchet key and
  numbers it claims, is refused and leaves the whole state as it was. Only a draw may be used up, and none
  when the frame names the current ratchet key.
\<close>

theorem forged_frame_refused:
  assumes "hkdf_total P"
    and "\<And>key pt. key \<in> set (opening_keys P st f) \<Longrightarrow> InnerFrame_open P f key \<noteq> Ok pt"
  shows "\<exists>e r'. RatchetState_decrypt P f st r = (Inl e, st, r') \<and>
    (DhPublicKey (fh_ratchet_public (if_header f)) = rs_remote_dh st \<longrightarrow> r' = r)"
  by (rule unauthentic_frame_ignored [OF assms])

text \<open>A frame on the current chain and one that claims a new ratchet key; for each there is a key to try.\<close>

lemma forged_frame_refused_witness:
  "(\<exists>e. RatchetState_decrypt D (demo_forged 8) (demo_state Aes256Gcm 5 8) 0 = (Inl e, demo_state Aes256Gcm 5 8, 0)) \<and>
   (\<exists>e r'. RatchetState_decrypt D (demo_forged 3) (demo_state Aes256Gcm 5 8) 0 = (Inl e, demo_state Aes256Gcm 5 8, r')) \<and>
   length (opening_keys D (demo_state Aes256Gcm 5 8) (demo_forged 8)) = 1 \<and>
   length (opening_keys D (demo_state Aes256Gcm 5 8) (demo_forged 3)) = 1"
proof (intro conjI)
  have "DhPublicKey (fh_ratchet_public (if_header (demo_forged 8))) = rs_remote_dh (demo_state Aes256Gcm 5 8)"
    by (simp add: demo_forged_def demo_state_def)
  then show "\<exists>e. RatchetState_decrypt D (demo_forged 8) (demo_state Aes256Gcm 5 8) 0 = (Inl e, demo_state Aes256Gcm 5 8, 0)"
    using forged_frame_refused [OF demo_hkdf_total demo_forged_closed] by blast
  show "\<exists>e r'. RatchetState_decrypt D (demo_forged 3) (demo_state Aes256Gcm 5 8) 0 = (Inl e, demo_state Aes256Gcm 5 8, r')"
    using forged_frame_refused [OF demo_hkdf_total demo_forged_closed] by blast
qed (simp_all add: opening_keys_def demo_forged_def demo_state_def MAX_CIPHERTEXT_LEN_def del: replicate.simps)

text \<open>
  C26. A sealed snapshot's generation is not authenticated: whoever holds the bytes of an old snapshot,
  without any key, can rewrite its eight generation bytes, and it then restores above any rollback
  floor as the old state under the new generation. The floor check that \<open>restore_state\<close> documents
  protects against nothing but an unmodified old file.
\<close>

theorem rollback_floor_bypassed:
  assumes "aeads_ok P" "snapshot_ok P st" "seal_state P key ctx st r = (Ok blob, r')" "rs_generation st < minimum"
  shows "restore_state P key ctx minimum blob = Err StateRollbackDetected \<and>
    restore_state P key ctx minimum (take 4 blob @ to_be_bytes minimum @ drop 12 blob) = Ok (st\<lparr>rs_generation := minimum\<rparr>)"
  using restore_forged_generation [OF assms(1,2) order_refl assms(3)] restore_sealed [OF assms(1) _ assms(3)] assms(2,4)
  by (simp add: snapshot_ok_def)

lemma rollback_floor_bypassed_witness:
  "\<exists>blob. restore_state D (StateSealKey_from_bytes (replicate 32 1)) [] 5 blob = Err StateRollbackDetected \<and>
     restore_state D (StateSealKey_from_bytes (replicate 32 1)) [] 5 (take 4 blob @ to_be_bytes (5 :: u64) @ drop 12 blob) =
       Ok ((demo_state Aes256Gcm 8 5)\<lparr>rs_generation := 5\<rparr>)"
proof -
  have ctx: "context_ok []" "length (aead_key_bytes (seal_key (StateSealKey_from_bytes (replicate 32 1)))) = 32"
    by (simp_all add: context_ok_def MAX_AAD_LEN_def StateSealKey_from_bytes_def)
  obtain blob where blob: "seal_state D (StateSealKey_from_bytes (replicate 32 1)) [] (demo_state Aes256Gcm 8 5) 0 =
      (Ok blob, Suc 0)"
    using seal_state_total [OF demo_aeads_ok demo_sizes_ok demo_state_ok ctx demo_prims(1)] by blast
  have "snapshot_ok D (demo_state Aes256Gcm 8 5)" by (simp add: snapshot_ok_def)
  from rollback_floor_bypassed [OF demo_aeads_ok this blob, of 5] show ?thesis by auto
qed

text \<open>
  C27. Keys skipped on the previous chain are stored but can never be used: once a frame under a new
  ratchet key has been accepted, every frame of the peer's first chain that is still on its way is
  refused with \<open>RatchetStateMismatch\<close>, whether its key was kept or not.
\<close>

theorem late_frames_of_old_chain_refused:
  assumes "RatchetState_decrypt P f b r = (Ok pt, b', r')"
    and "DhPublicKey (fh_ratchet_public (if_header f)) \<noteq> rs_remote_dh b"
    and "DhPublicKey (fh_ratchet_public (if_header g)) = rs_remote_dh b" "fh_previous_chain_len (if_header g) = 0"
  shows "RatchetState_decrypt P g b' r2 = (Err RatchetStateMismatch, b', r2)"
  by (rule old_chain_refused [OF assms])

lemma late_frames_of_old_chain_refused_witness:
  "\<exists>b' r'. RatchetState_decrypt D (demo_frame Message [5] (demo_rotated Aes256Gcm) 1) (demo_state Aes256Gcm 5 8) 3 =
       (Ok [5], b', r') \<and>
     RatchetState_decrypt D (demo_frame Message [7] (demo_state Aes256Gcm 8 5) 0) b' 9 = (Err RatchetStateMismatch, b', 9)"
proof -
  have ok: "ratchet_ok D (demo_rotated Aes256Gcm)"
    using rotate_ratchet_ok [OF demo_sizes_ok demo_state_ok demo_rotate] .
  have enc: "RatchetState_encrypt D Message [5] (demo_rotated Aes256Gcm) 1 =
      (Ok (demo_frame Message [5] (demo_rotated Aes256Gcm) 1), demo_sent (demo_rotated Aes256Gcm), Suc 1)"
    using ok by (rule demo_encrypt) (simp_all add: demo_rotated_def MAX_CIPHERTEXT_LEN_def AEAD_TAG_LEN_def)
  obtain c where ahead: "ahead D c (demo_rotated Aes256Gcm) (demo_state Aes256Gcm 5 8)"
    using rotate_ahead [OF demo_sizes_ok demo_synced demo_rotate]
    by (auto simp: fresh_for_def demo_rotated_def simp del: replicate.simps)
  have "step_room (demo_state Aes256Gcm 5 8) (demo_frame Message [5] (demo_rotated Aes256Gcm) 1)"
    "fresh_draw D (demo_sent (demo_rotated Aes256Gcm)) 3"
    by (simp_all add: step_room_def demo_frame_def demo_rotated_def demo_sent_def fresh_draw_def fresh_for_def
        MAX_SKIPPED_KEYS_def del: replicate.simps)
  from turn_delivers [OF demo_sizes_ok demo_aeads_ok demo_x25519_ok demo_hkdf_total ahead enc this] obtain b' r' where
    run: "RatchetState_decrypt D (demo_frame Message [5] (demo_rotated Aes256Gcm) 1) (demo_state Aes256Gcm 5 8) 3 =
      (Ok [5], b', r')" by blast
  have "RatchetState_decrypt D (demo_frame Message [7] (demo_state Aes256Gcm 8 5) 0) b' 9 = (Err RatchetStateMismatch, b', 9)"
    by (rule late_frames_of_old_chain_refused [OF run])
      (simp_all add: demo_frame_def demo_rotated_def del: replicate.simps)
  with run show ?thesis by blast
qed

text \<open>
  C28. Rotating twice in a row ends the direction. Let the peer have received something on its chain, let
  the sender's remote key be the peer's current one, and let the key of the second rotation be other than
  the one the peer knows. The second rotation announces a previous
  chain of length zero, so from then on, after any interleaving of frames sent and received in both
  directions without another rotation (\<open>duplex\<close>), every frame sent so far is refused with
  \<open>RatchetStateMismatch\<close> and leaves the receiver as it is.
\<close>

theorem double_rotation_stalls:
  assumes "aeads_ok P" "sizes_ok P" "ratchet_ok P a" "ratchet_ok P b"
    and "rotate_sending_ratchet P a r = (Ok (), a1, r1)" "rotate_sending_ratchet P a1 r2 = (Ok (), a2, r3)"
    and "rs_receiving_count b > 0" "rs_remote_dh a = current_public_key b" "current_public_key a2 \<noteq> rs_remote_dh b"
    and "(duplex P)\<^sup>*\<^sup>* (a2, b, [], []) (x, y, sent, replies)"
  shows "\<forall>(f, pt) \<in> set sent. RatchetState_decrypt P f y r4 = (Err RatchetStateMismatch, y, r4)"
proof -
  have "ended P (x, y, sent, replies)"
    by (rule ended_run [OF assms(1,2,10) double_rotation_ends [OF assms(1-9)]])
  from ended_refuses [OF this] show ?thesis by auto
qed

lemma double_rotation_stalls_witness:
  "\<exists>a2 f a3 h a4. rotate_sending_ratchet D (demo_rotated Aes256Gcm) 1 = (Ok (), a2, 2) \<and>
     RatchetState_encrypt D Message [1] a2 2 = (Ok f, a3, 3) \<and> RatchetState_encrypt D Message [2] a3 3 = (Ok h, a4, 4) \<and>
     RatchetState_decrypt D h ((demo_state Aes256Gcm 5 8)\<lparr>rs_receiving_count := 1\<rparr>) 0 =
       (Err RatchetStateMismatch, (demo_state Aes256Gcm 5 8)\<lparr>rs_receiving_count := 1\<rparr>, 0)"
proof -
  have ok: "ratchet_ok D (demo_rotated Aes256Gcm)"
    using rotate_ratchet_ok [OF demo_sizes_ok demo_state_ok demo_rotate] .
  let ?a2 = "bump_generation ((demo_rotated Aes256Gcm)\<lparr>rs_dh_pair := demo_pair 2\<rparr>)"
  let ?b = "(demo_state Aes256Gcm 5 8)\<lparr>rs_receiving_count := 1\<rparr>"
  have "(demo_rotated Aes256Gcm)\<lparr>rs_root_key := demo_secret, rs_sending_chain := demo_secret, rs_dh_pair := demo_pair 2,
      rs_previous_sending_chain_len := 0, rs_sending_count := 0\<rparr> = (demo_rotated Aes256Gcm)\<lparr>rs_dh_pair := demo_pair 2\<rparr>"
    by (simp add: demo_rotated_def demo_state_def bump_generation_def)
  then have rot: "rotate_sending_ratchet D (demo_rotated Aes256Gcm) 1 = (Ok (), ?a2, 2)"
    by (simp add: rotate_sending_ratchet_def demo_rotated_def MAX_CIPHERTEXT_LEN_def del: replicate.simps)
  have ok2: "ratchet_ok D ?a2" using rotate_ratchet_ok [OF demo_sizes_ok ok rot] .
  have enc: "RatchetState_encrypt D Message [1] ?a2 2 = (Ok (demo_frame Message [1] ?a2 2), demo_sent ?a2, Suc 2)"
    using ok2 by (rule demo_encrypt) (simp_all add: demo_rotated_def MAX_CIPHERTEXT_LEN_def AEAD_TAG_LEN_def)
  have enc2: "RatchetState_encrypt D Message [2] (demo_sent ?a2) 3 =
      (Ok (demo_frame Message [2] (demo_sent ?a2) 3), demo_sent (demo_sent ?a2), Suc 3)"
    using encrypt_ratchet_ok [OF demo_sizes_ok ok2 enc] by (rule demo_encrypt)
      (simp_all add: demo_sent_def demo_rotated_def MAX_CIPHERTEXT_LEN_def AEAD_TAG_LEN_def)
  have b: "ratchet_ok D ?b" using demo_state_ok [of Aes256Gcm 5 8] by (simp add: ratchet_ok_def)
  have "(duplex D)\<^sup>*\<^sup>* (?a2, ?b, [], []) (demo_sent (demo_sent ?a2), ?b,
      [(demo_frame Message [2] (demo_sent ?a2) 3, [2]), (demo_frame Message [1] ?a2 2, [1])], [])"
    using duplex.send_left [OF enc] duplex.send_left [OF enc2] by (blast intro: rtranclp.intros)
  from double_rotation_stalls [OF demo_aeads_ok demo_sizes_ok demo_state_ok b demo_rotate rot _ _ _ this, of 0]
  have "RatchetState_decrypt D (demo_frame Message [2] (demo_sent ?a2) 3) ?b 0 = (Err RatchetStateMismatch, ?b, 0)"
    by (simp add: current_public_key_def demo_state_def del: replicate.simps)
  with rot enc enc2 show ?thesis by auto
qed

section \<open>Wire formats\<close>

lemma frame_encoding_canonical:
  "(InnerFrame_decode bs = Ok f \<longleftrightarrow> frame_ok f \<and> InnerFrame_encode f = Ok bs) \<and>
   (InnerFrame_decode_prefix bs = Ok (f, n) \<longleftrightarrow>
     frame_ok f \<and> InnerFrame_encode f = Ok (take n bs) \<and> n \<le> length bs \<and> length bs \<le> MAX_CIPHERTEXT_LEN + 107)"
proof
  show "InnerFrame_decode bs = Ok f \<longleftrightarrow> frame_ok f \<and> InnerFrame_encode f = Ok bs" by (rule inner.dec_iff)
  show "InnerFrame_decode_prefix bs = Ok (f, n) \<longleftrightarrow>
     frame_ok f \<and> InnerFrame_encode f = Ok (take n bs) \<and> n \<le> length bs \<and> length bs \<le> MAX_CIPHERTEXT_LEN + 107"
    by (rule decode_prefix_Ok)
qed

lemma envelope_encoding_canonical:
  "(OuterEnvelope_decode bs = Ok e \<longleftrightarrow> envelope_ok e \<and> OuterEnvelope_encode e = Ok bs) \<and>
   \<not> (ext \<noteq> [] \<and> OuterEnvelope_decode bs = Ok e \<and> OuterEnvelope_decode (bs @ ext) = Ok e')"
  using outer.dec_iff [of bs e] outer.no_extension [of bs e ext e'] by blast

lemma altered_wire_refused:
  assumes "InnerFrame_decode bs = Ok f" "OuterEnvelope_decode ws = Ok e" "n < length bs" "k < length ws" "ext \<noteq> []"
  shows "InnerFrame_decode (take n bs) = Err InvalidFrame \<and> InnerFrame_decode (bs @ ext) = Err InvalidFrame \<and>
    OuterEnvelope_decode (take k ws) = Err InvalidFrame \<and> OuterEnvelope_decode (ws @ ext) = Err InvalidFrame"
proof -
  have f: "frame_ok f" "bs = frame_bytes f" using assms(1) by (simp_all add: InnerFrame_decode_Ok)
  have e: "envelope_ok e" "ws = envelope_bytes e" using assms(2) by (simp_all add: outer_decode_Ok)
  show ?thesis
    using frame_truncated [OF f(1)] frame_extended [OF f(1)] envelope_truncated [OF e(1)] envelope_extended [OF e(1)]
      assms(3-5) by (simp add: f(2) e(2))
qed

text \<open>
  C29. Frames and envelopes have one encoding each and the decoders accept exactly these: a byte string
  decodes to a value if and only if the value is valid and the string is its encoding. \<open>decode_prefix\<close>
  accepts exactly an encoding followed by anything within the size bound, and reports its length.
  Wire strings cannot be cut or extended: every proper prefix and every extension of an accepted
  one is refused, always with \<open>InvalidFrame\<close>.
\<close>

theorem wire_encodings_canonical:
  "(InnerFrame_decode bs = Ok f \<longleftrightarrow> frame_ok f \<and> InnerFrame_encode f = Ok bs) \<and>
   (InnerFrame_decode_prefix bs = Ok (f, m) \<longleftrightarrow>
     frame_ok f \<and> InnerFrame_encode f = Ok (take m bs) \<and> m \<le> length bs \<and> length bs \<le> MAX_CIPHERTEXT_LEN + 107) \<and>
   (OuterEnvelope_decode ws = Ok e \<longleftrightarrow> envelope_ok e \<and> OuterEnvelope_encode e = Ok ws) \<and>
   (InnerFrame_decode bs = Ok f \<and> OuterEnvelope_decode ws = Ok e \<and> n < length bs \<and> k < length ws \<and> ext \<noteq> [] \<longrightarrow>
     InnerFrame_decode (take n bs) = Err InvalidFrame \<and> InnerFrame_decode (bs @ ext) = Err InvalidFrame \<and>
     OuterEnvelope_decode (take k ws) = Err InvalidFrame \<and> OuterEnvelope_decode (ws @ ext) = Err InvalidFrame)"
  using frame_encoding_canonical [of bs f m] envelope_encoding_canonical [of ws e] altered_wire_refused by blast

lemma wire_encodings_canonical_witness:
  "\<exists>bs ws. InnerFrame_decode (bs @ [0]) = Err InvalidFrame \<and> OuterEnvelope_decode (ws @ [0]) = Err InvalidFrame \<and>
     InnerFrame_decode (take 90 bs) = Err InvalidFrame \<and> OuterEnvelope_decode (take 100 ws) = Err InvalidFrame"
proof -
  let ?f = "demo_frame Message [1] (demo_state XChaCha20Poly1305 8 5) 0"
  have f: "frame_ok ?f" by (rule demo_frame_ok) (simp_all add: MAX_CIPHERTEXT_LEN_def AEAD_TAG_LEN_def)
  obtain e where e: "OuterEnvelope_seal D (kp_public (demo_pair 4)) (MailboxCapability (replicate 32 1)) 100 ?f 7 0 = (Ok e, 3)"
    by (rule demo_envelope [of ?f 7 100], rule f)
      (simp_all add: length_frame_bytes [OF f], simp add: demo_frame_def limits XCHACHA_NONCE_LEN_def)
  have "length (mailbox_bytes (MailboxCapability (replicate 32 1))) = 32" by simp
  from seal_envelope [OF f this demo_sizes_ok e] have ok: "envelope_ok e" by metis
  have "InnerFrame_decode (frame_bytes ?f) = Ok ?f" "OuterEnvelope_decode (envelope_bytes e) = Ok e"
    using f ok by (simp_all add: InnerFrame_decode_Ok outer_decode_Ok)
  moreover have "90 < length (frame_bytes ?f)" "100 < length (envelope_bytes e)" "[0 :: u8] \<noteq> []"
    using length_frame_bytes [OF f] length_envelope_bytes [OF ok] by (simp_all add: demo_frame_def XCHACHA_NONCE_LEN_def)
  ultimately show ?thesis using wire_encodings_canonical by blast
qed

text \<open>
  C30. Handshake data has one encoding each: initiator messages of 205 bytes, prekey bundles of 277, hybrid
  messages of 1301 and hybrid bundles of 1533. The decoders accept exactly the encodings of values
  whose identity binding verifies, for hybrid bundles only those whose ML-KEM key is bound by the
  identity's signature.
\<close>

theorem handshake_encodings_canonical:
  "(InitiatorHandshake_decode P bs = Ok msg \<longleftrightarrow>
      message_ok P msg \<and> InitiatorHandshake_encode msg = bs \<and> length bs = MESSAGE_LEN) \<and>
   (ResponderPrekeyBundle_decode P bs' = Ok b \<longleftrightarrow>
      bundle_ok P b \<and> ResponderPrekeyBundle_encode b = bs' \<and> length bs' = BUNDLE_LEN) \<and>
   (HybridInitiatorHandshake_decode P hs = Ok hmsg \<longleftrightarrow>
      hybrid_message_ok P hmsg \<and> HybridInitiatorHandshake_encode hmsg = hs \<and> length hs = 1301) \<and>
   (HybridResponderPrekeyBundle_decode P hs' = Ok hb \<longleftrightarrow>
      hybrid_bundle_ok P hb \<and> HybridResponderPrekeyBundle_encode hb = hs' \<and> length hs' = 1533)"
proof (intro conjI)
  show "InitiatorHandshake_decode P bs = Ok msg \<longleftrightarrow>
      message_ok P msg \<and> InitiatorHandshake_encode msg = bs \<and> length bs = MESSAGE_LEN"
    using message.dec_iff [of P bs msg] length_message_encode by (auto simp: wire_lens)
  show "ResponderPrekeyBundle_decode P bs' = Ok b \<longleftrightarrow>
      bundle_ok P b \<and> ResponderPrekeyBundle_encode b = bs' \<and> length bs' = BUNDLE_LEN"
    using prekey_bundle.dec_iff [of P bs' b] length_bundle_encode by (auto simp: wire_lens)
  show "HybridInitiatorHandshake_decode P hs = Ok hmsg \<longleftrightarrow>
      hybrid_message_ok P hmsg \<and> HybridInitiatorHandshake_encode hmsg = hs \<and> length hs = 1301"
    using hybrid_message.dec_iff [of P hs hmsg] hybrid_message.dec_width [of P hs hmsg] by auto
  show "HybridResponderPrekeyBundle_decode P hs' = Ok hb \<longleftrightarrow>
      hybrid_bundle_ok P hb \<and> HybridResponderPrekeyBundle_encode hb = hs' \<and> length hs' = 1533"
    using hybrid_bundle.dec_iff [of P hs' hb] hybrid_bundle.dec_width [of P hs' hb] by auto
qed

text \<open>
  C31. The plaintext of a snapshot has one encoding per state and version: \<open>decode_state\<close> at version 2 accepts exactly
  what \<open>encode_state\<close> writes for a well-formed state without duplicate skipped keys, and gives that
  state back with the generation of the snapshot header; at version 1, from before suites were stored, it
  accepts exactly the same bytes without the suite byte, for states under XChaCha20-Poly1305.
\<close>

theorem snapshot_encodings_canonical:
  "(decode_state P bs g STATE_VERSION = Ok st \<longleftrightarrow>
     snapshot_ok P st \<and> rs_generation st = g \<and> encode_state st = Ok bs) \<and>
   (decode_state P bs g LEGACY_VERSION = Ok st \<longleftrightarrow>
     snapshot_ok P st \<and> rs_suite st = XChaCha20Poly1305 \<and> rs_generation st = g \<and>
     (\<exists>full. encode_state st = Ok full \<and> bs = take 204 full @ drop 205 full))"
  using snapshot.dec_iff [of P bs g st] decode_legacy_exact [of P bs g st] by blast

section \<open>What is authenticated\<close>

text \<open>
  C32. The associated data of a frame determines the suite, every header field and the body length, and a
  frame opens under a key exactly when its ciphertext is the sealing, under that key, of the result
  for exactly that header.
\<close>

theorem frame_header_authenticated:
  assumes "aeads_ok P" "frame_ok f" "frame_ok g"
  shows "(InnerFrame_open P f key = Ok pt \<longleftrightarrow>
      (\<exists>aad. InnerFrame_aad f = Ok aad \<and>
        seal_with_nonce P key (ct_suite (if_ciphertext f)) (ct_nonce (if_ciphertext f)) aad pt = Ok (if_ciphertext f))) \<and>
    (InnerFrame_aad f = InnerFrame_aad g \<longleftrightarrow>
      if_header f = if_header g \<and> ct_suite (if_ciphertext f) = ct_suite (if_ciphertext g) \<and>
      length (ct_body (if_ciphertext f)) = length (ct_body (if_ciphertext g)))"
  using frame_open_exact [OF assms(1,2)] frame_aad_eq [OF assms(2,3)] by blast

lemma frame_header_authenticated_witness:
  "InnerFrame_aad (demo_frame Message [1] (demo_state Aes256Gcm 8 5) 0) \<noteq>
     InnerFrame_aad (demo_frame Control [1] (demo_state Aes256Gcm 8 5) 0)"
proof -
  have "frame_ok (demo_frame k [1] (demo_state Aes256Gcm 8 5) 0)" for k
    by (rule demo_frame_ok) (simp_all add: MAX_CIPHERTEXT_LEN_def AEAD_TAG_LEN_def)
  from frame_header_authenticated [OF demo_aeads_ok this [of Message] this [of Control]]
  show ?thesis by (simp add: demo_frame_def FrameHeader_new_def)
qed

text \<open>
  C33. The session identifier fixes the transcript: it is the BLAKE3 hash of a transcript that determines
  the initiator message (identity, ephemeral, ratchet key and prekey ids) and the responder identity.
  So two handshakes that share an identifier and differ in any of these are a collision of BLAKE3 on
  their two transcripts.
\<close>

theorem session_id_fixes_transcript:
  assumes "message_ok P msg" "message_ok P msg'" "identity_ok P i" "identity_ok P i'"
    and "derive_handshake_values P msg i d1 d2 d3 d4 = Ok (session, root)"
    and "derive_handshake_values P msg' i' e1 e2 e3 e4 = Ok (session', root')"
  shows "session = blake3 P (session_transcript msg i) \<and> session' = blake3 P (session_transcript msg' i') \<and>
    (session_transcript msg i = session_transcript msg' i' \<longleftrightarrow> msg = msg' \<and> i = i')"
  using session_id_hash [OF assms(5)] session_id_hash [OF assms(6)] session_transcript_inj [OF assms(1-4)] by simp

lemma session_id_fixes_transcript_witness:
  "replicate 32 8 = blake3 D (session_transcript demo_message (LocalIdentity_public D demo_rid))"
proof -
  have id: "identity_ok D (LocalIdentity_public D demo_rid)"
    using local_identity_public_ok [OF demo_sizes_ok demo_ed25519_ok] demo_ok(2)
    by (simp add: material_ok_def demo_material_def demo_material0_def)
  have "length (identity_public_wire (LocalIdentity_public D demo_rid)) = 128"
    using identity_ok_lengths [OF id] by (simp add: identity_public_wire_def)
  then have "derive_handshake_values D demo_message (LocalIdentity_public D demo_rid) (replicate 32 1) (replicate 32 1)
      (replicate 32 1) None = Ok (replicate 32 8, Secret (replicate 32 7))"
    by (intro demo_session demo_message_ok) simp_all
  from session_id_fixes_transcript [OF demo_message_ok demo_message_ok id id this this] show ?thesis by blast
qed

text \<open>
  C34. Nothing made for one purpose passes for another. A byte string decodes as at most one of the seven wire
  formats. What an identity key signs (prekeys, DH identities, hybrid bundles) determines what was
  signed, two hybrid bundles with one BLAKE3 hash excepted. The labels of HKDF give nine different
  \<open>info\<close> strings; identifiers hash the same transcript only for the same label and parts; and
  the associated data of frames, envelopes and snapshots never coincide.
\<close>

theorem contexts_separated:
  shows "(decodes_as P k bs \<and> decodes_as P k' bs \<longrightarrow> k = k') \<and>
    (sizes_ok P \<and> content_ok P c \<and> content_ok P c' \<and> signed_bytes P c = Ok msg \<and> signed_bytes P c' = Ok msg \<longrightarrow>
      c = c' \<or> (\<exists>b pk b' pk'. c = SignsHybridBundle b pk \<and> c' = SignsHybridBundle b' pk' \<and>
        hybrid_transcript b pk \<noteq> hybrid_transcript b' pk' \<and>
        blake3 P (hybrid_transcript b pk) = blake3 P (hybrid_transcript b' pk'))) \<and>
    distinct (map (domain_label (ascii ''kdf'')) kdf_labels) \<and>
    (l \<in> set identifier_labels \<and> l' \<in> set identifier_labels \<and> blake3_id P l ps = Ok h \<and> blake3_id P l' qs = Ok h' \<longrightarrow>
      (blake3_transcript l ps = blake3_transcript l' qs \<longleftrightarrow> l = l' \<and> ps = qs)) \<and>
    (frame_ok f \<and> envelope_ok e \<and> InnerFrame_aad f = Ok x \<and> OuterEnvelope_aad e = Ok y \<and> state_aad ctx v = Ok z \<and>
      (v = LEGACY_VERSION \<or> v = STATE_VERSION) \<longrightarrow> x \<noteq> y \<and> x \<noteq> z \<and> y \<noteq> z)"
  by (intro conjI)
    ((rule impI, elim conjE, rule formats_disjoint, assumption+),
      (rule impI, elim conjE, rule signed_bytes_separated, assumption+), rule kdf_domains_distinct,
      (rule impI, elim conjE, rule identifiers_separated, assumption+),
      (rule impI, elim conjE, rule aads_separated, assumption+))

lemma contexts_separated_witness:
  "prekey_transcript 1 (DhPublicKey (replicate 32 7)) 5 \<noteq> identity_binding_transcript (DhPublicKey (replicate 32 7)) \<and>
   \<not> is_ok (OuterEnvelope_decode (frame_bytes (demo_frame Message [1] (demo_state XChaCha20Poly1305 8 5) 0)))"
proof
  let ?pk = "DhPublicKey (replicate 32 7)"
  have "content_ok D (SignsPrekey 1 ?pk 5)" "content_ok D (SignsIdentityDh ?pk)" by simp_all
  with contexts_separated [where P = D and c = "SignsPrekey 1 ?pk 5" and c' = "SignsIdentityDh ?pk" and
      msg = "identity_binding_transcript ?pk", THEN conjunct2, THEN conjunct1] demo_sizes_ok
  show "prekey_transcript 1 ?pk 5 \<noteq> identity_binding_transcript ?pk"
    by (auto simp del: content_ok.simps replicate.simps)
  let ?f = "demo_frame Message [1] (demo_state XChaCha20Poly1305 8 5) 0"
  have f: "frame_ok ?f" by (rule demo_frame_ok) (simp_all add: MAX_CIPHERTEXT_LEN_def AEAD_TAG_LEN_def)
  then have "decodes_as D FrameWire (frame_bytes ?f)" by (auto simp: is_ok_iff InnerFrame_decode_Ok)
  with contexts_separated [where P = D and k = FrameWire and bs = "frame_bytes ?f" and k' = EnvelopeWire, THEN conjunct1] show "\<not> is_ok (OuterEnvelope_decode (frame_bytes ?f))"
    by auto
qed

lemma envelope_opens_until_expiry:
  assumes "sizes_ok P" "aeads_ok P" "x25519_ok P" "frame_ok f" "length (mailbox_bytes m) = 32" "key_pair_ok P kp"
    and "OuterEnvelope_seal P (kp_public kp) m expires f pad r = (Ok e, r')"
  shows "OuterEnvelope_open_inner P e (kp_secret kp) now = (if now \<le> expires then Ok f else Err EnvelopeExpired)"
  by (rule open_sealed_envelope [OF assms])

lemma envelope_open_sound:
  assumes "aeads_ok P" "envelope_ok e" "OuterEnvelope_open_inner P e secret now = Ok f"
  shows "\<exists>shared key aad wire pad. now \<le> oe_expires_at_unix e \<and> frame_ok f \<and>
    DhSecretKey_diffie_hellman P secret (oe_sender_ephemeral e) = Ok shared \<and>
    derive_aead_key P (mailbox_bytes (oe_mailbox e)) (ascii ''outer-envelope-v1'') shared = Ok key \<and>
    OuterEnvelope_aad e = Ok aad \<and> InnerFrame_encode f = Ok wire \<and>
    seal_with_nonce P key OUTER_SUITE (ct_nonce (oe_ciphertext e)) aad (wire @ replicate pad 0) = Ok (oe_ciphertext e)"
  using open_inner_sound [OF assms] OuterEnvelope_aad_Ok [OF assms(2)] InnerFrame_encode_Ok
  unfolding envelope_key_def by (metis (no_types, lifting))

text \<open>
  C35. An envelope opens to a frame exactly when the envelope has not expired (its expiry second included) and
  its ciphertext is the sealing, under the key derived from the exchange and the mailbox, of exactly
  that frame with zero padding, for exactly the envelope's mailbox, identifier, expiry and sender key;
  after its expiry second it is refused with \<open>EnvelopeExpired\<close>.
\<close>

theorem envelope_open_exact:
  assumes "aeads_ok P" "envelope_ok e"
  shows "(OuterEnvelope_open_inner P e secret now = Ok f \<longleftrightarrow>
      now \<le> oe_expires_at_unix e \<and> frame_ok f \<and>
      (\<exists>shared key aad wire pad. DhSecretKey_diffie_hellman P secret (oe_sender_ephemeral e) = Ok shared \<and>
        derive_aead_key P (mailbox_bytes (oe_mailbox e)) (ascii ''outer-envelope-v1'') shared = Ok key \<and>
        OuterEnvelope_aad e = Ok aad \<and> InnerFrame_encode f = Ok wire \<and>
        seal_with_nonce P key OUTER_SUITE (ct_nonce (oe_ciphertext e)) aad (wire @ replicate pad 0) = Ok (oe_ciphertext e))) \<and>
    (oe_expires_at_unix e < now \<longrightarrow> OuterEnvelope_open_inner P e secret now = Err EnvelopeExpired)"
    (is "(?opens \<longleftrightarrow> ?sealed) \<and> ?expired")
proof (rule conjI, rule iffI)
  show "?opens \<Longrightarrow> ?sealed" using envelope_open_sound [OF assms] by blast
  assume ?sealed
  with OuterEnvelope_aad_Ok [OF assms(2)] InnerFrame_encode_Ok [of f] open_inner_complete [OF assms] show ?opens
    by (auto simp: envelope_key_def)
next
  show ?expired by (simp add: OuterEnvelope_open_inner_def OuterEnvelope_open_def)
qed

lemma envelope_open_exact_witness:
  "\<exists>e f. OuterEnvelope_open_inner D e (DhSecretKey (replicate 32 4)) 100 = Ok f \<and>
     OuterEnvelope_open_inner D e (DhSecretKey (replicate 32 4)) 101 = Err EnvelopeExpired"
proof -
  let ?f = "demo_frame Message [1] (demo_state XChaCha20Poly1305 8 5) 0"
  have f: "frame_ok ?f" by (rule demo_frame_ok) (simp_all add: MAX_CIPHERTEXT_LEN_def AEAD_TAG_LEN_def)
  obtain e where e: "OuterEnvelope_seal D (kp_public (demo_pair 4)) (MailboxCapability (replicate 32 1)) 100 ?f 7 0 = (Ok e, 3)"
    by (rule demo_envelope [of ?f 7 100], rule f)
      (simp_all add: length_frame_bytes [OF f], simp add: demo_frame_def limits XCHACHA_NONCE_LEN_def)
  have m: "length (mailbox_bytes (MailboxCapability (replicate 32 1))) = 32" by simp
  have ok: "envelope_ok e" "oe_expires_at_unix e = 100" by (rule seal_envelope [OF f m demo_sizes_ok e], simp)+
  have "OuterEnvelope_open_inner D e (kp_secret (demo_pair 4)) 100 = Ok ?f"
    using envelope_opens_until_expiry [OF demo_sizes_ok demo_aeads_ok demo_x25519_ok f m demo_pair_simps(4) e, of 100]
    by simp
  with envelope_open_exact [OF demo_aeads_ok ok(1), of "kp_secret (demo_pair 4)" 101 ?f] ok(2) show ?thesis
    by (intro exI [of _ e] exI [of _ ?f]) (simp del: replicate.simps)
qed

text \<open>
  C36. What restores was sealed for this place: if \<open>restore_state\<close> returns a state, the bytes hold a
  ciphertext that is the sealing, under this key and bound to this context and version, of a
  plaintext that decodes to the state, and the generation they claim reaches the floor.
\<close>

theorem snapshot_restore_sound:
  assumes "aeads_ok P" "restore_state P key ctx minimum blob = Ok st"
  shows "minimum \<le> rs_generation st \<and>
    (\<exists>version header nonce body aad pt. (version = LEGACY_VERSION \<or> version = STATE_VERSION) \<and>
       blob = header @ nonce @ body \<and> state_aad ctx version = Ok aad \<and>
       seal_with_nonce P (seal_key key) XChaCha20Poly1305 nonce aad pt =
         Ok \<lparr>ct_suite = XChaCha20Poly1305, ct_nonce = nonce, ct_body = body\<rparr> \<and>
       decode_state P pt (rs_generation st) version = Ok st)"
proof -
  obtain v g c pt where v: "v = 1 \<or> v = 2" and c: "snapshot_ciphertext c" "blob = snapshot_bytes v g c"
    and g: "minimum \<le> g" and ctx: "context_ok ctx"
    and seal: "seal_with_nonce P (seal_key key) XChaCha20Poly1305 (ct_nonce c) (state_label v @ ctx) pt = Ok c"
    and dec: "decode_state P pt g v = Ok st"
    by (rule restore_state_sound [OF assms])
  have version: "v = LEGACY_VERSION \<or> v = STATE_VERSION" using v by (simp add: fixed_lens)
  have gen: "rs_generation st = g" by (rule decode_state_generation [OF version dec])
  have "c = \<lparr>ct_suite = XChaCha20Poly1305, ct_nonce = ct_nonce c, ct_body = ct_body c\<rparr>"
    using c(1) by (simp add: snapshot_ciphertext_def)
  moreover obtain header where "blob = header @ ct_nonce c @ ct_body c"
    using c(2) unfolding snapshot_bytes_def by (metis append_assoc)
  moreover have "state_aad ctx v = Ok (state_label v @ ctx)" using ctx by (simp add: state_aad_eq)
  ultimately show ?thesis using version g gen seal dec by metis
qed

lemma snapshot_restore_sound_witness:
  "\<exists>pt. decode_state D pt 0 STATE_VERSION = Ok (demo_state Aes256Gcm 8 5) \<or>
     decode_state D pt 0 LEGACY_VERSION = Ok (demo_state Aes256Gcm 8 5)"
proof -
  have ctx: "context_ok []" "length (aead_key_bytes (seal_key (StateSealKey_from_bytes (replicate 32 1)))) = 32"
    by (simp_all add: context_ok_def MAX_AAD_LEN_def StateSealKey_from_bytes_def)
  obtain blob where blob: "seal_state D (StateSealKey_from_bytes (replicate 32 1)) [] (demo_state Aes256Gcm 8 5) 0 =
      (Ok blob, Suc 0)"
    using seal_state_total [OF demo_aeads_ok demo_sizes_ok demo_state_ok ctx demo_prims(1)] by blast
  have "restore_state D (StateSealKey_from_bytes (replicate 32 1)) [] 0 blob = Ok (demo_state Aes256Gcm 8 5)"
    using restore_sealed [OF demo_aeads_ok demo_state_ok blob, of 0] by simp
  from snapshot_restore_sound [OF demo_aeads_ok this] show ?thesis by auto
qed

text \<open>
  C37. Skipping ahead is bounded and gives the right keys: \<open>derive_range\<close> refuses to go back, refuses to
  hold more than 1024 keys together with those held already, before deriving any, and otherwise returns the
  chain key of the target and one key per number passed over, each the key of its number.
\<close>

theorem derive_range_bounded:
  assumes "hkdf_total P" "existing \<le> MAX_SKIPPED_KEYS"
  shows "derive_range P (chain_at P c (unat s)) s e existing =
    (if e < s then Err RatchetStateMismatch
     else if existing + (unat e - unat s) > MAX_SKIPPED_KEYS then Err SkippedKeyLimitExceeded
     else Ok (chain_at P c (unat e), map (\<lambda>n. (word_of_nat n, key_at P c n)) [unat s ..< unat e]))"
  using derive_range_total [OF assms, of c s e] by (simp add: numbered_keys_def)

lemma derive_range_bounded_witness:
  "derive_range D demo_secret 0 2 1022 = Ok (chain_at D demo_secret 2, [(0, key_at D demo_secret 0), (1, key_at D demo_secret 1)]) \<and>
   derive_range D demo_secret 0 3 1022 = Err SkippedKeyLimitExceeded"
  using derive_range_bounded [OF demo_hkdf_total, of 1022 demo_secret 0 2]
    derive_range_bounded [OF demo_hkdf_total, of 1022 demo_secret 0 3]
  by (simp add: MAX_SKIPPED_KEYS_def upt_rec)

text \<open>
  C38. The decoder of snapshots ends on all bytes. As a while loop over a 64-bit counter that the bytes
  bound (\<open>decode_state_run\<close>, the result with the number of iterations), it returns without a panic after at
  most 1024 iterations, each of which 68 bytes of the input pay for. It accepts exactly the encodings of
  well-formed states without duplicate kept keys, at version 1 without the suite byte and under
  XChaCha20-Poly1305, reads one entry per kept key, and does with any bytes what the recursive
  \<open>decode_state\<close> does.
\<close>

theorem snapshot_decoding_ends:
  "\<exists>res k. decode_state_run P bs g v = Some (res, k) \<and> res = decode_state P bs g v \<and> res \<noteq> Panics \<and>
    k \<le> MAX_SKIPPED_KEYS \<and> 68 * k \<le> length bs \<and>
    (\<forall>st. res = Ok st \<longleftrightarrow> k = length (rs_skipped st) \<and> snapshot_ok P st \<and> rs_generation st = g \<and>
      (\<exists>full. encode_state st = Ok full \<and>
        (v = STATE_VERSION \<and> bs = full \<or>
         v = LEGACY_VERSION \<and> rs_suite st = XChaCha20Poly1305 \<and> bs = take 204 full @ drop 205 full)))"
proof -
  obtain res k where run: "decode_state_run P bs g v = Some (res, k)" "res = decode_state P bs g v"
    "k \<le> MAX_SKIPPED_KEYS" "68 * k \<le> length bs" "\<forall>st. res = Ok st \<longrightarrow> k = length (rs_skipped st)"
    using decode_state_ends by blast
  with decode_state_accepts [of P bs g v] decode_state_no_panic [of P bs g v] show ?thesis by blast
qed

text \<open>
  C39. Hybrid acceptance cannot tell a wrong ML-KEM ciphertext: whenever the classical half of a message is
  accepted, the hybrid handshake returns a result and consumes the one-time prekey, whatever
  ciphertext the message carries; a mismatch shows only when the first frame fails to open.
\<close>

theorem hybrid_accepts_any_ciphertext:
  assumes "sizes_ok P" "hkdf_total P" "mlkem_sizes_ok P"
    and "handshake_accept P (hm_classical m) msg = (Ok h, classical)"
  shows "\<exists>h'. hybrid_accept P m \<lparr>hi_classical = msg, hi_pq_ciphertext = c\<rparr> = (Ok h', m\<lparr>hm_classical := classical\<rparr>)"
  using hybrid_accept_any [OF assms(1-3), of m "\<lparr>hi_classical = msg, hi_pq_ciphertext = c\<rparr>"] assms(4) by simp

lemma hybrid_accepts_any_ciphertext_witness:
  "\<exists>h'. hybrid_accept D demo_hybrid \<lparr>hi_classical = demo_message, hi_pq_ciphertext = MlKem768Ciphertext (replicate 1088 1)\<rparr> =
     (Ok h', demo_hybrid\<lparr>hm_classical := demo_material0\<rparr>)"
proof -
  have "mlkem_sizes_ok D" using demo_mlkem_ok by (simp add: mlkem_ok_def)
  moreover have "handshake_accept D (hm_classical demo_hybrid) demo_message = (Ok (demo_handshake Responder 5 8), demo_material0)"
    using demo_accept by (simp add: demo_hybrid_def)
  ultimately show ?thesis by (rule hybrid_accepts_any_ciphertext [OF demo_sizes_ok demo_hkdf_total])
qed

section \<open>Replay cache\<close>

text \<open>
  C40. After any calls the replay cache holds at most its capacity of entries with distinct identifiers,
  and the next call reports \<open>ReplayDetected\<close> exactly for an identifier with an unexpired entry,
  \<open>InvalidState\<close> exactly when the unexpired entries fill the capacity, and otherwise accepts.
\<close>

theorem replay_cache_exact:
  assumes "ReplayCache_new capacity = Ok c" "fold cache_step calls c = c'"
  shows "ReplayCache_len c' \<le> capacity \<and> distinct (map fst (rc_entries c')) \<and>
    fst (check_and_insert i expires now c') =
      (if \<exists>e. (i, e) \<in> set (rc_entries c') \<and> now \<le> e then Err ReplayDetected
       else if length (filter (\<lambda>(_, e). now \<le> e) (rc_entries c')) \<ge> capacity then Err InvalidState else Ok ())"
proof -
  have "cache_ok c'" using cache.inv_run [OF ReplayCache_new_ok [OF assms(1)], of calls] assms(2) by simp
  moreover have "rc_capacity c' = capacity"
    using cache_capacity_run [of calls c] assms by (auto simp: ReplayCache_new_def split: if_splits)
  ultimately show ?thesis
    by (simp add: cache_ok_def ReplayCache_len_def check_and_insert_result live_ids_def live_count_def)
qed

lemma replay_cache_exact_witness:
  "fst (check_and_insert (TransportMessageId [1]) 30 20
     (fold cache_step [(TransportMessageId [1], 20, 5), (TransportMessageId [2], 9, 5)] \<lparr>rc_capacity = 2, rc_entries = []\<rparr>)) =
   Err ReplayDetected"
proof -
  have "ReplayCache_new 2 = Ok \<lparr>rc_capacity = 2, rc_entries = []\<rparr>" by (simp add: ReplayCache_new_def)
  from replay_cache_exact [OF this refl] show ?thesis by (simp add: check_and_insert_def)
qed

end
